(* ===== verification/Py_Prelude.thy ===== *)
theory Py_Prelude
  imports Main "HOL-Library.Word"
begin

text \<open>
  The values and errors shared by every component.

  The modelled scripts (\<^verbatim>\<open>scripts/*.py\<close>) pass untyped JSON values around and check them at
  run time, so a Python value is a datatype, a dict is the association list of its items in
  insertion order, and a raised exception is the left side of a sum.  A Python string is the
  list of its code points (\<open>len\<close> counts code points, not bytes); \<open>lit\<close> embeds a literal of the
  source.  The text of a message of an exception raised by the scripts is kept; exceptions of the
  standard library carry a short description, and nothing in the code depends on it.
\<close>

section \<open>Exceptions and results\<close>

datatype exn =
    ValueError string
  | UnicodeError
  | KeyError
  | TypeError
  | AttributeError
  | IndexError
  | RuntimeError string
  | EOFError string
  | OSError string
  | FileNotFoundError
  | FileExistsError
  | NotADirectoryError
  | BlockingIOError
  | InterruptedError
  | ChildProcessError
  | ProcessLookupError
  | PyTimeoutError string
  | TimeoutExpired
  | HTTPError nat
  | DBusException
  | Cancelled string
  | KeyboardInterrupt
  | SystemExit nat

text \<open>The subclass relations that an \<open>except\<close> clause of the code relies on.\<close>

fun is_ValueError :: "exn \<Rightarrow> bool" where
  "is_ValueError (ValueError m) = True"
| "is_ValueError UnicodeError = True"
| "is_ValueError e = False"

fun is_OSError :: "exn \<Rightarrow> bool" where
  "is_OSError (OSError m) = True"
| "is_OSError FileNotFoundError = True"
| "is_OSError FileExistsError = True"
| "is_OSError NotADirectoryError = True"
| "is_OSError BlockingIOError = True"
| "is_OSError InterruptedError = True"
| "is_OSError ChildProcessError = True"
| "is_OSError ProcessLookupError = True"
| "is_OSError (PyTimeoutError m) = True"
| "is_OSError (HTTPError n) = True"
| "is_OSError e = False"

definition rbind :: "('e + 'a) \<Rightarrow> ('a \<Rightarrow> 'e + 'b) \<Rightarrow> 'e + 'b" where
  "rbind m f = (case m of Inl e \<Rightarrow> Inl e | Inr x \<Rightarrow> f x)"

lemma rbind_simps [simp]:
  "rbind (Inl e) f = Inl e"
  "rbind (Inr x) f = f x"
  by (simp_all add: rbind_def)

lemma rbind_Inr_iff [simp]:
  "rbind m f = Inr y \<longleftrightarrow> (\<exists>x. m = Inr x \<and> f x = Inr y)"
  by (cases m) auto

lemma rbind_Inl_iff:
  "rbind m f = Inl e \<longleftrightarrow> m = Inl e \<or> (\<exists>x. m = Inr x \<and> f x = Inl e)"
  by (cases m) auto

lemma rbind_assoc: "rbind (rbind m f) g = rbind m (\<lambda>x. rbind (f x) g)"
  by (cases m) auto

lemma if_Inl_eq_Inr [simp]:
  "(if b then Inl e else r) = Inr y \<longleftrightarrow> \<not> b \<and> r = Inr y"
  "(if b then r else Inl e) = Inr y \<longleftrightarrow> b \<and> r = Inr y"
  by auto

text \<open>A \<open>for\<close> loop whose body may raise, threading the variables it assigns.\<close>

fun for_each :: "('a \<Rightarrow> 's \<Rightarrow> 'e + 's) \<Rightarrow> 'a list \<Rightarrow> 's \<Rightarrow> 'e + 's" where
  "for_each f [] s = Inr s"
| "for_each f (x # xs) s = rbind (f x s) (\<lambda>s'. for_each f xs s')"

lemma for_each_append:
  "for_each f (xs @ ys) s = rbind (for_each f xs s) (for_each f ys)"
proof (induction xs arbitrary: s)
  case (Cons x xs)
  then show ?case by (cases "f x s") simp_all
qed simp

lemma for_each_invariant:
  assumes "for_each f xs s = Inr t" and "P s"
    and "\<And>x s s'. x \<in> set xs \<Longrightarrow> P s \<Longrightarrow> f x s = Inr s' \<Longrightarrow> P s'"
  shows "P t"
  using assms by (induction xs arbitrary: s) auto

section \<open>Strings\<close>

type_synonym pystr = "nat list"
type_synonym bytes = "8 word list"

definition lit :: "string \<Rightarrow> pystr" where
  "lit s = map of_char s"

lemma lit_simps:
  "lit [] = []"
  "lit (c # s) = of_char c # lit s"
  by (simp_all add: lit_def)

lemma lit_Nil_iff [simp]: "lit s = [] \<longleftrightarrow> s = []"
  by (simp add: lit_def)

lemma lit_eq_iff [simp]: "lit s = lit t \<longleftrightarrow> s = t"
proof -
  have "inj (of_char :: char \<Rightarrow> nat)" by (simp add: inj_on_def)
  then show ?thesis by (simp add: lit_def inj_map_eq_map)
qed

lemma length_lit [simp]: "length (lit s) = length s"
  by (simp add: lit_def)

lemma lit_append: "lit (s @ t) = lit s @ lit t"
  by (simp add: lit_def)

lemma lit_bound: "c \<in> set (lit s) \<Longrightarrow> c < 256"
  by (auto simp: lit_def)

section \<open>Values\<close>

text \<open>
  A float only ever reaches the modelled code as a JSON number with a fraction or an exponent; it
  is kept as that literal.  Every numeric field of the protocol must be an \<open>int\<close>, so floats are
  always refused.
\<close>

datatype pyval =
    PNone
  | PBool bool
  | PInt int
  | PFloat pystr
  | PStr pystr
  | PList "pyval list"
  | PDict "(pystr \<times> pyval) list"

type_synonym pydict = "(pystr \<times> pyval) list"

fun is_str :: "pyval \<Rightarrow> bool" where
  "is_str (PStr s) = True"
| "is_str v = False"

fun is_int :: "pyval \<Rightarrow> bool" where
  "is_int (PInt i) = True"
| "is_int v = False"

fun is_bool :: "pyval \<Rightarrow> bool" where
  "is_bool (PBool b) = True"
| "is_bool v = False"

fun is_dict :: "pyval \<Rightarrow> bool" where
  "is_dict (PDict d) = True"
| "is_dict v = False"

fun is_list :: "pyval \<Rightarrow> bool" where
  "is_list (PList d) = True"
| "is_list v = False"

fun str_of :: "pyval \<Rightarrow> pystr" where
  "str_of (PStr s) = s"
| "str_of v = []"

fun int_of :: "pyval \<Rightarrow> int" where
  "int_of (PInt i) = i"
| "int_of v = 0"

fun bool_of :: "pyval \<Rightarrow> bool" where
  "bool_of (PBool b) = b"
| "bool_of v = False"

fun items :: "pyval \<Rightarrow> pydict" where
  "items (PDict d) = d"
| "items v = []"

fun elements :: "pyval \<Rightarrow> pyval list" where
  "elements (PList xs) = xs"
| "elements v = []"

lemma is_str_iff: "is_str v \<longleftrightarrow> (\<exists>s. v = PStr s)" by (cases v) auto
lemma is_int_iff: "is_int v \<longleftrightarrow> (\<exists>i. v = PInt i)" by (cases v) auto
lemma is_bool_iff: "is_bool v \<longleftrightarrow> (\<exists>b. v = PBool b)" by (cases v) auto
lemma is_dict_iff: "is_dict v \<longleftrightarrow> (\<exists>d. v = PDict d)" by (cases v) auto
lemma is_list_iff: "is_list v \<longleftrightarrow> (\<exists>d. v = PList d)" by (cases v) auto

lemmas is_type_iff = is_str_iff is_int_iff is_bool_iff is_dict_iff is_list_iff

text \<open>
  \<open>v[key]\<close>: \<open>item\<close> keeps the exceptions; \<open>field\<close> is the same lookup where the code has already
  established that \<open>v\<close> is a dict with that key (\<open>closed\<close> below), so that neither can be raised.
\<close>

fun item :: "pyval \<Rightarrow> string \<Rightarrow> exn + pyval" where
  "item (PDict d) k = (case map_of d (lit k) of None \<Rightarrow> Inl KeyError | Some v \<Rightarrow> Inr v)"
| "item v k = Inl TypeError"

definition field :: "pyval \<Rightarrow> string \<Rightarrow> pyval" where
  "field v k = (case map_of (items v) (lit k) of None \<Rightarrow> PNone | Some x \<Rightarrow> x)"

definition has_key :: "pyval \<Rightarrow> string \<Rightarrow> bool" where
  "has_key v k = (map_of (items v) (lit k) \<noteq> None)"

lemma item_field: "has_key v k \<Longrightarrow> item v k = Inr (field v k)"
  by (cases v) (auto simp: has_key_def field_def)

lemma field_PDict [simp]:
  "field (PDict ((k, v) # d)) k' = (if lit k' = k then v else field (PDict d) k')"
  "field (PDict []) k' = PNone"
  by (auto simp: field_def)

lemma has_key_PDict [simp]:
  "has_key (PDict ((k, v) # d)) k' \<longleftrightarrow> lit k' = k \<or> has_key (PDict d) k'"
  "has_key (PDict []) k' = False"
  by (auto simp: has_key_def)

text \<open>\<open>set(value) == set(keys)\<close> for a dict.\<close>

definition key_set_is :: "pyval \<Rightarrow> string list \<Rightarrow> bool" where
  "key_set_is v ks \<longleftrightarrow>
     list_all (\<lambda>(k, _). list_ex (\<lambda>k'. k = lit k') ks) (items v) \<and> list_all (has_key v) ks"

lemma key_set_is_iff:
  "key_set_is v ks \<longleftrightarrow> fst ` set (items v) = lit ` set ks"
proof
  assume *: "key_set_is v ks"
  show "fst ` set (items v) = lit ` set ks"
  proof
    show "fst ` set (items v) \<subseteq> lit ` set ks"
      using * by (auto simp: key_set_is_def list_all_iff list_ex_iff)
    show "lit ` set ks \<subseteq> fst ` set (items v)"
      using * by (auto simp: key_set_is_def list_all_iff has_key_def map_of_eq_None_iff)
  qed
next
  assume *: "fst ` set (items v) = lit ` set ks"
  then have "lit k \<in> fst ` set (items v)" if "k \<in> set ks" for k using that by blast
  moreover have "k \<in> lit ` set ks" if "(k, x) \<in> set (items v)" for k x
  proof -
    have "fst (k, x) \<in> fst ` set (items v)" using that by (rule imageI)
    then show ?thesis by (simp add: *)
  qed
  ultimately show "key_set_is v ks"
    by (fastforce simp: key_set_is_def list_all_iff list_ex_iff has_key_def map_of_eq_None_iff)
qed

lemma key_set_is_has_key: "key_set_is v ks \<Longrightarrow> k \<in> set ks \<Longrightarrow> has_key v k"
  by (auto simp: key_set_is_def list_all_iff)

section \<open>Equality\<close>

text \<open>
  Python's \<open>==\<close>: a bool is the int 0 or 1, an integral float equals its int, and two dicts are
  equal when they have the same items in any order.  \<open>float_int\<close> reads the literals of the form
  \<open>123.000\<close>; a literal with an exponent is compared as text.
\<close>

fun digits_value :: "nat \<Rightarrow> pystr \<Rightarrow> nat option" where
  "digits_value acc [] = Some acc"
| "digits_value acc (c # cs) =
     (if 48 \<le> c \<and> c \<le> 57 then digits_value (10 * acc + (c - 48)) cs else None)"

definition float_int :: "pystr \<Rightarrow> int option" where
  "float_int t =
     (let (sgn, u) = (case t of [] \<Rightarrow> (1, []) | c # cs \<Rightarrow> if c = 45 then (-1, cs) else (1, t));
          whole = takeWhile (\<lambda>c. c \<noteq> 46) u;
          frac = dropWhile (\<lambda>c. c \<noteq> 46) u
      in if whole \<noteq> [] \<and> frac \<noteq> [] \<and> list_all (\<lambda>c. c = 48) (tl frac)
         then map_option (\<lambda>n. sgn * int n) (digits_value 0 whole) else None)"

fun num_of :: "pyval \<Rightarrow> int option" where
  "num_of (PBool b) = Some (of_bool b)"
| "num_of (PInt i) = Some i"
| "num_of (PFloat t) = float_int t"
| "num_of v = None"

fun py_eq :: "pyval \<Rightarrow> pyval \<Rightarrow> bool"
  and py_eq_list :: "pyval list \<Rightarrow> pyval list \<Rightarrow> bool"
  and py_eq_items :: "pydict \<Rightarrow> pydict \<Rightarrow> bool" where
  "py_eq PNone w = (w = PNone)"
| "py_eq (PStr s) w = (w = PStr s)"
| "py_eq (PList xs) w = (case w of PList ys \<Rightarrow> py_eq_list xs ys | _ \<Rightarrow> False)"
| "py_eq (PDict d) w =
     (case w of PDict d' \<Rightarrow> length d = length d' \<and> py_eq_items d d' | _ \<Rightarrow> False)"
| "py_eq (PFloat t) w = (w = PFloat t \<or> (float_int t \<noteq> None \<and> num_of w = float_int t))"
| "py_eq (PInt i) w = (num_of w = Some i)"
| "py_eq (PBool b) w = (num_of w = Some (of_bool b))"
| "py_eq_list [] ys = (ys = [])"
| "py_eq_list (x # xs) ys = (case ys of [] \<Rightarrow> False | y # ys' \<Rightarrow> py_eq x y \<and> py_eq_list xs ys')"
| "py_eq_items [] d' = True"
| "py_eq_items ((k, v) # d) d' =
     ((case map_of d' k of None \<Rightarrow> False | Some v' \<Rightarrow> py_eq v v') \<and> py_eq_items d d')"

lemma py_eq_PStr [simp]: "py_eq v (PStr s) \<longleftrightarrow> v = PStr s"
  by (cases v) auto

lemma py_eq_items_iff:
  "py_eq_items d d' \<longleftrightarrow> (\<forall>(k, v) \<in> set d. \<exists>v'. map_of d' k = Some v' \<and> py_eq v v')"
  by (induction d) (auto split: option.splits)

text \<open>A value as the JSON reader and the code build it: no dict has a key twice.\<close>

fun wf_py :: "pyval \<Rightarrow> bool" where
  "wf_py (PList xs) = list_all wf_py xs"
| "wf_py (PDict d) = (distinct (map fst d) \<and> list_all (\<lambda>(k, v). wf_py v) d)"
| "wf_py v = True"

lemma py_eq_list_refl: "(\<And>x. x \<in> set xs \<Longrightarrow> py_eq x x) \<Longrightarrow> py_eq_list xs xs"
  by (induction xs) auto

lemma py_eq_refl: "wf_py v \<Longrightarrow> py_eq v v"
proof (induction v rule: wf_py.induct)
  case (1 xs)
  then show ?case by (simp add: list_all_iff py_eq_list_refl)
next
  case (2 d)
  have "map_of d k = Some v" if "(k, v) \<in> set d" for k v
    using 2(2) that by simp
  then show ?case using 2 by (fastforce simp: py_eq_items_iff list_all_iff)
qed auto

end
