(* ===== verification/Py_Text.thy ===== *)
theory Py_Text
  imports Py_Prelude
begin

text \<open>
  The text functions of the standard library that the scripts call: splitting and joining on a
  separator, UTF-8, decimal and hexadecimal digits, the regular expressions they match whole
  strings against, the canonical form of a UUID, and base64.
\<close>

section \<open>Splitting and joining\<close>

fun split :: "nat \<Rightarrow> pystr \<Rightarrow> pystr list" where
  "split sep [] = [[]]"
| "split sep (c # cs) =
     (if c = sep then [] # split sep cs
      else (case split sep cs of [] \<Rightarrow> [[c]] | w # ws \<Rightarrow> (c # w) # ws))"

fun join :: "nat \<Rightarrow> pystr list \<Rightarrow> pystr" where
  "join sep [] = []"
| "join sep [w] = w"
| "join sep (w # v # ws) = w @ sep # join sep (v # ws)"

lemma split_nonempty [simp]: "split sep s \<noteq> []"
  by (induction s) (auto split: list.splits)

lemma join_split [simp]: "join sep (split sep s) = s"
proof (induction s)
  case (Cons c cs)
  obtain w ws where "split sep cs = w # ws" by (cases "split sep cs") auto
  with Cons show ?case by (cases ws) auto
qed simp

lemma split_no_sep: "w \<in> set (split sep s) \<Longrightarrow> sep \<notin> set w"
proof (induction s arbitrary: w)
  case (Cons c cs)
  then show ?case by (cases "split sep cs") (auto split: if_splits)
qed simp

lemma split_of_no_sep: "sep \<notin> set w \<Longrightarrow> split sep w = [w]"
  by (induction w) auto

lemma split_append_sep: "sep \<notin> set w \<Longrightarrow> split sep (w @ sep # s) = w # split sep s"
  by (induction w) auto

lemma split_join:
  "ws \<noteq> [] \<Longrightarrow> (\<And>w. w \<in> set ws \<Longrightarrow> sep \<notin> set w) \<Longrightarrow> split sep (join sep ws) = ws"
  by (induction sep ws rule: join.induct) (auto simp: split_of_no_sep split_append_sep)

lemma split_inject: "split sep s = split sep t \<longleftrightarrow> s = t"
  by (metis join_split)

definition starts_with :: "pystr \<Rightarrow> pystr \<Rightarrow> bool" where
  "starts_with p s \<longleftrightarrow> take (length p) s = p"

lemma starts_with_iff: "starts_with p s \<longleftrightarrow> (\<exists>r. s = p @ r)"
  by (auto simp: starts_with_def) (metis append_take_drop_id)

definition ends_with :: "pystr \<Rightarrow> pystr \<Rightarrow> bool" where
  "ends_with p s \<longleftrightarrow> length p \<le> length s \<and> drop (length s - length p) s = p"

lemma ends_with_iff: "ends_with p s \<longleftrightarrow> (\<exists>r. s = r @ p)"
  by (auto simp: ends_with_def) (metis append_take_drop_id)

section \<open>Character classes\<close>

definition is_digit :: "nat \<Rightarrow> bool" where
  "is_digit c \<longleftrightarrow> 48 \<le> c \<and> c \<le> 57"

definition is_lower_hex :: "nat \<Rightarrow> bool" where
  "is_lower_hex c \<longleftrightarrow> 48 \<le> c \<and> c \<le> 57 \<or> 97 \<le> c \<and> c \<le> 102"

definition is_token_char :: "nat \<Rightarrow> bool" where
  "is_token_char c \<longleftrightarrow>
     65 \<le> c \<and> c \<le> 90 \<or> 97 \<le> c \<and> c \<le> 122 \<or> 48 \<le> c \<and> c \<le> 57 \<or> c = 95 \<or> c = 45"

text \<open>Unicode category \<open>Cc\<close>; the characters \<open>str.strip\<close> removes.\<close>

definition is_Cc :: "nat \<Rightarrow> bool" where
  "is_Cc c \<longleftrightarrow> c < 32 \<or> 127 \<le> c \<and> c < 160"

definition is_space :: "nat \<Rightarrow> bool" where
  "is_space c \<longleftrightarrow>
     9 \<le> c \<and> c \<le> 13 \<or> 28 \<le> c \<and> c \<le> 32 \<or> c = 133 \<or> c = 160 \<or> c = 5760 \<or>
     8192 \<le> c \<and> c \<le> 8202 \<or> c = 8232 \<or> c = 8233 \<or> c = 8239 \<or> c = 8287 \<or> c = 12288"

text \<open>\<open>re.fullmatch(r"[0-9a-f]{n}", s)\<close> and \<open>re.fullmatch(r"[A-Za-z0-9_-]{n}", s)\<close>.\<close>

definition full_hex :: "nat \<Rightarrow> pystr \<Rightarrow> bool" where
  "full_hex n s \<longleftrightarrow> length s = n \<and> list_all is_lower_hex s"

definition full_token :: "nat \<Rightarrow> pystr \<Rightarrow> bool" where
  "full_token n s \<longleftrightarrow> length s = n \<and> list_all is_token_char s"

text \<open>
  \<open>str.casefold\<close>, exact on the characters whose folding is ASCII (the ASCII capitals and the
  eleven others); every other character keeps a non-ASCII character in its folding, so keeping it
  unchanged gives the same answer to membership in a set of ASCII names, the only use.
\<close>

definition casefold_char :: "nat \<Rightarrow> pystr" where
  "casefold_char c =
     (if 65 \<le> c \<and> c \<le> 90 then [c + 32]
      else if c = 223 \<or> c = 7838 then [115, 115]
      else if c = 383 then [115]
      else if c = 8490 then [107]
      else if c = 64256 then [102, 102]
      else if c = 64257 then [102, 105]
      else if c = 64258 then [102, 108]
      else if c = 64259 then [102, 102, 105]
      else if c = 64260 then [102, 102, 108]
      else if c = 64261 \<or> c = 64262 then [115, 116]
      else [c])"

definition casefold :: "pystr \<Rightarrow> pystr" where
  "casefold s = concat (map casefold_char s)"

section \<open>Canonical UUIDs\<close>

text \<open>
  \<open>str(uuid.UUID(s)) == s\<close>: \<open>uuid.UUID\<close> raises ValueError or gives a UUID whose \<open>str\<close> has the shape
  8-4-4-4-12 in lower-case hexadecimal, so the comparison holds exactly for those strings.
\<close>

definition canonical_uuid_text :: "pystr \<Rightarrow> bool" where
  "canonical_uuid_text s \<longleftrightarrow>
     (case split 45 s of
        [a, b, c, d, e] \<Rightarrow> full_hex 8 a \<and> full_hex 4 b \<and> full_hex 4 c \<and> full_hex 4 d \<and> full_hex 12 e
      | _ \<Rightarrow> False)"

lemma canonical_uuid_text_length: "canonical_uuid_text s \<Longrightarrow> length s = 36"
proof -
  assume *: "canonical_uuid_text s"
  then obtain a b c d e where eq: "split 45 s = [a, b, c, d, e]"
    and len: "length a = 8" "length b = 4" "length c = 4" "length d = 4" "length e = 12"
    by (auto simp: canonical_uuid_text_def full_hex_def split: list.splits)
  have "s = join 45 [a, b, c, d, e]" using eq join_split [of 45 s] by simp
  then have "length s = length a + length b + length c + length d + length e + 4" by simp
  with len show ?thesis by simp
qed

lemma canonical_uuid_text_chars:
  assumes "canonical_uuid_text s" and "c \<in> set s"
  shows "is_lower_hex c \<or> c = 45"
proof -
  obtain a b d e f where eq: "split 45 s = [a, b, d, e, f]"
    and hex: "\<forall>w \<in> {a, b, d, e, f}. list_all is_lower_hex w"
    using assms(1) by (auto simp: canonical_uuid_text_def full_hex_def split: list.splits)
  have "s = join 45 [a, b, d, e, f]" using eq join_split [of 45 s] by simp
  with assms(2) hex show ?thesis by (auto simp: list_all_iff)
qed

section \<open>Decimal numbers\<close>

fun dec_nat :: "nat \<Rightarrow> pystr" where
  "dec_nat n = (if n < 10 then [48 + n] else dec_nat (n div 10) @ [48 + n mod 10])"

declare dec_nat.simps [simp del]

definition dec_int :: "int \<Rightarrow> pystr" where
  "dec_int i = (if i < 0 then 45 # dec_nat (nat (- i)) else dec_nat (nat i))"

lemma dec_nat_nonempty [simp]: "dec_nat n \<noteq> []"
  by (subst dec_nat.simps) simp

lemma dec_nat_digits: "c \<in> set (dec_nat n) \<Longrightarrow> is_digit c"
proof (induction n rule: dec_nat.induct)
  case (1 n)
  show ?case
  proof (cases "n < 10")
    case True
    with 1(2) have "c = 48 + n" by (simp add: dec_nat.simps [of n])
    with True show ?thesis by (simp add: is_digit_def)
  next
    case False
    with 1(2) consider "c \<in> set (dec_nat (n div 10))" | "c = 48 + n mod 10"
      by (auto simp: dec_nat.simps [of n])
    then show ?thesis using 1(1) False by cases (auto simp: is_digit_def)
  qed
qed

lemma digits_value_append:
  "digits_value a (s @ t) = (case digits_value a s of None \<Rightarrow> None | Some b \<Rightarrow> digits_value b t)"
  by (induction a s rule: digits_value.induct) auto

lemma digits_value_dec_nat: "digits_value 0 (dec_nat n) = Some n"
proof (induction n rule: dec_nat.induct)
  case (1 n)
  show ?case
  proof (cases "n < 10")
    case True
    then show ?thesis by (simp add: dec_nat.simps [of n])
  next
    case False
    with 1 have "digits_value 0 (dec_nat (n div 10)) = Some (n div 10)" by simp
    moreover have "48 + n mod 10 \<le> 57" using mod_less_divisor [of 10 n] by simp
    ultimately show ?thesis using False
      by (simp add: dec_nat.simps [of n] digits_value_append)
  qed
qed

lemma dec_nat_inject: "dec_nat m = dec_nat n \<longleftrightarrow> m = n"
  by (metis digits_value_dec_nat option.inject)

lemma dec_nat_hd: "10 \<le> n \<Longrightarrow> hd (dec_nat n) \<noteq> 48"
proof (induction n rule: dec_nat.induct)
  case (1 n)
  then have "hd (dec_nat n) = hd (dec_nat (n div 10))"
    by (simp add: dec_nat.simps [of n])
  moreover have "hd (dec_nat (n div 10)) \<noteq> 48"
  proof (cases "10 \<le> n div 10")
    case True
    with 1 show ?thesis by simp
  next
    case False
    then have "dec_nat (n div 10) = [48 + n div 10]" by (simp add: dec_nat.simps [of "n div 10"])
    with 1(2) show ?thesis by simp
  qed
  ultimately show ?case by simp
qed

section \<open>UTF-8\<close>

text \<open>\<open>str.encode("utf-8")\<close>: None stands for UnicodeEncodeError (a surrogate).\<close>

definition is_surrogate :: "nat \<Rightarrow> bool" where
  "is_surrogate c \<longleftrightarrow> 55296 \<le> c \<and> c \<le> 57343"

definition byte :: "nat \<Rightarrow> 8 word" where
  "byte n = of_nat n"

definition utf8_char :: "nat \<Rightarrow> bytes option" where
  "utf8_char c =
     (if c < 128 then Some [byte c]
      else if c < 2048 then Some [byte (192 + c div 64), byte (128 + c mod 64)]
      else if is_surrogate c then None
      else if c < 65536 then
        Some [byte (224 + c div 4096), byte (128 + c div 64 mod 64), byte (128 + c mod 64)]
      else if c < 1114112 then
        Some [byte (240 + c div 262144), byte (128 + c div 4096 mod 64),
              byte (128 + c div 64 mod 64), byte (128 + c mod 64)]
      else None)"

fun utf8_encode :: "pystr \<Rightarrow> bytes option" where
  "utf8_encode [] = Some []"
| "utf8_encode (c # cs) =
     (case utf8_char c of None \<Rightarrow> None
      | Some u \<Rightarrow> (case utf8_encode cs of None \<Rightarrow> None | Some v \<Rightarrow> Some (u @ v)))"

text \<open>\<open>bytes.decode("utf-8")\<close>, strict: no overlong form, no surrogate, nothing above U+10FFFF.\<close>

definition cont :: "8 word \<Rightarrow> bool" where
  "cont b \<longleftrightarrow> 128 \<le> unat b \<and> unat b < 192"

fun utf8_first :: "bytes \<Rightarrow> (nat \<times> bytes) option" where
  "utf8_first [] = None"
| "utf8_first (b # bs) =
     (if unat b < 128 then Some (unat b, bs)
      else if 194 \<le> unat b \<and> unat b \<le> 223 then
        (case bs of
           b1 # r \<Rightarrow> if cont b1 then Some ((unat b - 192) * 64 + (unat b1 - 128), r) else None
         | _ \<Rightarrow> None)
      else if 224 \<le> unat b \<and> unat b \<le> 239 then
        (case bs of
           b1 # b2 # r \<Rightarrow>
             let c = (unat b - 224) * 4096 + (unat b1 - 128) * 64 + (unat b2 - 128)
             in if cont b1 \<and> cont b2 \<and> 2048 \<le> c \<and> \<not> is_surrogate c then Some (c, r) else None
         | _ \<Rightarrow> None)
      else if 240 \<le> unat b \<and> unat b \<le> 244 then
        (case bs of
           b1 # b2 # b3 # r \<Rightarrow>
             let c = (unat b - 240) * 262144 + (unat b1 - 128) * 4096 + (unat b2 - 128) * 64
                       + (unat b3 - 128)
             in if cont b1 \<and> cont b2 \<and> cont b3 \<and> 65536 \<le> c \<and> c < 1114112 then Some (c, r)
                else None
         | _ \<Rightarrow> None)
      else None)"

lemma utf8_first_shorter: "utf8_first bs = Some (c, r) \<Longrightarrow> length r < length bs"
  by (cases bs) (auto simp: Let_def split: if_splits list.splits)

function utf8_decode :: "bytes \<Rightarrow> pystr option" where
  "utf8_decode bs =
     (if bs = [] then Some []
      else (case utf8_first bs of None \<Rightarrow> None
            | Some (c, r) \<Rightarrow> map_option (Cons c) (utf8_decode r)))"
  by pat_completeness auto
termination
  by (relation "measure length") (auto dest: utf8_first_shorter)

declare utf8_decode.simps [simp del]

lemma utf8_decode_Nil [simp]: "utf8_decode [] = Some []"
  by (simp add: utf8_decode.simps)

lemma unat_byte: "n < 256 \<Longrightarrow> unat (byte n) = n"
  by (simp add: byte_def unat_of_nat)

lemma unat_less_256: "unat (b :: 8 word) < 256"
  using unsigned_less [of b] by simp

lemma byte_unat [simp]: "byte (unat b) = b"
  by (simp add: byte_def)

lemma base64_digits_3: "(c::nat) div 4096 * 4096 + (c div 64 mod 64) * 64 + c mod 64 = c"
proof -
  have "c div 4096 = c div 64 div 64" by (simp add: div_mult2_eq [symmetric])
  moreover have "c div 64 = c div 64 div 64 * 64 + c div 64 mod 64" by simp
  moreover have "c = c div 64 * 64 + c mod 64" by simp
  ultimately show ?thesis by linarith
qed

lemma base64_digits_4:
  "(c::nat) div 262144 * 262144 + (c div 4096 mod 64) * 4096 + (c div 64 mod 64) * 64 + c mod 64 = c"
proof -
  have "c div 262144 = c div 4096 div 64" by (simp add: div_mult2_eq [symmetric])
  moreover have "c div 4096 = c div 4096 div 64 * 64 + c div 4096 mod 64" by simp
  ultimately show ?thesis using base64_digits_3 [of c] by linarith
qed

lemma utf8_first_char:
  assumes "utf8_char c = Some u"
  shows "utf8_first (u @ r) = Some (c, r)"
proof -
  consider "c < 128" | "128 \<le> c" "c < 2048" | "2048 \<le> c" "c < 65536" "\<not> is_surrogate c"
    | "65536 \<le> c" "c < 1114112"
    using assms by (auto simp: utf8_char_def split: if_splits)
  then show ?thesis
  proof cases
    case 1
    with assms show ?thesis by (auto simp: utf8_char_def unat_byte)
  next
    case 2
    then have "u = [byte (192 + c div 64), byte (128 + c mod 64)]"
      using assms by (simp add: utf8_char_def)
    moreover have "2 \<le> c div 64" "c div 64 < 32" using 2 by auto
    ultimately show ?thesis using mod_less_divisor [of 64 c]
      by (simp add: unat_byte cont_def)
  next
    case 3
    then have u: "u = [byte (224 + c div 4096), byte (128 + c div 64 mod 64), byte (128 + c mod 64)]"
      using assms by (simp add: utf8_char_def)
    have "c div 4096 < 16" using 3 by auto
    moreover note base64_digits_3 [of c]
    moreover have "c div 64 mod 64 < 64" "c mod 64 < 64" by auto
    ultimately show ?thesis using 3 by (simp add: u unat_byte cont_def Let_def)
  next
    case 4
    then have u: "u = [byte (240 + c div 262144), byte (128 + c div 4096 mod 64),
        byte (128 + c div 64 mod 64), byte (128 + c mod 64)]"
      using assms by (auto simp: utf8_char_def is_surrogate_def split: if_splits)
    have "c div 262144 \<le> 4" using 4 by auto
    moreover note base64_digits_4 [of c]
    moreover have "c div 4096 mod 64 < 64" "c div 64 mod 64 < 64" "c mod 64 < 64" by auto
    ultimately show ?thesis using 4 by (simp add: u unat_byte cont_def Let_def)
  qed
qed

lemma utf8_char_nonempty: "utf8_char c = Some u \<Longrightarrow> u \<noteq> []"
  by (auto simp: utf8_char_def split: if_splits)

lemma utf8_roundtrip: "utf8_encode s = Some bs \<Longrightarrow> utf8_decode bs = Some s"
proof (induction s arbitrary: bs)
  case (Cons c cs)
  then obtain u v where u: "utf8_char c = Some u" and v: "utf8_encode cs = Some v"
    and bs: "bs = u @ v"
    by (auto split: option.splits)
  have "utf8_decode v = Some cs" using Cons.IH [OF v] .
  moreover have "u @ v \<noteq> []" using utf8_char_nonempty [OF u] by simp
  ultimately show ?case
    using utf8_first_char [OF u, of v] by (simp add: bs utf8_decode.simps [of "u @ v"])
qed simp

lemma utf8_encode_inject: "utf8_encode s = Some b \<Longrightarrow> utf8_encode t = Some b \<Longrightarrow> s = t"
  by (metis utf8_roundtrip option.inject)

lemma utf8_encode_append:
  "utf8_encode (s @ t) =
     (case utf8_encode s of None \<Rightarrow> None
      | Some u \<Rightarrow> (case utf8_encode t of None \<Rightarrow> None | Some v \<Rightarrow> Some (u @ v)))"
  by (induction s) (auto split: option.splits)

lemma utf8_encode_None_iff:
  "utf8_encode s = None \<longleftrightarrow> (\<exists>c \<in> set s. is_surrogate c \<or> 1114112 \<le> c)"
  by (induction s) (auto simp: utf8_char_def is_surrogate_def split: option.splits if_splits)

lemma utf8_encode_ascii:
  "(\<And>c. c \<in> set s \<Longrightarrow> c < 128) \<Longrightarrow> utf8_encode s = Some (map byte s)"
  by (induction s) (auto simp: utf8_char_def)

section \<open>Hexadecimal\<close>

definition hex_digit :: "nat \<Rightarrow> nat" where
  "hex_digit n = (if n < 10 then 48 + n else 87 + n)"

definition hex_byte :: "8 word \<Rightarrow> pystr" where
  "hex_byte b = [hex_digit (unat b div 16), hex_digit (unat b mod 16)]"

text \<open>\<open>bytes.hex()\<close>.\<close>

definition hex :: "bytes \<Rightarrow> pystr" where
  "hex bs = concat (map hex_byte bs)"

lemma hex_digit_hex: "n < 16 \<Longrightarrow> is_lower_hex (hex_digit n)"
  by (auto simp: hex_digit_def is_lower_hex_def)

lemma full_hex_hex: "full_hex (2 * length bs) (hex bs)"
proof (induction bs)
  case (Cons b bs)
  have "unat b div 16 < 16" using unat_less_256 [of b] by simp
  then have "list_all is_lower_hex (hex_byte b)" by (simp add: hex_byte_def hex_digit_hex)
  with Cons show ?case by (simp add: full_hex_def hex_def hex_byte_def)
qed (simp add: full_hex_def hex_def)

end
