(* ===== verification/Py_Json.thy ===== *)
theory Py_Json
  imports Py_Text "HOL-Library.List_Lexorder"
begin

text \<open>
  \<open>json.dumps\<close> and \<open>json.loads\<close> as the scripts call them.  A format says whether non-ASCII
  characters are escaped and which separators are used; sorting the keys is a pass over the value
  before it is written.  The reader takes the two hooks of \<open>json.loads\<close>: \<open>object_pairs_hook\<close> and
  \<open>parse_constant\<close>.  Not modelled: the interpreter's recursion limit and its limit on the number of
  digits of an int, and the value of a float (its literal is kept).
\<close>

section \<open>Writing\<close>

record json_format =
  ensure_ascii :: bool
  item_sep :: pystr
  key_sep :: pystr

definition fmt_default :: json_format where
  "fmt_default = \<lparr>ensure_ascii = True, item_sep = lit '', '', key_sep = lit '': ''\<rparr>"

definition fmt_compact :: json_format where
  "fmt_compact = \<lparr>ensure_ascii = True, item_sep = lit '','', key_sep = lit '':''\<rparr>"

definition fmt_canonical :: json_format where
  "fmt_canonical = \<lparr>ensure_ascii = False, item_sep = lit '','', key_sep = lit '':''\<rparr>"

definition u_escape :: "nat \<Rightarrow> pystr" where
  "u_escape c = [92, 117, hex_digit (c div 4096 mod 16), hex_digit (c div 256 mod 16),
                 hex_digit (c div 16 mod 16), hex_digit (c mod 16)]"

definition escape_char :: "bool \<Rightarrow> nat \<Rightarrow> pystr" where
  "escape_char ascii c =
     (if c = 34 then [92, 34]
      else if c = 92 then [92, 92]
      else if c = 10 then [92, 110]
      else if c = 13 then [92, 114]
      else if c = 9 then [92, 116]
      else if c = 12 then [92, 102]
      else if c = 8 then [92, 98]
      else if c < 32 then u_escape c
      else if ascii \<and> 126 < c then
        (if c < 65536 then u_escape c
         else u_escape (55296 + (c - 65536) div 1024) @ u_escape (56320 + (c - 65536) mod 1024))
      else [c])"

definition escape :: "bool \<Rightarrow> pystr \<Rightarrow> pystr" where
  "escape ascii s = concat (map (escape_char ascii) s)"

definition quote :: "bool \<Rightarrow> pystr \<Rightarrow> pystr" where
  "quote ascii s = 34 # escape ascii s @ [34]"

fun render :: "json_format \<Rightarrow> pyval \<Rightarrow> pystr"
  and render_elems :: "json_format \<Rightarrow> pyval list \<Rightarrow> pystr"
  and render_items :: "json_format \<Rightarrow> pydict \<Rightarrow> pystr" where
  "render f PNone = lit ''null''"
| "render f (PBool b) = (if b then lit ''true'' else lit ''false'')"
| "render f (PInt i) = dec_int i"
| "render f (PFloat t) = t"
| "render f (PStr s) = quote (ensure_ascii f) s"
| "render f (PList xs) = (case xs of [] \<Rightarrow> lit ''[]'' | x # ys \<Rightarrow> 91 # render f x @ render_elems f ys)"
| "render f (PDict d) =
     (case d of [] \<Rightarrow> lit ''{}''
      | (k, v) # e \<Rightarrow>
          123 # quote (ensure_ascii f) k @ key_sep f @ render f v @ render_items f e)"
| "render_elems f [] = [93]"
| "render_elems f (x # xs) = item_sep f @ render f x @ render_elems f xs"
| "render_items f [] = [125]"
| "render_items f ((k, v) # d) =
     item_sep f @ quote (ensure_ascii f) k @ key_sep f @ render f v @ render_items f d"

fun sort_keys :: "pyval \<Rightarrow> pyval" where
  "sort_keys (PList xs) = PList (map sort_keys xs)"
| "sort_keys (PDict d) = PDict (sort_key fst (map (\<lambda>(k, v). (k, sort_keys v)) d))"
| "sort_keys v = v"

section \<open>Reading\<close>

definition json_error :: exn where
  "json_error = ValueError ''JSONDecodeError''"

definition out_of_fuel :: exn where
  "out_of_fuel = RuntimeError ''fuel''"

definition hex_value :: "nat \<Rightarrow> nat option" where
  "hex_value c =
     (if 48 \<le> c \<and> c \<le> 57 then Some (c - 48)
      else if 97 \<le> c \<and> c \<le> 102 then Some (c - 87)
      else if 65 \<le> c \<and> c \<le> 70 then Some (c - 55)
      else None)"

fun hex4 :: "pystr \<Rightarrow> (nat \<times> pystr) option" where
  "hex4 (a # b # c # d # r) =
     (case (hex_value a, hex_value b, hex_value c, hex_value d) of
        (Some x, Some y, Some z, Some w) \<Rightarrow> Some (x * 4096 + y * 256 + z * 16 + w, r)
      | _ \<Rightarrow> None)"
| "hex4 s = None"

definition expect :: "nat \<Rightarrow> pystr \<Rightarrow> pystr option" where
  "expect c s = (case s of [] \<Rightarrow> None | d # r \<Rightarrow> if d = c then Some r else None)"

text \<open>After \<open>\u\<close>: four digits, and a second escape when the two are a surrogate pair.\<close>

definition scan_unicode :: "pystr \<Rightarrow> (nat \<times> pystr) option" where
  "scan_unicode s =
     (case hex4 s of
        None \<Rightarrow> None
      | Some (u, r) \<Rightarrow>
          if 55296 \<le> u \<and> u \<le> 56319 then
            (case Option.bind (Option.bind (expect 92 r) (expect 117)) hex4 of
               Some (v, r') \<Rightarrow>
                 if 56320 \<le> v \<and> v \<le> 57343
                 then Some (65536 + (u - 55296) * 1024 + (v - 56320), r')
                 else Some (u, r)
             | None \<Rightarrow> Some (u, r))
          else Some (u, r))"

definition scan_escape :: "pystr \<Rightarrow> (nat \<times> pystr) option" where
  "scan_escape s =
     (case s of
        [] \<Rightarrow> None
      | e # r \<Rightarrow>
          if e = 117 then scan_unicode r
          else if e = 34 \<or> e = 92 \<or> e = 47 then Some (e, r)
          else if e = 98 then Some (8, r)
          else if e = 102 then Some (12, r)
          else if e = 110 then Some (10, r)
          else if e = 114 then Some (13, r)
          else if e = 116 then Some (9, r)
          else None)"

lemma hex4_shorter: "hex4 s = Some (u, r) \<Longrightarrow> length r < length s"
  by (induction s rule: hex4.induct) (auto split: option.splits prod.splits)

lemma expect_shorter: "expect c s = Some r \<Longrightarrow> length r < length s"
  by (auto simp: expect_def split: list.splits if_splits)

lemma expect_Cons [simp]: "expect c (d # r) = (if d = c then Some r else None)"
  by (simp add: expect_def)

lemma expect_Nil [simp]: "expect c [] = None"
  by (simp add: expect_def)

lemma scan_unicode_shorter: "scan_unicode s = Some (u, r) \<Longrightarrow> length r < length s"
  by (fastforce simp: scan_unicode_def bind_eq_Some_conv
      split: option.splits prod.splits if_splits dest: hex4_shorter expect_shorter)

lemma scan_escape_shorter: "scan_escape s = Some (u, r) \<Longrightarrow> length r < length s"
  by (auto simp: scan_escape_def split: list.splits if_splits dest: scan_unicode_shorter)

function scan_string :: "pystr \<Rightarrow> exn + pystr \<times> pystr" where
  "scan_string [] = Inl json_error"
| "scan_string (c # cs) =
     (if c = 34 then Inr ([], cs)
      else if c = 92 then
        (case scan_escape cs of
           None \<Rightarrow> Inl json_error
         | Some (u, r) \<Rightarrow> rbind (scan_string r) (\<lambda>(t, r'). Inr (u # t, r')))
      else if c < 32 then Inl json_error
      else rbind (scan_string cs) (\<lambda>(t, r'). Inr (c # t, r')))"
  by pat_completeness auto
termination
  by (relation "measure length") (auto dest: scan_escape_shorter)

definition is_json_space :: "nat \<Rightarrow> bool" where
  "is_json_space c \<longleftrightarrow> c = 32 \<or> c = 9 \<or> c = 10 \<or> c = 13"

definition skip_ws :: "pystr \<Rightarrow> pystr" where
  "skip_ws s = dropWhile is_json_space s"

text \<open>The number grammar; a fraction or an exponent makes a float.\<close>

definition scan_digits :: "pystr \<Rightarrow> pystr \<times> pystr" where
  "scan_digits s = (takeWhile is_digit s, dropWhile is_digit s)"

definition scan_frac :: "pystr \<Rightarrow> pystr \<times> pystr" where
  "scan_frac s =
     (case expect 46 s of
        None \<Rightarrow> ([], s)
      | Some r \<Rightarrow> let (ds, r') = scan_digits r in if ds = [] then ([], s) else (46 # ds, r'))"

definition scan_exp :: "pystr \<Rightarrow> pystr \<times> pystr" where
  "scan_exp s =
     (case s of
        [] \<Rightarrow> ([], s)
      | e # r \<Rightarrow>
          if e = 101 \<or> e = 69 then
            let (sg, r1) = (case r of [] \<Rightarrow> ([], r) | c # r' \<Rightarrow> if c = 43 \<or> c = 45 then ([c], r') else ([], r));
                (ds, r2) = scan_digits r1
            in if ds = [] then ([], s) else (e # sg @ ds, r2)
          else ([], s))"

definition scan_whole :: "pystr \<Rightarrow> pystr \<times> pystr" where
  "scan_whole s =
     (case s of [] \<Rightarrow> ([], s) | c # r \<Rightarrow> if c = 48 then ([48], r) else scan_digits s)"

definition scan_number :: "pystr \<Rightarrow> (pyval \<times> pystr) option" where
  "scan_number s =
     (let (neg, s1) = (case expect 45 s of None \<Rightarrow> (False, s) | Some r \<Rightarrow> (True, r));
          (ds, s2) = scan_whole s1
      in if ds = [] then None
         else let (fr, s3) = scan_frac s2; (ex, s4) = scan_exp s3
              in if fr = [] \<and> ex = [] then
                   Some (PInt (let n = int (the (digits_value 0 ds)) in if neg then - n else n), s2)
                 else Some (PFloat ((if neg then [45] else []) @ ds @ fr @ ex), s4))"

record json_hooks =
  pairs_hook :: "pydict \<Rightarrow> exn + pydict"
  constant_hook :: "pystr \<Rightarrow> exn + pyval"

definition scan_word :: "string \<Rightarrow> pystr \<Rightarrow> pystr option" where
  "scan_word w s = (if starts_with (lit w) s then Some (drop (length w) s) else None)"

definition scan_atom :: "json_hooks \<Rightarrow> pystr \<Rightarrow> exn + pyval \<times> pystr" where
  "scan_atom h s =
     (case scan_word ''null'' s of Some r \<Rightarrow> Inr (PNone, r) | None \<Rightarrow>
      (case scan_word ''true'' s of Some r \<Rightarrow> Inr (PBool True, r) | None \<Rightarrow>
      (case scan_word ''false'' s of Some r \<Rightarrow> Inr (PBool False, r) | None \<Rightarrow>
      (case scan_word ''NaN'' s of
         Some r \<Rightarrow> rbind (constant_hook h (lit ''NaN'')) (\<lambda>v. Inr (v, r)) | None \<Rightarrow>
      (case scan_word ''Infinity'' s of
         Some r \<Rightarrow> rbind (constant_hook h (lit ''Infinity'')) (\<lambda>v. Inr (v, r)) | None \<Rightarrow>
      (case scan_word ''-Infinity'' s of
         Some r \<Rightarrow> rbind (constant_hook h (lit ''-Infinity'')) (\<lambda>v. Inr (v, r)) | None \<Rightarrow>
      (case scan_number s of Some (v, r) \<Rightarrow> Inr (v, r) | None \<Rightarrow> Inl json_error)))))))"

fun parse_value :: "json_hooks \<Rightarrow> nat \<Rightarrow> pystr \<Rightarrow> exn + pyval \<times> pystr"
  and parse_elems :: "json_hooks \<Rightarrow> nat \<Rightarrow> pystr \<Rightarrow> exn + pyval list \<times> pystr"
  and parse_pairs :: "json_hooks \<Rightarrow> nat \<Rightarrow> pystr \<Rightarrow> exn + pydict \<times> pystr" where
  "parse_value h 0 s = Inl out_of_fuel"
| "parse_value h (Suc n) s =
     (case s of
        [] \<Rightarrow> Inl json_error
      | c # cs \<Rightarrow>
          if c = 34 then rbind (scan_string cs) (\<lambda>(t, r). Inr (PStr t, r))
          else if c = 123 then
            (case expect 125 (skip_ws cs) of
               Some r \<Rightarrow> rbind (pairs_hook h []) (\<lambda>d. Inr (PDict d, r))
             | None \<Rightarrow>
                 rbind (parse_pairs h n (skip_ws cs)) (\<lambda>(ps, r).
                 rbind (pairs_hook h ps) (\<lambda>d. Inr (PDict d, r))))
          else if c = 91 then
            (case expect 93 (skip_ws cs) of
               Some r \<Rightarrow> Inr (PList [], r)
             | None \<Rightarrow> rbind (parse_elems h n (skip_ws cs)) (\<lambda>(xs, r). Inr (PList xs, r)))
          else scan_atom h s)"
| "parse_elems h 0 s = Inl out_of_fuel"
| "parse_elems h (Suc n) s =
     rbind (parse_value h n s) (\<lambda>(v, r).
       case expect 93 (skip_ws r) of
         Some r' \<Rightarrow> Inr ([v], r')
       | None \<Rightarrow>
           (case expect 44 (skip_ws r) of
              None \<Rightarrow> Inl json_error
            | Some r' \<Rightarrow> rbind (parse_elems h n (skip_ws r')) (\<lambda>(vs, r''). Inr (v # vs, r''))))"
| "parse_pairs h 0 s = Inl out_of_fuel"
| "parse_pairs h (Suc n) s =
     (case expect 34 s of
        None \<Rightarrow> Inl json_error
      | Some cs \<Rightarrow>
          rbind (scan_string cs) (\<lambda>(k, r).
          case expect 58 (skip_ws r) of
            None \<Rightarrow> Inl json_error
          | Some r1 \<Rightarrow>
              rbind (parse_value h n (skip_ws r1)) (\<lambda>(v, r2).
              case expect 125 (skip_ws r2) of
                Some r3 \<Rightarrow> Inr ([(k, v)], r3)
              | None \<Rightarrow>
                  (case expect 44 (skip_ws r2) of
                     None \<Rightarrow> Inl json_error
                   | Some r3 \<Rightarrow>
                       rbind (parse_pairs h n (skip_ws r3)) (\<lambda>(ps, r4). Inr ((k, v) # ps, r4))))))"

text \<open>
  A nested bracket costs two units of fuel for one character; \<open>parse_total\<close> below shows that
  twice the length of the text plus one is always enough.
\<close>

definition json_loads :: "json_hooks \<Rightarrow> pystr \<Rightarrow> exn + pyval" where
  "json_loads h s =
     rbind (parse_value h (Suc (2 * length s)) (skip_ws s)) (\<lambda>(v, r).
       if skip_ws r = [] then Inr v else Inl json_error)"

section \<open>What is written is read back\<close>

definition num_end :: "pystr \<Rightarrow> bool" where
  "num_end r \<longleftrightarrow> (case r of [] \<Rightarrow> True | c # _ \<Rightarrow> \<not> is_digit c \<and> c \<noteq> 46 \<and> c \<noteq> 101 \<and> c \<noteq> 69)"

definition str_ok :: "bool \<Rightarrow> pystr \<Rightarrow> bool" where
  "str_ok ascii s \<longleftrightarrow> (ascii \<longrightarrow> list_all (\<lambda>c. \<not> is_surrogate c \<and> c < 1114112) s)"

text \<open>The values the scripts write: no float, no key twice.\<close>

fun json_ok :: "bool \<Rightarrow> pyval \<Rightarrow> bool" where
  "json_ok a (PFloat t) = False"
| "json_ok a (PStr s) = str_ok a s"
| "json_ok a (PList xs) = list_all (json_ok a) xs"
| "json_ok a (PDict d) =
     (distinct (map fst d) \<and> list_all (\<lambda>(k, v). str_ok a k \<and> json_ok a v) d)"
| "json_ok a v = True"

definition fmt_ok :: "json_format \<Rightarrow> bool" where
  "fmt_ok f \<longleftrightarrow> (item_sep f = [44] \<or> item_sep f = [44, 32]) \<and> (key_sep f = [58] \<or> key_sep f = [58, 32])"

definition hook_ok :: "json_hooks \<Rightarrow> bool" where
  "hook_ok h \<longleftrightarrow> (\<forall>d. distinct (map fst d) \<longrightarrow> pairs_hook h d = Inr d)"

lemma lit_words:
  "lit ''null'' = [110, 117, 108, 108]" "lit ''true'' = [116, 114, 117, 101]"
  "lit ''false'' = [102, 97, 108, 115, 101]" "lit ''NaN'' = [78, 97, 78]"
  "lit ''Infinity'' = [73, 110, 102, 105, 110, 105, 116, 121]"
  "lit ''-Infinity'' = [45, 73, 110, 102, 105, 110, 105, 116, 121]"
  "lit ''[]'' = [91, 93]" "lit ''{}'' = [123, 125]"
  "lit '','' = [44]" "lit '', '' = [44, 32]" "lit '':'' = [58]" "lit '': '' = [58, 32]"
  by (simp_all add: lit_def)

lemma fmt_ok_formats: "fmt_ok fmt_default" "fmt_ok fmt_compact" "fmt_ok fmt_canonical"
  by (simp_all add: fmt_ok_def fmt_default_def fmt_compact_def fmt_canonical_def lit_words)

lemma hex_value_digit [simp]: "n < 16 \<Longrightarrow> hex_value (hex_digit n) = Some n"
  by (auto simp: hex_value_def hex_digit_def)

lemma hex_digits_4:
  assumes "(c::nat) < 65536"
  shows "c div 4096 mod 16 * 4096 + c div 256 mod 16 * 256 + c div 16 mod 16 * 16 + c mod 16 = c"
proof -
  have "c div 16 div 16 = c div 256" "c div 256 div 16 = c div 4096"
    by (simp_all add: div_mult2_eq [symmetric])
  moreover have "c div 4096 mod 16 = c div 4096" using assms by simp
  moreover have "c = c div 16 * 16 + c mod 16" "c div 16 = c div 16 div 16 * 16 + c div 16 mod 16"
    "c div 256 = c div 256 div 16 * 16 + c div 256 mod 16" by simp_all
  ultimately show ?thesis by linarith
qed

lemma hex4_u_escape: "c < 65536 \<Longrightarrow> hex4 (drop 2 (u_escape c) @ r) = Some (c, r)"
  using hex_digits_4 [of c] by (simp add: u_escape_def)

lemma u_escape_Cons: "u_escape c = 92 # 117 # drop 2 (u_escape c)"
  by (simp add: u_escape_def)

lemma scan_string_u_escape:
  assumes "c < 65536" and "\<not> (55296 \<le> c \<and> c \<le> 56319)"
  shows "scan_string (u_escape c @ r) = rbind (scan_string r) (\<lambda>(t, r'). Inr (c # t, r'))"
proof -
  have "scan_unicode (drop 2 (u_escape c) @ r) = Some (c, r)"
    using assms by (auto simp: scan_unicode_def hex4_u_escape)
  then show ?thesis
    by (subst u_escape_Cons) (simp add: scan_escape_def)
qed

lemma scan_string_surrogates:
  assumes "65536 \<le> c" and "c < 1114112"
  shows "scan_string (u_escape (55296 + (c - 65536) div 1024) @ u_escape (56320 + (c - 65536) mod 1024) @ r) =
    rbind (scan_string r) (\<lambda>(t, r'). Inr (c # t, r'))"
proof -
  let ?u = "55296 + (c - 65536) div 1024" and ?v = "56320 + (c - 65536) mod 1024"
  have u: "?u \<le> 56319" using assms by auto
  have v: "?v \<le> 57343" using mod_less_divisor [of 1024 "c - 65536"] by linarith
  have c: "65536 + (?u - 55296) * 1024 + (?v - 56320) = c"
    using assms by (simp add: div_mult_mod_eq)
  have "hex4 (drop 2 (u_escape ?u) @ u_escape ?v @ r) = Some (?u, u_escape ?v @ r)"
    using u by (intro hex4_u_escape) simp
  moreover have "Option.bind (Option.bind (expect 92 (u_escape ?v @ r)) (expect 117)) hex4 = Some (?v, r)"
    using v by (subst u_escape_Cons) (simp add: hex4_u_escape)
  ultimately have "scan_unicode (drop 2 (u_escape ?u) @ u_escape ?v @ r) = Some (c, r)"
    using u v c by (simp add: scan_unicode_def del: Option.bind_eq_Some_conv)
  then show ?thesis
    by (subst u_escape_Cons) (simp add: scan_escape_def)
qed

lemma scan_string_escape_char:
  assumes "ascii \<longrightarrow> \<not> is_surrogate c \<and> c < 1114112"
  shows "scan_string (escape_char ascii c @ r) = rbind (scan_string r) (\<lambda>(t, r'). Inr (c # t, r'))"
proof -
  consider "c \<in> {34, 92, 10, 13, 9, 12, 8}" | "c \<notin> {34, 92, 10, 13, 9, 12, 8}" "c < 32"
    | "c \<notin> {34, 92}" "32 \<le> c" "\<not> (ascii \<and> 126 < c)" | "ascii" "126 < c" "c < 65536"
    | "ascii" "65536 \<le> c"
    by (cases "c < 32"; cases "c < 65536"; auto)
  then show ?thesis
  proof cases
    case 1
    then show ?thesis by (auto simp: escape_char_def scan_escape_def)
  next
    case 2
    then show ?thesis by (simp add: escape_char_def scan_string_u_escape)
  next
    case 3
    then show ?thesis by (auto simp: escape_char_def)
  next
    case 4
    with assms have "\<not> (55296 \<le> c \<and> c \<le> 56319)" by (auto simp: is_surrogate_def)
    with 4 show ?thesis by (simp add: escape_char_def scan_string_u_escape)
  next
    case 5
    with assms show ?thesis by (simp add: escape_char_def scan_string_surrogates)
  qed
qed

lemma scan_string_escape:
  "str_ok ascii s \<Longrightarrow> scan_string (escape ascii s @ 34 # r) = Inr (s, r)"
proof (induction s)
  case (Cons c s)
  then have "scan_string (escape ascii s @ 34 # r) = Inr (s, r)" by (simp add: str_ok_def)
  moreover have "escape ascii (c # s) @ 34 # r = escape_char ascii c @ escape ascii s @ 34 # r"
    by (simp add: escape_def)
  ultimately show ?case
    using Cons.prems scan_string_escape_char [of ascii c "escape ascii s @ 34 # r"]
    by (simp add: str_ok_def)
qed (simp add: escape_def)

lemma takeWhile_digits: "num_end r \<Longrightarrow> scan_digits (dec_nat n @ r) = (dec_nat n, r)"
proof -
  assume r: "num_end r"
  have all: "\<And>x. x \<in> set (dec_nat n) \<Longrightarrow> is_digit x" by (rule dec_nat_digits)
  have "takeWhile is_digit r = [] \<and> dropWhile is_digit r = r"
    using r by (cases r) (auto simp: num_end_def)
  with all show ?thesis by (simp add: scan_digits_def)
qed

lemma dec_nat_first:
  obtains c cs where "dec_nat n = c # cs" and "is_digit c" and "c = 48 \<Longrightarrow> cs = [] \<and> n = 0"
proof -
  obtain c cs where eq: "dec_nat n = c # cs" by (cases "dec_nat n") auto
  then have d: "is_digit c" using dec_nat_digits [of c n] by simp
  have "cs = [] \<and> n = 0" if "c = 48"
  proof (cases "n < 10")
    case True
    with eq that show ?thesis by (simp add: dec_nat.simps [of n])
  next
    case False
    with dec_nat_hd [of n] eq that show ?thesis by simp
  qed
  with eq d that show thesis by blast
qed

lemma scan_whole_dec: "num_end r \<Longrightarrow> scan_whole (dec_nat n @ r) = (dec_nat n, r)"
proof -
  assume r: "num_end r"
  obtain c cs where eq: "dec_nat n = c # cs" and z: "c = 48 \<Longrightarrow> cs = [] \<and> n = 0"
    using dec_nat_first [of n] by blast
  show ?thesis
  proof (cases "c = 48")
    case True
    with eq z show ?thesis by (simp add: scan_whole_def)
  next
    case False
    with takeWhile_digits [OF r, of n] eq show ?thesis by (simp add: scan_whole_def)
  qed
qed

lemma scan_number_dec: "num_end r \<Longrightarrow> scan_number (dec_int i @ r) = Some (PInt i, r)"
proof -
  assume r: "num_end r"
  have nofrac: "scan_frac r = ([], r)" "scan_exp r = ([], r)"
    using r by (cases r; simp add: num_end_def scan_frac_def scan_exp_def)+
  have pos: "expect 45 (dec_nat n @ r) = None" for n
    by (rule dec_nat_first [of n]) (auto simp: is_digit_def)
  show ?thesis
  proof (cases "i < 0")
    case True
    then show ?thesis
      by (simp add: scan_number_def dec_int_def scan_whole_dec [OF r] nofrac digits_value_dec_nat)
  next
    case False
    then show ?thesis
      by (simp add: scan_number_def dec_int_def pos scan_whole_dec [OF r] nofrac digits_value_dec_nat)
  qed
qed

lemma scan_word_no: "w \<noteq> [] \<Longrightarrow> of_char (hd w) \<noteq> c \<Longrightarrow> scan_word w (c # s) = None"
  by (cases w) (auto simp: scan_word_def starts_with_def lit_simps)

lemma scan_word_minus: "c \<noteq> 73 \<Longrightarrow> scan_word ''-Infinity'' (45 # c # s) = None"
  by (simp add: scan_word_def starts_with_def lit_words)

lemma scan_atom_int: "num_end r \<Longrightarrow> scan_atom h (dec_int i @ r) = Inr (PInt i, r)"
proof -
  assume r: "num_end r"
  have "scan_word w (dec_int i @ r) = None"
    if w: "w \<in> {''null'', ''true'', ''false'', ''NaN'', ''Infinity'', ''-Infinity''}" for w
  proof (cases "i < 0")
    case True
    obtain c cs where eq: "dec_nat (nat (- i)) = c # cs" and d: "is_digit c"
      by (rule dec_nat_first [of "nat (- i)"])
    then have "c \<noteq> 73" by (simp add: is_digit_def)
    with True w eq show ?thesis by (auto simp: dec_int_def scan_word_minus scan_word_no)
  next
    case False
    obtain c cs where eq: "dec_nat (nat i) = c # cs" and d: "is_digit c"
      by (rule dec_nat_first [of "nat i"])
    with False w show ?thesis by (auto simp: dec_int_def scan_word_no is_digit_def)
  qed
  then show ?thesis by (simp add: scan_atom_def scan_number_dec [OF r])
qed

lemma render_first:
  assumes "json_ok a v"
  obtains c cs where "render f v = c # cs" and "\<not> is_json_space c" and "c \<noteq> 93" and "c \<noteq> 125"
proof -
  have "\<exists>c cs. render f v = c # cs \<and> \<not> is_json_space c \<and> c \<noteq> 93 \<and> c \<noteq> 125"
  proof (cases v)
    case (PInt i)
    obtain c cs where "dec_nat (nat i) = c # cs" "is_digit c" by (rule dec_nat_first)
    then show ?thesis using PInt by (auto simp: dec_int_def is_json_space_def is_digit_def)
  qed (use assms in \<open>auto simp: lit_words quote_def is_json_space_def split: list.splits\<close>)
  with that show thesis by blast
qed

lemma skip_ws_render: "json_ok a v \<Longrightarrow> skip_ws (render f v @ r) = render f v @ r"
  by (rule render_first [of a v f]) (simp_all add: skip_ws_def)

lemma expect_render:
  assumes "json_ok a v"
  shows "expect 93 (render f v @ r) = None" "expect 125 (render f v @ r) = None"
  using assms by (rule render_first [of a v f]; simp)+

lemma skip_ws_Cons [simp]: "\<not> is_json_space c \<Longrightarrow> skip_ws (c # s) = c # s"
  by (simp add: skip_ws_def)

lemma skip_ws_space [simp]: "skip_ws (32 # s) = skip_ws s"
  by (simp add: skip_ws_def is_json_space_def)

lemma not_json_space [simp]:
  "\<not> is_json_space 34" "\<not> is_json_space 44" "\<not> is_json_space 58" "\<not> is_json_space 91"
  "\<not> is_json_space 93" "\<not> is_json_space 123" "\<not> is_json_space 125"
  by (simp_all add: is_json_space_def)

lemma num_end_render:
  "fmt_ok f \<Longrightarrow> num_end (render_elems f xs @ r)" "fmt_ok f \<Longrightarrow> num_end (render_items f d @ r)"
  by (cases xs; auto simp: num_end_def fmt_ok_def is_digit_def)
    (cases d; auto simp: num_end_def fmt_ok_def is_digit_def)

lemma scan_atom_words:
  "scan_atom h (lit ''null'' @ r) = Inr (PNone, r)"
  "scan_atom h (lit ''true'' @ r) = Inr (PBool True, r)"
  "scan_atom h (lit ''false'' @ r) = Inr (PBool False, r)"
  by (simp_all add: scan_atom_def scan_word_def starts_with_def lit_words)

lemma parse_elems_step:
  assumes "parse_value h n s = Inr (v, t)"
  shows "parse_elems h (Suc n) s =
     (case expect 93 (skip_ws t) of
         Some r' \<Rightarrow> Inr ([v], r')
       | None \<Rightarrow>
           (case expect 44 (skip_ws t) of
              None \<Rightarrow> Inl json_error
            | Some r' \<Rightarrow> rbind (parse_elems h n (skip_ws r')) (\<lambda>(vs, r''). Inr (v # vs, r''))))"
  using assms by simp

lemma parse_pairs_step:
  assumes "fmt_ok f" and "str_ok (ensure_ascii f) k" and "json_ok (ensure_ascii f) v"
    and "parse_value h n (render f v @ t) = Inr (v, t)"
  shows "parse_pairs h (Suc n) (quote (ensure_ascii f) k @ key_sep f @ render f v @ t) =
     (case expect 125 (skip_ws t) of
         Some r3 \<Rightarrow> Inr ([(k, v)], r3)
       | None \<Rightarrow>
           (case expect 44 (skip_ws t) of
              None \<Rightarrow> Inl json_error
            | Some r3 \<Rightarrow> rbind (parse_pairs h n (skip_ws r3)) (\<lambda>(ps, r4). Inr ((k, v) # ps, r4))))"
proof -
  have q: "expect 34 (quote (ensure_ascii f) k @ key_sep f @ render f v @ t) =
      Some (escape (ensure_ascii f) k @ 34 # key_sep f @ render f v @ t)"
    by (simp add: quote_def)
  have "expect 58 (skip_ws (key_sep f @ render f v @ t)) =
      Some (drop 1 (key_sep f) @ render f v @ t)"
    and "skip_ws (drop 1 (key_sep f) @ render f v @ t) = render f v @ t"
    using assms(1) skip_ws_render [OF assms(3), of f t] by (auto simp: fmt_ok_def)
  with assms(4) show ?thesis
    by (simp only: parse_pairs.simps q option.case scan_string_escape [OF assms(2)] rbind_simps prod.case)
qed

lemma after_item_sep:
  assumes "fmt_ok f" and "skip_ws t = t" and "expect 44 t = None"
  shows "skip_ws (item_sep f @ t) = item_sep f @ t" and "expect 93 (item_sep f @ t) = None"
    and "expect 125 (item_sep f @ t) = None"
    and "\<exists>u. expect 44 (item_sep f @ t) = Some u \<and> skip_ws u = t"
  using assms by (auto simp: fmt_ok_def)

lemma quote_first [simp]:
  "skip_ws (quote a k @ t) = quote a k @ t" "expect 44 (quote a k @ t) = None"
  "expect 125 (quote a k @ t) = None"
  by (simp_all add: quote_def)

lemma expect_comma_render: "json_ok a v \<Longrightarrow> expect 44 (render f v @ t) = None"
proof (cases v)
  case (PInt i)
  obtain c cs where "dec_nat (nat i) = c # cs" "is_digit c" by (rule dec_nat_first)
  then show ?thesis using PInt by (auto simp: dec_int_def is_digit_def)
qed (auto simp: lit_words quote_def split: list.splits)

lemma parse_value_atom:
  assumes "s = c # cs" and "c \<noteq> 34" and "c \<noteq> 123" and "c \<noteq> 91"
  shows "parse_value h (Suc n) s = scan_atom h s"
  using assms by simp

lemma parse_value_dec_int: "num_end r \<Longrightarrow> parse_value h (Suc n) (dec_int i @ r) = Inr (PInt i, r)"
proof -
  assume r: "num_end r"
  obtain c cs where "dec_nat (nat i) = c # cs" "is_digit c" by (rule dec_nat_first)
  then obtain e es where "dec_int i @ r = e # es" "e \<noteq> 34" "e \<noteq> 123" "e \<noteq> 91"
    by (cases "i < 0") (auto simp: dec_int_def is_digit_def)
  then show ?thesis using scan_atom_int [OF r, of h i] by simp
qed

lemma parse_value_list:
  assumes "expect 93 (skip_ws s) = None" and "parse_elems h n (skip_ws s) = Inr (xs, r)"
  shows "parse_value h (Suc n) (91 # s) = Inr (PList xs, r)"
  using assms by simp

lemma parse_value_dict:
  assumes "expect 125 (skip_ws s) = None" and "parse_pairs h n (skip_ws s) = Inr (d, r)"
    and "pairs_hook h d = Inr d"
  shows "parse_value h (Suc n) (123 # s) = Inr (PDict d, r)"
  using assms by simp

lemma parse_render:
  assumes h: "hook_ok h"
  shows "fmt_ok f \<Longrightarrow> json_ok (ensure_ascii f) v \<Longrightarrow> num_end r \<Longrightarrow>
      length (render f v) < n \<Longrightarrow> parse_value h n (render f v @ r) = Inr (v, r)"
    and "fmt_ok f \<Longrightarrow> list_all (json_ok (ensure_ascii f)) xs \<Longrightarrow>
      length (render_elems f xs) < n \<Longrightarrow>
      parse_value h n s = Inr (v0, render_elems f xs @ r) \<Longrightarrow>
      parse_elems h (Suc n) s = Inr (v0 # xs, r)"
    and "fmt_ok f \<Longrightarrow>
      list_all (\<lambda>(k, v). str_ok (ensure_ascii f) k \<and> json_ok (ensure_ascii f) v) d \<Longrightarrow>
      str_ok (ensure_ascii f) k0 \<Longrightarrow> json_ok (ensure_ascii f) v0 \<Longrightarrow>
      length (render_items f d) < n \<Longrightarrow>
      parse_value h n (render f v0 @ render_items f d @ r) = Inr (v0, render_items f d @ r) \<Longrightarrow>
      parse_pairs h (Suc n) (quote (ensure_ascii f) k0 @ key_sep f @ render f v0 @ render_items f d @ r)
        = Inr ((k0, v0) # d, r)"
proof (induction f v and f xs and f d arbitrary: r n and r n s v0 and r n k0 v0
    rule: render_render_elems_render_items.induct)
  case (1 f)
  then obtain m where "n = Suc m" by (cases n) auto
  then show ?case using scan_atom_words(1) [of h r] by (simp add: lit_words)
next
  case (2 f b)
  then obtain m where "n = Suc m" by (cases n) auto
  then show ?case using scan_atom_words(2,3) [of h r] by (simp add: lit_words)
next
  case (3 f i)
  then obtain m where "n = Suc m" by (cases n) auto
  with 3 show ?case by (simp only: render.simps parse_value_dec_int)
next
  case (4 f t)
  then show ?case by simp
next
  case (5 f s)
  then obtain m where "n = Suc m" by (cases n) auto
  with 5 show ?case by (simp add: quote_def scan_string_escape)
next
  case (6 f xs)
  show ?case
  proof (cases xs)
    case Nil
    with 6 show ?thesis by (cases n) (auto simp: lit_words)
  next
    case (Cons x ys)
    obtain m where m: "n = Suc (Suc m)" and lx: "length (render f x) < m"
      and ly: "length (render_elems f ys) < m"
    proof -
      have "length (render_elems f ys) \<ge> 1" by (cases ys) (use 6(3) in \<open>auto simp: fmt_ok_def\<close>)
      moreover have "length (render f x) \<ge> 1"
        using render_first [of "ensure_ascii f" x f] 6(4) Cons by fastforce
      ultimately show ?thesis using 6(6) Cons that [of "n - 2"] by simp
    qed
    have ok: "json_ok (ensure_ascii f) x" "list_all (json_ok (ensure_ascii f)) ys" using 6(4) Cons by auto
    have "parse_value h m (render f x @ render_elems f ys @ r) = Inr (x, render_elems f ys @ r)"
      using 6(1) [OF Cons 6(3) ok(1) num_end_render(1) [OF 6(3)] lx] .
    from 6(2) [OF Cons 6(3) ok(2) ly this]
    have "parse_elems h (Suc m) (render f x @ render_elems f ys @ r) = Inr (x # ys, r)" .
    then show ?thesis
      using Cons m parse_value_list [of "render f x @ render_elems f ys @ r" h "Suc m"]
      by (simp add: skip_ws_render [OF ok(1)] expect_render [OF ok(1)] del: parse_value.simps parse_elems.simps)
  qed
next
  case (7 f d)
  show ?case
  proof (cases d)
    case Nil
    with 7 h show ?thesis by (cases n) (auto simp: lit_words hook_ok_def)
  next
    case (Cons kv e)
    obtain k v where kv: "kv = (k, v)" by (cases kv)
    obtain m where m: "n = Suc (Suc m)" and lv: "length (render f v) < m"
      and le: "length (render_items f e) < m"
      using 7(6) Cons kv that [of "n - 2"] by (simp add: quote_def)
    have ok: "str_ok (ensure_ascii f) k" "json_ok (ensure_ascii f) v"
      "list_all (\<lambda>(k, v). str_ok (ensure_ascii f) k \<and> json_ok (ensure_ascii f) v) e"
      using 7(4) Cons kv by auto
    have "parse_value h m (render f v @ render_items f e @ r) = Inr (v, render_items f e @ r)"
      using 7(1) [OF Cons kv [symmetric] 7(3) ok(2) num_end_render(2) [OF 7(3)] lv] .
    from 7(2) [OF Cons kv [symmetric] 7(3) ok(3,1,2) le this]
    have "parse_pairs h (Suc m) (quote (ensure_ascii f) k @ key_sep f @ render f v @ render_items f e @ r) =
        Inr (d, r)" by (simp add: Cons kv)
    moreover have "pairs_hook h d = Inr d" using h 7(4) by (simp add: hook_ok_def)
    ultimately show ?thesis
      using Cons kv m parse_value_dict [of "quote (ensure_ascii f) k @ key_sep f @ render f v @ render_items f e @ r" h "Suc m"]
      by (simp del: parse_value.simps parse_pairs.simps)
  qed
next
  case (8 f)
  then show ?case by (simp add: parse_elems_step del: parse_elems.simps)
next
  case (9 f x xs)
  have ok: "json_ok (ensure_ascii f) x" "list_all (json_ok (ensure_ascii f)) xs" using 9(4) by auto
  obtain m where m: "n = Suc m" and lx: "length (render f x) < m" and ly: "length (render_elems f xs) < m"
  proof -
    have "length (render_elems f xs) \<ge> 1" by (cases xs) (use 9(3) in \<open>auto simp: fmt_ok_def\<close>)
    moreover have "length (render f x) \<ge> 1" "length (item_sep f) \<ge> 1"
      using render_first [of "ensure_ascii f" x f] ok(1) 9(3) by (fastforce simp: fmt_ok_def)+
    ultimately show ?thesis using 9(5) that [of "n - 1"] by simp
  qed
  have "parse_value h m (render f x @ render_elems f xs @ r) = Inr (x, render_elems f xs @ r)"
    using 9(1) [OF 9(3) ok(1) num_end_render(1) [OF 9(3)] lx] .
  from 9(2) [OF 9(3) ok(2) ly this]
  have el: "parse_elems h (Suc m) (render f x @ render_elems f xs @ r) = Inr (x # xs, r)" .
  have v: "parse_value h n s = Inr (v0, item_sep f @ render f x @ render_elems f xs @ r)"
    using 9(6) by simp
  let ?t = "render f x @ render_elems f xs @ r"
  have "skip_ws ?t = ?t" "expect 44 ?t = None"
    by (rule skip_ws_render [OF ok(1)], rule expect_comma_render [OF ok(1)])
  from after_item_sep [OF 9(3) this] obtain u where
    "skip_ws (item_sep f @ ?t) = item_sep f @ ?t" "expect 93 (item_sep f @ ?t) = None"
    "expect 44 (item_sep f @ ?t) = Some u" "skip_ws u = ?t" by blast
  moreover have "parse_elems h n ?t = Inr (x # xs, r)" using el by (simp only: m)
  ultimately show ?case
    by (simp only: parse_elems_step [OF v] option.case rbind_simps prod.case)
next
  case (10 f)
  then show ?case
    using parse_pairs_step [of f k0 v0 h n "125 # r"] by (simp del: parse_pairs.simps)
next
  case (11 f k v d)
  have ok: "str_ok (ensure_ascii f) k" "json_ok (ensure_ascii f) v"
    "list_all (\<lambda>(k, v). str_ok (ensure_ascii f) k \<and> json_ok (ensure_ascii f) v) d"
    using 11(4) by auto
  obtain m where m: "n = Suc m" and lx: "length (render f v) < m" and ly: "length (render_items f d) < m"
  proof -
    have "length (render_items f d) \<ge> 1" by (cases d) (use 11(3) in \<open>auto simp: fmt_ok_def\<close>)
    then show ?thesis using 11(7) that [of "n - 1"] by (simp add: quote_def)
  qed
  have "parse_value h m (render f v @ render_items f d @ r) = Inr (v, render_items f d @ r)"
    using 11(1) [OF 11(3) ok(2) num_end_render(2) [OF 11(3)] lx] .
  from 11(2) [OF 11(3) ok(3,1,2) ly this]
  have el: "parse_pairs h (Suc m) (quote (ensure_ascii f) k @ key_sep f @ render f v @ render_items f d @ r) =
      Inr ((k, v) # d, r)" .
  let ?t = "quote (ensure_ascii f) k @ key_sep f @ render f v @ render_items f d @ r"
  have v: "parse_value h n (render f v0 @ item_sep f @ ?t) = Inr (v0, item_sep f @ ?t)"
    using 11(8) by simp
  from after_item_sep [OF 11(3), of ?t]
  show ?case using el m parse_pairs_step [OF 11(3,5,6) v] by (fastforce simp del: parse_pairs.simps)
qed

theorem json_roundtrip:
  assumes "fmt_ok f" and "hook_ok h" and "json_ok (ensure_ascii f) v"
  shows "json_loads h (render f v) = Inr v"
proof -
  have "parse_value h (Suc (2 * length (render f v))) (render f v @ []) = Inr (v, [])"
    using assms by (intro parse_render(1)) (simp_all add: num_end_def)
  moreover have "skip_ws (render f v) = render f v"
    using skip_ws_render [OF assms(3), of f "[]"] by simp
  ultimately show ?thesis by (simp add: json_loads_def skip_ws_def del: parse_value.simps)
qed

text \<open>With \<open>ensure_ascii\<close> the text is ASCII.\<close>

lemma hex_digit_ascii: "n < 16 \<Longrightarrow> hex_digit n < 128" by (auto simp: hex_digit_def)

lemma u_escape_ascii: "x \<in> set (u_escape c) \<Longrightarrow> x < 128"
  by (auto simp: u_escape_def hex_digit_ascii)

lemma escape_char_ascii: "x \<in> set (escape_char True c) \<Longrightarrow> x < 128"
  by (auto simp: escape_char_def Let_def dest: u_escape_ascii split: if_splits)

lemma dec_int_ascii: "x \<in> set (dec_int i) \<Longrightarrow> x < 128"
  by (auto simp: dec_int_def is_digit_def dest!: dec_nat_digits split: if_splits)

lemma render_ascii:
  "fmt_ok f \<Longrightarrow> ensure_ascii f \<Longrightarrow> json_ok a v \<Longrightarrow> c \<in> set (render f v) \<Longrightarrow> c < 128"
  "fmt_ok f \<Longrightarrow> ensure_ascii f \<Longrightarrow> list_all (json_ok a) xs \<Longrightarrow> c \<in> set (render_elems f xs) \<Longrightarrow> c < 128"
  "fmt_ok f \<Longrightarrow> ensure_ascii f \<Longrightarrow> list_all (\<lambda>(k, v). str_ok a k \<and> json_ok a v) d \<Longrightarrow> c \<in> set (render_items f d) \<Longrightarrow> c < 128"
  by (induction f v and f xs and f d rule: render_render_elems_render_items.induct)
    (auto simp: fmt_ok_def lit_simps quote_def escape_def dest: escape_char_ascii dec_int_ascii split: if_splits list.splits)
lemma utf8_encode_render:
  "fmt_ok f \<Longrightarrow> ensure_ascii f \<Longrightarrow> json_ok a v \<Longrightarrow>
     utf8_encode (render f v) = Some (map byte (render f v))"
  by (rule utf8_encode_ascii) (rule render_ascii(1))

section \<open>The fuel is enough\<close>

lemma scan_string_shorter: "scan_string s = Inr (t, r) \<Longrightarrow> length r < length s"
proof (induction s arbitrary: t rule: scan_string.induct)
  case (2 c cs)
  then show ?case
    by (fastforce split: if_splits option.splits prod.splits dest: scan_escape_shorter)
qed simp

lemma length_skip_ws: "length (skip_ws s) \<le> length s"
  by (simp add: skip_ws_def length_dropWhile_le)

lemma scan_digits_length: "scan_digits s = (ds, r) \<Longrightarrow> length r \<le> length s"
  by (auto simp: scan_digits_def length_dropWhile_le)

lemma scan_whole_length: "scan_whole s = (ds, r) \<Longrightarrow> length r \<le> length s"
  by (auto simp: scan_whole_def split: list.splits if_splits dest: scan_digits_length)

lemma scan_frac_length: "scan_frac s = (ds, r) \<Longrightarrow> length r \<le> length s"
  by (fastforce simp: scan_frac_def Let_def split: option.splits if_splits prod.splits
      dest: expect_shorter scan_digits_length)

lemma scan_exp_length: "scan_exp s = (ds, r) \<Longrightarrow> length r \<le> length s"
  by (fastforce simp: scan_exp_def Let_def split: list.splits if_splits prod.splits
      dest: scan_digits_length)

lemma scan_number_length: "scan_number s = Some (v, r) \<Longrightarrow> length r \<le> length s"
proof -
  assume *: "scan_number s = Some (v, r)"
  define s1 where "s1 = (case expect 45 s of None \<Rightarrow> s | Some u \<Rightarrow> u)"
  have s1: "length s1 \<le> length s"
    by (auto simp: s1_def split: option.splits dest: expect_shorter)
  obtain ds s2 where w: "scan_whole s1 = (ds, s2)" by (cases "scan_whole s1")
  obtain fr s3 where f: "scan_frac s2 = (fr, s3)" by (cases "scan_frac s2")
  obtain ex s4 where e: "scan_exp s3 = (ex, s4)" by (cases "scan_exp s3")
  have "r = s2 \<or> r = s4"
    using * w f e by (auto simp: scan_number_def Let_def s1_def split: option.splits if_splits)
  then show ?thesis
    using s1 scan_whole_length [OF w] scan_frac_length [OF f] scan_exp_length [OF e] by auto
qed

lemma scan_word_length: "scan_word w s = Some r \<Longrightarrow> length r \<le> length s"
  by (auto simp: scan_word_def split: if_splits)

lemma scan_atom_length: "scan_atom h s = Inr (v, r) \<Longrightarrow> length r \<le> length s"
  by (auto simp: scan_atom_def split: option.splits dest: scan_word_length scan_number_length)

lemma parse_length:
  "parse_value h n s = Inr (v, r) \<Longrightarrow> length r \<le> length s"
  "parse_elems h n s = Inr (vs, r) \<Longrightarrow> length r \<le> length s"
  "parse_pairs h n s = Inr (ps, r) \<Longrightarrow> length r \<le> length s"
proof (induction h n s and h n s and h n s arbitrary: v r and vs r and ps r
    rule: parse_value_parse_elems_parse_pairs.induct)
  case (2 h n s)
  then show ?case
    using length_skip_ws [of "tl s"]
    by (fastforce split: list.splits if_splits option.splits
        dest: scan_string_shorter expect_shorter scan_atom_length)
next
  case (4 h n s)
  then obtain v r1 where v: "parse_value h n s = Inr (v, r1)" by auto
  have r1: "length r1 \<le> length s" using 4(1) [OF v] .
  show ?case
  proof (cases "expect 93 (skip_ws r1)")
    case None
    with 4(3) v obtain r2 vs' where r2: "expect 44 (skip_ws r1) = Some r2"
      and el: "parse_elems h n (skip_ws r2) = Inr (vs', r)" by (auto split: option.splits)
    have "length r \<le> length (skip_ws r2)" using 4(2) [OF None r2 el] .
    then show ?thesis
      using expect_shorter [OF r2] length_skip_ws [of r1] length_skip_ws [of r2] r1 by linarith
  next
    case (Some r2)
    with 4(3) v have "r = r2" by auto
    then show ?thesis using expect_shorter [OF Some] length_skip_ws [of r1] r1 by simp
  qed
next
  case (6 h n s)
  obtain cs where cs: "expect 34 s = Some cs" using 6(3) by (auto split: option.splits)
  obtain k r0 where k: "scan_string cs = Inr (k, r0)" using 6(3) cs by auto
  obtain r1 where r1: "expect 58 (skip_ws r0) = Some r1"
    using 6(3) cs k by (auto split: option.splits)
  obtain v r2 where v: "parse_value h n (skip_ws r1) = Inr (v, r2)"
    using 6(3) cs k r1 by auto
  have "length r2 \<le> length (skip_ws r1)" using 6(1) [OF cs r1 v] .
  then have r2: "length r2 \<le> length s"
    using length_skip_ws [of r1] length_skip_ws [of r0] expect_shorter [OF r1]
      scan_string_shorter [OF k] expect_shorter [OF cs] by linarith
  show ?case
  proof (cases "expect 125 (skip_ws r2)")
    case None
    with 6(3) cs k r1 v obtain r3 ps' where r3: "expect 44 (skip_ws r2) = Some r3"
      and el: "parse_pairs h n (skip_ws r3) = Inr (ps', r)" by (auto split: option.splits)
    have "length r \<le> length (skip_ws r3)" using 6(2) [OF cs r1 None r3 el] .
    then show ?thesis
      using expect_shorter [OF r3] length_skip_ws [of r2] length_skip_ws [of r3] r2 by linarith
  next
    case (Some r3)
    with 6(3) cs k r1 v have "r = r3" by auto
    then show ?thesis using expect_shorter [OF Some] length_skip_ws [of r2] r2 by simp
  qed
qed auto

text \<open>Hooks that do not themselves answer with the model's fuel error.\<close>

definition hook_total :: "json_hooks \<Rightarrow> bool" where
  "hook_total h \<longleftrightarrow> (\<forall>d. pairs_hook h d \<noteq> Inl out_of_fuel) \<and> (\<forall>c. constant_hook h c \<noteq> Inl out_of_fuel)"

lemma json_error_not_fuel [simp]: "json_error \<noteq> out_of_fuel" "out_of_fuel \<noteq> json_error"
  by (simp_all add: json_error_def out_of_fuel_def)

lemma scan_string_total: "scan_string s \<noteq> Inl out_of_fuel"
  by (induction s rule: scan_string.induct)
    (auto simp: rbind_Inl_iff split: option.splits prod.splits)

lemma scan_atom_total: "hook_total h \<Longrightarrow> scan_atom h s \<noteq> Inl out_of_fuel"
  by (auto simp: scan_atom_def hook_total_def rbind_Inl_iff split: option.splits)

lemma parse_total_step:
  assumes h: "hook_total h"
    and val: "\<And>s. 2 * length s < n \<Longrightarrow> parse_value h n s \<noteq> Inl out_of_fuel"
    and els: "\<And>s. 2 * length s + 1 < n \<Longrightarrow> parse_elems h n s \<noteq> Inl out_of_fuel"
    and prs: "\<And>s. 2 * length s + 1 < n \<Longrightarrow> parse_pairs h n s \<noteq> Inl out_of_fuel"
  shows "2 * length s < Suc n \<Longrightarrow> parse_value h (Suc n) s \<noteq> Inl out_of_fuel"
    and "2 * length s + 1 < Suc n \<Longrightarrow> parse_elems h (Suc n) s \<noteq> Inl out_of_fuel"
    and "2 * length s + 1 < Suc n \<Longrightarrow> parse_pairs h (Suc n) s \<noteq> Inl out_of_fuel"
proof -
  assume len: "2 * length s < Suc n"
  show "parse_value h (Suc n) s \<noteq> Inl out_of_fuel"
  proof (cases s)
    case (Cons c cs)
    have "2 * length (skip_ws cs) + 1 < n" using len Cons length_skip_ws [of cs] by simp
    then have "parse_elems h n (skip_ws cs) \<noteq> Inl out_of_fuel"
      "parse_pairs h n (skip_ws cs) \<noteq> Inl out_of_fuel" by (rule els, rule prs)
    then show ?thesis
      using Cons h scan_string_total [of cs] scan_atom_total [OF h, of s]
      by (auto simp: rbind_Inl_iff hook_total_def split: option.splits if_splits)
  qed simp
next
  assume len: "2 * length s + 1 < Suc n"
  have rest: "parse_elems h n (skip_ws r') \<noteq> Inl out_of_fuel"
    if "parse_value h n s = Inr (v, r)" "expect 44 (skip_ws r) = Some r'" for v r r'
  proof -
    have "length (skip_ws r') < length s"
      using parse_length(1) [OF that(1)] expect_shorter [OF that(2)] length_skip_ws [of r]
        length_skip_ws [of r'] by linarith
    with len show ?thesis by (intro els) simp
  qed
  show "parse_elems h (Suc n) s \<noteq> Inl out_of_fuel"
    using val [of s] len by (auto simp: rbind_Inl_iff split: option.splits dest!: rest)
next
  assume len: "2 * length s + 1 < Suc n"
  have value1: "parse_value h n (skip_ws r1) \<noteq> Inl out_of_fuel"
    if "expect 34 s = Some cs" "scan_string cs = Inr (k, r)" "expect 58 (skip_ws r) = Some r1"
    for cs k r r1
  proof -
    have "length (skip_ws r1) < length s"
      using expect_shorter [OF that(1)] scan_string_shorter [OF that(2)] expect_shorter [OF that(3)]
        length_skip_ws [of r] length_skip_ws [of r1] by linarith
    with len show ?thesis by (intro val) simp
  qed
  have rest: "parse_pairs h n (skip_ws r3) \<noteq> Inl out_of_fuel"
    if "expect 34 s = Some cs" "scan_string cs = Inr (k, r)" "expect 58 (skip_ws r) = Some r1"
      "parse_value h n (skip_ws r1) = Inr (v, r2)" "expect 44 (skip_ws r2) = Some r3"
    for cs k r r1 v r2 r3
  proof -
    have "length (skip_ws r3) < length s"
      using expect_shorter [OF that(1)] scan_string_shorter [OF that(2)] expect_shorter [OF that(3)]
        length_skip_ws [of r] length_skip_ws [of r1] parse_length(1) [OF that(4)]
        expect_shorter [OF that(5)] length_skip_ws [of r2] length_skip_ws [of r3] by linarith
    with len show ?thesis by (intro prs) simp
  qed
  show "parse_pairs h (Suc n) s \<noteq> Inl out_of_fuel"
    using scan_string_total
    by (auto simp: rbind_Inl_iff split: option.splits dest: value1 rest)
qed

lemma parse_total_all:
  "hook_total h \<Longrightarrow>
     (\<forall>s. 2 * length s < n \<longrightarrow> parse_value h n s \<noteq> Inl out_of_fuel) \<and>
     (\<forall>s. 2 * length s + 1 < n \<longrightarrow> parse_elems h n s \<noteq> Inl out_of_fuel) \<and>
     (\<forall>s. 2 * length s + 1 < n \<longrightarrow> parse_pairs h n s \<noteq> Inl out_of_fuel)"
proof (induction n)
  case (Suc n)
  then have *: "\<And>s. 2 * length s < n \<Longrightarrow> parse_value h n s \<noteq> Inl out_of_fuel"
    "\<And>s. 2 * length s + 1 < n \<Longrightarrow> parse_elems h n s \<noteq> Inl out_of_fuel"
    "\<And>s. 2 * length s + 1 < n \<Longrightarrow> parse_pairs h n s \<noteq> Inl out_of_fuel" by blast+
  show ?case using parse_total_step [OF Suc.prems *] by blast
qed simp

lemma parse_total:
  assumes "hook_total h"
  shows "2 * length s < n \<Longrightarrow> parse_value h n s \<noteq> Inl out_of_fuel"
  using parse_total_all [OF assms] by blast

theorem json_loads_fuel: "hook_total h \<Longrightarrow> json_loads h s \<noteq> Inl out_of_fuel"
proof -
  assume h: "hook_total h"
  have "2 * length (skip_ws s) < Suc (2 * length s)" using length_skip_ws [of s] by simp
  from parse_total [OF h this] show ?thesis
    by (auto simp: json_loads_def rbind_Inl_iff simp del: parse_value.simps)
qed

section \<open>Sorted keys\<close>

lemma distinct_sort_items:
  "distinct (map fst d) \<Longrightarrow> distinct (map fst (sort_key fst (d :: (pystr \<times> 'a) list)))"
  by (simp add: distinct_map)

lemma map_of_sort_items:
  "distinct (map fst d) \<Longrightarrow> map_of (sort_key fst d) = map_of (d :: (pystr \<times> 'a) list)"
  by (simp add: map_of_inject_set distinct_sort_items)

lemma map_fst_map_snd: "map fst (map (\<lambda>(k, v). (k, g v)) d) = map fst d"
  by (induction d) auto

lemma map_of_map_snd: "map_of (map (\<lambda>(k, v). (k, g v)) d) k = map_option g (map_of d k)"
  by (induction d) auto

text \<open>Sorting keeps every field.\<close>

lemma map_of_items_sort_keys:
  assumes "wf_py v"
  shows "map_of (items (sort_keys v)) k = map_option sort_keys (map_of (items v) k)"
proof (cases v)
  case (PDict d)
  with assms have "distinct (map fst (map (\<lambda>(k, v). (k, sort_keys v)) d))"
    by (simp only: map_fst_map_snd wf_py.simps)
  then show ?thesis using PDict by (simp add: map_of_sort_items map_of_map_snd)
qed simp_all

lemma field_sort_keys: "wf_py v \<Longrightarrow> field (sort_keys v) k = sort_keys (field v k)"
  by (simp add: field_def map_of_items_sort_keys split: option.splits)

lemma wf_sort_keys: "wf_py v \<Longrightarrow> wf_py (sort_keys v)"
proof (induction v rule: sort_keys.induct)
  case (2 d)
  then have "distinct (map fst (map (\<lambda>(k, v). (k, sort_keys v)) d))"
    by (simp only: map_fst_map_snd wf_py.simps)
  with 2 show ?case by (auto simp: distinct_sort_items list_all_iff)
qed (auto simp: list_all_iff)

lemma json_ok_sort_keys: "json_ok a v \<Longrightarrow> json_ok a (sort_keys v)"
proof (induction v rule: sort_keys.induct)
  case (2 d)
  then have "distinct (map fst (map (\<lambda>(k, v). (k, sort_keys v)) d))"
    by (simp only: map_fst_map_snd json_ok.simps)
  with 2 show ?case by (auto simp: distinct_sort_items list_all_iff)
qed (auto simp: list_all_iff)

lemma json_ok_wf: "json_ok a v \<Longrightarrow> wf_py v"
  by (induction v rule: wf_py.induct) (auto simp: list_all_iff)

lemma sort_keys_idem: "wf_py v \<Longrightarrow> sort_keys (sort_keys v) = sort_keys v"
proof (induction v rule: sort_keys.induct)
  case (2 d)
  let ?e = "sort_key fst (map (\<lambda>(k, v). (k, sort_keys v)) d)"
  have "map (\<lambda>(k, v). (k, sort_keys v)) ?e = ?e"
    using 2 by (intro map_idI) (auto simp: list_all_iff)
  then show ?case by (simp add: sort_key_id_if_sorted)
qed (auto simp: list_all_iff)

lemma py_eq_list_map:
  "(\<And>x. x \<in> set xs \<Longrightarrow> py_eq (g x) x) \<Longrightarrow> py_eq_list (map g xs) xs"
  by (induction xs) auto

text \<open>A sorted copy is the same value to \<open>==\<close>.\<close>

lemma py_eq_sort_keys: "wf_py v \<Longrightarrow> py_eq (sort_keys v) v"
proof (induction v rule: sort_keys.induct)
  case (1 xs)
  then show ?case by (auto simp: list_all_iff intro: py_eq_list_map)
next
  case (2 d)
  have "map_of d k = Some v" if "(k, v) \<in> set d" for k v using 2(2) that by simp
  then show ?case using 2 by (fastforce simp: py_eq_items_iff list_all_iff)
qed (auto simp: py_eq_refl)

end
