(* ===== verification/Py_Base64.thy ===== *)
theory Py_Base64
  imports Py_Text
begin

text \<open>
  \<open>base64.b64encode(data).decode()\<close> and \<open>base64.b64decode(text, validate=True)\<close>.  The decoder is the
  state machine of CPython's \<^verbatim>\<open>binascii.a2b_base64\<close> in strict mode (Python 3.11): the position in the
  quad, the bits left over, the padding characters counted after position 2, and whether padding
  has been seen.  It accepts non-canonical trailing bits, as CPython does.  \<open>binascii.Error\<close> is a
  ValueError.
\<close>

definition b64_char :: "nat \<Rightarrow> nat" where
  "b64_char v =
     (if v < 26 then 65 + v else if v < 52 then 71 + v else if v < 62 then v - 4
      else if v = 62 then 43 else 47)"

definition b64_value :: "nat \<Rightarrow> nat option" where
  "b64_value c =
     (if 65 \<le> c \<and> c \<le> 90 then Some (c - 65)
      else if 97 \<le> c \<and> c \<le> 122 then Some (c - 71)
      else if 48 \<le> c \<and> c \<le> 57 then Some (c + 4)
      else if c = 43 then Some 62
      else if c = 47 then Some 63
      else None)"

lemma b64_value_char [simp]: "v < 64 \<Longrightarrow> b64_value (b64_char v) = Some v"
  by (auto simp: b64_value_def b64_char_def)

lemma b64_char_not_pad [simp]: "b64_char v \<noteq> 61"
  by (auto simp: b64_char_def)

fun b64encode :: "bytes \<Rightarrow> pystr" where
  "b64encode [] = []"
| "b64encode [a] = [b64_char (unat a div 4), b64_char (unat a mod 4 * 16), 61, 61]"
| "b64encode [a, b] =
     [b64_char (unat a div 4), b64_char (unat a mod 4 * 16 + unat b div 16),
      b64_char (unat b mod 16 * 4), 61]"
| "b64encode (a # b # c # r) =
     b64_char (unat a div 4) # b64_char (unat a mod 4 * 16 + unat b div 16)
       # b64_char (unat b mod 16 * 4 + unat c div 64) # b64_char (unat c mod 64) # b64encode r"

definition binascii_error :: exn where
  "binascii_error = ValueError ''binascii.Error''"

fun b64_loop :: "nat \<Rightarrow> nat \<Rightarrow> nat \<Rightarrow> bool \<Rightarrow> pystr \<Rightarrow> exn + bytes" where
  "b64_loop q left pads started [] = (if q = 0 then Inr [] else Inl binascii_error)"
| "b64_loop q left pads started (c # cs) =
     (if c = 61 then
        (if 2 \<le> q \<and> 4 \<le> q + (pads + 1) then (if cs \<noteq> [] then Inl binascii_error else Inr [])
         else b64_loop q left (if 2 \<le> q then pads + 1 else pads) True cs)
      else
        (case b64_value c of
           None \<Rightarrow> Inl binascii_error
         | Some v \<Rightarrow>
             if started then Inl binascii_error
             else if q = 0 then b64_loop 1 v 0 started cs
             else if q = 1 then
               rbind (b64_loop 2 (v mod 16) 0 started cs) (\<lambda>r. Inr (byte (left * 4 + v div 16) # r))
             else if q = 2 then
               rbind (b64_loop 3 (v mod 4) 0 started cs) (\<lambda>r. Inr (byte (left * 16 + v div 4) # r))
             else
               rbind (b64_loop 0 0 0 started cs) (\<lambda>r. Inr (byte (left * 64 + v) # r))))"

definition b64decode :: "pystr \<Rightarrow> exn + bytes" where
  "b64decode s =
     (if list_ex (\<lambda>c. 128 \<le> c) s
      then Inl (ValueError ''string argument should contain only ASCII characters'')
      else if take 1 s = [61] then Inl binascii_error
      else b64_loop 0 0 0 False s)"

lemma byte_arith [simp]:
  "byte (unat (a :: 8 word) div 4 * 4 + unat a mod 4) = a"
  "byte (unat (a :: 8 word) div 16 * 16 + unat a mod 16) = a"
  "byte (unat (a :: 8 word) div 64 * 64 + unat a mod 64) = a"
  "byte (unat (a :: 8 word) mod 4 + 4 * (unat a div 4)) = a"
  "byte (unat (a :: 8 word) mod 16 + 16 * (unat a div 16)) = a"
  by (simp_all add: div_mult_mod_eq mod_mult_div_eq)

lemma unat_div_bounds:
  "unat (a :: 8 word) div 4 < 64" "unat a div 16 < 16" "unat a div 64 < 4"
  using unat_less_256 [of a] by simp_all

lemma b64_digit_bounds:
  "unat (a :: 8 word) mod 4 * 16 + unat (b :: 8 word) div 16 < 64"
  "unat b mod 16 * 4 + unat (c :: 8 word) div 64 < 64"
  "unat a mod 4 * 16 < 64" "unat b mod 16 * 4 < 64"
proof -
  have m: "unat a mod 4 < 4" "unat b mod 16 < 16" by simp_all
  then show "unat a mod 4 * 16 < 64" "unat b mod 16 * 4 < 64" by linarith+
  show "unat a mod 4 * 16 + unat b div 16 < 64" "unat b mod 16 * 4 + unat c div 64 < 64"
    using m unat_div_bounds(2) [of b] unat_div_bounds(3) [of c] by linarith+
qed

lemma b64_digit_parts:
  "(unat (a :: 8 word) mod 4 * 16 + unat (b :: 8 word) div 16) div 16 = unat a mod 4"
  "(unat (a :: 8 word) mod 4 * 16 + unat (b :: 8 word) div 16) mod 16 = unat b div 16"
  "(unat b mod 16 * 4 + unat (c :: 8 word) div 64) div 4 = unat b mod 16"
  "(unat b mod 16 * 4 + unat (c :: 8 word) div 64) mod 4 = unat c div 64"
  using unat_div_bounds(2) [of b] unat_div_bounds(3) [of c] by simp_all

lemma b64_loop_encode: "b64_loop 0 0 0 False (b64encode bs) = Inr bs"
  by (induction bs rule: b64encode.induct)
    (simp_all add: unat_div_bounds b64_digit_bounds b64_digit_parts)

lemma b64_char_ascii: "v < 64 \<Longrightarrow> b64_char v < 128"
  by (auto simp: b64_char_def)

lemma b64encode_ascii: "c \<in> set (b64encode bs) \<Longrightarrow> c < 128"
  by (induction bs rule: b64encode.induct)
    (auto simp: unat_div_bounds b64_digit_bounds b64_char_ascii)

lemma b64encode_not_pad: "take 1 (b64encode bs) \<noteq> [61]"
  by (cases bs rule: b64encode.cases) simp_all

theorem b64_roundtrip: "b64decode (b64encode bs) = Inr bs"
proof -
  have "\<not> list_ex (\<lambda>c. 128 \<le> c) (b64encode bs)"
    using b64encode_ascii [of _ bs] by (force simp: list_ex_iff)
  then show ?thesis by (simp add: b64decode_def b64encode_not_pad [simplified] b64_loop_encode)
qed

lemma length_b64encode: "length (b64encode bs) = 4 * ((length bs + 2) div 3)"
  by (induction bs rule: b64encode.induct) (simp_all, presburger)

lemma b64_loop_length:
  "b64_loop q left pads started s = Inr bs \<Longrightarrow> q < 4 \<Longrightarrow>
     4 * length bs \<le> 3 * length s + (if q = 0 then 0 else 4 - q)"
proof (induction s arbitrary: q left pads started bs)
  case (Cons c cs)
  show ?case
  proof (cases "c = 61")
    case True
    with Cons.prems(1) consider "bs = []"
      | "b64_loop q left (if 2 \<le> q then pads + 1 else pads) True cs = Inr bs"
      by (simp only: b64_loop.simps) (simp split: if_split_asm)
    then show ?thesis
    proof cases
      case 2
      from Cons.IH [OF 2 Cons.prems(2)] show ?thesis by simp
    qed simp
  next
    case False
    with Cons.prems(1) obtain v where v: "b64_value c = Some v" and st: "\<not> started"
      by (cases "b64_value c") (auto split: if_split_asm)
    define q' where "q' = (if q = 3 then 0 else Suc q)"
    have "\<exists>left' r. b64_loop q' left' 0 started cs = Inr r \<and>
        length bs = (if q = 0 then length r else Suc (length r))"
    proof -
      consider "q = 0" | "q = 1" | "q = 2" | "q = 3" using Cons.prems(2) by linarith
      then show ?thesis
      proof cases
        case 1
        with Cons.prems(1) False v st have "b64_loop 1 v 0 started cs = Inr bs" by simp
        with 1 show ?thesis by (auto simp: q'_def)
      next
        case 2
        with Cons.prems(1) False v st obtain x where
          "b64_loop 2 (v mod 16) 0 started cs = Inr x" "length bs = Suc (length x)" by auto
        moreover have "q' = 2" using 2 by (simp add: q'_def)
        ultimately show ?thesis using 2 by auto
      next
        case 3
        with Cons.prems(1) False v st obtain x where
          "b64_loop 3 (v mod 4) 0 started cs = Inr x" "length bs = Suc (length x)" by auto
        moreover have "q' = 3" using 3 by (simp add: q'_def)
        ultimately show ?thesis using 3 by auto
      next
        case 4
        with Cons.prems(1) False v st obtain x where
          "b64_loop 0 0 0 started cs = Inr x" "length bs = Suc (length x)" by auto
        moreover have "q' = 0" using 4 by (simp add: q'_def)
        ultimately show ?thesis using 4 by auto
      qed
    qed
    then obtain left' r where r: "b64_loop q' left' 0 started cs = Inr r"
      and len: "length bs = (if q = 0 then length r else Suc (length r))" by blast
    have "q' < 4" using Cons.prems(2) by (auto simp: q'_def)
    from Cons.IH [OF r this] len Cons.prems(2) show ?thesis
      by (auto simp: q'_def split: if_split_asm)
  qed
qed (simp split: if_split_asm)

lemma length_b64decode: "b64decode s = Inr bs \<Longrightarrow> 4 * length bs \<le> 3 * length s"
  using b64_loop_length [of 0 0 0 False s bs] by (auto simp: b64decode_def split: if_splits)

end
