(* ===== verification/Py_Sha256.thy ===== *)
theory Py_Sha256
  imports Py_Text
begin

unbundle bit_operations_syntax

text \<open>
  \<open>hashlib.sha256(data).hexdigest()\<close>, over 32-bit words with wrap-around addition.  Every digest the
  scripts compare, link or publish is this function, so it is computed, not assumed.
\<close>

type_synonym w32 = "32 word"

definition sha_k :: "w32 list" where
  "sha_k =
     [1116352408, 1899447441, 3049323471, 3921009573, 961987163, 1508970993, 2453635748, 2870763221,
      3624381080, 310598401, 607225278, 1426881987, 1925078388, 2162078206, 2614888103, 3248222580,
      3835390401, 4022224774, 264347078, 604807628, 770255983, 1249150122, 1555081692, 1996064986,
      2554220882, 2821834349, 2952996808, 3210313671, 3336571891, 3584528711, 113926993, 338241895,
      666307205, 773529912, 1294757372, 1396182291, 1695183700, 1986661051, 2177026350, 2456956037,
      2730485921, 2820302411, 3259730800, 3345764771, 3516065817, 3600352804, 4094571909, 275423344,
      430227734, 506948616, 659060556, 883997877, 958139571, 1322822218, 1537002063, 1747873779,
      1955562222, 2024104815, 2227730452, 2361852424, 2428436474, 2756734187, 3204031479, 3329325298]"

definition sha_h0 :: "w32 list" where
  "sha_h0 = [1779033703, 3144134277, 1013904242, 2773480762,
     1359893119, 2600822924, 528734635, 1541459225]"

definition big_sigma0 :: "w32 \<Rightarrow> w32" where
  "big_sigma0 x = word_rotr 2 x XOR word_rotr 13 x XOR word_rotr 22 x"

definition big_sigma1 :: "w32 \<Rightarrow> w32" where
  "big_sigma1 x = word_rotr 6 x XOR word_rotr 11 x XOR word_rotr 25 x"

definition small_sigma0 :: "w32 \<Rightarrow> w32" where
  "small_sigma0 x = word_rotr 7 x XOR word_rotr 18 x XOR drop_bit 3 x"

definition small_sigma1 :: "w32 \<Rightarrow> w32" where
  "small_sigma1 x = word_rotr 17 x XOR word_rotr 19 x XOR drop_bit 10 x"

text \<open>Padding to a multiple of 64 bytes: a one bit, zeros, and the bit length in 64 bits.\<close>

definition be_bytes :: "nat \<Rightarrow> nat \<Rightarrow> bytes" where
  "be_bytes n v = map (\<lambda>i. byte (v div 256 ^ i mod 256)) (rev [0..<n])"

definition sha_pad :: "bytes \<Rightarrow> bytes" where
  "sha_pad m = m @ byte 128 # replicate ((119 - length m mod 64) mod 64) 0 @ be_bytes 8 (8 * length m)"

fun be_words :: "bytes \<Rightarrow> w32 list" where
  "be_words (a # b # c # d # r) =
     of_nat (((unat a * 256 + unat b) * 256 + unat c) * 256 + unat d) # be_words r"
| "be_words _ = []"

text \<open>The message schedule, newest word first: \<open>W t\<close> from the 16 words before it.\<close>

fun sha_schedule :: "nat \<Rightarrow> w32 list \<Rightarrow> w32 list" where
  "sha_schedule 0 ws = rev ws"
| "sha_schedule (Suc n) ws =
     sha_schedule n ((small_sigma1 (ws ! 1) + ws ! 6 + small_sigma0 (ws ! 14) + ws ! 15) # ws)"

fun sha_round :: "(w32 \<times> w32) \<Rightarrow> w32 list \<Rightarrow> w32 list" where
  "sha_round (k, w) [a, b, c, d, e, f, g, h] =
     (let t1 = h + big_sigma1 e + ((e AND f) XOR (NOT e AND g)) + k + w;
          t2 = big_sigma0 a + ((a AND b) XOR (a AND c) XOR (b AND c))
      in [t1 + t2, a, b, c, d + t1, e, f, g])"
| "sha_round kw st = st"

definition sha_block :: "w32 list \<Rightarrow> w32 list \<Rightarrow> w32 list" where
  "sha_block h ws = map2 (+) h (fold sha_round (zip sha_k (sha_schedule 48 (rev ws))) h)"

fun sha_blocks :: "nat \<Rightarrow> w32 list \<Rightarrow> w32 list \<Rightarrow> w32 list" where
  "sha_blocks 0 h ws = h"
| "sha_blocks (Suc n) h ws = sha_blocks n (sha_block h (take 16 ws)) (drop 16 ws)"

definition word_bytes :: "w32 \<Rightarrow> bytes" where
  "word_bytes w = be_bytes 4 (unat w)"

definition sha256 :: "bytes \<Rightarrow> bytes" where
  "sha256 m =
     (let ws = be_words (sha_pad m)
      in concat (map word_bytes (sha_blocks (length ws div 16) sha_h0 ws)))"

definition sha256_hex :: "bytes \<Rightarrow> pystr" where
  "sha256_hex m = hex (sha256 m)"

lemma length_be_bytes [simp]: "length (be_bytes n v) = n"
  by (simp add: be_bytes_def)

lemma length_sha_round [simp]: "length (sha_round kw st) = length st"
  by (cases "(kw, st)" rule: sha_round.cases) (simp_all add: Let_def)

lemma length_fold_sha_round [simp]: "length (fold sha_round ks st) = length st"
  by (induction ks arbitrary: st) simp_all

lemma length_sha_block [simp]: "length (sha_block h ws) = length h"
  by (simp add: sha_block_def)

lemma length_sha_blocks [simp]: "length (sha_blocks n h ws) = length h"
  by (induction n arbitrary: h ws) simp_all

lemma length_concat_word_bytes: "length (concat (map word_bytes ws)) = 4 * length ws"
  by (induction ws) (simp_all add: word_bytes_def)

text \<open>A digest is 32 bytes, its text 64 lower-case hexadecimal characters.\<close>

lemma length_sha256 [simp]: "length (sha256 m) = 32"
  by (simp add: sha256_def Let_def length_concat_word_bytes sha_h0_def)

lemma full_hex_sha256: "full_hex 64 (sha256_hex m)"
  using full_hex_hex [of "sha256 m"] by (simp add: sha256_hex_def)

lemma length_sha_pad: "length (sha_pad m) mod 64 = 0"
proof -
  have "length (sha_pad m) = length m + 9 + (119 - length m mod 64) mod 64"
    by (simp add: sha_pad_def)
  moreover have "(length m + 9 + (119 - length m mod 64) mod 64) mod 64 = 0"
  proof -
    have "length m mod 64 < 64" by simp
    then have "(length m mod 64 + 9 + (119 - length m mod 64)) mod 64 = 0" by simp
    then show ?thesis
      by (metis (no_types, opaque_lifting) add.assoc mod_add_left_eq mod_add_right_eq)
  qed
  ultimately show ?thesis by simp
qed

end
