(* ===== verification/Py_Prog.thy ===== *)
theory Py_Prog
  imports Py_Prelude
begin

text \<open>
  Statements with effects.  A program over a world \<open>'w\<close> returns a value or an exception together with
  the world it leaves; \<open>try\<close>, \<open>except\<close> and \<open>finally\<close> are combinators.  \<open>wp\<close> is the weakest precondition
  of a postcondition over both outcomes, computed by simplification; \<open>effect_relation\<close> is the
  contract of a relation that every step of a program keeps (a frame, a growing trace, an
  immutable file), with the closure of that contract under the combinators proved once.
\<close>

type_synonym ('w, 'a) prog = "'w \<Rightarrow> (exn + 'a) \<times> 'w"

definition ret :: "'a \<Rightarrow> ('w, 'a) prog" where
  "ret x w = (Inr x, w)"

definition raise :: "exn \<Rightarrow> ('w, 'a) prog" where
  "raise e w = (Inl e, w)"

definition ebind :: "('w, 'a) prog \<Rightarrow> ('a \<Rightarrow> ('w, 'b) prog) \<Rightarrow> ('w, 'b) prog" where
  "ebind m f w = (case m w of (Inl e, w') \<Rightarrow> (Inl e, w') | (Inr x, w') \<Rightarrow> f x w')"

definition lift :: "exn + 'a \<Rightarrow> ('w, 'a) prog" where
  "lift r w = (r, w)"

definition gets :: "('w \<Rightarrow> 'a) \<Rightarrow> ('w, 'a) prog" where
  "gets f w = (Inr (f w), w)"

definition modify :: "('w \<Rightarrow> 'w) \<Rightarrow> ('w, unit) prog" where
  "modify f w = (Inr (), f w)"

text \<open>\<open>try: m except: h\<close>, where \<open>h\<close> may re-raise; \<open>try: m finally: f\<close>.\<close>

definition try_except :: "('w, 'a) prog \<Rightarrow> (exn \<Rightarrow> ('w, 'a) prog) \<Rightarrow> ('w, 'a) prog" where
  "try_except m h w = (case m w of (Inl e, w') \<Rightarrow> h e w' | (Inr x, w') \<Rightarrow> (Inr x, w'))"

definition try_finally :: "('w, 'a) prog \<Rightarrow> ('w, unit) prog \<Rightarrow> ('w, 'a) prog" where
  "try_finally m f w =
     (case m w of (r, w') \<Rightarrow> (case f w' of (Inl e, w'') \<Rightarrow> (Inl e, w'') | (Inr _, w'') \<Rightarrow> (r, w'')))"

text \<open>\<open>try: m except BaseException: h; raise\<close>.\<close>

definition on_error :: "('w, 'a) prog \<Rightarrow> ('w, unit) prog \<Rightarrow> ('w, 'a) prog" where
  "on_error m h = try_except m (\<lambda>e. ebind h (\<lambda>_. raise e))"

fun efor :: "('a \<Rightarrow> 's \<Rightarrow> ('w, 's) prog) \<Rightarrow> 'a list \<Rightarrow> 's \<Rightarrow> ('w, 's) prog" where
  "efor f [] s = ret s"
| "efor f (x # xs) s = ebind (f x s) (\<lambda>s'. efor f xs s')"

lemma prog_simps [simp]:
  "ret x w = (Inr x, w)"
  "raise e w = (Inl e, w)"
  "lift r w = (r, w)"
  "gets f w = (Inr (f w), w)"
  "modify g w = (Inr (), g w)"
  by (simp_all add: ret_def raise_def lift_def gets_def modify_def)

section \<open>Weakest preconditions\<close>

definition wp :: "('w, 'a) prog \<Rightarrow> (exn + 'a \<Rightarrow> 'w \<Rightarrow> bool) \<Rightarrow> 'w \<Rightarrow> bool" where
  "wp m Q w = (case m w of (r, w') \<Rightarrow> Q r w')"

lemma wp_simps [simp]:
  "wp (ret x) Q w \<longleftrightarrow> Q (Inr x) w"
  "wp (raise e) Q w \<longleftrightarrow> Q (Inl e) w"
  "wp (lift r) Q w \<longleftrightarrow> Q r w"
  "wp (gets f) Q' w \<longleftrightarrow> Q' (Inr (f w)) w"
  "wp (modify g) Q'' w \<longleftrightarrow> Q'' (Inr ()) (g w)"
  by (simp_all add: wp_def)

lemma wp_ebind [simp]:
  "wp (ebind m f) Q w \<longleftrightarrow> wp m (\<lambda>r w'. case r of Inl e \<Rightarrow> Q (Inl e) w' | Inr x \<Rightarrow> wp (f x) Q w') w"
  by (simp add: wp_def ebind_def split: prod.splits sum.splits)

lemma wp_try_except [simp]:
  "wp (try_except m h) Q w \<longleftrightarrow>
     wp m (\<lambda>r w'. case r of Inl e \<Rightarrow> wp (h e) Q w' | Inr x \<Rightarrow> Q (Inr x) w') w"
  by (simp add: wp_def try_except_def split: prod.splits sum.splits)

lemma wp_try_finally [simp]:
  "wp (try_finally m f) Q w \<longleftrightarrow>
     wp m (\<lambda>r w'. wp f (\<lambda>r' w''. case r' of Inl e \<Rightarrow> Q (Inl e) w'' | Inr _ \<Rightarrow> Q r w'') w') w"
  by (simp add: wp_def try_finally_def split: prod.splits sum.splits)

lemma wp_on_error [simp]:
  "wp (on_error m h) Q w \<longleftrightarrow>
     wp m (\<lambda>r w'. case r of
        Inl e \<Rightarrow> wp h (\<lambda>r' w''. case r' of Inl e' \<Rightarrow> Q (Inl e') w'' | Inr _ \<Rightarrow> Q (Inl e) w'') w'
      | Inr x \<Rightarrow> Q (Inr x) w') w"
  by (auto simp: wp_def on_error_def try_except_def ebind_def split: prod.splits sum.splits)

lemma wp_if [simp]: "wp (if b then m else n) Q w \<longleftrightarrow> (if b then wp m Q w else wp n Q w)"
  by simp

lemma wp_mono: "wp m Q w \<Longrightarrow> (\<And>r w'. Q r w' \<Longrightarrow> Q' r w') \<Longrightarrow> wp m Q' w"
  by (auto simp: wp_def)

lemma wp_conj: "wp m Q w \<Longrightarrow> wp m Q' w \<Longrightarrow> wp m (\<lambda>r w'. Q r w' \<and> Q' r w') w"
  by (auto simp: wp_def)

lemma wp_ebindI:
  assumes "wp m R w" and "\<And>e w'. R (Inl e) w' \<Longrightarrow> Q (Inl e) w'" and "\<And>x w'. R (Inr x) w' \<Longrightarrow> wp (f x) Q w'"
  shows "wp (ebind m f) Q w"
  using assms by (fastforce simp: wp_def ebind_def split: prod.splits sum.splits)

lemma wp_try_exceptI:
  assumes "wp m R w" and "\<And>e w'. R (Inl e) w' \<Longrightarrow> wp (h e) Q w'" and "\<And>x w'. R (Inr x) w' \<Longrightarrow> Q (Inr x) w'"
  shows "wp (try_except m h) Q w"
  using assms by (fastforce simp: wp_def try_except_def split: prod.splits sum.splits)

lemma wp_on_errorI:
  assumes "wp m R w" and "\<And>x w'. R (Inr x) w' \<Longrightarrow> Q (Inr x) w'"
    and "\<And>e w'. R (Inl e) w' \<Longrightarrow>
      wp h (\<lambda>r' w''. case r' of Inl e' \<Rightarrow> Q (Inl e') w'' | Inr _ \<Rightarrow> Q (Inl e) w'') w'"
  shows "wp (on_error m h) Q w"
  unfolding wp_on_error
proof (rule wp_mono [OF assms(1)])
  fix r w' assume "R r w'"
  with assms(2,3) show "case r of
      Inl e \<Rightarrow> wp h (\<lambda>r' w''. case r' of Inl e' \<Rightarrow> Q (Inl e') w'' | Inr _ \<Rightarrow> Q (Inl e) w'') w'
    | Inr x \<Rightarrow> Q (Inr x) w'" by (cases r) simp_all
qed

lemma wp_eq: "m w = (r, w') \<Longrightarrow> wp m Q w \<longleftrightarrow> Q r w'"
  by (simp add: wp_def)

lemma wpD: "wp m Q w \<Longrightarrow> m w = (r, w') \<Longrightarrow> Q r w'"
  by (simp add: wp_def)

section \<open>Relations kept by every step\<close>

locale effect_relation =
  fixes R :: "'w \<Rightarrow> 'w \<Rightarrow> bool"
  assumes R_refl: "R w w"
    and R_trans: "R u v \<Longrightarrow> R v w \<Longrightarrow> R u w"
begin

definition keeps :: "('w, 'a) prog \<Rightarrow> bool" where
  "keeps m \<longleftrightarrow> (\<forall>w. R w (snd (m w)))"

lemma keepsI: "(\<And>w r w'. m w = (r, w') \<Longrightarrow> R w w') \<Longrightarrow> keeps m"
  by (auto simp: keeps_def) (metis prod.collapse)

lemma keepsD: "keeps m \<Longrightarrow> m w = (r, w') \<Longrightarrow> R w w'"
  by (auto simp: keeps_def) (metis snd_conv)

lemma keeps_pure [simp]:
  "keeps (ret x)" "keeps (raise e)" "keeps (lift r)" "keeps (gets f)"
  by (simp_all add: keeps_def R_refl)

lemma keeps_modify: "(\<And>w. R w (g w)) \<Longrightarrow> keeps (modify g)"
  by (simp add: keeps_def)

lemma keeps_ebind:
  assumes "keeps m" and "\<And>x. keeps (f x)"
  shows "keeps (ebind m f)"
proof (rule keepsI)
  fix w r w' assume *: "ebind m f w = (r, w')"
  obtain r1 w1 where m: "m w = (r1, w1)" by (cases "m w")
  have 1: "R w w1" using assms(1) m by (rule keepsD)
  show "R w w'"
  proof (cases r1)
    case (Inl e)
    with * m 1 show ?thesis by (simp add: ebind_def)
  next
    case (Inr x)
    with * m have "f x w1 = (r, w')" by (simp add: ebind_def)
    with assms(2) have "R w1 w'" by (rule keepsD)
    with 1 show ?thesis by (rule R_trans)
  qed
qed

lemma keeps_try_except:
  assumes "keeps m" and "\<And>e. keeps (h e)"
  shows "keeps (try_except m h)"
proof (rule keepsI)
  fix w r w' assume *: "try_except m h w = (r, w')"
  obtain r1 w1 where m: "m w = (r1, w1)" by (cases "m w")
  have 1: "R w w1" using assms(1) m by (rule keepsD)
  show "R w w'"
  proof (cases r1)
    case (Inl e)
    with * m have "h e w1 = (r, w')" by (simp add: try_except_def)
    with assms(2) have "R w1 w'" by (rule keepsD)
    with 1 show ?thesis by (rule R_trans)
  next
    case (Inr x)
    with * m 1 show ?thesis by (simp add: try_except_def)
  qed
qed

lemma keeps_try_finally:
  assumes "keeps m" and "keeps f"
  shows "keeps (try_finally m f)"
proof (rule keepsI)
  fix w r w' assume *: "try_finally m f w = (r, w')"
  obtain r1 w1 where m: "m w = (r1, w1)" by (cases "m w")
  obtain r2 w2 where f: "f w1 = (r2, w2)" by (cases "f w1")
  from * m f have "w' = w2" by (auto simp: try_finally_def split: sum.splits)
  with keepsD [OF assms(1) m] keepsD [OF assms(2) f] show "R w w'" by (blast intro: R_trans)
qed

lemma keeps_on_error: "keeps m \<Longrightarrow> keeps h \<Longrightarrow> keeps (on_error m h)"
  by (simp add: on_error_def keeps_try_except keeps_ebind)

lemma keeps_if: "keeps m \<Longrightarrow> keeps n \<Longrightarrow> keeps (if b then m else n)"
  by simp

lemma keeps_case_option:
  "keeps m \<Longrightarrow> (\<And>x. keeps (f x)) \<Longrightarrow> keeps (case v of None \<Rightarrow> m | Some x \<Rightarrow> f x)"
  by (cases v) auto

lemma keeps_case_prod: "(\<And>x y. keeps (f x y)) \<Longrightarrow> keeps (case p of (x, y) \<Rightarrow> f x y)"
  by (cases p) auto

lemma keeps_efor: "(\<And>x s. keeps (f x s)) \<Longrightarrow> keeps (efor f xs s)"
  by (induction xs arbitrary: s) (auto intro: keeps_ebind)

lemmas keeps_intros =
  keeps_ebind keeps_try_except keeps_try_finally keeps_on_error keeps_if
  keeps_case_option keeps_case_prod keeps_efor

end

end
