(* ===== verification/Py_Chunks.thy ===== *)
theory Py_Chunks
  imports Py_Prog
begin

text \<open>
  The contract of a chunked download.  Two of the scripts fetch a large value over a protocol that
  limits each reply: a loop asks for the bytes at an offset, checks the reply against the identity
  the first replies fixed, and stops when the announced size is reached.  \<open>chunk_transfer\<close> states
  what such a loop is (its equation) and what its check promises; the lemmas say what a returned
  list of chunks is.  \<open>honest_transfer\<close> adds a source that serves one content, for which the loop
  returns exactly that content.
\<close>

locale chunk_transfer =
  fixes loop :: "'d option \<Rightarrow> bytes list \<Rightarrow> int \<Rightarrow> 'w \<Rightarrow> (exn + 'd \<times> bytes list) \<times> 'w"
    and reply :: "int \<Rightarrow> ('w, 'p) prog"
    and check :: "'d option \<Rightarrow> int \<Rightarrow> 'p \<Rightarrow> exn + 'd \<times> bytes"
    and size_of :: "'d \<Rightarrow> int"
    and same :: "'d \<Rightarrow> 'd \<Rightarrow> bool"
    and bound chunk :: int
  assumes loop_eq: "loop descriptor chunks offset w =
     (case reply offset w of
        (Inl e, w') \<Rightarrow> (Inl e, w')
      | (Inr part, w') \<Rightarrow>
          (case check descriptor offset part of
             Inl e \<Rightarrow> (Inl e, w')
           | Inr (identity, data) \<Rightarrow>
               if offset + int (length data) = size_of identity
               then (Inr (identity, chunks @ [data]), w')
               else loop (Some identity) (chunks @ [data]) (offset + int (length data)) w'))"
    and check_size: "check descriptor offset part = Inr (d, data) \<Longrightarrow>
      1 \<le> length data \<and> int (length data) \<le> chunk \<and> offset + int (length data) \<le> size_of d \<and>
      size_of d \<le> bound"
    and check_same: "check (Some e) offset part = Inr (d, data) \<Longrightarrow> same d e"
    and same_trans: "same a b \<Longrightarrow> same b c \<Longrightarrow> same a c"
begin

lemma loop_cases:
  assumes "loop descriptor chunks offset w = (Inr (d, cs), w')"
  obtains part w1 data where "reply offset w = (Inr part, w1)"
      and "check descriptor offset part = Inr (d, data)" and "offset + int (length data) = size_of d"
      and "cs = chunks @ [data]" and "w' = w1"
    | part w1 e data where "reply offset w = (Inr part, w1)"
      and "check descriptor offset part = Inr (e, data)" and "offset + int (length data) \<noteq> size_of e"
      and "loop (Some e) (chunks @ [data]) (offset + int (length data)) w1 = (Inr (d, cs), w')"
proof -
  obtain r w1 where r: "reply offset w = (r, w1)" by (cases "reply offset w")
  with assms obtain part where p: "r = Inr part" by (cases r) (auto simp: loop_eq [of descriptor])
  obtain e data where c: "check descriptor offset part = Inr (e, data)"
    using assms r p by (cases "check descriptor offset part") (auto simp: loop_eq [of descriptor])
  show thesis
  proof (cases "offset + int (length data) = size_of e")
    case True
    with assms r p c have "d = e" "cs = chunks @ [data]" "w' = w1"
      by (auto simp: loop_eq [of descriptor])
    with r p c True show thesis using that(1) by blast
  next
    case False
    with assms r p c have "loop (Some e) (chunks @ [data]) (offset + int (length data)) w1 = (Inr (d, cs), w')"
      by (auto simp: loop_eq [of descriptor])
    with r p c False show thesis using that(2) by blast
  qed
qed

text \<open>What a returned list of chunks adds up to.\<close>

lemma loop_result:
  "loop descriptor chunks offset w = (Inr (d, cs), w') \<Longrightarrow>
     \<exists>new. cs = chunks @ new \<and> new \<noteq> [] \<and> offset + int (length (concat new)) = size_of d \<and>
           (\<forall>c \<in> set new. 1 \<le> length c \<and> int (length c) \<le> chunk) \<and> size_of d \<le> bound \<and>
           (\<forall>e. descriptor = Some e \<longrightarrow> same d e)"
proof (induction "nat (bound - offset)" arbitrary: descriptor chunks offset w rule: less_induct)
  case less
  from less.prems show ?case
  proof (cases rule: loop_cases)
    case (1 part w1 data)
    with check_size [OF 1(2)] check_same show ?thesis by auto
  next
    case (2 part w1 e data)
    note b = check_size [OF 2(2)]
    then have "nat (bound - (offset + int (length data))) < nat (bound - offset)" by auto
    from less.hyps [OF this 2(4)] obtain new where
      new: "cs = (chunks @ [data]) @ new" "new \<noteq> []"
        "offset + int (length data) + int (length (concat new)) = size_of d"
        "\<forall>c \<in> set new. 1 \<le> length c \<and> int (length c) \<le> chunk" "size_of d \<le> bound" "same d e"
      by blast
    have "\<forall>e'. descriptor = Some e' \<longrightarrow> same d e'"
      using 2(2) new(6) check_same same_trans by blast
    with new b show ?thesis by (intro exI [of _ "data # new"]) auto
  qed
qed

end

locale honest_transfer =
  fixes loop :: "'s \<Rightarrow> 'd option \<Rightarrow> bytes list \<Rightarrow> int \<Rightarrow> 'w \<Rightarrow> (exn + 'd \<times> bytes list) \<times> 'w"
    and reply :: "'s \<Rightarrow> int \<Rightarrow> ('w, 'p) prog"
    and check :: "'d option \<Rightarrow> int \<Rightarrow> 'p \<Rightarrow> exn + 'd \<times> bytes"
    and size_of :: "'d \<Rightarrow> int" and same :: "'d \<Rightarrow> 'd \<Rightarrow> bool" and bound chunk :: int
    and valid :: "'s \<Rightarrow> bool" and content :: "'s \<Rightarrow> bytes" and identity :: "'s \<Rightarrow> 'd"
    and tick :: "'w \<Rightarrow> 'w"
  assumes transfer: "chunk_transfer (loop s) (reply s) check size_of same bound chunk"
    and size_identity: "valid s \<Longrightarrow> size_of (identity s) = int (length (content s))"
    and chunk_pos: "1 \<le> chunk"
    and honest: "valid s \<Longrightarrow> 0 \<le> offset \<Longrightarrow> offset < int (length (content s)) \<Longrightarrow>
      descriptor = None \<or> descriptor = Some (identity s) \<Longrightarrow>
      \<exists>part. reply s offset w = (Inr part, tick w) \<and>
        check descriptor offset part =
          Inr (identity s, take (nat chunk) (drop (nat offset) (content s)))"
begin

lemmas source_loop_eq = chunk_transfer.loop_eq [OF transfer]

lemma loop_honest:
  assumes "valid s" and "0 \<le> offset" and "offset < int (length (content s))"
    and "descriptor = None \<or> descriptor = Some (identity s)"
  shows "\<exists>new. loop s descriptor chunks offset w =
      (Inr (identity s, chunks @ new),
       (tick ^^ nat ((int (length (content s)) - offset + chunk - 1) div chunk)) w) \<and>
      concat new = drop (nat offset) (content s)"
  using assms
proof (induction "nat (int (length (content s)) - offset)" arbitrary: descriptor chunks offset w rule: less_induct)
  case less
  let ?data = "take (nat chunk) (drop (nat offset) (content s))"
  obtain part where p: "reply s offset w = (Inr part, tick w)"
    and c: "check descriptor offset part = Inr (identity s, ?data)"
    using honest [OF less.prems] by blast
  have rest: "length (drop (nat offset) (content s)) = nat (int (length (content s)) - offset)"
    using less.prems by simp
  show ?case
  proof (cases "int (length (content s)) - offset \<le> chunk")
    case True
    then have data: "?data = drop (nat offset) (content s)" using rest by simp
    have "(int (length (content s)) - offset + chunk - 1) div chunk = 1"
      using True less.prems chunk_pos by (intro int_div_pos_eq [where r = "int (length (content s)) - offset - 1"]) auto
    moreover have "offset + int (length (drop (nat offset) (content s))) = size_of (identity s)"
      using less.prems by (simp add: size_identity)
    ultimately show ?thesis
      using p c data by (intro exI [of _ "[?data]"]) (simp add: source_loop_eq [of _ descriptor])
  next
    case False
    let ?o = "offset + chunk"
    have len: "int (length ?data) = chunk" using False rest chunk_pos less.prems by simp
    have ne: "offset + int (length ?data) \<noteq> size_of (identity s)"
      using False len less.prems(1) by (simp add: size_identity)
    have "nat (int (length (content s)) - ?o) < nat (int (length (content s)) - offset)"
      using False chunk_pos by simp
    from less.hyps [OF this, of "Some (identity s)" "chunks @ [?data]" "tick w"] obtain new where
      l: "loop s (Some (identity s)) (chunks @ [?data]) ?o (tick w) =
        (Inr (identity s, (chunks @ [?data]) @ new),
         (tick ^^ nat ((int (length (content s)) - ?o + chunk - 1) div chunk)) (tick w))"
      and cn: "concat new = drop (nat ?o) (content s)"
      using False less.prems chunk_pos by auto
    have steps: "(int (length (content s)) - offset + chunk - 1) div chunk =
        (int (length (content s)) - ?o + chunk - 1) div chunk + 1"
      using chunk_pos div_add_self2 [of chunk "int (length (content s)) - ?o + chunk - 1"]
      by (simp add: algebra_simps)
    have pos: "0 \<le> (int (length (content s)) - ?o + chunk - 1) div chunk"
      using False chunk_pos by (intro pos_imp_zdiv_nonneg_iff [THEN iffD2]) auto
    have "?data @ concat new = drop (nat offset) (content s)"
      using cn less.prems chunk_pos
      by (simp add: nat_add_distrib) (metis add.commute append_take_drop_id drop_drop)
    moreover have "loop s descriptor chunks offset w =
        loop s (Some (identity s)) (chunks @ [?data]) ?o (tick w)"
      using p c ne len by (simp add: source_loop_eq [of _ descriptor])
    ultimately show ?thesis
      using l steps pos by (intro exI [of _ "?data # new"]) (simp add: nat_add_distrib funpow_Suc_right del: funpow.simps)
  qed
qed

end

end
