(* ===== verification/Worker_Inputs.thy ===== *)
theory Worker_Inputs
  imports Py_Json Py_Base64 Py_Sha256 Py_Chunks "HOL-Library.Sublist"
begin

text \<open>
  \<^verbatim>\<open>scripts/worker_inputs.py\<close>: the frozen input of an assignment.  Its checks (closed field sets,
  canonical UUIDs, portable paths, bounded files with a matching digest, the whole bundle) and the
  chunked download that assembles and verifies it.  \<open>materialize\<close> is in \<^verbatim>\<open>Worker_Materialize\<close>.
\<close>

section \<open>Policy\<close>

definition max_files :: int where "max_files = 100"
definition max_file_bytes :: int where "max_file_bytes = 1048576"
definition max_total_bytes :: int where "max_total_bytes = 2097152"
definition max_input_json_bytes :: int where "max_input_json_bytes = 4194304"
definition chunk_bytes :: int where "chunk_bytes = 16384"
definition lease_ttl_ms :: int where "lease_ttl_ms = 30000"

lemmas policy_defs =
  max_files_def max_file_bytes_def max_total_bytes_def max_input_json_bytes_def chunk_bytes_def
  lease_ttl_ms_def

definition POLICY :: "(string \<times> int) list" where
  "POLICY =
     [(''version'', 2), (''max-files'', max_files), (''max-file-bytes'', max_file_bytes),
      (''max-total-bytes'', max_total_bytes), (''max-input-json-bytes'', max_input_json_bytes),
      (''chunk-bytes'', chunk_bytes), (''lease-ttl-ms'', lease_ttl_ms)]"

text \<open>\<open>MODES\<close>: the portable mode of a file and the mode it gets on disk (octal 100644 to 600, and
  100755 to 700).\<close>

definition MODES :: "(int \<times> nat) list" where
  "MODES = [(33188, 384), (33261, 448)]"

definition CONTROL_PATHS :: "string list" where
  "CONTROL_PATHS =
     [''.git'', ''.codex'', ''.claude'', ''.agents'', ''.aws'', ''.ssh'', ''.mcp.json'', ''.claude.json'']"

section \<open>Checks on values\<close>

definition canonical_uuid :: "pyval \<Rightarrow> exn + pystr" where
  "canonical_uuid value =
     (if is_str value \<and> canonical_uuid_text (str_of value) then Inr (str_of value)
      else Inl (ValueError ''Expected a canonical UUID''))"

definition slash :: nat where "slash = 47"

definition path_parts :: "pyval \<Rightarrow> exn + pystr list" where
  "path_parts path =
     (let s = str_of path in
      if \<not> is_str path \<or> \<not> (1 \<le> length s \<and> length s \<le> 512) \<or> 92 \<in> set s \<or> list_ex is_Cc s
      then Inl (ValueError ''Invalid worker filename'')
      else if utf8_encode s = None then Inl (ValueError ''Worker filenames must be UTF-8'')
      else
        let parts = split slash s in
        if list_ex (\<lambda>p. list_all is_space p \<or> p = lit ''.'' \<or> p = lit ''..'' \<or>
                        list_ex (\<lambda>c. casefold p = lit c) CONTROL_PATHS) parts
        then Inl (ValueError ''Worker input cannot name traversal or runtime configuration'')
        else Inr parts)"

definition closed :: "pyval \<Rightarrow> string list \<Rightarrow> exn + unit" where
  "closed value keys =
     (if \<not> is_dict value \<or> \<not> key_set_is value keys
      then Inl (ValueError ''Unexpected worker input fields'') else Inr ())"

definition text_within :: "pyval \<Rightarrow> nat \<Rightarrow> bool" where
  "text_within value maximum \<longleftrightarrow>
     is_str value \<and> 1 \<le> length (str_of value) \<and> length (str_of value) \<le> maximum"

definition file_bytes :: "pyval \<Rightarrow> exn + bytes" where
  "file_bytes file =
     rbind (closed file [''base64'', ''bytes'', ''sha256'', ''mode'']) (\<lambda>_.
     let b = field file ''base64''; n = field file ''bytes''; d = field file ''sha256'';
         m = field file ''mode'' in
     if \<not> is_str b \<or> 1398104 < length (str_of b)
        \<or> \<not> is_int n \<or> \<not> (0 \<le> int_of n \<and> int_of n \<le> max_file_bytes)
        \<or> \<not> is_int m \<or> map_of MODES (int_of m) = None
        \<or> \<not> is_str d \<or> \<not> full_hex 64 (str_of d)
     then Inl (ValueError ''Invalid bounded worker file'')
     else
       rbind (b64decode (str_of b)) (\<lambda>data.
       if int (length data) \<noteq> int_of n \<or> sha256_hex data \<noteq> str_of d
       then Inl (ValueError ''Worker file size or digest does not match'')
       else Inr data))"

text \<open>\<open>any("/".join(parts[:n]) in files for n in range(1, len(parts)))\<close>.\<close>

definition has_ancestor :: "pystr list \<Rightarrow> pystr list \<Rightarrow> bool" where
  "has_ancestor parts paths \<longleftrightarrow>
     list_ex (\<lambda>n. join slash (take n parts) \<in> set paths) [1..<length parts]"

definition check_input_file :: "pystr list \<Rightarrow> pystr \<times> pyval \<Rightarrow> int \<Rightarrow> exn + int" where
  "check_input_file paths pf tot =
     (case pf of (path, file) \<Rightarrow>
        rbind (path_parts (PStr path)) (\<lambda>parts.
        if has_ancestor parts paths
        then Inl (ValueError ''Worker input has a file/directory collision'')
        else
          rbind (file_bytes file) (\<lambda>data.
          let tot' = tot + int (length data) in
          if max_total_bytes < tot' then Inl (ValueError ''Worker input exceeds total byte limit'')
          else Inr tot')))"

definition validate :: "pyval \<Rightarrow> pyval \<Rightarrow> exn + pyval" where
  "validate frozen config =
     rbind (closed frozen [''input-id'', ''task'', ''config'', ''files'', ''limits'', ''policy'']) (\<lambda>_.
     rbind (canonical_uuid (field frozen ''input-id'')) (\<lambda>_.
     rbind (closed (field frozen ''config'') [''adapter'', ''version'', ''model'', ''policy'']) (\<lambda>_.
     if \<not> py_eq (field frozen ''config'') config
        \<or> \<not> is_str (field config ''adapter'')
        \<or> \<not> (str_of (field config ''adapter'') = lit ''codex''
              \<or> str_of (field config ''adapter'') = lit ''claude-code'')
        \<or> \<not> text_within (field config ''version'') 200
        \<or> \<not> text_within (field config ''model'') 200
        \<or> \<not> py_eq (field config ''policy'') (PStr (lit ''local-trusted-v1''))
        \<or> \<not> text_within (field frozen ''task'') 16000
     then Inl (ValueError ''Worker task or pinned adapter configuration differs'')
     else
     rbind (closed (field frozen ''policy'') (map fst POLICY)) (\<lambda>_.
     if list_ex (\<lambda>(k, v). \<not> is_int (field (field frozen ''policy'') k)
                          \<or> int_of (field (field frozen ''policy'') k) \<noteq> v) POLICY
     then Inl (ValueError ''Unsupported worker file policy'')
     else
     rbind (closed (field frozen ''limits'') [''timeout-ms'', ''settlement'']) (\<lambda>_.
     let limits = field frozen ''limits'' in
     if \<not> is_int (field limits ''timeout-ms'')
        \<or> \<not> (1000 \<le> int_of (field limits ''timeout-ms'') \<and> int_of (field limits ''timeout-ms'') \<le> 600000)
        \<or> \<not> is_str (field limits ''settlement'')
        \<or> \<not> (str_of (field limits ''settlement'') = lit ''review''
              \<or> str_of (field limits ''settlement'') = lit ''discard'')
     then Inl (ValueError ''Invalid worker limits'')
     else
     let files = field frozen ''files'' in
     if \<not> is_dict files \<or> max_files < int (length (items files))
     then Inl (ValueError ''Too many worker input files'')
     else
     rbind (for_each (check_input_file (map fst (items files))) (items files) 0) (\<lambda>_.
     Inr frozen))))))"

definition unique_object :: "pydict \<Rightarrow> exn + pydict" where
  "unique_object pairs =
     for_each (\<lambda>(key, v) result.
        if key \<in> fst ` set result then Inl (ValueError ''Duplicate JSON field'')
        else Inr (result @ [(key, v)])) pairs []"

definition invalid_constant :: "pystr \<Rightarrow> exn + pyval" where
  "invalid_constant c = Inl (ValueError ''Non-JSON numeric constant'')"

text \<open>The JSON reader with these two hooks, as every protocol file uses it.\<close>

definition strict_hooks :: json_hooks where
  "strict_hooks = \<lparr>pairs_hook = unique_object, constant_hook = invalid_constant\<rparr>"

definition strict_loads :: "bytes \<Rightarrow> exn + pyval" where
  "strict_loads encoded =
     (case utf8_decode encoded of None \<Rightarrow> Inl UnicodeError | Some s \<Rightarrow> json_loads strict_hooks s)"

section \<open>The chunked download\<close>

text \<open>
  One reply of \<open>simmis_worker-input\<close> against the loop's state: the identity the earlier chunks
  fixed (None before the first) and the offset asked for.  The result is the identity and the
  decoded bytes.
\<close>

definition part_identity :: "pyval \<Rightarrow> pyval" where
  "part_identity part =
     PDict [(lit ''input-id'', field part ''input-id''), (lit ''bytes'', field part ''bytes''),
            (lit ''sha256'', field part ''sha256'')]"

definition check_part :: "pyval option \<Rightarrow> int \<Rightarrow> pyval \<Rightarrow> exn + pyval \<times> bytes" where
  "check_part descriptor offset part =
     (if \<not> is_dict part
         \<or> \<not> (key_set_is part [''input-id'', ''bytes'', ''sha256'', ''offset'', ''base64'']
               \<or> key_set_is part [''input-id'', ''bytes'', ''sha256'', ''offset'', ''base64'', ''next-offset''])
      then Inl (ValueError ''Invalid worker input chunk'')
      else
      let identity = part_identity part; size = field identity ''bytes'' in
      rbind (canonical_uuid (field identity ''input-id'')) (\<lambda>_.
      if \<not> is_int size \<or> \<not> (1 \<le> int_of size \<and> int_of size \<le> max_input_json_bytes)
         \<or> \<not> is_str (field identity ''sha256'') \<or> \<not> full_hex 64 (str_of (field identity ''sha256''))
         \<or> \<not> is_int (field part ''offset'') \<or> int_of (field part ''offset'') \<noteq> offset
         \<or> (case descriptor of None \<Rightarrow> False | Some d \<Rightarrow> \<not> py_eq identity d)
         \<or> \<not> is_str (field part ''base64'') \<or> 21848 < length (str_of (field part ''base64''))
      then Inl (ValueError ''Worker input identity, limit or offset differs'')
      else
      rbind (b64decode (str_of (field part ''base64''))) (\<lambda>data.
      let end = offset + int (length data) in
      if \<not> (1 \<le> int (length data) \<and> int (length data) \<le> chunk_bytes) \<or> int_of size < end
         \<or> (end < int_of size
            \<and> (\<not> is_int (field part ''next-offset'') \<or> int_of (field part ''next-offset'') \<noteq> end))
         \<or> (end = int_of size \<and> has_key part ''next-offset'')
      then Inl (ValueError ''Invalid worker input chunk length'')
      else Inr (identity, data))))"

definition descriptor_size :: "pyval \<Rightarrow> int" where
  "descriptor_size d = int_of (field d ''bytes'')"

lemma check_part_Inr:
  assumes "check_part descriptor offset part = Inr (d, data)"
  shows "1 \<le> length data" and "int (length data) \<le> chunk_bytes"
    and "offset + int (length data) \<le> descriptor_size d"
    and "1 \<le> descriptor_size d" and "descriptor_size d \<le> max_input_json_bytes"
    and "d = part_identity part" and "descriptor = Some e \<Longrightarrow> py_eq d e"
    and "int_of (field part ''offset'') = offset"
    and "b64decode (str_of (field part ''base64'')) = Inr data"
    and "is_str (field d ''sha256'')" and "full_hex 64 (str_of (field d ''sha256''))"
    and "is_str (field d ''input-id'')" and "canonical_uuid_text (str_of (field d ''input-id''))"
    and "is_int (field d ''bytes'')"
  using assms
  by (auto simp: check_part_def Let_def descriptor_size_def canonical_uuid_def split: if_split_asm)

type_synonym 'w mcp_call = "string \<Rightarrow> pyval \<Rightarrow> ('w, pyval) prog"

definition input_request :: "pystr \<Rightarrow> int \<Rightarrow> pyval" where
  "input_request run offset =
     PDict [(lit ''run'', PStr run), (lit ''offset'', PInt offset), (lit ''length'', PInt chunk_bytes)]"

text \<open>
  The \<open>while True\<close> loop.  Every accepted chunk is nonempty and ends within the announced size, which
  is at most 4 MiB, so the offset reaches the size and the loop stops: no fuel is needed.
\<close>

function fetch_loop ::
  "'w mcp_call \<Rightarrow> pystr \<Rightarrow> pyval option \<Rightarrow> bytes list \<Rightarrow> int \<Rightarrow> 'w \<Rightarrow> (exn + pyval \<times> bytes list) \<times> 'w"
where
  "fetch_loop call run descriptor chunks offset w =
     (case call ''simmis_worker-input'' (input_request run offset) w of
        (Inl e, w') \<Rightarrow> (Inl e, w')
      | (Inr part, w') \<Rightarrow>
          (case check_part descriptor offset part of
             Inl e \<Rightarrow> (Inl e, w')
           | Inr (identity, data) \<Rightarrow>
               if offset + int (length data) = descriptor_size identity
               then (Inr (identity, chunks @ [data]), w')
               else fetch_loop call run (Some identity) (chunks @ [data]) (offset + int (length data)) w'))"
  by pat_completeness auto
termination
proof (relation "measure (\<lambda>(call, run, descriptor, chunks, offset, w). nat (max_input_json_bytes - offset))")
  fix call :: "'w mcp_call" and run descriptor chunks offset w
    and p :: "(exn + pyval) \<times> 'w" and r w' part and q :: "pyval \<times> bytes" and identity data
  assume "check_part descriptor offset part = Inr q" "(identity, data) = q"
  then have "check_part descriptor offset part = Inr (identity, data)" by simp
  then have "1 \<le> length data" "offset + int (length data) \<le> max_input_json_bytes"
    using check_part_Inr [of descriptor offset part identity data] by auto
  then show "((call, run, Some identity, chunks @ [data], offset + int (length data), w'),
      call, run, descriptor, chunks, offset, w)
      \<in> measure (\<lambda>(call, run, descriptor, chunks, offset, w). nat (max_input_json_bytes - offset))"
    by auto
qed simp

declare fetch_loop.simps [simp del]

definition fetch :: "'w mcp_call \<Rightarrow> pyval \<Rightarrow> pyval \<Rightarrow> ('w, pyval) prog" where
  "fetch call run config =
     ebind (lift (canonical_uuid run)) (\<lambda>r.
     ebind (fetch_loop call r None [] 0) (\<lambda>(descriptor, chunks).
     lift (
       let encoded = concat chunks in
       if sha256_hex encoded \<noteq> str_of (field descriptor ''sha256'')
       then Inl (ValueError ''Worker input bundle digest differs'')
       else
       (case utf8_decode encoded of
          None \<Rightarrow> Inl (ValueError ''Worker input is not bounded UTF-8 JSON'')
        | Some s \<Rightarrow>
            rbind (json_loads strict_hooks s) (\<lambda>frozen.
            rbind (validate frozen config) (\<lambda>frozen.
            if \<not> py_eq (field frozen ''input-id'') (field descriptor ''input-id'')
            then Inl (ValueError ''Worker input payload identity differs'')
            else Inr frozen))))))"


section \<open>Paths\<close>

text \<open>What a path may be, without the code's order of checks.\<close>

definition safe_part :: "pystr \<Rightarrow> bool" where
  "safe_part p \<longleftrightarrow>
     p \<noteq> [] \<and> slash \<notin> set p \<and> 92 \<notin> set p \<and> 0 \<notin> set p \<and> \<not> list_all is_space p
     \<and> p \<noteq> lit ''.'' \<and> p \<noteq> lit ''..'' \<and> (\<forall>c \<in> set CONTROL_PATHS. casefold p \<noteq> lit c)"

lemma path_parts_Inr_iff:
  "path_parts v = Inr parts \<longleftrightarrow>
     (\<exists>s. v = PStr s \<and> 1 \<le> length s \<and> length s \<le> 512 \<and> 92 \<notin> set s \<and> (\<forall>c \<in> set s. \<not> is_Cc c)
        \<and> utf8_encode s \<noteq> None
        \<and> (\<forall>p \<in> set (split slash s). \<not> (list_all is_space p \<or> p = lit ''.'' \<or> p = lit ''..''
             \<or> (\<exists>c \<in> set CONTROL_PATHS. casefold p = lit c)))
        \<and> parts = split slash s)"
  by (cases v) (auto simp: path_parts_def Let_def list_ex_iff)

lemma path_parts_PStr: "path_parts v = Inr parts \<Longrightarrow> v = PStr (join slash parts)"
  by (auto simp: path_parts_Inr_iff)

lemma split_set: "w \<in> set (split sep s) \<Longrightarrow> set w \<subseteq> set s"
proof (induction s arbitrary: w rule: split.induct)
  case (2 sep c cs)
  then show ?case by (fastforce split: list.splits if_splits)
qed auto

lemma path_parts_safe:
  assumes "path_parts v = Inr parts" and "p \<in> set parts"
  shows "safe_part p"
proof -
  obtain s where s: "v = PStr s" "parts = split slash s" "92 \<notin> set s" "\<forall>c \<in> set s. \<not> is_Cc c"
    "\<not> (list_all is_space p \<or> p = lit ''.'' \<or> p = lit ''..'' \<or> (\<exists>c \<in> set CONTROL_PATHS. casefold p = lit c))"
    using assms by (auto simp: path_parts_Inr_iff)
  have "set p \<subseteq> set s" using assms(2) s(2) split_set by blast
  moreover have "0 \<notin> set s" using s(4) by (force simp: is_Cc_def)
  ultimately have "92 \<notin> set p" "0 \<notin> set p" using s(3) by auto
  moreover have "slash \<notin> set p" using assms(2) s(2) split_no_sep by blast
  ultimately show ?thesis using s(5) by (auto simp: safe_part_def)
qed

lemma path_parts_nonempty: "path_parts v = Inr parts \<Longrightarrow> parts \<noteq> []"
  by (auto simp: path_parts_Inr_iff)


section \<open>Files\<close>

lemma file_bytes_Inr:
  assumes "file_bytes file = Inr data"
  shows "is_dict file" and "field file ''bytes'' = PInt (int (length data))"
    and "int (length data) \<le> max_file_bytes" and "field file ''sha256'' = PStr (sha256_hex data)"
    and "\<exists>m. field file ''mode'' = PInt m \<and> m \<in> fst ` set MODES"
    and "\<exists>b. field file ''base64'' = PStr b \<and> length b \<le> 1398104 \<and> b64decode b = Inr data"
  using assms
  by (auto simp: file_bytes_def Let_def closed_def is_type_iff MODES_def split: if_split_asm)

text \<open>The value a file is sent as: what \<open>collect\<close> builds, and what \<open>file_bytes\<close> reads back.\<close>

definition file_value :: "bytes \<Rightarrow> int \<Rightarrow> pyval" where
  "file_value data mode =
     PDict [(lit ''base64'', PStr (b64encode data)), (lit ''bytes'', PInt (int (length data))),
            (lit ''sha256'', PStr (sha256_hex data)), (lit ''mode'', PInt mode)]"

lemma file_bytes_value:
  assumes "int (length data) \<le> max_file_bytes" and "mode \<in> fst ` set MODES"
  shows "file_bytes (file_value data mode) = Inr data"
proof -
  have len: "length (b64encode data) \<le> 1398104"
  proof -
    have "(length data + 2) div 3 \<le> (1048576 + 2) div 3"
      using assms(1) by (intro div_le_mono) (simp add: max_file_bytes_def)
    then show ?thesis by (simp add: length_b64encode)
  qed
  have "closed (file_value data mode) [''base64'', ''bytes'', ''sha256'', ''mode''] = Inr ()"
    by (simp add: closed_def file_value_def key_set_is_iff)
  moreover have "field (file_value data mode) ''base64'' = PStr (b64encode data)"
    "field (file_value data mode) ''bytes'' = PInt (int (length data))"
    "field (file_value data mode) ''sha256'' = PStr (sha256_hex data)"
    "field (file_value data mode) ''mode'' = PInt mode"
    by (simp_all add: file_value_def)
  moreover have "map_of MODES mode \<noteq> None" using assms(2) by (auto simp: MODES_def)
  ultimately show ?thesis
    using assms len by (simp add: file_bytes_def b64_roundtrip full_hex_sha256)
qed

text \<open>Nested paths are the ones that share a prefix of components.\<close>

lemma has_ancestor_iff:
  assumes "\<And>p. p \<in> set parts \<Longrightarrow> slash \<notin> set p"
  shows "has_ancestor parts paths \<longleftrightarrow> (\<exists>q \<in> set paths. strict_prefix (split slash q) parts)"
proof
  assume "has_ancestor parts paths"
  then obtain n where n: "1 \<le> n" "n < length parts" "join slash (take n parts) \<in> set paths"
    by (auto simp: has_ancestor_def list_ex_iff)
  have "split slash (join slash (take n parts)) = take n parts"
    using n assms by (intro split_join) (auto dest: in_set_takeD)
  moreover have "strict_prefix (take n parts) parts"
    using n by (auto simp: strict_prefix_def take_is_prefix)
  ultimately show "\<exists>q \<in> set paths. strict_prefix (split slash q) parts" using n by metis
next
  assume "\<exists>q \<in> set paths. strict_prefix (split slash q) parts"
  then obtain q r where q: "q \<in> set paths" "parts = split slash q @ r" "r \<noteq> []"
    by (auto simp: strict_prefix_def prefix_def)
  then have "join slash (take (length (split slash q)) parts) \<in> set paths" by simp
  moreover have "1 \<le> length (split slash q)" by (simp add: Suc_le_eq)
  moreover have "length (split slash q) < length parts" using q by simp
  ultimately show "has_ancestor parts paths"
    by (auto simp: has_ancestor_def list_ex_iff intro!: bexI [of _ "length (split slash q)"])
qed

text \<open>A set of files without the loop: every path allowed, every file whole, no path inside another
  and the total within the limit.\<close>

definition file_size :: "pyval \<Rightarrow> int" where
  "file_size file = (case file_bytes file of Inl _ \<Rightarrow> 0 | Inr data \<Rightarrow> int (length data))"

definition files_spec :: "pydict \<Rightarrow> bool" where
  "files_spec d \<longleftrightarrow>
     (\<forall>(p, f) \<in> set d. (\<exists>parts. path_parts (PStr p) = Inr parts) \<and> (\<exists>data. file_bytes f = Inr data))
     \<and> (\<forall>p \<in> fst ` set d. \<forall>q \<in> fst ` set d. \<not> strict_prefix (split slash q) (split slash p))
     \<and> (\<Sum>(p, f) \<leftarrow> d. file_size f) \<le> max_total_bytes"

lemma file_size_nonneg: "0 \<le> file_size f"
  by (simp add: file_size_def split: sum.split)

lemma sum_sizes_nonneg: "0 \<le> (\<Sum>(p, f) \<leftarrow> d. file_size f)"
  by (rule sum_list_nonneg) (auto simp: file_size_nonneg)

lemma check_input_file_iff:
  "check_input_file paths (p, f) n = Inr m \<longleftrightarrow>
     (\<exists>parts. path_parts (PStr p) = Inr parts) \<and> (\<exists>data. file_bytes f = Inr data)
     \<and> (\<forall>q \<in> set paths. \<not> strict_prefix (split slash q) (split slash p))
     \<and> m = n + file_size f \<and> m \<le> max_total_bytes"
proof (cases "path_parts (PStr p)")
  case (Inr parts)
  then have parts: "parts = split slash p" by (auto simp: path_parts_Inr_iff)
  have "has_ancestor parts paths \<longleftrightarrow> (\<exists>q \<in> set paths. strict_prefix (split slash q) parts)"
    by (rule has_ancestor_iff) (simp add: parts split_no_sep)
  with Inr parts show ?thesis
    by (cases "file_bytes f") (auto simp: check_input_file_def file_size_def Let_def)
qed (simp add: check_input_file_def)

lemma check_files_iff:
  assumes "n \<le> max_total_bytes"
  shows "for_each (check_input_file paths) d n = Inr m \<longleftrightarrow>
     (\<forall>(p, f) \<in> set d. (\<exists>parts. path_parts (PStr p) = Inr parts) \<and> (\<exists>data. file_bytes f = Inr data))
     \<and> (\<forall>p \<in> fst ` set d. \<forall>q \<in> set paths. \<not> strict_prefix (split slash q) (split slash p))
     \<and> m = n + (\<Sum>(p, f) \<leftarrow> d. file_size f) \<and> m \<le> max_total_bytes"
  using assms
proof (induction d arbitrary: n)
  case (Cons pf d)
  obtain p f where pf: "pf = (p, f)" by (cases pf)
  have total: "n + file_size f \<le> max_total_bytes"
    if "n + (file_size f + (\<Sum>(p, f) \<leftarrow> d. file_size f)) \<le> max_total_bytes"
    using that sum_sizes_nonneg [of d] by simp
  show ?case
  proof (cases "n + file_size f \<le> max_total_bytes")
    case True
    from Cons.IH [OF this] show ?thesis
      by (simp add: pf check_input_file_iff True add.assoc) blast
  next
    case False
    with total show ?thesis by (auto simp: pf check_input_file_iff)
  qed
qed auto

lemma files_spec_iff:
  "(\<exists>m. for_each (check_input_file (map fst d)) d 0 = Inr m) \<longleftrightarrow> files_spec d"
  by (simp add: check_files_iff files_spec_def max_total_bytes_def)


section \<open>The whole input\<close>

definition header_spec :: "pyval \<Rightarrow> pyval \<Rightarrow> bool" where
  "header_spec frozen config \<longleftrightarrow>
     key_set_is frozen [''input-id'', ''task'', ''config'', ''files'', ''limits'', ''policy'']
     \<and> is_str (field frozen ''input-id'') \<and> canonical_uuid_text (str_of (field frozen ''input-id''))
     \<and> is_dict (field frozen ''config'')
     \<and> key_set_is (field frozen ''config'') [''adapter'', ''version'', ''model'', ''policy'']
     \<and> py_eq (field frozen ''config'') config
     \<and> (field config ''adapter'' = PStr (lit ''codex'') \<or> field config ''adapter'' = PStr (lit ''claude-code''))
     \<and> text_within (field config ''version'') 200 \<and> text_within (field config ''model'') 200
     \<and> field config ''policy'' = PStr (lit ''local-trusted-v1'')
     \<and> text_within (field frozen ''task'') 16000
     \<and> is_dict (field frozen ''policy'') \<and> key_set_is (field frozen ''policy'') (map fst POLICY)
     \<and> (\<forall>(k, v) \<in> set POLICY. field (field frozen ''policy'') k = PInt v)
     \<and> is_dict (field frozen ''limits'') \<and> key_set_is (field frozen ''limits'') [''timeout-ms'', ''settlement'']
     \<and> (\<exists>t. field (field frozen ''limits'') ''timeout-ms'' = PInt t \<and> 1000 \<le> t \<and> t \<le> 600000)
     \<and> (field (field frozen ''limits'') ''settlement'' = PStr (lit ''review'')
         \<or> field (field frozen ''limits'') ''settlement'' = PStr (lit ''discard''))"

definition frozen_spec :: "pyval \<Rightarrow> pyval \<Rightarrow> bool" where
  "frozen_spec frozen config \<longleftrightarrow>
     is_dict frozen \<and> header_spec frozen config
     \<and> is_dict (field frozen ''files'') \<and> int (length (items (field frozen ''files''))) \<le> max_files
     \<and> files_spec (items (field frozen ''files''))"

lemma policy_fields_iff:
  "\<not> list_ex (\<lambda>(k, v). \<not> is_int (field p k) \<or> int_of (field p k) \<noteq> v) POLICY \<longleftrightarrow>
     (\<forall>(k, v) \<in> set POLICY. field p k = PInt v)"
  by (auto simp: list_ex_iff is_int_iff)

lemma str_choice:
  "is_str v \<and> (str_of v = s \<or> str_of v = t) \<longleftrightarrow> v = PStr s \<or> v = PStr t"
  by (cases v) auto

lemma validate_Inr_iff:
  "validate frozen config = Inr r \<longleftrightarrow> r = frozen \<and> frozen_spec frozen config"
proof -
  have str: "is_str v \<and> (str_of v = s \<or> str_of v = t) \<longleftrightarrow> v = PStr s \<or> v = PStr t" for v s t
    by (rule str_choice)
  have int: "is_int v \<and> lo \<le> int_of v \<and> int_of v \<le> hi \<longleftrightarrow> (\<exists>i. v = PInt i \<and> lo \<le> i \<and> i \<le> hi)"
    for v lo hi by (cases v) auto
  have files: "(\<exists>m. for_each (check_input_file (map fst (items fs))) (items fs) 0 = Inr m) \<longleftrightarrow>
      files_spec (items fs)" for fs
    by (rule files_spec_iff)
  show ?thesis
    unfolding validate_def frozen_spec_def header_spec_def policy_fields_iff [symmetric]
    by (simp add: closed_def canonical_uuid_def Let_def files [symmetric] str [symmetric] int [symmetric] not_less)
      blast
qed

section \<open>The JSON reader's hooks\<close>

lemma unique_object_acc:
  "for_each (\<lambda>(key, v) result. if key \<in> fst ` set result then Inl (ValueError ''Duplicate JSON field'')
       else Inr (result @ [(key, v)])) d acc =
   (if distinct (map fst d) \<and> fst ` set d \<inter> fst ` set acc = {} then Inr (acc @ d)
    else Inl (ValueError ''Duplicate JSON field''))"
proof (induction d arbitrary: acc)
  case (Cons kv d)
  obtain k v where "kv = (k, v)" by (cases kv)
  with Cons.IH [of "acc @ [(k, v)]"] show ?case by auto
qed simp

lemma unique_object_eq:
  "unique_object d = (if distinct (map fst d) then Inr d else Inl (ValueError ''Duplicate JSON field''))"
  by (simp add: unique_object_def unique_object_acc)

lemma strict_hook_ok: "hook_ok strict_hooks"
  by (simp add: hook_ok_def strict_hooks_def unique_object_eq)

lemma strict_hook_total: "hook_total strict_hooks"
  by (simp add: hook_total_def strict_hooks_def unique_object_eq invalid_constant_def out_of_fuel_def)

lemma strict_loads_render:
  assumes "fmt_ok f" and "json_ok (ensure_ascii f) v" and "utf8_encode (render f v) = Some bs"
  shows "strict_loads bs = Inr v"
  using json_roundtrip [OF assms(1) strict_hook_ok assms(2)] utf8_roundtrip [OF assms(3)]
  by (simp add: strict_loads_def)


section \<open>What a download returns\<close>

definition same_identity :: "pyval \<Rightarrow> pyval \<Rightarrow> bool" where
  "same_identity a b \<longleftrightarrow>
     field a ''input-id'' = field b ''input-id'' \<and> field a ''sha256'' = field b ''sha256''
     \<and> num_of (field a ''bytes'') = num_of (field b ''bytes'')"

lemma py_eq_field: "py_eq (PDict d) e \<Longrightarrow> map_of d (lit k) = Some v \<Longrightarrow> py_eq v (field e k)"
  by (cases e) (auto 4 3 simp: py_eq_items_iff field_def dest: map_of_SomeD)

lemma check_part_same:
  assumes "check_part (Some e) offset part = Inr (d, data)"
  shows "same_identity d e"
proof -
  note r = check_part_Inr [OF assms]
  have eq: "py_eq (part_identity part) e" using r(6) r(7) by simp
  have "py_eq (field part k) (field e k)" if "k \<in> {''input-id'', ''sha256'', ''bytes''}" for k
    using that by (intro py_eq_field [OF eq [unfolded part_identity_def]]) auto
  then have "py_eq (field part ''input-id'') (field e ''input-id'')"
    "py_eq (field part ''sha256'') (field e ''sha256'')" "py_eq (field part ''bytes'') (field e ''bytes'')"
    by simp_all
  with r(6) r(10) r(12) r(14) show ?thesis
    by (auto simp: same_identity_def part_identity_def is_type_iff)
qed

interpretation fetch_chunks: chunk_transfer "fetch_loop call run"
    "\<lambda>offset. call ''simmis_worker-input'' (input_request run offset)"
    check_part descriptor_size same_identity max_input_json_bytes chunk_bytes
  for call :: "'w mcp_call" and run
proof
  fix descriptor chunks offset w
  show "fetch_loop call run descriptor chunks offset w =
     (case call ''simmis_worker-input'' (input_request run offset) w of
        (Inl e, w') \<Rightarrow> (Inl e, w')
      | (Inr part, w') \<Rightarrow>
          (case check_part descriptor offset part of
             Inl e \<Rightarrow> (Inl e, w')
           | Inr (identity, data) \<Rightarrow>
               if offset + int (length data) = descriptor_size identity
               then (Inr (identity, chunks @ [data]), w')
               else fetch_loop call run (Some identity) (chunks @ [data]) (offset + int (length data)) w'))"
    by (rule fetch_loop.simps)
next
  fix descriptor offset part d data
  assume "check_part descriptor offset part = Inr (d, data)"
  from check_part_Inr [OF this]
  show "1 \<le> length data \<and> int (length data) \<le> chunk_bytes
      \<and> offset + int (length data) \<le> descriptor_size d \<and> descriptor_size d \<le> max_input_json_bytes"
    by simp
next
  fix a b c assume "same_identity a b" "same_identity b c"
  then show "same_identity a c" by (simp add: same_identity_def)
qed (rule check_part_same)




section \<open>An honest server\<close>

text \<open>
  What \<^verbatim>\<open>worker_files.clj\<close> (\<open>input-chunk\<close>) answers for a frozen input whose content identity it has
  checked: at most a chunk of the encoding, and the offset of the next one unless it was the last.
  \<open>honest_call\<close> is a connection to such a server; \<open>tick\<close> is its effect on the world.
\<close>

definition input_chunk :: "pystr \<Rightarrow> bytes \<Rightarrow> int \<Rightarrow> int \<Rightarrow> pyval" where
  "input_chunk iid encoded offset count =
     (let size = int (length encoded); end = min size (offset + count) in
      PDict ([(lit ''input-id'', PStr iid), (lit ''bytes'', PInt size),
              (lit ''sha256'', PStr (sha256_hex encoded)), (lit ''offset'', PInt offset),
              (lit ''base64'', PStr (b64encode (take (nat (end - offset)) (drop (nat offset) encoded))))]
             @ (if end < size then [(lit ''next-offset'', PInt end)] else [])))"

definition honest_call :: "('w \<Rightarrow> 'w) \<Rightarrow> pystr \<Rightarrow> bytes \<Rightarrow> 'w mcp_call" where
  "honest_call tick iid encoded name args w =
     (Inr (input_chunk iid encoded (int_of (field args ''offset'')) (int_of (field args ''length''))), tick w)"

definition served :: "pystr \<times> bytes \<Rightarrow> bool" where
  "served s \<longleftrightarrow> (case s of (iid, encoded) \<Rightarrow>
     canonical_uuid_text iid \<and> 1 \<le> length encoded \<and> int (length encoded) \<le> max_input_json_bytes)"

definition served_identity :: "pystr \<times> bytes \<Rightarrow> pyval" where
  "served_identity s = (case s of (iid, encoded) \<Rightarrow>
     PDict [(lit ''input-id'', PStr iid), (lit ''bytes'', PInt (int (length encoded))),
            (lit ''sha256'', PStr (sha256_hex encoded))])"

lemma input_chunk_fields:
  "field (input_chunk iid e off n) ''input-id'' = PStr iid"
  "field (input_chunk iid e off n) ''bytes'' = PInt (int (length e))"
  "field (input_chunk iid e off n) ''sha256'' = PStr (sha256_hex e)"
  "field (input_chunk iid e off n) ''offset'' = PInt off"
  "field (input_chunk iid e off n) ''base64'' =
     PStr (b64encode (take (nat (min (int (length e)) (off + n) - off)) (drop (nat off) e)))"
  "field (input_chunk iid e off n) ''next-offset'' =
     (if off + n < int (length e) then PInt (off + n) else PNone)"
  "has_key (input_chunk iid e off n) ''next-offset'' \<longleftrightarrow> off + n < int (length e)"
  by (auto simp: input_chunk_def Let_def)

lemma check_honest_part:
  assumes "served (iid, e)" and "0 \<le> offset" and "offset < int (length e)"
    and "descriptor = None \<or> descriptor = Some (served_identity (iid, e))"
  shows "check_part descriptor offset (input_chunk iid e offset chunk_bytes) =
    Inr (served_identity (iid, e), take (nat chunk_bytes) (drop (nat offset) e))"
proof -
  let ?part = "input_chunk iid e offset chunk_bytes"
  let ?data = "take (nat chunk_bytes) (drop (nat offset) e)"
  have data: "take (nat (min (int (length e)) (offset + chunk_bytes) - offset)) (drop (nat offset) e) = ?data"
    using assms(2,3) by (simp add: chunk_bytes_def min_def nat_diff_distrib nat_add_distrib)
  have len: "int (length ?data) = min (int (length e) - offset) chunk_bytes"
    using assms(2,3) by (auto simp: chunk_bytes_def)
  have b64: "length (b64encode ?data) \<le> 21848"
  proof -
    have "(length ?data + 2) div 3 \<le> (16384 + 2) div 3"
      using len by (intro div_le_mono) (simp add: chunk_bytes_def)
    then show ?thesis by (simp add: length_b64encode)
  qed
  have keys: "is_dict ?part"
    "key_set_is ?part [''input-id'', ''bytes'', ''sha256'', ''offset'', ''base64'']
     \<or> key_set_is ?part [''input-id'', ''bytes'', ''sha256'', ''offset'', ''base64'', ''next-offset'']"
    by (auto simp: input_chunk_def Let_def key_set_is_iff)
  have iid: "part_identity ?part = served_identity (iid, e)"
    by (simp add: part_identity_def served_identity_def input_chunk_fields)
  have eq: "py_eq (served_identity (iid, e)) (served_identity (iid, e))"
    by (rule py_eq_refl) (simp add: served_identity_def)
  have fs: "field (served_identity (iid, e)) ''input-id'' = PStr iid"
    "field (served_identity (iid, e)) ''bytes'' = PInt (int (length e))"
    "field (served_identity (iid, e)) ''sha256'' = PStr (sha256_hex e)"
    by (simp_all add: served_identity_def)
  have s: "canonical_uuid_text iid" "1 \<le> int (length e)" "int (length e) \<le> max_input_json_bytes"
    using assms(1) by (simp_all add: served_def)
  have ends: "int (length ?data) = int (length e) - offset \<and> int (length e) \<le> offset + chunk_bytes
      \<or> int (length ?data) = chunk_bytes \<and> offset + chunk_bytes < int (length e)"
    using len by (auto simp: min_def)
  have bounds: "1 \<le> int (length ?data)" "int (length ?data) \<le> chunk_bytes"
    using len assms(3) by (simp_all add: chunk_bytes_def)
  show ?thesis
    unfolding check_part_def iid Let_def fs input_chunk_fields data
    using keys s eq assms(4) b64 bounds ends
    by (auto simp: canonical_uuid_def full_hex_sha256 b64_roundtrip)
qed

interpretation honest_input: honest_transfer
    "\<lambda>(iid, e). fetch_loop (honest_call tick iid e) run"
    "\<lambda>(iid, e) offset. honest_call tick iid e ''simmis_worker-input'' (input_request run offset)"
    check_part descriptor_size same_identity max_input_json_bytes chunk_bytes
    served snd served_identity tick
  for tick :: "'w \<Rightarrow> 'w" and run
proof (rule honest_transfer.intro, goal_cases)
  case (1 s)
  show ?case using fetch_chunks.chunk_transfer_axioms by (cases s) auto
next
  case (2 s)
  show ?case by (cases s) (simp add: descriptor_size_def served_identity_def)
next
  case 3
  show ?case by (simp add: chunk_bytes_def)
next
  case (4 s offset descriptor w)
  obtain iid e where s: "s = (iid, e)" by (cases s)
  have args: "int_of (field (input_request run offset) ''offset'') = offset"
    "int_of (field (input_request run offset) ''length'') = chunk_bytes"
    by (simp_all add: input_request_def)
  from check_honest_part [of iid e offset descriptor] 4 s args
  show ?case by (simp add: honest_call_def)
qed


text \<open>A small input, the witness of the properties below.\<close>

definition sample_uuid :: pystr where
  "sample_uuid = lit ''0b5e4c1a-7d3f-4e2a-9c8b-1f2e3d4c5b6a''"

definition sample_config :: pyval where
  "sample_config =
     PDict [(lit ''adapter'', PStr (lit ''codex'')), (lit ''version'', PStr (lit ''1.0'')),
            (lit ''model'', PStr (lit ''m'')), (lit ''policy'', PStr (lit ''local-trusted-v1''))]"

definition sample_input :: pyval where
  "sample_input =
     PDict [(lit ''input-id'', PStr sample_uuid), (lit ''task'', PStr (lit ''t'')),
            (lit ''config'', sample_config), (lit ''files'', PDict []),
            (lit ''limits'', PDict [(lit ''timeout-ms'', PInt 60000), (lit ''settlement'', PStr (lit ''review''))]),
            (lit ''policy'', PDict (map (\<lambda>(k, v). (lit k, PInt v)) POLICY))]"

definition sample_encoded :: bytes where
  "sample_encoded = map byte (render fmt_compact sample_input)"

lemma sample_uuid_ok: "canonical_uuid_text sample_uuid"
  by (simp add: canonical_uuid_text_def sample_uuid_def lit_simps full_hex_def is_lower_hex_def)

lemma sample_input_ok: "json_ok a sample_input"
  by (simp add: sample_input_def sample_config_def POLICY_def str_ok_def list_all_iff lit_simps
      is_surrogate_def sample_uuid_def)

lemma sample_config_fields:
  "field sample_input ''config'' = sample_config"
  "field sample_config ''adapter'' = PStr (lit ''codex'')"
  "field sample_config ''version'' = PStr (lit ''1.0'')" "field sample_config ''model'' = PStr (lit ''m'')"
  "field sample_config ''policy'' = PStr (lit ''local-trusted-v1'')"
  "is_dict sample_config" "key_set_is sample_config [''adapter'', ''version'', ''model'', ''policy'']"
  by (simp_all add: sample_input_def sample_config_def key_set_is_iff)

lemma sample_frozen: "frozen_spec sample_input sample_config"
proof -
  have "py_eq sample_config sample_config" by (rule py_eq_refl) (simp add: sample_config_def)
  then have "header_spec sample_input sample_config"
    using sample_uuid_ok
    by (simp add: header_spec_def sample_config_fields text_within_def)
      (simp add: sample_input_def key_set_is_iff POLICY_def)
  moreover have "is_dict sample_input" "field sample_input ''files'' = PDict []"
    by (simp_all add: sample_input_def)
  ultimately show ?thesis by (simp add: frozen_spec_def files_spec_def policy_defs)
qed

lemma sample_encoded_length: "length sample_encoded \<le> 1000"
  by (simp add: sample_encoded_def sample_input_def sample_config_def POLICY_def lit_simps fmt_compact_def
      quote_def escape_def escape_char_def sample_uuid_def policy_defs dec_int_def dec_nat.simps)

lemma sample_loads: "strict_loads sample_encoded = Inr sample_input"
proof (rule strict_loads_render)
  show "fmt_ok fmt_compact" by (rule fmt_ok_formats)
  show "utf8_encode (render fmt_compact sample_input) = Some sample_encoded"
    unfolding sample_encoded_def
    by (rule utf8_encode_render [OF fmt_ok_formats(2) _ sample_input_ok]) (simp add: fmt_compact_def)
qed (rule sample_input_ok)

lemma fetch_honest:
  assumes "canonical_uuid_text run" and "frozen_spec frozen config" and "strict_loads encoded = Inr frozen"
    and "int (length encoded) \<le> max_input_json_bytes"
    and "field frozen ''input-id'' = PStr iid"
  shows "fetch (honest_call tick iid encoded) (PStr run) config w =
    (Inr frozen, (tick ^^ nat ((int (length encoded) + chunk_bytes - 1) div chunk_bytes)) w)"
proof -
  have "encoded \<noteq> []"
    using assms(3) by (auto simp: strict_loads_def json_loads_def skip_ws_def scan_atom_def)
  then have served: "served (iid, encoded)"
    using assms by (auto simp: served_def frozen_spec_def header_spec_def Suc_le_eq)
  with honest_input.loop_honest [where s = "(iid, encoded)" and offset = 0 and descriptor = None and tick = tick and run = run and chunks = "[]" and w = w] \<open>encoded \<noteq> []\<close>
  obtain cs where l: "fetch_loop (honest_call tick iid encoded) run None [] 0 w =
      (Inr (served_identity (iid, encoded), cs),
       (tick ^^ nat ((int (length encoded) + chunk_bytes - 1) div chunk_bytes)) w)"
    and c: "concat cs = encoded" by auto
  have "validate frozen config = Inr frozen" using assms(2) by (simp add: validate_Inr_iff)
  with l c assms show ?thesis
    by (auto simp: fetch_def ebind_def canonical_uuid_def served_identity_def strict_loads_def Let_def
        split: option.splits)
qed

section \<open>Properties\<close>

text \<open>
  C1. Path safety.  Whatever value is offered as a filename, if \<open>path_parts\<close> accepts it then it is a
  string, the parts joined by slashes are that string, and no part is empty, blank, a dot or dot-dot
  entry or a runtime-configuration name in any case, or contains a slash, a backslash or a NUL: walking
  the parts below a directory can never leave it.
\<close>

theorem path_parts_never_escape:
  assumes "path_parts v = Inr parts"
  shows "v = PStr (join slash parts) \<and> parts \<noteq> [] \<and> (\<forall>p \<in> set parts. safe_part p)"
  using path_parts_PStr [OF assms] path_parts_nonempty [OF assms] path_parts_safe [OF assms] by blast

theorem path_parts_never_escape_witness:
  "path_parts (PStr (lit ''src/main.py'')) = Inr [lit ''src'', lit ''main.py''] \<and>
   safe_part (lit ''main.py'') \<and>
   path_parts (PStr (lit ''a/../b'')) = Inl (ValueError ''Worker input cannot name traversal or runtime configuration'')"
proof -
  have *: "path_parts (PStr (lit ''src/main.py'')) = Inr [lit ''src'', lit ''main.py'']"
    by (simp add: path_parts_def lit_simps slash_def is_Cc_def utf8_char_def is_space_def CONTROL_PATHS_def
        casefold_def casefold_char_def)
  have "path_parts (PStr (lit ''a/../b'')) =
      Inl (ValueError ''Worker input cannot name traversal or runtime configuration'')"
    by (simp add: path_parts_def lit_simps slash_def is_Cc_def utf8_char_def)
  with * path_parts_never_escape [OF *] show ?thesis by simp
qed

text \<open>
  C13. Frozen-input validation.  \<open>validate\<close> with its ordered checks and its running byte total accepts
  exactly the inputs of the declarative specification \<open>frozen_spec\<close>: the header fields are the pinned
  configuration and policy, there are at most 100 files, every path and every file is valid, no
  path lies inside another file's path, and the decoded sizes add up to at most 2 MiB.
\<close>

theorem validate_iff_frozen_spec:
  "validate frozen config = Inr r \<longleftrightarrow> r = frozen \<and> frozen_spec frozen config"
  by (rule validate_Inr_iff)



text \<open>
  C15. Download completeness.  Against an honest server, \<open>fetch\<close> returns: for every valid input and
  every encoding of it of at most 4 MiB, it makes one call per 16 KiB chunk (rounded up) and returns
  exactly that input.
\<close>

theorem fetch_from_honest_server:
  assumes "canonical_uuid_text run" and "frozen_spec frozen config" and "strict_loads encoded = Inr frozen"
    and "int (length encoded) \<le> max_input_json_bytes"
    and "field frozen ''input-id'' = PStr iid"
  shows "fetch (honest_call tick iid encoded) (PStr run) config w =
    (Inr frozen, (tick ^^ nat ((int (length encoded) + chunk_bytes - 1) div chunk_bytes)) w)"
  using assms by (rule fetch_honest)

theorem fetch_from_honest_server_witness:
  "fetch (honest_call Suc sample_uuid sample_encoded) (PStr sample_uuid) sample_config 0 =
    (Inr sample_input, (Suc ^^ nat ((int (length sample_encoded) + chunk_bytes - 1) div chunk_bytes)) 0)"
proof (rule fetch_from_honest_server [OF sample_uuid_ok sample_frozen sample_loads])
  show "int (length sample_encoded) \<le> max_input_json_bytes"
    using sample_encoded_length by (simp add: policy_defs)
qed (simp add: sample_input_def)

end
