(* ===== verification/Py_Posix.thy ===== *)
theory Py_Posix
  imports Py_Prog Py_Text Py_Base64
begin

text \<open>
  The part of the operating system the scripts rely on: inodes with an owner, a mode and contents,
  directories with descriptor-relative calls, \<open>fsync\<close>, hard links, advisory locks and the random
  source.

  A descriptor is the inode it refers to; that a descriptor is closed is not modelled, except where
  closing has an effect (a lock).  Inode numbers are not used again, and a path is followed from
  inode 0 through directories only (a symbolic link on the way is an error).

  Between any two system calls other processes may run: every call first takes the next step of
  the \<open>script\<close>, which changes the file system by an arbitrary function and says whether the call then
  succeeds, fails without an effect, or fails with a partial or complete effect.  The theorems are
  about every script whose other processes keep the rules of \<open>acts\<close>.
\<close>

section \<open>Inodes\<close>

datatype kind = Reg | Dir | Lnk | Special

text \<open>
  \<open>durable\<close> is the content that survives a crash (None: never synced) and \<open>stable\<close> the entries that
  do; \<open>creator\<close> is the process that made the inode, and \<open>changed\<close> stands for its time stamps.
\<close>

record inode =
  kind :: kind
  owner :: nat
  mode :: nat
  content :: bytes
  durable :: "bytes option"
  entries :: "(pystr \<times> nat) list"
  stable :: "(pystr \<times> nat) list"
  links :: nat
  changed :: nat
  creator :: nat

record fs =
  inodes :: "inode list"
  locks :: "(nat \<times> nat) list"

definition has_inode :: "fs \<Rightarrow> nat \<Rightarrow> bool" where
  "has_inode f i \<longleftrightarrow> i < length (inodes f)"

definition inode :: "fs \<Rightarrow> nat \<Rightarrow> inode" where
  "inode f i = inodes f ! i"

definition lookup :: "fs \<Rightarrow> nat \<Rightarrow> pystr \<Rightarrow> nat option" where
  "lookup f d n = (if has_inode f d then map_of (entries (inode f d)) n else None)"

definition stable_lookup :: "fs \<Rightarrow> nat \<Rightarrow> pystr \<Rightarrow> nat option" where
  "stable_lookup f d n = (if has_inode f d then map_of (stable (inode f d)) n else None)"

definition set_inode :: "nat \<Rightarrow> inode \<Rightarrow> fs \<Rightarrow> fs" where
  "set_inode i x f = f\<lparr>inodes := (inodes f)[i := x]\<rparr>"

definition add_inode :: "inode \<Rightarrow> fs \<Rightarrow> fs" where
  "add_inode x f = f\<lparr>inodes := inodes f @ [x]\<rparr>"

text \<open>Every entry of every directory leads to an inode.\<close>

definition fs_ok :: "fs \<Rightarrow> bool" where
  "fs_ok f \<longleftrightarrow> (\<forall>d n i. lookup f d n = Some i \<longrightarrow> has_inode f i)"

section \<open>The world of a process\<close>

datatype outcome = Done | Fails nat

record posix =
  fs :: fs
  script :: "((fs \<Rightarrow> fs) \<times> outcome) list"
  uid :: nat
  pid :: nat
  umask :: nat
  entropy :: "nat \<Rightarrow> 8 word"
  drawn :: nat

definition next_step :: "'a posix_scheme \<Rightarrow> outcome \<times> 'a posix_scheme" where
  "next_step w =
     (case script w of
        [] \<Rightarrow> (Done, w)
      | (g, out) # rest \<Rightarrow> (out, w\<lparr>fs := g (fs w), script := rest\<rparr>))"

definition io_error :: exn where
  "io_error = OSError ''I/O error''"

text \<open>A call with result and effect \<open>f\<close>; \<open>p n\<close> is what a call that fails with \<open>n\<close> leaves behind.\<close>

definition syscall_partial ::
  "(fs \<Rightarrow> exn + 'b \<times> fs) \<Rightarrow> (nat \<Rightarrow> fs \<Rightarrow> fs) \<Rightarrow> ('a posix_scheme, 'b) prog" where
  "syscall_partial f p w =
     (case next_step w of (out, w1) \<Rightarrow>
        (case f (fs w1) of
           Inl e \<Rightarrow> (Inl e, w1)
         | Inr (x, s) \<Rightarrow>
             (case out of
                Done \<Rightarrow> (Inr x, w1\<lparr>fs := s\<rparr>)
              | Fails n \<Rightarrow> (Inl io_error, w1\<lparr>fs := p n (fs w1)\<rparr>))))"

definition syscall :: "(fs \<Rightarrow> exn + 'b \<times> fs) \<Rightarrow> ('a posix_scheme, 'b) prog" where
  "syscall f =
     syscall_partial f (\<lambda>n s. if n = 0 then s else (case f s of Inl _ \<Rightarrow> s | Inr (_, s') \<Rightarrow> s'))"

section \<open>System calls\<close>

record stat_info =
  st_kind :: kind
  st_uid :: nat
  st_mode :: nat
  st_size :: nat
  st_nlink :: nat
  st_time :: nat
  st_ino :: nat

definition info_of :: "fs \<Rightarrow> nat \<Rightarrow> stat_info" where
  "info_of f i =
     (let x = inode f i in
      \<lparr>st_kind = kind x, st_uid = owner x, st_mode = mode x, st_size = length (content x),
       st_nlink = links x, st_time = changed x, st_ino = i\<rparr>)"

definition sys_fstat :: "nat \<Rightarrow> ('a posix_scheme, stat_info) prog" where
  "sys_fstat i = syscall (\<lambda>f. if has_inode f i then Inr (info_of f i, f) else Inl (OSError ''EBADF''))"

text \<open>\<open>os.stat(name, dir_fd=d, follow_symlinks=False)\<close>\<close>

definition find_entry :: "fs \<Rightarrow> nat \<Rightarrow> pystr \<Rightarrow> exn + nat" where
  "find_entry f d n = (case lookup f d n of None \<Rightarrow> Inl FileNotFoundError | Some i \<Rightarrow> Inr i)"

definition sys_stat :: "nat \<Rightarrow> pystr \<Rightarrow> ('a posix_scheme, stat_info) prog" where
  "sys_stat d n = syscall (\<lambda>f. rbind (find_entry f d n) (\<lambda>i. Inr (info_of f i, f)))"

text \<open>\<open>os.open(name, O_RDONLY | O_NOFOLLOW | O_NONBLOCK, dir_fd=d)\<close>, and with \<open>O_DIRECTORY\<close>\<close>

definition open_entry :: "fs \<Rightarrow> nat \<Rightarrow> exn + nat" where
  "open_entry f i = (if kind (inode f i) = Lnk then Inl (OSError ''ELOOP'') else Inr i)"

definition open_directory :: "fs \<Rightarrow> nat \<Rightarrow> exn + nat" where
  "open_directory f i =
     (if kind (inode f i) = Dir then Inr i else Inl NotADirectoryError)"

definition sys_open :: "nat \<Rightarrow> pystr \<Rightarrow> ('a posix_scheme, nat) prog" where
  "sys_open d n =
     syscall (\<lambda>f. rbind (find_entry f d n) (\<lambda>i. rbind (open_entry f i) (\<lambda>i. Inr (i, f))))"

definition sys_opendir :: "nat \<Rightarrow> pystr \<Rightarrow> ('a posix_scheme, nat) prog" where
  "sys_opendir d n =
     syscall (\<lambda>f. rbind (find_entry f d n) (\<lambda>i. rbind (open_directory f i) (\<lambda>i. Inr (i, f))))"

fun walk :: "fs \<Rightarrow> nat \<Rightarrow> pystr list \<Rightarrow> exn + nat" where
  "walk f d [] = Inr d"
| "walk f d (n # ns) =
     rbind (find_entry f d n) (\<lambda>i. rbind (open_directory f i) (\<lambda>i. walk f i ns))"

text \<open>\<open>os.open(path, O_RDONLY | O_DIRECTORY | O_NOFOLLOW)\<close>\<close>

definition sys_open_path :: "pystr list \<Rightarrow> ('a posix_scheme, nat) prog" where
  "sys_open_path path =
     syscall (\<lambda>f. if has_inode f 0 then rbind (walk f 0 path) (\<lambda>d. Inr (d, f)) else Inl FileNotFoundError)"

text \<open>\<open>stream.read(n)\<close> on a file just opened\<close>

definition sys_read :: "nat \<Rightarrow> nat \<Rightarrow> ('a posix_scheme, bytes) prog" where
  "sys_read i n =
     syscall (\<lambda>f. if has_inode f i \<and> kind (inode f i) = Reg then Inr (take n (content (inode f i)), f)
                  else Inl (OSError ''EISDIR''))"

text \<open>\<open>os.open(name, O_WRONLY | O_CREAT | O_EXCL | O_NOFOLLOW, perm, dir_fd=d)\<close> and \<open>os.mkdir\<close>\<close>

definition new_inode :: "kind \<Rightarrow> nat \<Rightarrow> nat \<Rightarrow> nat \<Rightarrow> inode" where
  "new_inode k who perm process =
     \<lparr>kind = k, owner = who, mode = perm, content = [], durable = None, entries = [], stable = [],
      links = 1, changed = 0, creator = process\<rparr>"

definition add_entry :: "nat \<Rightarrow> pystr \<Rightarrow> nat \<Rightarrow> fs \<Rightarrow> fs" where
  "add_entry d n i f = set_inode d ((inode f d)\<lparr>entries := (n, i) # entries (inode f d)\<rparr>) f"

definition make :: "kind \<Rightarrow> nat \<Rightarrow> nat \<Rightarrow> nat \<Rightarrow> nat \<Rightarrow> pystr \<Rightarrow> fs \<Rightarrow> exn + nat \<times> fs" where
  "make k who process perm d n f =
     (if \<not> has_inode f d \<or> kind (inode f d) \<noteq> Dir then Inl NotADirectoryError
      else if lookup f d n \<noteq> None then Inl FileExistsError
      else let i = length (inodes f) in
           Inr (i, add_entry d n i (add_inode (new_inode k who perm process) f)))"

definition masked :: "nat \<Rightarrow> nat \<Rightarrow> nat" where
  "masked perm m = perm - and perm m"

definition sys_create :: "nat \<Rightarrow> pystr \<Rightarrow> nat \<Rightarrow> ('a posix_scheme, nat) prog" where
  "sys_create d n perm w = syscall (make Reg (uid w) (pid w) (masked perm (umask w)) d n) w"

definition sys_mkdir :: "nat \<Rightarrow> pystr \<Rightarrow> nat \<Rightarrow> ('a posix_scheme, unit) prog" where
  "sys_mkdir d n perm w =
     syscall (\<lambda>f. rbind (make Dir (uid w) (pid w) (masked perm (umask w)) d n f) (\<lambda>(i, f'). Inr ((), f'))) w"

text \<open>\<open>os.open(name, O_CREAT | O_RDWR | O_NOFOLLOW | O_NONBLOCK, perm, dir_fd=d)\<close>\<close>

definition sys_open_create :: "nat \<Rightarrow> pystr \<Rightarrow> nat \<Rightarrow> ('a posix_scheme, nat) prog" where
  "sys_open_create d n perm w =
     syscall (\<lambda>f. case lookup f d n of
        None \<Rightarrow> make Reg (uid w) (pid w) (masked perm (umask w)) d n f
      | Some i \<Rightarrow> rbind (open_entry f i)
          (\<lambda>i. if kind (inode f i) = Dir then Inl (OSError ''EISDIR'') else Inr (i, f))) w"

definition sys_fchmod :: "nat \<Rightarrow> nat \<Rightarrow> ('a posix_scheme, unit) prog" where
  "sys_fchmod i perm =
     syscall (\<lambda>f. if has_inode f i then Inr ((), set_inode i ((inode f i)\<lparr>mode := perm\<rparr>) f)
                  else Inl (OSError ''EBADF''))"

text \<open>\<open>stream.write(data); stream.flush()\<close> on a new file: a failing write leaves a prefix\<close>

definition put :: "nat \<Rightarrow> bytes \<Rightarrow> fs \<Rightarrow> fs" where
  "put i data f =
     set_inode i ((inode f i)\<lparr>content := content (inode f i) @ data, changed := Suc (changed (inode f i))\<rparr>) f"

definition sys_write :: "nat \<Rightarrow> bytes \<Rightarrow> ('a posix_scheme, unit) prog" where
  "sys_write i data =
     syscall_partial (\<lambda>f. if has_inode f i then Inr ((), put i data f) else Inl (OSError ''EBADF''))
       (\<lambda>n. put i (take n data))"

definition sync :: "nat \<Rightarrow> fs \<Rightarrow> fs" where
  "sync i f =
     set_inode i ((inode f i)\<lparr>durable := Some (content (inode f i)), stable := entries (inode f i)\<rparr>) f"

definition sys_fsync :: "nat \<Rightarrow> ('a posix_scheme, unit) prog" where
  "sys_fsync i = syscall (\<lambda>f. if has_inode f i then Inr ((), sync i f) else Inl (OSError ''EBADF''))"

text \<open>\<open>os.link(src, dst, src_dir_fd=d, dst_dir_fd=d, follow_symlinks=False)\<close> and \<open>os.unlink\<close>\<close>

definition sys_link :: "nat \<Rightarrow> pystr \<Rightarrow> pystr \<Rightarrow> ('a posix_scheme, unit) prog" where
  "sys_link d src dst =
     syscall (\<lambda>f. rbind (find_entry f d src) (\<lambda>i.
       if lookup f d dst \<noteq> None then Inl FileExistsError
       else Inr ((), add_entry d dst i
                       (set_inode i ((inode f i)\<lparr>links := Suc (links (inode f i))\<rparr>) f))))"

definition remove_entry :: "nat \<Rightarrow> pystr \<Rightarrow> fs \<Rightarrow> fs" where
  "remove_entry d n f =
     set_inode d ((inode f d)\<lparr>entries := filter (\<lambda>(m, _). m \<noteq> n) (entries (inode f d))\<rparr>) f"

definition sys_unlink :: "nat \<Rightarrow> pystr \<Rightarrow> ('a posix_scheme, unit) prog" where
  "sys_unlink d n =
     syscall (\<lambda>f. rbind (find_entry f d n) (\<lambda>i.
       Inr ((), remove_entry d n
                  (set_inode i ((inode f i)\<lparr>links := links (inode f i) - 1\<rparr>) f))))"

definition sys_scandir :: "nat \<Rightarrow> ('a posix_scheme, pystr list) prog" where
  "sys_scandir d =
     syscall (\<lambda>f. if has_inode f d then Inr (map fst (entries (inode f d)), f) else Inl (OSError ''EBADF''))"

text \<open>\<open>fcntl.flock(fd, LOCK_EX | LOCK_NB)\<close>, and the close of the descriptor that holds the lock\<close>

definition sys_flock :: "nat \<Rightarrow> ('a posix_scheme, unit) prog" where
  "sys_flock i w =
     syscall_partial (\<lambda>f. case map_of (locks f) i of
        Some q \<Rightarrow> Inl BlockingIOError
      | None \<Rightarrow> Inr ((), f\<lparr>locks := (i, pid w) # locks f\<rparr>)) (\<lambda>n f. f) w"

definition release_lock :: "nat \<Rightarrow> ('a posix_scheme, unit) prog" where
  "release_lock i w =
     (Inr (),
      if map_of (locks (fs w)) i = Some (pid w)
      then w\<lparr>fs := (fs w)\<lparr>locks := filter (\<lambda>(j, _). j \<noteq> i) (locks (fs w))\<rparr>\<rparr> else w)"

section \<open>Random values\<close>

definition draw :: "nat \<Rightarrow> ('a posix_scheme, bytes) prog" where
  "draw n w = (Inr (map (entropy w) [drawn w..<drawn w + n]), w\<lparr>drawn := drawn w + n\<rparr>)"

text \<open>\<open>uuid.uuid4()\<close>: sixteen random bytes with the version and variant bits set; \<open>.hex\<close> and \<open>str\<close>\<close>

definition uuid4_bytes :: "bytes \<Rightarrow> bytes" where
  "uuid4_bytes b =
     b[6 := or (and (b ! 6) 15) 64, 8 := or (and (b ! 8) 63) 128]"

definition uuid_text :: "pystr \<Rightarrow> pystr" where
  "uuid_text h =
     join 45 [take 8 h, take 4 (drop 8 h), take 4 (drop 12 h), take 4 (drop 16 h), drop 20 h]"

definition uuid4_hex :: "('a posix_scheme, pystr) prog" where
  "uuid4_hex = ebind (draw 16) (\<lambda>b. ret (hex (uuid4_bytes b)))"

definition uuid4 :: "('a posix_scheme, pystr) prog" where
  "uuid4 = ebind uuid4_hex (\<lambda>h. ret (uuid_text h))"

text \<open>\<open>secrets.token_urlsafe(n)\<close>: \<open>base64.urlsafe_b64encode(token_bytes(n)).rstrip(b"=")\<close>\<close>

definition urlsafe :: "nat \<Rightarrow> nat" where
  "urlsafe c = (if c = 43 then 45 else if c = 47 then 95 else c)"

definition token_urlsafe :: "nat \<Rightarrow> ('a posix_scheme, pystr) prog" where
  "token_urlsafe n =
     ebind (draw n) (\<lambda>b. ret (map urlsafe (takeWhile (\<lambda>c. c \<noteq> 61) (b64encode b))))"

lemma length_hex [simp]: "length (hex bs) = 2 * length bs"
  using full_hex_hex [of bs] by (simp add: full_hex_def)

lemma uuid_text_canonical:
  assumes "full_hex 32 h"
  shows "canonical_uuid_text (uuid_text h)"
proof -
  have len: "length h = 32" and hx: "\<And>c. c \<in> set h \<Longrightarrow> is_lower_hex c"
    using assms by (auto simp: full_hex_def list_all_iff)
  let ?ps = "[take 8 h, take 4 (drop 8 h), take 4 (drop 12 h), take 4 (drop 16 h), drop 20 h]"
  have sub: "set p \<subseteq> set h" if "p \<in> set ?ps" for p
    using that by (auto dest: in_set_takeD in_set_dropD)
  have "45 \<notin> set h" using hx [of 45] by (auto simp: is_lower_hex_def)
  then have "split 45 (uuid_text h) = ?ps"
    unfolding uuid_text_def using sub by (intro split_join) auto
  moreover have "list_all is_lower_hex p" if "p \<in> set ?ps" for p
    using sub [OF that] hx by (auto simp: list_all_iff)
  ultimately show ?thesis using len by (simp add: canonical_uuid_text_def full_hex_def)
qed

lemma uuid4_hex_full: "uuid4_hex w = (Inr h, w') \<Longrightarrow> full_hex 32 h"
  using full_hex_hex [of "uuid4_bytes (map (entropy w) [drawn w..<drawn w + 16])"]
  by (auto simp: uuid4_hex_def draw_def ebind_def uuid4_bytes_def)

lemma uuid4_canonical: "uuid4 w = (Inr u, w') \<Longrightarrow> canonical_uuid_text u"
  by (auto simp: uuid4_def ebind_def uuid_text_canonical split: prod.splits sum.splits dest!: uuid4_hex_full)

end
