(* ===== verification/Py_Rely.thy ===== *)
theory Py_Rely
  imports Py_Posix
begin

text \<open>
  What a process may assume of the others, and what it gives in return.

  \<open>acts P S f f'\<close>: from \<open>f\<close> to \<open>f'\<close> only processes in \<open>P\<close> acted, by the rules of the scripts: an inode is
  written or linked only by the process that made it, and in the state directories \<open>S\<close> an entry whose
  name does not begin with a dot is never removed or replaced, and neither is the file it leads to.
  \<open>fair P S w\<close> says that the other processes in the script of \<open>w\<close> keep these rules; the lemmas show
  that the calls of a process keep them too, so that the rules are closed under any interleaving.
\<close>

section \<open>Rules of the shared file system\<close>

definition published :: "pystr \<Rightarrow> bool" where
  "published n \<longleftrightarrow> \<not> starts_with (lit ''.'') n"

definition kept :: "inode \<Rightarrow> inode \<Rightarrow> bool" where
  "kept a b \<longleftrightarrow>
     mode b = mode a \<and> content b = content a
     \<and> (durable a = Some (content a) \<longrightarrow> durable b = Some (content b))"

text \<open>What a permanent name leads to was on disk before it got the name (a new lock file is empty).\<close>

definition settled :: "(nat \<Rightarrow> bool) \<Rightarrow> fs \<Rightarrow> bool" where
  "settled S f \<longleftrightarrow>
     (\<forall>d n i. S d \<longrightarrow> published n \<longrightarrow> lookup f d n = Some i \<longrightarrow>
        content (inode f i) = [] \<or> durable (inode f i) = Some (content (inode f i)))"

definition acts :: "(nat \<Rightarrow> bool) \<Rightarrow> (nat \<Rightarrow> bool) \<Rightarrow> fs \<Rightarrow> fs \<Rightarrow> bool" where
  "acts P S f f' \<longleftrightarrow>
     (fs_ok f \<longrightarrow> fs_ok f') \<and> (fs_ok f \<longrightarrow> settled S f \<longrightarrow> settled S f')
     \<and> length (inodes f) \<le> length (inodes f')
     \<and> (\<forall>i. has_inode f i \<longrightarrow> kind (inode f' i) = kind (inode f i) \<and> owner (inode f' i) = owner (inode f i)
           \<and> creator (inode f' i) = creator (inode f i))
     \<and> (\<forall>i. has_inode f' i \<longrightarrow> \<not> has_inode f i \<longrightarrow> P (creator (inode f' i)))
     \<and> (\<forall>i. has_inode f i \<longrightarrow> \<not> P (creator (inode f i)) \<longrightarrow> kept (inode f i) (inode f' i))
     \<and> (\<forall>d n i. has_inode f i \<longrightarrow> \<not> P (creator (inode f i)) \<longrightarrow>
           (lookup f' d n = Some i \<longleftrightarrow> lookup f d n = Some i))
     \<and> (\<forall>d n i. S d \<longrightarrow> published n \<longrightarrow> lookup f d n = Some i \<longrightarrow>
           lookup f' d n = Some i \<and> kept (inode f i) (inode f' i)
           \<and> (stable_lookup f d n = Some i \<longrightarrow> stable_lookup f' d n = Some i))
     \<and> (\<forall>i q. \<not> P q \<longrightarrow> (map_of (locks f') i = Some q \<longleftrightarrow> map_of (locks f) i = Some q))"

lemma settled_kept:
  assumes "settled S f"
    and "\<And>d n i. S d \<Longrightarrow> published n \<Longrightarrow> lookup f' d n = Some i \<Longrightarrow>
      lookup f d n = Some i \<and> kept (inode f i) (inode f' i)
      \<or> content (inode f' i) = [] \<or> durable (inode f' i) = Some (content (inode f' i))"
  shows "settled S f'"
  unfolding settled_def
proof (intro allI impI)
  fix d n i assume "S d" "published n" "lookup f' d n = Some i"
  with assms show "content (inode f' i) = [] \<or> durable (inode f' i) = Some (content (inode f' i))"
    unfolding settled_def kept_def by metis
qed

lemma kept_refl [simp]: "kept a a"
  by (simp add: kept_def)

lemma kept_trans: "kept a b \<Longrightarrow> kept b c \<Longrightarrow> kept a c"
  by (simp add: kept_def)

lemma acts_refl [simp]: "acts P S f f"
  by (simp add: acts_def)

lemma actsD:
  assumes "acts P S f f'"
  shows "fs_ok f \<Longrightarrow> fs_ok f'"
    and "has_inode f i \<Longrightarrow> has_inode f' i"
    and "has_inode f i \<Longrightarrow> kind (inode f' i) = kind (inode f i)"
    and "has_inode f i \<Longrightarrow> owner (inode f' i) = owner (inode f i)"
    and "has_inode f i \<Longrightarrow> creator (inode f' i) = creator (inode f i)"
    and "has_inode f' i \<Longrightarrow> \<not> has_inode f i \<Longrightarrow> P (creator (inode f' i))"
    and "has_inode f i \<Longrightarrow> \<not> P (creator (inode f i)) \<Longrightarrow> kept (inode f i) (inode f' i)"
    and "has_inode f i \<Longrightarrow> \<not> P (creator (inode f i)) \<Longrightarrow> lookup f' d n = Some i \<longleftrightarrow> lookup f d n = Some i"
    and "S d \<Longrightarrow> published n \<Longrightarrow> lookup f d n = Some i \<Longrightarrow> lookup f' d n = Some i"
    and "S d \<Longrightarrow> published n \<Longrightarrow> lookup f d n = Some i \<Longrightarrow> kept (inode f i) (inode f' i)"
    and "S d \<Longrightarrow> published n \<Longrightarrow> lookup f d n = Some i \<Longrightarrow> stable_lookup f d n = Some i \<Longrightarrow>
      stable_lookup f' d n = Some i"
    and "\<not> P q \<Longrightarrow> map_of (locks f') i = Some q \<longleftrightarrow> map_of (locks f) i = Some q"
    and "fs_ok f \<Longrightarrow> settled S f \<Longrightarrow> settled S f'"
  using assms unfolding acts_def by (auto simp: has_inode_def)

lemma acts_trans:
  assumes a: "acts P S f g" and b: "acts P S g h"
  shows "acts P S f h"
  unfolding acts_def
proof (intro conjI allI impI)
  show "length (inodes f) \<le> length (inodes h)" using a b unfolding acts_def by linarith
next
  fix i assume "has_inode h i" "\<not> has_inode f i"
  then show "P (creator (inode h i))" using actsD [OF a] actsD [OF b] by (cases "has_inode g i") metis+
next
  fix i assume "has_inode f i" "\<not> P (creator (inode f i))"
  then show "kept (inode f i) (inode h i)"
    using actsD(2,5,7) [OF a] actsD(7) [OF b] by (metis kept_trans)
next
  fix d n i assume "has_inode f i" "\<not> P (creator (inode f i))"
  then show "lookup h d n = Some i \<longleftrightarrow> lookup f d n = Some i"
    using actsD(2,5,8) [OF a] actsD(8) [OF b] by metis
next
  fix d n i assume "S d" "published n" "lookup f d n = Some i"
  then show "kept (inode f i) (inode h i)"
    using actsD(9,10) [OF a] actsD(10) [OF b] by (metis kept_trans)
qed (use actsD [OF a] actsD [OF b] in \<open>metis\<close>)+

lemma acts_mono: "acts P S f f' \<Longrightarrow> (\<And>q. P q \<Longrightarrow> Q q) \<Longrightarrow> acts Q S f f'"
  unfolding acts_def by blast

text \<open>An inode that only its maker knows: its one name is a staging name.\<close>

definition unshared :: "fs \<Rightarrow> nat \<Rightarrow> nat \<Rightarrow> nat \<Rightarrow> pystr \<Rightarrow> bool" where
  "unshared f p i d n \<longleftrightarrow>
     has_inode f i \<and> creator (inode f i) = p \<and> kind (inode f i) = Reg
     \<and> (\<forall>d' n'. lookup f d' n' = Some i \<longleftrightarrow> d' = d \<and> n' = n)"

lemma unshared_acts:
  "unshared f p i d n \<Longrightarrow> acts P S f f' \<Longrightarrow> \<not> P p \<Longrightarrow> unshared f' p i d n"
  by (auto simp: unshared_def actsD)

lemma unshared_kept:
  "unshared f p i d n \<Longrightarrow> acts P S f f' \<Longrightarrow> \<not> P p \<Longrightarrow> kept (inode f i) (inode f' i)"
  by (auto simp: unshared_def actsD)

section \<open>Fair worlds\<close>

definition fair :: "(nat \<Rightarrow> bool) \<Rightarrow> (nat \<Rightarrow> bool) \<Rightarrow> 'a posix_scheme \<Rightarrow> bool" where
  "fair P S w \<longleftrightarrow>
     fs_ok (fs w) \<and> settled S (fs w) \<and> \<not> P (pid w) \<and> (\<forall>(g, out) \<in> set (script w). \<forall>f. fs_ok f \<longrightarrow> acts P S f (g f))"

text \<open>What one process and the others make of a world.\<close>

definition evolves :: "(nat \<Rightarrow> bool) \<Rightarrow> (nat \<Rightarrow> bool) \<Rightarrow> 'a posix_scheme \<Rightarrow> 'a posix_scheme \<Rightarrow> bool" where
  "evolves P S w w' \<longleftrightarrow>
     (fair P S w \<longrightarrow> fair P S w' \<and> acts (\<lambda>q. P q \<or> q = pid w) S (fs w) (fs w'))
     \<and> pid w' = pid w \<and> uid w' = uid w \<and> posix.more w' = posix.more w"

interpretation shared: effect_relation "evolves P S" for P S
proof
  show "evolves P S w w" for w :: "'a posix_scheme" by (simp add: evolves_def)
  show "evolves P S u v \<Longrightarrow> evolves P S v w \<Longrightarrow> evolves P S u w" for u v w :: "'a posix_scheme"
    unfolding evolves_def by (auto intro: acts_trans)
qed

text \<open>The step of the others before a call.\<close>

definition others :: "(nat \<Rightarrow> bool) \<Rightarrow> (nat \<Rightarrow> bool) \<Rightarrow> 'a posix_scheme \<Rightarrow> 'a posix_scheme \<Rightarrow> bool" where
  "others P S w w' \<longleftrightarrow>
     fair P S w' \<and> acts P S (fs w) (fs w')
     \<and> pid w' = pid w \<and> uid w' = uid w \<and> umask w' = umask w \<and> entropy w' = entropy w
     \<and> drawn w' = drawn w \<and> posix.more w' = posix.more w"

lemma othersD:
  assumes "others P S w w'"
  shows "fair P S w'" "acts P S (fs w) (fs w')" "pid w' = pid w" "uid w' = uid w" "umask w' = umask w"
    "entropy w' = entropy w" "drawn w' = drawn w" "posix.more w' = posix.more w"
  using assms by (auto simp: others_def)

lemma others_trans: "others P S u v \<Longrightarrow> others P S v w \<Longrightarrow> others P S u w"
  unfolding others_def by (auto intro: acts_trans)

lemma others_refl: "fair P S w \<Longrightarrow> others P S w w"
  by (simp add: others_def)

lemma evolvesD:
  assumes "evolves P S w w'" "fair P S w"
  shows "fair P S w'" "acts (\<lambda>q. P q \<or> q = pid w) S (fs w) (fs w')" "pid w' = pid w" "uid w' = uid w"
    "posix.more w' = posix.more w"
  using assms by (auto simp: evolves_def)

lemma next_step_others: "fair P S w \<Longrightarrow> next_step w = (out, w1) \<Longrightarrow> others P S w w1"
proof (cases "script w")
  case Nil
  assume "fair P S w" "next_step w = (out, w1)"
  then show ?thesis using Nil by (auto simp: next_step_def others_def)
next
  case (Cons st r)
  assume "fair P S w" "next_step w = (out, w1)"
  moreover obtain g out' where st: "st = (g, out')" by (cases st)
  ultimately have w1: "w1 = w\<lparr>fs := g (fs w), script := r\<rparr>" and a: "acts P S (fs w) (g (fs w))"
    and f: "fs_ok (fs w)" "settled S (fs w)" "\<not> P (pid w)" "\<forall>(g, out) \<in> set r. \<forall>f. fs_ok f \<longrightarrow> acts P S f (g f)"
    using Cons by (auto simp: next_step_def fair_def)
  have "fair P S w1" using w1 f actsD(1) [OF a f(1)] actsD(13) [OF a f(1,2)] by (simp add: fair_def)
  then show ?thesis using w1 a by (auto simp: others_def)
qed

lemma wp_syscall_partial:
  assumes "fair P S w"
    and "\<And>w1. others P S w w1 \<Longrightarrow>
      (case f (fs w1) of
         Inl e \<Rightarrow> Q (Inl e) w1
       | Inr (x, s) \<Rightarrow> Q (Inr x) (w1\<lparr>fs := s\<rparr>) \<and> (\<forall>n. Q (Inl io_error) (w1\<lparr>fs := p n (fs w1)\<rparr>)))"
  shows "wp (syscall_partial f p) Q w"
proof -
  obtain out w1 where s: "next_step w = (out, w1)" by (cases "next_step w")
  from assms(2) [OF next_step_others [OF assms(1) s]] s show ?thesis
    by (auto simp: wp_def syscall_partial_def split: sum.splits prod.splits outcome.splits)
qed

lemma wp_syscall:
  assumes "fair P S w"
    and "\<And>w1. others P S w w1 \<Longrightarrow>
      (case f (fs w1) of
         Inl e \<Rightarrow> Q (Inl e) w1
       | Inr (x, s) \<Rightarrow> Q (Inr x) (w1\<lparr>fs := s\<rparr>) \<and> Q (Inl io_error) (w1\<lparr>fs := s\<rparr>) \<and> Q (Inl io_error) w1)"
  shows "wp (syscall f) Q w"
  unfolding syscall_def
proof (rule wp_syscall_partial [OF assms(1)])
  fix w1 :: "'a posix_scheme" assume "others P S w w1"
  from assms(2) [OF this] show "case f (fs w1) of
         Inl e \<Rightarrow> Q (Inl e) w1
       | Inr (x, s) \<Rightarrow> Q (Inr x) (w1\<lparr>fs := s\<rparr>) \<and> (\<forall>n. Q (Inl io_error)
           (w1\<lparr>fs := if n = 0 then fs w1 else case f (fs w1) of Inl _ \<Rightarrow> fs w1 | Inr (_, s') \<Rightarrow> s'\<rparr>))"
    by (auto split: sum.splits prod.splits)
qed


section \<open>The calls keep the rules\<close>

lemma has_inode_simps [simp]:
  "has_inode (set_inode i x f) j \<longleftrightarrow> has_inode f j"
  "has_inode (add_inode x f) j \<longleftrightarrow> has_inode f j \<or> j = length (inodes f)"
  "has_inode (locks_update l f) j \<longleftrightarrow> has_inode f j"
  by (auto simp: has_inode_def set_inode_def add_inode_def)

lemma inode_simps [simp]:
  "has_inode f i \<Longrightarrow> inode (set_inode i x f) j = (if j = i then x else inode f j)"
  "has_inode f j \<Longrightarrow> inode (add_inode x f) j = inode f j"
  "inode (add_inode x f) (length (inodes f)) = x"
  "inode (locks_update l f) j = inode f j"
  by (auto simp: has_inode_def set_inode_def add_inode_def inode_def nth_append)

lemma length_inodes [simp]:
  "length (inodes (set_inode i x f)) = length (inodes f)"
  "length (inodes (add_inode x f)) = Suc (length (inodes f))"
  "inodes (locks_update l f) = inodes f"
  by (simp_all add: set_inode_def add_inode_def)

lemma lookup_set_inode:
  "has_inode f i \<Longrightarrow>
     lookup (set_inode i x f) d n = (if d = i then map_of (entries x) n else lookup f d n)"
  by (auto simp: lookup_def)

lemma stable_lookup_set_inode:
  "has_inode f i \<Longrightarrow>
     stable_lookup (set_inode i x f) d n = (if d = i then map_of (stable x) n else stable_lookup f d n)"
  by (auto simp: stable_lookup_def)

lemma locks_simps [simp]:
  "locks (set_inode i x f) = locks f" "locks (add_inode x f) = locks f" "locks (add_entry d n i f) = locks f"
  by (simp_all add: set_inode_def add_inode_def add_entry_def)

lemma lookup_locks [simp]:
  "lookup (locks_update l f) d n = lookup f d n" "stable_lookup (locks_update l f) d n = stable_lookup f d n"
  by (simp_all add: lookup_def stable_lookup_def)

lemma lookup_has_inode: "lookup f d n = Some i \<Longrightarrow> has_inode f d"
  by (auto simp: lookup_def split: if_splits)

lemma fs_okD: "fs_ok f \<Longrightarrow> lookup f d n = Some i \<Longrightarrow> has_inode f i"
  by (auto simp: fs_ok_def)

text \<open>An update of one inode that leaves its entries alone.\<close>

lemma acts_set_inode:
  assumes "has_inode f i" and "entries x = entries (inode f i)"
    and "kind x = kind (inode f i)" "owner x = owner (inode f i)" "creator x = creator (inode f i)"
    and "kept (inode f i) x \<or> P (creator x) \<and> (\<forall>d n. S d \<longrightarrow> published n \<longrightarrow> lookup f d n \<noteq> Some i)"
    and "stable x = stable (inode f i) \<or> stable x = entries x"
  shows "acts P S f (set_inode i x f)"
proof -
  have "lookup (set_inode i x f) d n = lookup f d n" for d n
    using assms(1,2) by (simp add: lookup_set_inode) (simp add: lookup_def)
  moreover have "stable_lookup (set_inode i x f) d n = Some j"
    if "lookup f d n = Some j" "stable_lookup f d n = Some j" for d n j
    using that assms(1,2,7) by (auto simp: stable_lookup_set_inode) (auto simp: lookup_def stable_lookup_def)
  moreover have "settled S (set_inode i x f)" if "settled S f"
    using that assms(1,6) \<open>\<And>d n. lookup (set_inode i x f) d n = lookup f d n\<close>
    by (intro settled_kept [OF that]) auto
  ultimately show ?thesis
    using assms unfolding acts_def fs_ok_def by auto
qed

lemma acts_sync: "has_inode f i \<Longrightarrow> acts P S f (sync i f)"
  unfolding sync_def by (rule acts_set_inode) (auto simp: kept_def)

lemma acts_unshared_write:
  assumes "unshared f p i d n" "\<not> published n" "P p"
  shows "acts P S f (put i data f)" "acts P S f (set_inode i ((inode f i)\<lparr>mode := m\<rparr>) f)"
  using assms unfolding put_def by (auto intro!: acts_set_inode simp: unshared_def)

lemma lookup_add_entry:
  "has_inode f d \<Longrightarrow>
     lookup (add_entry d n i f) d' n' = (if d' = d \<and> n' = n then Some i else lookup f d' n')"
  by (auto simp: add_entry_def lookup_set_inode) (auto simp: lookup_def)

lemma stable_lookup_add_entry [simp]:
  "has_inode f d \<Longrightarrow> stable_lookup (add_entry d n i f) d' n' = stable_lookup f d' n'"
  by (auto simp: add_entry_def stable_lookup_set_inode) (auto simp: stable_lookup_def)

lemma has_inode_add_entry [simp]: "has_inode (add_entry d n i f) j \<longleftrightarrow> has_inode f j"
  by (simp add: add_entry_def)

lemma inode_add_entry:
  "has_inode f d \<Longrightarrow> inode (add_entry d n i f) j =
     (if j = d then (inode f d)\<lparr>entries := (n, i) # entries (inode f d)\<rparr> else inode f j)"
  by (simp add: add_entry_def)

lemma acts_add_entry:
  assumes "has_inode f d" "lookup f d n = None" "has_inode f i" "P (creator (inode f i))"
    and "S d \<Longrightarrow> published n \<Longrightarrow>
      content (inode f i) = [] \<or> durable (inode f i) = Some (content (inode f i))"
  shows "acts P S f (add_entry d n i f)"
proof -
  have "settled S (add_entry d n i f)" if "settled S f"
    using that assms by (intro settled_kept [OF that])
      (auto simp: lookup_add_entry inode_add_entry kept_def split: if_splits)
  moreover
  have "kept (inode f j) (inode (add_entry d n i f) j)" for j
    using assms(1) by (auto simp: inode_add_entry kept_def)
  moreover have "length (inodes (add_entry d n i f)) = length (inodes f)" by (simp add: add_entry_def)
  ultimately show ?thesis
    using assms unfolding acts_def fs_ok_def
    by (auto simp: lookup_add_entry inode_add_entry split: if_splits)
qed

lemma lookup_add_inode:
  "entries x = [] \<Longrightarrow> lookup (add_inode x f) d n = lookup f d n"
  by (auto simp: lookup_def)

lemma stable_lookup_add_inode:
  "stable x = [] \<Longrightarrow> stable_lookup (add_inode x f) d n = stable_lookup f d n"
  by (auto simp: stable_lookup_def)

lemma acts_add_inode:
  assumes "fs_ok f" "entries x = []" "stable x = []" "P (creator x)"
  shows "acts P S f (add_inode x f)"
proof -
  have "settled S (add_inode x f)" if "settled S f"
    using assms(1) by (intro settled_kept [OF that])
      (auto simp: lookup_add_inode [OF assms(2)] dest: fs_okD)
  moreover have "\<not> has_inode f (length (inodes f))" by (simp add: has_inode_def)
  ultimately show ?thesis
    using assms unfolding acts_def fs_ok_def
    by (auto simp: lookup_add_inode stable_lookup_add_inode)
qed

lemma acts_make:
  assumes "make k who p perm d n f = Inr (i, f')" "P p" "fs_ok f"
  shows "acts P S f f'"
proof -
  let ?x = "new_inode k who perm p" and ?i = "length (inodes f)"
  from assms(1) have d: "has_inode f d" "lookup f d n = None"
    and f': "f' = add_entry d n ?i (add_inode ?x f)" by (auto simp: make_def Let_def split: if_splits)
  have "acts P S f (add_inode ?x f)" using assms(2,3) by (intro acts_add_inode) (simp_all add: new_inode_def)
  moreover have "acts P S (add_inode ?x f) f'"
    unfolding f' using assms(2) d
    by (intro acts_add_entry) (auto simp: lookup_add_inode new_inode_def)
  ultimately show ?thesis by (rule acts_trans)
qed

lemma make_unshared:
  assumes "make Reg who p perm d n f = Inr (i, f')" and "fs_ok f"
  shows "unshared f' p i d n" and "\<not> has_inode f i" and "content (inode f' i) = []"
    and "owner (inode f' i) = who" and "lookup f' d n = Some i" and "lookup f d n = None"
proof -
  let ?x = "new_inode Reg who perm p"
  from assms(1) have d: "has_inode f d" "lookup f d n = None" and i: "i = length (inodes f)"
    and f': "f' = add_entry d n i (add_inode ?x f)"
    by (auto simp: make_def Let_def split: if_splits)
  have id: "i \<noteq> d" "\<not> has_inode f i" using d(1) i by (auto simp: has_inode_def)
  have "lookup f d' n' \<noteq> Some i" for d' n' using fs_okD [OF assms(2)] id by blast
  then show "unshared f' p i d n" "content (inode f' i) = []" "owner (inode f' i) = who"
      "lookup f' d n = Some i"
    using d id i unfolding f' unshared_def
    by (auto simp: lookup_add_entry lookup_add_inode inode_add_entry new_inode_def)
  show "\<not> has_inode f i" "lookup f d n = None" by fact+
qed


lemma fair_fs: "fair P S w \<Longrightarrow> acts Q S (fs w) s \<Longrightarrow> fair P S (w\<lparr>fs := s\<rparr>)"
  by (simp add: fair_def actsD(1,13))

lemma evolves_fs:
  "acts (\<lambda>q. P q \<or> q = pid w) S (fs w) s \<Longrightarrow> evolves P S w (w\<lparr>fs := s\<rparr>)"
  by (simp add: evolves_def fair_fs)

lemma evolves_others:
  assumes "others P S w w1"
  shows "evolves P S w w1"
  using assms unfolding evolves_def by (auto simp: othersD intro: acts_mono dest: othersD)

lemma evolves_step:
  assumes "others P S w w1" "acts (\<lambda>q. P q \<or> q = pid w) S (fs w1) s"
  shows "evolves P S w (w1\<lparr>fs := s\<rparr>)"
proof -
  have "fair P S (w1\<lparr>fs := s\<rparr>)"
    using othersD(1) [OF assms(1)] assms(2) by (rule fair_fs)
  moreover have "acts (\<lambda>q. P q \<or> q = pid w) S (fs w) s"
    using acts_mono [OF othersD(2) [OF assms(1)]] assms(2) by (rule acts_trans) auto
  ultimately show ?thesis using othersD [OF assms(1)] by (simp add: evolves_def)
qed

lemma evolves_syscall_partial:
  assumes "\<And>g x s. fs_ok g \<Longrightarrow> f g = Inr (x, s) \<Longrightarrow>
      acts (\<lambda>q. P q \<or> q = pid w) S g s \<and> (\<forall>n. acts (\<lambda>q. P q \<or> q = pid w) S g (p n g))"
  shows "syscall_partial f p w = (r, w') \<Longrightarrow> evolves P S w w'"
proof (cases "fair P S w")
  case True
  have "wp (syscall_partial f p) (\<lambda>_. evolves P S w) w"
  proof (rule wp_syscall_partial [OF True])
    fix w1 assume o: "others P S w w1"
    then have "fs_ok (fs w1)" using othersD(1) by (auto simp: fair_def)
    with assms [of "fs w1"] evolves_step [OF o] evolves_others [OF o]
    show "case f (fs w1) of Inl e \<Rightarrow> evolves P S w w1
      | Inr (x, s) \<Rightarrow> evolves P S w (w1\<lparr>fs := s\<rparr>) \<and> (\<forall>n. evolves P S w (w1\<lparr>fs := p n (fs w1)\<rparr>))"
      by (auto split: sum.splits)
  qed
  then show "syscall_partial f p w = (r, w') \<Longrightarrow> evolves P S w w'" by (rule wpD)
next
  case False
  assume "syscall_partial f p w = (r, w')"
  with False show ?thesis
    by (auto simp: evolves_def syscall_partial_def next_step_def split: list.splits prod.splits sum.splits outcome.splits)
qed

lemma evolves_syscall:
  assumes "\<And>g x s. fs_ok g \<Longrightarrow> f g = Inr (x, s) \<Longrightarrow> acts (\<lambda>q. P q \<or> q = pid w) S g s"
  shows "syscall f w = (r, w') \<Longrightarrow> evolves P S w w'"
  unfolding syscall_def
  by (rule evolves_syscall_partial) (use assms in \<open>auto split: sum.splits prod.splits\<close>)

lemma keeps_calls [simp]:
  "shared.keeps P S (sys_fstat i)" "shared.keeps P S (sys_stat d n)" "shared.keeps P S (sys_open d n)"
  "shared.keeps P S (sys_opendir d n)" "shared.keeps P S (sys_open_path path)"
  "shared.keeps P S (sys_read i m)" "shared.keeps P S (sys_scandir d)"
  unfolding sys_fstat_def sys_stat_def sys_open_def sys_opendir_def sys_open_path_def sys_read_def sys_scandir_def
  by (rule shared.keepsI, erule evolves_syscall [rotated], force split: if_splits)+

lemma keeps_fsync [simp]: "shared.keeps P S (sys_fsync i)"
  unfolding sys_fsync_def
  by (rule shared.keepsI, erule evolves_syscall [rotated]) (auto split: if_splits intro: acts_sync)

lemma keeps_create [simp]: "shared.keeps P S (sys_create d n perm)"
  by (rule shared.keepsI) (auto simp: sys_create_def elim!: evolves_syscall [rotated] intro: acts_make)

lemma keeps_mkdir [simp]: "shared.keeps P S (sys_mkdir d n perm)"
  by (rule shared.keepsI) (auto simp: sys_mkdir_def elim!: evolves_syscall [rotated] intro: acts_make)

lemma keeps_open_create [simp]: "shared.keeps P S (sys_open_create d n perm)"
  by (rule shared.keepsI)
    (auto simp: sys_open_create_def elim!: evolves_syscall [rotated] intro: acts_make split: option.splits if_splits)

lemma map_of_filter_name:
  "map_of (filter (\<lambda>(m, _). m \<noteq> n) l) m = (if m = n then None else map_of l m)"
  by (induction l) auto

lemma acts_locks:
  assumes "\<And>j q. \<not> P q \<Longrightarrow> map_of l j = Some q \<longleftrightarrow> map_of (locks f) j = Some q"
  shows "acts P S f (f\<lparr>locks := l\<rparr>)"
proof -
  have "lookup (f\<lparr>locks := l\<rparr>) d n = lookup f d n" "stable_lookup (f\<lparr>locks := l\<rparr>) d n = stable_lookup f d n"
    "has_inode (f\<lparr>locks := l\<rparr>) i = has_inode f i" "inode (f\<lparr>locks := l\<rparr>) i = inode f i" for d n i
    by (simp_all add: lookup_def stable_lookup_def has_inode_def inode_def)
  moreover from this have "settled S (f\<lparr>locks := l\<rparr>)" if "settled S f"
    by (intro settled_kept [OF that]) auto
  ultimately show ?thesis using assms unfolding acts_def fs_ok_def by auto
qed

lemma keeps_flock [simp]: "shared.keeps P S (sys_flock i)"
  by (rule shared.keepsI)
    (auto simp: sys_flock_def elim!: evolves_syscall_partial [rotated] intro!: acts_locks split: option.splits if_splits)

lemma keeps_release [simp]: "shared.keeps P S (release_lock i)"
proof (rule shared.keepsI)
  fix w r w' assume "release_lock i w = (r, w')"
  moreover have "acts (\<lambda>q. P q \<or> q = pid w) S (fs w) ((fs w)\<lparr>locks := filter (\<lambda>(j, _). j \<noteq> i) (locks (fs w))\<rparr>)"
    if "map_of (locks (fs w)) i = Some (pid w)"
    using that by (intro acts_locks) (auto simp: map_of_filter_name)
  ultimately show "evolves P S w w'"
    by (auto simp: release_lock_def evolves_def intro: fair_fs split: if_splits)
qed

lemma keeps_draw [simp]: "shared.keeps P S (draw n)"
  by (rule shared.keepsI) (auto simp: draw_def evolves_def fair_def)

lemma keeps_uuid [simp]: "shared.keeps P S uuid4_hex" "shared.keeps P S uuid4" "shared.keeps P S (token_urlsafe n)"
  unfolding uuid4_hex_def uuid4_def token_urlsafe_def by (intro shared.keeps_intros keeps_draw shared.keeps_pure)+


section \<open>Calls under interference\<close>

lemma wp_stat:
  "fair P S w \<Longrightarrow> wp (sys_stat d n) (\<lambda>r w'. others P S w w' \<and>
     (\<forall>info. r = Inr info \<longrightarrow> (\<exists>i. lookup (fs w') d n = Some i \<and> info = info_of (fs w') i)) \<and>
     (r = Inl FileNotFoundError \<longrightarrow> lookup (fs w') d n = None)) w"
  unfolding sys_stat_def find_entry_def
  by (rule wp_syscall, assumption) (auto simp: io_error_def split: option.splits)

lemma wp_fstat:
  "fair P S w \<Longrightarrow> wp (sys_fstat i) (\<lambda>r w'. others P S w w' \<and>
     (\<forall>info. r = Inr info \<longrightarrow> has_inode (fs w') i \<and> info = info_of (fs w') i)) w"
  unfolding sys_fstat_def by (rule wp_syscall, assumption) auto

lemma wp_open:
  "fair P S w \<Longrightarrow> wp (sys_open d n) (\<lambda>r w'. others P S w w' \<and>
     (\<forall>i. r = Inr i \<longrightarrow> lookup (fs w') d n = Some i)) w"
  unfolding sys_open_def find_entry_def open_entry_def
  by (rule wp_syscall, assumption) (auto split: option.splits)

lemma wp_read:
  "fair P S w \<Longrightarrow> wp (sys_read i n) (\<lambda>r w'. others P S w w' \<and>
     (\<forall>b. r = Inr b \<longrightarrow> has_inode (fs w') i \<and> b = take n (content (inode (fs w') i)))) w"
  unfolding sys_read_def by (rule wp_syscall, assumption) auto

text \<open>A private regular file under a published name.\<close>

definition holds_file :: "'a posix_scheme \<Rightarrow> nat \<Rightarrow> pystr \<Rightarrow> nat \<Rightarrow> bool" where
  "holds_file w d n i \<longleftrightarrow>
     lookup (fs w) d n = Some i \<and> has_inode (fs w) i \<and> kind (inode (fs w) i) = Reg
     \<and> owner (inode (fs w) i) = uid w \<and> mode (inode (fs w) i) = 384"

lemma holds_file_acts:
  assumes "holds_file w d n i" "acts P S (fs w) (fs w')" "uid w' = uid w" "S d" "published n"
  shows "holds_file w' d n i" "content (inode (fs w') i) = content (inode (fs w) i)"
    "durable (inode (fs w) i) = Some (content (inode (fs w) i)) \<Longrightarrow>
       durable (inode (fs w') i) = Some (content (inode (fs w') i))"
  using assms actsD(2,3,4,9,10) [OF assms(2)] by (auto simp: holds_file_def kept_def)


lemma info_of_simps [simp]:
  "st_kind (info_of f i) = kind (inode f i)" "st_uid (info_of f i) = owner (inode f i)"
  "st_mode (info_of f i) = mode (inode f i)" "st_size (info_of f i) = length (content (inode f i))"
  "st_nlink (info_of f i) = links (inode f i)" "st_time (info_of f i) = changed (inode f i)"
  "st_ino (info_of f i) = i"
  by (simp_all add: info_of_def Let_def)

lemma regular_holds_file:
  assumes "lookup (fs w) d n = Some i" "fair P S w"
    and "st_kind (info_of (fs w) i) = Reg" "st_uid (info_of (fs w) i) = uid w" "st_mode (info_of (fs w) i) = 384"
  shows "holds_file w d n i"
  using assms by (auto simp: holds_file_def fair_def dest: fs_okD)

lemma holds_others:
  assumes "holds_file w d n i" "others P S w w'" "S d" "published n"
  shows "holds_file w' d n i" "content (inode (fs w') i) = content (inode (fs w) i)"
    "durable (inode (fs w) i) = Some (content (inode (fs w) i)) \<Longrightarrow>
       durable (inode (fs w') i) = Some (content (inode (fs w') i))"
  using holds_file_acts [OF assms(1) othersD(2,4) [OF assms(2)] assms(3,4)] by blast+

section \<open>Staging files\<close>

text \<open>A new staging file: only this process knows it, and it is complete and on disk.\<close>

definition staged_data :: "'a posix_scheme \<Rightarrow> nat \<Rightarrow> nat \<Rightarrow> pystr \<Rightarrow> bytes \<Rightarrow> bool" where
  "staged_data w i d n enc \<longleftrightarrow>
     unshared (fs w) (pid w) i d n \<and> owner (inode (fs w) i) = uid w
     \<and> content (inode (fs w) i) = enc \<and> durable (inode (fs w) i) = Some enc"

definition staged_file :: "'a posix_scheme \<Rightarrow> nat \<Rightarrow> nat \<Rightarrow> pystr \<Rightarrow> bytes \<Rightarrow> bool" where
  "staged_file w i d n enc \<longleftrightarrow> staged_data w i d n enc \<and> mode (inode (fs w) i) = 384"

lemma staged_data_others:
  assumes "staged_data w i d n enc" and o: "others P S w w'"
  shows "staged_data w' i d n enc" "mode (inode (fs w') i) = mode (inode (fs w) i)"
proof -
  have u: "unshared (fs w) (pid w) i d n" using assms(1) by (simp add: staged_data_def)
  have np: "\<not> P (pid w)" using othersD(1,3) [OF o] by (simp add: fair_def)
  have k: "kept (inode (fs w) i) (inode (fs w') i)" "unshared (fs w') (pid w) i d n"
    using unshared_kept [OF u othersD(2) [OF o] np] unshared_acts [OF u othersD(2) [OF o] np] .
  moreover have "owner (inode (fs w') i) = owner (inode (fs w) i)"
    using u actsD(4) [OF othersD(2) [OF o]] by (simp add: unshared_def)
  ultimately show "staged_data w' i d n enc"
    using assms(1) othersD(3,4) [OF o] by (simp add: staged_data_def kept_def)
  show "mode (inode (fs w') i) = mode (inode (fs w) i)" using k(1) by (simp add: kept_def)
qed

lemma staged_others: "staged_file w i d n enc \<Longrightarrow> others P S w w' \<Longrightarrow> staged_file w' i d n enc"
  using staged_data_others [of w i d n enc P S w'] by (simp add: staged_file_def)

lemma wp_create:
  assumes "fair P S w"
  shows "wp (sys_create d n m) (\<lambda>r w'. evolves P S w w' \<and> (\<forall>i. r = Inr i \<longrightarrow>
     unshared (fs w') (pid w) i d n \<and> content (inode (fs w') i) = [] \<and> owner (inode (fs w') i) = uid w)) w"
    (is "wp _ ?Q w")
proof -
  have eq: "wp (sys_create d n m) Q w \<longleftrightarrow> wp (syscall (make Reg (uid w) (pid w) (masked m (umask w)) d n)) Q w" for Q
    by (simp add: wp_def sys_create_def)
  show ?thesis
    unfolding eq
  proof (rule wp_syscall [OF assms])
    fix w1 assume o: "others P S w w1"
    have ok: "fs_ok (fs w1)" using othersD(1) [OF o] by (simp add: fair_def)
    show "case make Reg (uid w) (pid w) (masked m (umask w)) d n (fs w1) of
        Inl e \<Rightarrow> ?Q (Inl e) w1
      | Inr (x, s) \<Rightarrow> ?Q (Inr x) (w1\<lparr>fs := s\<rparr>) \<and> ?Q (Inl io_error) (w1\<lparr>fs := s\<rparr>) \<and> ?Q (Inl io_error) w1"
      (is "case ?m of Inl e \<Rightarrow> _ | Inr (x, s) \<Rightarrow> _")
    proof (cases ?m)
      case (Inr xs)
      obtain i s where xs: "xs = (i, s)" by (cases xs)
      with Inr have m: "?m = Inr (i, s)" by simp
      have "evolves P S w (w1\<lparr>fs := s\<rparr>)" using o acts_make [OF m _ ok] by (intro evolves_step) auto
      with make_unshared [OF m ok] evolves_others [OF o] Inr xs show ?thesis by simp
    qed (simp add: evolves_others [OF o])
  qed
qed

lemma lookup_same:
  "has_inode f i \<Longrightarrow> entries x = entries (inode f i) \<Longrightarrow> lookup (set_inode i x f) d n = lookup f d n"
  by (simp add: lookup_set_inode) (simp add: lookup_def)

lemma unshared_set_inode:
  "unshared f p i d n \<Longrightarrow> entries x = entries (inode f i) \<Longrightarrow> kind x = kind (inode f i) \<Longrightarrow>
     creator x = creator (inode f i) \<Longrightarrow> unshared (set_inode i x f) p i d n"
  by (auto simp: unshared_def lookup_same)

definition quiet_update :: "(inode \<Rightarrow> inode) \<Rightarrow> bool" where
  "quiet_update g \<longleftrightarrow> (\<forall>x. entries (g x) = entries x \<and> kind (g x) = kind x \<and> owner (g x) = owner x
     \<and> creator (g x) = creator x \<and> (stable (g x) = stable x \<or> stable (g x) = entries x))"

lemma wp_update_unshared:
  assumes "fair P S w" and u0: "unshared (fs w) (pid w) i d n" and "\<not> published n"
    and op: "\<And>f. has_inode f i \<Longrightarrow> op f = Inr ((), set_inode i (g (inode f i)) f)"
    and pt: "\<And>k f. has_inode f i \<Longrightarrow> p k f = set_inode i (h k (inode f i)) f"
    and g: "quiet_update g" and h: "\<And>k. quiet_update (h k)"
  shows "wp (syscall_partial op p) (\<lambda>r w'. evolves P S w w' \<and> unshared (fs w') (pid w) i d n
     \<and> owner (inode (fs w') i) = owner (inode (fs w) i)
     \<and> (\<forall>v. r = Inr v \<longrightarrow> (\<exists>x. kept (inode (fs w) i) x \<and> inode (fs w') i = g x))) w"
    (is "wp _ ?Q w")
proof (rule wp_syscall_partial [OF assms(1)])
  fix w1 assume o: "others P S w w1"
  have np: "\<not> P (pid w)" using assms(1) by (simp add: fair_def)
  have u: "unshared (fs w1) (pid w) i d n" using u0 othersD(2) [OF o] np by (rule unshared_acts)
  have k: "kept (inode (fs w) i) (inode (fs w1) i)" using u0 othersD(2) [OF o] np by (rule unshared_kept)
  have ow: "owner (inode (fs w1) i) = owner (inode (fs w) i)"
    using u0 actsD(4) [OF othersD(2) [OF o]] by (simp add: unshared_def)
  have hi: "has_inode (fs w1) i" using u by (simp add: unshared_def)
  have *: "evolves P S w (w1\<lparr>fs := set_inode i (q (inode (fs w1) i)) (fs w1)\<rparr>) \<and>
      unshared (set_inode i (q (inode (fs w1) i)) (fs w1)) (pid w) i d n \<and>
      owner (q (inode (fs w1) i)) = owner (inode (fs w) i)"
    if q: "quiet_update q" for q
  proof (intro conjI)
    have "acts (\<lambda>c. P c \<or> c = pid w) S (fs w1) (set_inode i (q (inode (fs w1) i)) (fs w1))"
    proof (rule acts_set_inode [OF hi])
      show "kept (inode (fs w1) i) (q (inode (fs w1) i)) \<or>
          (P (creator (q (inode (fs w1) i))) \<or> creator (q (inode (fs w1) i)) = pid w) \<and>
          (\<forall>d n. S d \<longrightarrow> published n \<longrightarrow> lookup (fs w1) d n \<noteq> Some i)"
        using u assms(3) q by (auto simp: unshared_def quiet_update_def)
      show "stable (q (inode (fs w1) i)) = stable (inode (fs w1) i) \<or>
          stable (q (inode (fs w1) i)) = entries (q (inode (fs w1) i))"
        using q unfolding quiet_update_def by metis
    qed (use q in \<open>auto simp: quiet_update_def\<close>)
    with o show "evolves P S w (w1\<lparr>fs := set_inode i (q (inode (fs w1) i)) (fs w1)\<rparr>)" by (rule evolves_step)
  qed (use u q ow in \<open>auto simp: quiet_update_def intro!: unshared_set_inode\<close>)
  show "case op (fs w1) of Inl e \<Rightarrow> ?Q (Inl e) w1
      | Inr (x, s) \<Rightarrow> ?Q (Inr x) (w1\<lparr>fs := s\<rparr>) \<and> (\<forall>n. ?Q (Inl io_error) (w1\<lparr>fs := p n (fs w1)\<rparr>))"
    using * [OF g] * [OF h] k hi by (auto simp: op [OF hi] pt [OF hi])
qed

lemma set_inode_same: "has_inode f i \<Longrightarrow> set_inode i (inode f i) f = f"
  by (simp add: set_inode_def inode_def has_inode_def)

lemma wp_fchmod:
  assumes "fair P S w" "unshared (fs w) (pid w) i d n" "\<not> published n"
  shows "wp (sys_fchmod i m) (\<lambda>r w'. evolves P S w w' \<and> unshared (fs w') (pid w) i d n
     \<and> owner (inode (fs w') i) = owner (inode (fs w) i)
     \<and> (\<forall>v. r = Inr v \<longrightarrow> (\<exists>x. kept (inode (fs w) i) x \<and> inode (fs w') i = x\<lparr>mode := m\<rparr>))) w"
  unfolding sys_fchmod_def syscall_def
  by (rule wp_update_unshared [OF assms, where h = "\<lambda>k x. if k = 0 then x else x\<lparr>mode := m\<rparr>"])
    (auto simp: quiet_update_def set_inode_same)

lemma wp_write:
  assumes "fair P S w" "unshared (fs w) (pid w) i d n" "\<not> published n"
  shows "wp (sys_write i data) (\<lambda>r w'. evolves P S w w' \<and> unshared (fs w') (pid w) i d n
     \<and> owner (inode (fs w') i) = owner (inode (fs w) i)
     \<and> (\<forall>v. r = Inr v \<longrightarrow> (\<exists>x. kept (inode (fs w) i) x \<and>
          inode (fs w') i = x\<lparr>content := content x @ data, changed := Suc (changed x)\<rparr>))) w"
  unfolding sys_write_def put_def
  by (rule wp_update_unshared [OF assms,
        where h = "\<lambda>k x. x\<lparr>content := content x @ take k data, changed := Suc (changed x)\<rparr>"])
    (auto simp: quiet_update_def)

lemma wp_fsync_unshared:
  assumes "fair P S w" "unshared (fs w) (pid w) i d n" "\<not> published n"
  shows "wp (sys_fsync i) (\<lambda>r w'. evolves P S w w' \<and> unshared (fs w') (pid w) i d n
     \<and> owner (inode (fs w') i) = owner (inode (fs w) i)
     \<and> (\<forall>v. r = Inr v \<longrightarrow> (\<exists>x. kept (inode (fs w) i) x \<and>
          inode (fs w') i = x\<lparr>durable := Some (content x), stable := entries x\<rparr>))) w"
  unfolding sys_fsync_def syscall_def sync_def
  by (rule wp_update_unshared [OF assms,
        where h = "\<lambda>k x. if k = 0 then x else x\<lparr>durable := Some (content x), stable := entries x\<rparr>"])
    (auto simp: quiet_update_def set_inode_same)

text \<open>The whole staging file.\<close>

lemma evolves_trans_others: "evolves P S u v \<Longrightarrow> others P S v w \<Longrightarrow> evolves P S u w"
  by (rule shared.R_trans [OF _ evolves_others])

text \<open>The state of the staging file between two calls.\<close>

definition draft :: "(nat \<Rightarrow> bool) \<Rightarrow> (nat \<Rightarrow> bool) \<Rightarrow> 'a posix_scheme \<Rightarrow> 'a posix_scheme \<Rightarrow> nat \<Rightarrow> nat \<Rightarrow> pystr \<Rightarrow>
    (inode \<Rightarrow> bool) \<Rightarrow> bool" where
  "draft P S w0 w i d n \<Phi> \<longleftrightarrow>
     fair P S w \<and> evolves P S w0 w \<and> unshared (fs w) (pid w) i d n \<and> owner (inode (fs w) i) = uid w
     \<and> \<Phi> (inode (fs w) i)"

lemma draft_next:
  assumes "draft P S w0 w i d n \<Phi>"
    and "wp m (\<lambda>r w'. evolves P S w w' \<and> unshared (fs w') (pid w) i d n
      \<and> owner (inode (fs w') i) = owner (inode (fs w) i) \<and> (\<forall>v. r = Inr v \<longrightarrow> R (inode (fs w) i) (inode (fs w') i))) w"
    and "\<And>x y. \<Phi> x \<Longrightarrow> R x y \<Longrightarrow> \<Psi> y"
    and "\<And>w'. draft P S w0 w' i d n \<Psi> \<Longrightarrow> wp k Q w'"
    and "\<And>e w'. evolves P S w0 w' \<Longrightarrow> Q (Inl e) w'"
  shows "wp (ebind m (\<lambda>_. k)) Q w"
proof (rule wp_ebindI [OF assms(2)], goal_cases)
  case (1 e w')
  then show ?case using assms(1,5) by (auto simp: draft_def intro: shared.R_trans)
next
  case (2 x w')
  then have "draft P S w0 w' i d n \<Psi>"
    using assms(1,3) unfolding draft_def by (auto simp: evolves_def intro: acts_trans)
  then show "wp k Q w'" by (rule assms(4))
qed

lemma draftD:
  assumes "draft P S w0 w i d n \<Phi>"
  shows "fair P S w" "unshared (fs w) (pid w) i d n" "evolves P S w0 w"
  using assms by (auto simp: draft_def)

lemma draft_others:
  assumes "draft P S w0 w i d n \<Phi>" "others P S w w'" "\<And>x y. \<Phi> x \<Longrightarrow> kept x y \<Longrightarrow> \<Phi> y"
  shows "draft P S w0 w' i d n \<Phi>"
proof -
  note f = draftD [OF assms(1)] and o = othersD [OF assms(2)]
  have np: "\<not> P (pid w)" using f(1) by (simp add: fair_def)
  have "owner (inode (fs w') i) = owner (inode (fs w) i)"
    using f(2) actsD(4) [OF o(2)] by (simp add: unshared_def)
  with assms(1,3) o(1,3,4) unshared_acts [OF f(2) o(2) np] unshared_kept [OF f(2) o(2) np]
    evolves_trans_others [OF f(3) assms(2)]
  show ?thesis by (auto simp: draft_def)
qed

lemma draft_fchmod:
  assumes "draft P S w0 w i d n \<Phi>" "\<not> published n"
    and "\<And>a x. \<Phi> a \<Longrightarrow> kept a x \<Longrightarrow> \<Psi> (x\<lparr>mode := m\<rparr>)"
    and "\<And>w'. draft P S w0 w' i d n \<Psi> \<Longrightarrow> wp k Q w'"
    and "\<And>e w'. evolves P S w0 w' \<Longrightarrow> Q (Inl e) w'"
  shows "wp (ebind (sys_fchmod i m) (\<lambda>_. k)) Q w"
  by (rule draft_next [where R = "\<lambda>a b. \<exists>x. kept a x \<and> b = x\<lparr>mode := m\<rparr>" and \<Psi> = \<Psi>,
        OF assms(1) wp_fchmod [OF draftD(1,2) [OF assms(1)] assms(2)] _ assms(4,5)])
    (use assms(3) in blast)+

lemma draft_write:
  assumes "draft P S w0 w i d n \<Phi>" "\<not> published n"
    and "\<And>a x. \<Phi> a \<Longrightarrow> kept a x \<Longrightarrow> \<Psi> (x\<lparr>content := content x @ data, changed := Suc (changed x)\<rparr>)"
    and "\<And>w'. draft P S w0 w' i d n \<Psi> \<Longrightarrow> wp k Q w'"
    and "\<And>e w'. evolves P S w0 w' \<Longrightarrow> Q (Inl e) w'"
  shows "wp (ebind (sys_write i data) (\<lambda>_. k)) Q w"
  by (rule draft_next [where R = "\<lambda>a b. \<exists>x. kept a x \<and> b = x\<lparr>content := content x @ data, changed := Suc (changed x)\<rparr>" and \<Psi> = \<Psi>,
        OF assms(1) wp_write [OF draftD(1,2) [OF assms(1)] assms(2)] _ assms(4,5)])
    (use assms(3) in blast)+

lemma draft_fsync_unshared:
  assumes "draft P S w0 w i d n \<Phi>" "\<not> published n"
    and "\<And>a x. \<Phi> a \<Longrightarrow> kept a x \<Longrightarrow> \<Psi> (x\<lparr>durable := Some (content x), stable := entries x\<rparr>)"
    and "\<And>w'. draft P S w0 w' i d n \<Psi> \<Longrightarrow> wp k Q w'"
    and "\<And>e w'. evolves P S w0 w' \<Longrightarrow> Q (Inl e) w'"
  shows "wp (ebind (sys_fsync i) (\<lambda>_. k)) Q w"
  by (rule draft_next [where R = "\<lambda>a b. \<exists>x. kept a x \<and> b = x\<lparr>durable := Some (content x), stable := entries x\<rparr>" and \<Psi> = \<Psi>,
        OF assms(1) wp_fsync_unshared [OF draftD(1,2) [OF assms(1)] assms(2)] _ assms(4,5)])
    (use assms(3) in blast)+

section \<open>Links\<close>

lemma lookup_remove_entry:
  "has_inode f d \<Longrightarrow>
     lookup (remove_entry d n f) d' n' = (if d' = d \<and> n' = n then None else lookup f d' n')"
  by (auto simp: remove_entry_def lookup_set_inode lookup_def map_of_filter_name)

lemma stable_lookup_remove_entry [simp]:
  "has_inode f d \<Longrightarrow> stable_lookup (remove_entry d n f) d' n' = stable_lookup f d' n'"
  by (auto simp: remove_entry_def stable_lookup_set_inode) (auto simp: stable_lookup_def)

lemma acts_remove_entry:
  assumes "lookup f d n = Some i" "has_inode f i \<longrightarrow> P (creator (inode f i))" "\<not> (S d \<and> published n)"
  shows "acts P S f (remove_entry d n f)"
proof -
  have d: "has_inode f d" using assms(1) by (rule lookup_has_inode)
  have "has_inode (remove_entry d n f) j \<longleftrightarrow> has_inode f j" "length (inodes (remove_entry d n f)) = length (inodes f)"
    "locks (remove_entry d n f) = locks f" for j
    by (simp_all add: remove_entry_def)
  moreover have "kept (inode f j) (inode (remove_entry d n f) j)"
    "kind (inode (remove_entry d n f) j) = kind (inode f j)" "owner (inode (remove_entry d n f) j) = owner (inode f j)"
    "creator (inode (remove_entry d n f) j) = creator (inode f j)" for j
    using d by (auto simp: remove_entry_def kept_def)
  moreover from this have "settled S (remove_entry d n f)" if "settled S f"
    using d by (intro settled_kept [OF that]) (auto simp: lookup_remove_entry split: if_splits)
  ultimately show ?thesis
    using assms d unfolding acts_def fs_ok_def by (auto simp: lookup_remove_entry split: if_splits)
qed

lemma acts_links: "has_inode f i \<Longrightarrow> acts P S f (set_inode i ((inode f i)\<lparr>links := l\<rparr>) f)"
  by (rule acts_set_inode) (auto simp: kept_def)

lemma wp_unlink:
  assumes "fair P S w" "\<not> published n" "\<And>q. q \<noteq> pid w \<Longrightarrow> P q"
  shows "wp (sys_unlink d n) (\<lambda>r w'. evolves P S w w') w"
  unfolding sys_unlink_def find_entry_def
proof (rule wp_syscall [OF assms(1)])
  fix w1 assume o: "others P S w w1"
  have ok: "fs_ok (fs w1)" using othersD(1) [OF o] by (simp add: fair_def)
  have "evolves P S w (w1\<lparr>fs := remove_entry d n (set_inode i ((inode (fs w1) i)\<lparr>links := links (inode (fs w1) i) - 1\<rparr>) (fs w1))\<rparr>)"
    if l: "lookup (fs w1) d n = Some i" for i
  proof (rule evolves_step [OF o])
    let ?f = "set_inode i ((inode (fs w1) i)\<lparr>links := links (inode (fs w1) i) - 1\<rparr>) (fs w1)"
    have hi: "has_inode (fs w1) i" using fs_okD [OF ok l] .
    have "lookup ?f d n = Some i" using l hi by (simp add: lookup_same)
    then have "acts (\<lambda>q. P q \<or> q = pid w) S ?f (remove_entry d n ?f)"
      using assms(2,3) by (intro acts_remove_entry) auto
    with acts_links [OF hi] show "acts (\<lambda>q. P q \<or> q = pid w) S (fs w1) (remove_entry d n ?f)"
      by (rule acts_trans)
  qed
  with evolves_others [OF o] show "case rbind (case lookup (fs w1) d n of None \<Rightarrow> Inl FileNotFoundError | Some i \<Rightarrow> Inr i)
       (\<lambda>i. Inr ((), remove_entry d n
                  (set_inode i ((inode (fs w1) i)\<lparr>links := links (inode (fs w1) i) - 1\<rparr>) (fs w1)))) of
      Inl e \<Rightarrow> evolves P S w w1
    | Inr (x, s) \<Rightarrow> evolves P S w (w1\<lparr>fs := s\<rparr>) \<and> evolves P S w (w1\<lparr>fs := s\<rparr>) \<and> evolves P S w w1"
    by (auto split: option.splits)
qed

text \<open>The publication of a staging file under a permanent name.\<close>

definition published_file :: "'a posix_scheme \<Rightarrow> nat \<Rightarrow> pystr \<Rightarrow> nat \<Rightarrow> bytes \<Rightarrow> bool" where
  "published_file w d n i enc \<longleftrightarrow>
     lookup (fs w) d n = Some i \<and> has_inode (fs w) i \<and> kind (inode (fs w) i) = Reg
     \<and> owner (inode (fs w) i) = uid w \<and> content (inode (fs w) i) = enc \<and> durable (inode (fs w) i) = Some enc"

lemma wp_link_data:
  assumes "fair P S w" "staged_data w i d n enc"
  shows "wp (sys_link d n m) (\<lambda>r w'. evolves P S w w' \<and> (r = Inr () \<longrightarrow>
     published_file w' d m i enc \<and> mode (inode (fs w') i) = mode (inode (fs w) i))) w"
    (is "wp _ ?Q w")
  unfolding sys_link_def find_entry_def
proof (rule wp_syscall [OF assms(1)])
  fix w1 assume o: "others P S w w1"
  note st = staged_data_others [OF assms(2) o]
  then have l: "lookup (fs w1) d n = Some i" and hi: "has_inode (fs w1) i"
    and c: "creator (inode (fs w1) i) = pid w" and k: "kind (inode (fs w1) i) = Reg"
    using othersD(3) [OF o] by (auto simp: staged_data_def unshared_def)
  let ?f = "set_inode i ((inode (fs w1) i)\<lparr>links := Suc (links (inode (fs w1) i))\<rparr>) (fs w1)"
  let ?g = "add_entry d m i ?f"
  have hd: "has_inode (fs w1) d" using l by (rule lookup_has_inode)
  have e: "evolves P S w (w1\<lparr>fs := ?g\<rparr>)" if "lookup (fs w1) d m = None"
  proof (rule evolves_step [OF o])
    have "lookup ?f d m = None" using that hi by (simp add: lookup_same)
    then have "acts (\<lambda>q. P q \<or> q = pid w) S ?f ?g"
      using hi hd c st by (intro acts_add_entry) (auto simp: staged_data_def)
    with acts_links [OF hi] show "acts (\<lambda>q. P q \<or> q = pid w) S (fs w1) ?g" by (rule acts_trans)
  qed
  have "published_file (w1\<lparr>fs := ?g\<rparr>) d m i enc \<and> mode (inode ?g i) = mode (inode (fs w) i)"
    if "lookup (fs w1) d m = None"
    using st hi hd k by (auto simp: published_file_def lookup_add_entry inode_add_entry staged_data_def)
  with e evolves_others [OF o] l show "case rbind (case lookup (fs w1) d n of None \<Rightarrow> Inl FileNotFoundError | Some i \<Rightarrow> Inr i)
       (\<lambda>i. if lookup (fs w1) d m \<noteq> None then Inl FileExistsError
            else Inr ((), add_entry d m i (set_inode i ((inode (fs w1) i)\<lparr>links := Suc (links (inode (fs w1) i))\<rparr>) (fs w1)))) of
      Inl e \<Rightarrow> ?Q (Inl e) w1
    | Inr (x, s) \<Rightarrow> ?Q (Inr x) (w1\<lparr>fs := s\<rparr>) \<and> ?Q (Inl io_error) (w1\<lparr>fs := s\<rparr>) \<and> ?Q (Inl io_error) w1"
    by auto
qed

lemma wp_link:
  assumes "fair P S w" "staged_file w i d n enc"
  shows "wp (sys_link d n m) (\<lambda>r w'. evolves P S w w' \<and> (r = Inr () \<longrightarrow>
     holds_file w' d m i \<and> content (inode (fs w') i) = enc \<and> durable (inode (fs w') i) = Some enc)) w"
  by (rule wp_mono [OF wp_link_data [OF assms(1), of i d n enc m]])
    (use assms(2) in \<open>auto simp: staged_file_def published_file_def holds_file_def\<close>)

lemma wp_keeps: "shared.keeps P S m \<Longrightarrow> wp m (\<lambda>r w'. evolves P S w w') w"
  by (cases "m w") (auto simp: wp_def dest: shared.keepsD)


text \<open>A directory's \<open>fsync\<close> makes the entry of a published file survive a crash.\<close>

lemma wp_fsync_dir:
  assumes "fair P S w" "holds_file w d n i" "S d" "published n"
  shows "wp (sys_fsync d) (\<lambda>r w'. evolves P S w w' \<and> holds_file w' d n i
     \<and> content (inode (fs w') i) = content (inode (fs w) i)
     \<and> (r = Inr () \<longrightarrow> stable_lookup (fs w') d n = Some i)) w" (is "wp _ ?Q w")
proof -
  have "wp (sys_fsync d) (\<lambda>r w'. evolves P S w w' \<and> (r = Inr () \<longrightarrow> stable_lookup (fs w') d n = Some i)) w"
    (is "wp _ ?R w")
    unfolding sys_fsync_def
  proof (rule wp_syscall [OF assms(1)])
    fix w1 assume o: "others P S w w1"
    have l: "lookup (fs w1) d n = Some i" using holds_others(1) [OF assms(2) o assms(3,4)] by (simp add: holds_file_def)
    then have hd: "has_inode (fs w1) d" by (rule lookup_has_inode)
    have "evolves P S w (w1\<lparr>fs := sync d (fs w1)\<rparr>)" using o acts_sync [OF hd] by (rule evolves_step)
    moreover have "stable_lookup (sync d (fs w1)) d n = Some i"
      using l hd by (simp add: sync_def stable_lookup_set_inode) (simp add: lookup_def)
    ultimately show "case if has_inode (fs w1) d then Inr ((), sync d (fs w1)) else Inl (OSError ''EBADF'') of
        Inl e \<Rightarrow> ?R (Inl e) w1
      | Inr (x, s) \<Rightarrow> ?R (Inr x) (w1\<lparr>fs := s\<rparr>) \<and> ?R (Inl io_error) (w1\<lparr>fs := s\<rparr>) \<and> ?R (Inl io_error) w1"
      using hd evolves_others [OF o] by simp
  qed
  then show ?thesis
    by (rule wp_mono) (use holds_file_acts [OF assms(2) evolvesD(2) [OF _ assms(1)] _ assms(3,4)] in
      \<open>auto simp: evolvesD(4) [OF _ assms(1)]\<close>)
qed


section \<open>Crashes\<close>

text \<open>
  What may be found after a crash: of every directory entry either the synced or the current state,
  and of a file whose content is not synced anything; no process is left, and no lock.
\<close>

definition crashed :: "fs \<Rightarrow> fs \<Rightarrow> bool" where
  "crashed f f' \<longleftrightarrow>
     length (inodes f') = length (inodes f) \<and> locks f' = []
     \<and> (\<forall>i. has_inode f i \<longrightarrow>
          kind (inode f' i) = kind (inode f i) \<and> owner (inode f' i) = owner (inode f i)
          \<and> (\<forall>n. map_of (entries (inode f' i)) n
                 \<in> {map_of (stable (inode f i)) n, map_of (entries (inode f i)) n})
          \<and> (durable (inode f i) = Some (content (inode f i)) \<longrightarrow>
               mode (inode f' i) = mode (inode f i) \<and> content (inode f' i) = content (inode f i)
               \<and> durable (inode f' i) = Some (content (inode f' i))))"

text \<open>One of the possible outcomes: nothing was lost but the locks.\<close>

definition restart :: "fs \<Rightarrow> fs" where
  "restart f = f\<lparr>locks := []\<rparr>"

lemma crashed_restart: "crashed f (restart f)"
  by (simp add: crashed_def restart_def inode_def)

text \<open>A file that is on disk under a permanent name.\<close>

definition on_disk :: "'a posix_scheme \<Rightarrow> nat \<Rightarrow> pystr \<Rightarrow> bytes \<Rightarrow> bool" where
  "on_disk w d n enc \<longleftrightarrow>
     (\<exists>i. holds_file w d n i \<and> content (inode (fs w) i) = enc \<and> durable (inode (fs w) i) = Some enc
        \<and> stable_lookup (fs w) d n = Some i)"

lemma on_disk_acts:
  assumes "on_disk w d n enc" "acts P S (fs w) (fs w')" "uid w' = uid w" "S d" "published n"
  shows "on_disk w' d n enc"
proof -
  obtain i where i: "holds_file w d n i" "content (inode (fs w) i) = enc" "durable (inode (fs w) i) = Some enc"
    "stable_lookup (fs w) d n = Some i" using assms(1) by (auto simp: on_disk_def)
  then have "lookup (fs w) d n = Some i" by (simp add: holds_file_def)
  with i holds_file_acts [OF i(1) assms(2-5)] actsD(11) [OF assms(2,4,5), of i]
  show ?thesis by (auto simp: on_disk_def)
qed

lemma on_disk_crashed:
  assumes "on_disk w d n enc" "crashed (fs w) (fs w')" "uid w' = uid w"
  shows "\<exists>i. holds_file w' d n i \<and> content (inode (fs w') i) = enc \<and> durable (inode (fs w') i) = Some enc"
proof -
  obtain i where i: "holds_file w d n i" "content (inode (fs w) i) = enc" "durable (inode (fs w) i) = Some enc"
    "stable_lookup (fs w) d n = Some i" using assms(1) by (auto simp: on_disk_def)
  have hd: "has_inode (fs w) d" and hi: "has_inode (fs w) i"
    using i(1) by (auto simp: holds_file_def dest: lookup_has_inode)
  have "has_inode (fs w') j = has_inode (fs w) j" for j
    using assms(2) by (simp add: crashed_def has_inode_def)
  moreover have "map_of (entries (inode (fs w) d)) n = Some i" "map_of (stable (inode (fs w) d)) n = Some i"
    using i(1,4) hd by (auto simp: holds_file_def lookup_def stable_lookup_def)
  moreover have "map_of (entries (inode (fs w') d)) n
      \<in> {map_of (stable (inode (fs w) d)) n, map_of (entries (inode (fs w) d)) n}"
    using assms(2) hd unfolding crashed_def by blast
  ultimately show ?thesis
    using assms(2,3) i hd hi unfolding crashed_def
    by (intro exI [of _ i]) (auto simp: holds_file_def lookup_def)
qed


section \<open>A quiet machine\<close>

text \<open>With an empty script no other process runs and no call fails: calls can be evaluated.\<close>

lemmas quiet_calls =
  ebind_def try_except_def on_error_def try_finally_def syscall_def syscall_partial_def next_step_def
  sys_stat_def sys_fstat_def sys_open_def sys_opendir_def sys_create_def sys_open_create_def sys_fchmod_def
  sys_write_def sys_fsync_def sys_link_def sys_unlink_def sys_read_def sys_flock_def release_lock_def
  sys_mkdir_def sys_scandir_def sys_open_path_def
  find_entry_def open_entry_def open_directory_def
  lookup_def make_def has_inode_def inode_def masked_def new_inode_def add_entry_def add_inode_def
  set_inode_def put_def sync_def info_of_def remove_entry_def

definition empty_root :: fs where
  "empty_root =
     \<lparr>inodes = [\<lparr>kind = Dir, owner = 1000, mode = 448, content = [], durable = None, entries = [],
                 stable = [], links = 1, changed = 0, creator = 0\<rparr>], locks = []\<rparr>"

definition host :: "fs \<Rightarrow> nat \<Rightarrow> posix" where
  "host f p = \<lparr>fs = f, script = [], uid = 1000, pid = p, umask = 0, entropy = (\<lambda>_. 0), drawn = 0\<rparr>"

lemma host_simps [simp]:
  "fs (host f p) = f" "script (host f p) = []" "uid (host f p) = 1000" "pid (host f p) = p"
  by (simp_all add: host_def)

lemma empty_root_ok: "fs_ok empty_root" "settled S empty_root"
  by (auto simp: empty_root_def fs_ok_def settled_def lookup_def inode_def has_inode_def)

lemma host_fair: "fs_ok f \<Longrightarrow> settled S f \<Longrightarrow> fair (\<lambda>q. q \<noteq> p) S (host f p)"
  by (simp add: fair_def)

end
