(* ===== verification/Worker_Claim.thy ===== *)
theory Worker_Claim
  imports Worker_Inputs Py_Rely
begin

text \<open>
  \<^verbatim>\<open>scripts/worker_claim.py\<close>: the private claim ticket (published once, durably, and adopted by every
  later caller) and the exclusive controller lock.
\<close>

section \<open>Private directories and files\<close>

definition MAX_TICKET_BYTES :: nat where "MAX_TICKET_BYTES = 2048"

text \<open>\<open>info.st_mode & 0o077\<close>: the last six bits of the mode\<close>

definition group_other :: "nat \<Rightarrow> nat" where
  "group_other m = m mod 64"

definition state_directory :: "pystr list \<Rightarrow> ('a posix_scheme, nat) prog" where
  "state_directory path =
     ebind (sys_open_path path) (\<lambda>d.
     ebind (sys_fstat d) (\<lambda>info.
     ebind (gets uid) (\<lambda>u.
     if st_uid info \<noteq> u \<or> group_other (st_mode info) \<noteq> 0
     then raise (ValueError ''Worker state directory must be private and owned by you'')
     else ret d)))"

definition regular_info :: "nat \<Rightarrow> stat_info \<Rightarrow> exn + unit" where
  "regular_info u info =
     (if st_kind info \<noteq> Reg \<or> st_uid info \<noteq> u \<or> st_mode info \<noteq> 384
      then Inl (ValueError ''Worker state file must be owned by you with mode 600'') else Inr ())"

definition check_regular :: "stat_info \<Rightarrow> ('a posix_scheme, unit) prog" where
  "check_regular info = ebind (gets uid) (\<lambda>u. lift (regular_info u info))"

section \<open>Tickets\<close>

definition ticket_fields :: "string list" where
  "ticket_fields = [''version'', ''worker'', ''run'', ''nonce'', ''proof'']"

definition validate_ticket :: "pyval \<Rightarrow> exn + pyval" where
  "validate_ticket ticket =
     (if \<not> is_dict ticket \<or> \<not> key_set_is ticket ticket_fields
         \<or> \<not> is_int (field ticket ''version'') \<or> int_of (field ticket ''version'') \<noteq> 1
         \<or> \<not> is_str (field ticket ''proof'') \<or> \<not> full_token 43 (str_of (field ticket ''proof''))
      then Inl (ValueError ''Invalid private claim ticket'')
      else
      for_each (\<lambda>key t. rbind (canonical_uuid (field t key)) (\<lambda>_. Inr t))
        [''worker'', ''run'', ''nonce''] ticket)"

definition unique_pairs :: "pydict \<Rightarrow> exn + pydict" where
  "unique_pairs pairs =
     for_each (\<lambda>(key, v) out.
        if key \<in> fst ` set out then Inl (ValueError ''Duplicate private claim field'')
        else Inr (out @ [(key, v)])) pairs []"

text \<open>The reader of tickets keeps JSON's constants: without \<open>parse_constant\<close> they become floats.\<close>

definition claim_hooks :: json_hooks where
  "claim_hooks = \<lparr>pairs_hook = unique_pairs, constant_hook = (\<lambda>c. Inr (PFloat c))\<rparr>"

definition parse_ticket :: "bytes \<Rightarrow> exn + pyval" where
  "parse_ticket encoded =
     (case utf8_decode encoded of
        None \<Rightarrow> Inl (ValueError ''Malformed private claim ticket'')
      | Some s \<Rightarrow>
          (case json_loads claim_hooks s of
             Inl e \<Rightarrow> if is_ValueError e then Inl (ValueError ''Malformed private claim ticket'') else Inl e
           | Inr ticket \<Rightarrow> validate_ticket ticket))"

definition load_ticket :: "nat \<Rightarrow> pystr \<Rightarrow> ('a posix_scheme, pyval) prog" where
  "load_ticket directory name =
     ebind (sys_stat directory name) (\<lambda>inspected.
     ebind (check_regular inspected) (\<lambda>_.
     ebind (sys_open directory name) (\<lambda>fd.
     ebind (sys_fstat fd) (\<lambda>current.
     ebind (check_regular current) (\<lambda>_.
     if st_ino current \<noteq> st_ino inspected
     then raise (ValueError ''Private claim ticket changed during open'')
     else
     ebind (sys_read fd (MAX_TICKET_BYTES + 1)) (\<lambda>encoded.
     if MAX_TICKET_BYTES < length encoded
     then raise (ValueError ''Private claim ticket exceeds its limit'')
     else lift (parse_ticket encoded)))))))"

definition load :: "pystr list \<Rightarrow> ('a posix_scheme, pyval) prog" where
  "load path = ebind (state_directory (butlast path)) (\<lambda>d. load_ticket d (last path))"

section \<open>Publication\<close>

text \<open>A new private file, complete and on disk, before any other process can name it.\<close>

definition write_staged :: "nat \<Rightarrow> pystr \<Rightarrow> bytes \<Rightarrow> ('a posix_scheme, nat) prog" where
  "write_staged directory staged encoded =
     ebind (sys_create directory staged 384) (\<lambda>fd.
     ebind (sys_fchmod fd 384) (\<lambda>_.
     ebind (sys_fstat fd) (\<lambda>info.
     ebind (check_regular info) (\<lambda>_.
     ebind (sys_write fd encoded) (\<lambda>_.
     ebind (sys_fsync fd) (\<lambda>_. ret fd))))))"

definition new_ticket :: "pystr \<Rightarrow> pystr \<Rightarrow> pystr \<Rightarrow> pystr \<Rightarrow> pyval" where
  "new_ticket worker run nonce secret =
     PDict [(lit ''version'', PInt 1), (lit ''worker'', PStr worker), (lit ''run'', PStr run),
            (lit ''nonce'', PStr nonce), (lit ''proof'', PStr secret)]"

definition encode_ticket :: "pyval \<Rightarrow> bytes" where
  "encode_ticket ticket = (case utf8_encode (render fmt_default (sort_keys ticket)) of None \<Rightarrow> [] | Some b \<Rightarrow> b)"

definition check_ticket_work :: "pystr \<Rightarrow> pystr \<Rightarrow> pyval \<Rightarrow> exn + unit" where
  "check_ticket_work worker run ticket =
     (if \<not> py_eq (field ticket ''worker'') (PStr worker) \<or> \<not> py_eq (field ticket ''run'') (PStr run)
      then Inl (ValueError ''Claim ticket belongs to different work'') else Inr ())"

definition claim_staging :: pystr where "claim_staging = lit ''.claim-''"

text \<open>The publication of a new ticket, with the \<open>finally\<close> that removes the staging file when it fails.\<close>

definition publish_ticket :: "nat \<Rightarrow> pystr \<Rightarrow> pystr \<Rightarrow> pystr \<Rightarrow> ('a posix_scheme, pyval) prog" where
  "publish_ticket directory name worker run =
     ebind uuid4 (\<lambda>nonce.
     ebind (token_urlsafe 32) (\<lambda>secret.
     ebind uuid4_hex (\<lambda>h.
     let ticket = new_ticket worker run nonce secret; staged = claim_staging @ h in
     on_error
       (ebind (write_staged directory staged (encode_ticket ticket)) (\<lambda>_.
        ebind
          (try_except
             (ebind (sys_link directory staged name) (\<lambda>_. ret ticket))
             (\<lambda>e. if e = FileExistsError then load_ticket directory name else raise e))
          (\<lambda>ticket.
        ebind (lift (check_ticket_work worker run ticket)) (\<lambda>_.
        ebind (sys_unlink directory staged) (\<lambda>_. ret ticket)))))
       (sys_unlink directory staged))))"

text \<open>The body of \<open>prepare\<close>, in the directory it opened.\<close>

definition prepare_at :: "nat \<Rightarrow> pystr \<Rightarrow> pystr \<Rightarrow> pystr \<Rightarrow> ('a posix_scheme, pyval) prog" where
  "prepare_at directory name worker run =
     ebind
       (try_except (ebind (load_ticket directory name) (\<lambda>t. ret (Some t)))
          (\<lambda>e. if e = FileNotFoundError then ret None else raise e))
       (\<lambda>found.
     ebind
       (case found of
          Some ticket \<Rightarrow> ebind (lift (check_ticket_work worker run ticket)) (\<lambda>_. ret ticket)
        | None \<Rightarrow> publish_ticket directory name worker run)
       (\<lambda>ticket.
     ebind (sys_fsync directory) (\<lambda>_. ret ticket)))"

definition prepare :: "pystr list \<Rightarrow> pyval \<Rightarrow> pyval \<Rightarrow> ('a posix_scheme, pyval) prog" where
  "prepare path worker run =
     ebind (lift (canonical_uuid worker)) (\<lambda>worker.
     ebind (lift (canonical_uuid run)) (\<lambda>run.
     ebind (state_directory (butlast path)) (\<lambda>directory.
     prepare_at directory (last path) worker run)))"

definition lease_token :: "pyval \<Rightarrow> exn + pystr" where
  "lease_token ticket =
     rbind (validate_ticket ticket) (\<lambda>_.
     Inr (lit ''simmis-lease.'' @ str_of (field ticket ''run'') @ lit ''.'' @ str_of (field ticket ''nonce'')
          @ lit ''.'' @ str_of (field ticket ''proof'')))"

section \<open>The controller lock\<close>

definition lock_name :: "pystr \<Rightarrow> pystr" where
  "lock_name worker = worker @ lit ''.lock''"

text \<open>The body runs after the lock of the permanent file was taken; closing the file releases it.\<close>

definition lock_body :: "nat \<Rightarrow> pystr \<Rightarrow> ('a posix_scheme, 'b) prog \<Rightarrow> ('a posix_scheme, 'b) prog" where
  "lock_body directory worker body =
     ebind
       (try_except (ebind (sys_stat directory (lock_name worker)) check_regular)
          (\<lambda>e. if e = FileNotFoundError then ret () else raise e))
       (\<lambda>_.
     ebind (sys_open_create directory (lock_name worker) 384) (\<lambda>fd.
     ebind (sys_fstat fd) (\<lambda>info.
     ebind (check_regular info) (\<lambda>_.
     ebind
       (try_except (sys_flock fd)
          (\<lambda>e. if e = BlockingIOError then raise (ValueError ''Another controller owns this local worker'')
               else raise e))
       (\<lambda>_.
     try_finally body (release_lock fd))))))"

definition controller_lock :: "pystr list \<Rightarrow> pyval \<Rightarrow> ('a posix_scheme, 'b) prog \<Rightarrow> ('a posix_scheme, 'b) prog" where
  "controller_lock folder worker body =
     ebind (lift (canonical_uuid worker)) (\<lambda>worker.
     ebind (state_directory folder) (\<lambda>directory.
     lock_body directory worker body))"

section \<open>Files under a permanent name\<close>

definition regular_error :: exn where
  "regular_error = ValueError ''Worker state file must be owned by you with mode 600''"

lemma wp_check_regular [simp]:
  "wp (check_regular info) Q w \<longleftrightarrow>
     (if st_kind info = Reg \<and> st_uid info = uid w \<and> st_mode info = 384 then Q (Inr ()) w
      else Q (Inl regular_error) w)"
  by (auto simp: check_regular_def regular_info_def regular_error_def)

text \<open>Reading a published ticket finds the one file that stays under that name.\<close>

lemma wp_load_ticket:
  assumes "fair P S w" "S d" "published n"
  shows "wp (load_ticket d n) (\<lambda>r w'. others P S w w' \<and> (\<forall>t. r = Inr t \<longrightarrow>
     (\<exists>i. holds_file w' d n i \<and> length (content (inode (fs w') i)) \<le> MAX_TICKET_BYTES
          \<and> parse_ticket (content (inode (fs w') i)) = Inr t))) w" (is "wp _ ?Q w")
  unfolding load_ticket_def
proof (rule wp_ebindI [OF wp_stat [OF assms(1)]], goal_cases)
  case (2 info w1)
  then obtain i where 1: "others P S w w1" "lookup (fs w1) d n = Some i" "info = info_of (fs w1) i"
    by auto
  note f1 = othersD(1) [OF 1(1)]
  have inf: "st_ino info = i" using 1 by simp
  show ?case
  proof (cases "st_kind info = Reg \<and> st_uid info = uid w1 \<and> st_mode info = 384")
    case True
    with 1 f1 have h1: "holds_file w1 d n i" by (auto intro: regular_holds_file)
    have "wp (ebind (sys_open d n) (\<lambda>fd. ebind (sys_fstat fd) (\<lambda>current. ebind (check_regular current) (\<lambda>_.
        if st_ino current \<noteq> st_ino info then raise (ValueError ''Private claim ticket changed during open'')
        else ebind (sys_read fd (MAX_TICKET_BYTES + 1)) (\<lambda>encoded.
          if MAX_TICKET_BYTES < length encoded then raise (ValueError ''Private claim ticket exceeds its limit'')
          else lift (parse_ticket encoded)))))) ?Q w1"
    proof (rule wp_ebindI [OF wp_open [OF f1]], goal_cases)
      case (2 j w2)
      then have o2: "others P S w1 w2" by simp
      note h2 = holds_others [OF h1 o2 assms(2,3)]
      with 2 have j: "j = i" by (simp add: holds_file_def)
      show ?case
      proof (rule wp_ebindI [OF wp_fstat [OF othersD(1) [OF o2]]], goal_cases)
        case (2 current w3)
        then have o3: "others P S w2 w3" by simp
        note h3 = holds_others [OF h2(1) o3 assms(2,3)]
        have o: "others P S w w3" using 1(1) o2 o3 by (blast intro: others_trans)
        have "wp (ebind (sys_read j (MAX_TICKET_BYTES + 1)) (\<lambda>encoded.
          if MAX_TICKET_BYTES < length encoded then raise (ValueError ''Private claim ticket exceeds its limit'')
          else lift (parse_ticket encoded))) ?Q w3"
        proof (rule wp_ebindI [OF wp_read [OF othersD(1) [OF o3]]], goal_cases)
          case (2 b w4)
          then have o4: "others P S w3 w4" and b: "b = take (MAX_TICKET_BYTES + 1) (content (inode (fs w4) i))"
            by (simp_all add: j)
          note h4 = holds_others [OF h3(1) o4 assms(2,3)]
          have "others P S w w4" using o o4 by (rule others_trans)
          with h4(1) b show ?case by auto
        qed (use o in \<open>auto intro: others_trans\<close>)
        with o show ?case by simp
      qed (use 1(1) o2 in \<open>auto intro: others_trans\<close>)
    qed (use 1(1) in \<open>auto intro: others_trans\<close>)
    with 1 show ?thesis by simp
  qed (use 1 in auto)
qed simp


lemma wp_write_staged:
  assumes "fair P S w" "\<not> published n"
  shows "wp (write_staged d n enc) (\<lambda>r w'. evolves P S w w' \<and>
     (\<forall>i. r = Inr i \<longrightarrow> staged_file w' i d n enc)) w" (is "wp _ ?Q w")
  unfolding write_staged_def
proof (rule wp_ebindI [OF wp_create [OF assms(1)]], goal_cases)
  case (2 i w1)
  let ?draft = "\<lambda>w'. draft P S w w' i d n"
  from 2 have d1: "?draft w1 (\<lambda>x. content x = [])"
    using evolvesD [of P S w w1] assms(1) by (auto simp: draft_def)
  show ?case
  proof (rule draft_fchmod [OF d1 assms(2)])
    fix w2 assume d2: "?draft w2 (\<lambda>x. content x = [] \<and> mode x = 384)"
    show "wp (ebind (sys_fstat i) (\<lambda>info. ebind (check_regular info) (\<lambda>_.
        ebind (sys_write i enc) (\<lambda>_. ebind (sys_fsync i) (\<lambda>_. ret i))))) ?Q w2"
    proof (rule wp_ebindI [OF wp_fstat [OF draftD(1) [OF d2]]], goal_cases)
      case (2 info w3)
      then have d3: "?draft w3 (\<lambda>x. content x = [] \<and> mode x = 384)"
        using draft_others [OF d2] by (auto simp: kept_def)
      have "wp (ebind (sys_write i enc) (\<lambda>_. ebind (sys_fsync i) (\<lambda>_. ret i))) ?Q w3"
      proof (rule draft_write [OF d3 assms(2)])
        fix w4 assume d4: "?draft w4 (\<lambda>x. content x = enc \<and> mode x = 384)"
        show "wp (ebind (sys_fsync i) (\<lambda>_. ret i)) ?Q w4"
        proof (rule draft_fsync_unshared [OF d4 assms(2)])
          fix w5 assume "?draft w5 (\<lambda>x. content x = enc \<and> mode x = 384 \<and> durable x = Some enc)"
          then show "wp (ret i) ?Q w5" by (auto simp: draft_def staged_file_def staged_data_def)
        qed (auto simp: kept_def)
      qed (auto simp: kept_def)
      then show ?case using draftD(3) [OF d3] by simp
    qed (use draftD(3) [OF d2] in \<open>auto intro: evolves_trans_others\<close>)
  qed (auto simp: kept_def)
qed simp



section \<open>What a ticket is\<close>

text \<open>Random values have the form the validators ask for.\<close>

lemma urlsafe_b64_char: "is_token_char (urlsafe (b64_char v))"
proof -
  consider "v < 26" | "26 \<le> v \<and> v < 52" | "52 \<le> v \<and> v < 62" | "62 \<le> v" by linarith
  then show ?thesis by cases (auto simp: b64_char_def urlsafe_def is_token_char_def)
qed

lemma token_chars: "list_all is_token_char (map urlsafe (takeWhile (\<lambda>c. c \<noteq> 61) (b64encode bs)))"
  by (induction bs rule: b64encode.induct) (simp_all add: urlsafe_b64_char)

lemma length_unpadded: "length (takeWhile (\<lambda>c. c \<noteq> 61) (b64encode bs)) = (4 * length bs + 2) div 3"
  by (induction bs rule: b64encode.induct) (simp_all)

lemma token_urlsafe_full: "token_urlsafe 32 w = (Inr t, w') \<Longrightarrow> full_token 43 t"
  using token_chars [of "map (entropy w) [drawn w..<drawn w + 32]"]
  by (auto simp: token_urlsafe_def draw_def ebind_def full_token_def length_unpadded)

lemma unique_pairs_acc:
  "for_each (\<lambda>(key, v) out. if key \<in> fst ` set out then Inl (ValueError ''Duplicate private claim field'')
       else Inr (out @ [(key, v)])) d acc =
   (if distinct (map fst d) \<and> fst ` set d \<inter> fst ` set acc = {} then Inr (acc @ d)
    else Inl (ValueError ''Duplicate private claim field''))"
proof (induction d arbitrary: acc)
  case (Cons kv d)
  obtain k v where "kv = (k, v)" by (cases kv)
  with Cons.IH [of "acc @ [(k, v)]"] show ?case by auto
qed simp

lemma claim_hook_ok: "hook_ok claim_hooks"
  by (simp add: hook_ok_def claim_hooks_def unique_pairs_def unique_pairs_acc)

definition ticket_ok :: "pyval \<Rightarrow> bool" where
  "ticket_ok t \<longleftrightarrow>
     is_dict t \<and> key_set_is t ticket_fields \<and> field t ''version'' = PInt 1
     \<and> (\<exists>p. field t ''proof'' = PStr p \<and> full_token 43 p)
     \<and> (\<forall>k \<in> {''worker'', ''run'', ''nonce''}. \<exists>u. field t k = PStr u \<and> canonical_uuid_text u)"

lemma canonical_uuid_Inr: "canonical_uuid v = Inr u \<longleftrightarrow> v = PStr u \<and> canonical_uuid_text u"
  by (cases v) (auto simp: canonical_uuid_def)

lemma validate_ticket_Inr: "validate_ticket t = Inr r \<longleftrightarrow> r = t \<and> ticket_ok t"
  by (auto simp: validate_ticket_def ticket_ok_def canonical_uuid_Inr is_type_iff)

lemma new_ticket_fields [simp]:
  "field (new_ticket wk rn nonce s) ''version'' = PInt 1" "field (new_ticket wk rn nonce s) ''worker'' = PStr wk"
  "field (new_ticket wk rn nonce s) ''run'' = PStr rn" "field (new_ticket wk rn nonce s) ''nonce'' = PStr nonce"
  "field (new_ticket wk rn nonce s) ''proof'' = PStr s"
  by (simp_all add: new_ticket_def)

lemma new_ticket_ok:
  "canonical_uuid_text wk \<Longrightarrow> canonical_uuid_text rn \<Longrightarrow> canonical_uuid_text nonce \<Longrightarrow> full_token 43 s \<Longrightarrow>
     ticket_ok (new_ticket wk rn nonce s)"
  by (simp add: ticket_ok_def) (auto simp: new_ticket_def key_set_is_iff ticket_fields_def)

lemma ticket_wf: "wf_py (new_ticket wk rn nonce s)"
  by (simp add: new_ticket_def)

lemma key_set_sort: "wf_py v \<Longrightarrow> key_set_is (sort_keys v) ks \<longleftrightarrow> key_set_is v ks"
  by (cases v) (simp_all add: key_set_is_iff image_image split_beta)

lemma is_dict_sort [simp]: "is_dict (sort_keys v) = is_dict v"
  by (cases v) auto

lemma sorted_ticket_ok: "ticket_ok t \<Longrightarrow> wf_py t \<Longrightarrow> ticket_ok (sort_keys t)"
  by (auto simp: ticket_ok_def field_sort_keys key_set_sort)

text \<open>Printable characters need no escape, so a ticket's encoding is short.\<close>

definition plain :: "nat \<Rightarrow> bool" where
  "plain c \<longleftrightarrow> 32 \<le> c \<and> c \<le> 126 \<and> c \<noteq> 34 \<and> c \<noteq> 92"

lemma escape_plain: "list_all plain s \<Longrightarrow> escape a s = s"
  by (induction s) (auto simp: escape_def escape_char_def plain_def)

lemma plain_str_ok: "list_all plain s \<Longrightarrow> str_ok a s"
  by (auto simp: str_ok_def plain_def is_surrogate_def list_all_iff)

lemma uuid_plain: "canonical_uuid_text u \<Longrightarrow> list_all plain u"
  using canonical_uuid_text_chars by (fastforce simp: plain_def list_all_iff is_lower_hex_def)

lemma token_plain: "full_token n s \<Longrightarrow> list_all plain s"
  by (auto simp: full_token_def list_all_iff plain_def is_token_char_def)

lemma sort_new_ticket:
  "sort_keys (new_ticket wk rn nonce s) =
     PDict [(lit ''nonce'', PStr nonce), (lit ''proof'', PStr s), (lit ''run'', PStr rn),
            (lit ''version'', PInt 1), (lit ''worker'', PStr wk)]"
  by (simp add: new_ticket_def lit_simps)

lemma ticket_roundtrip:
  assumes "canonical_uuid_text wk" "canonical_uuid_text rn" "canonical_uuid_text nonce" "full_token 43 s"
  shows "parse_ticket (encode_ticket (new_ticket wk rn nonce s)) = Inr (sort_keys (new_ticket wk rn nonce s))"
    and "length (encode_ticket (new_ticket wk rn nonce s)) \<le> MAX_TICKET_BYTES"
proof -
  let ?t = "sort_keys (new_ticket wk rn nonce s)"
  note plain = uuid_plain [OF assms(1)] uuid_plain [OF assms(2)] uuid_plain [OF assms(3)] token_plain [OF assms(4)]
  have "json_ok True ?t"
    using plain [THEN plain_str_ok] unfolding sort_new_ticket
    by (auto simp: str_ok_def list_all_iff lit_simps is_surrogate_def)
  note ok = this
  have enc: "utf8_encode (render fmt_default ?t) = Some (map byte (render fmt_default ?t))"
    by (rule utf8_encode_render [OF fmt_ok_formats(1) _ ok]) (simp add: fmt_default_def)
  then have e: "encode_ticket (new_ticket wk rn nonce s) = map byte (render fmt_default ?t)"
    by (simp add: encode_ticket_def)
  have "json_loads claim_hooks (render fmt_default ?t) = Inr ?t"
    using ok by (intro json_roundtrip [OF fmt_ok_formats(1) claim_hook_ok]) (simp add: fmt_default_def)
  moreover have "ticket_ok ?t"
    using sorted_ticket_ok [OF new_ticket_ok [OF assms] ticket_wf] .
  ultimately show "parse_ticket (encode_ticket (new_ticket wk rn nonce s)) = Inr ?t"
    unfolding e parse_ticket_def utf8_roundtrip [OF enc] by (simp add: validate_ticket_Inr)
  have len: "length wk = 36" "length rn = 36" "length nonce = 36" "length s = 43"
    using assms by (simp_all add: canonical_uuid_text_length full_token_def)
  show "length (encode_ticket (new_ticket wk rn nonce s)) \<le> MAX_TICKET_BYTES"
    unfolding e sort_new_ticket
    using len plain
    by (simp add: fmt_default_def quote_def escape_plain MAX_TICKET_BYTES_def dec_int_def dec_nat.simps)
      (simp add: lit_simps escape_def escape_char_def)
qed


section \<open>The published ticket\<close>

definition same_ticket :: "pyval \<Rightarrow> pyval \<Rightarrow> bool" where
  "same_ticket t t' \<longleftrightarrow> (\<forall>k \<in> set ticket_fields. field t k = field t' k)"

text \<open>The ticket a process holds is the one in the file.\<close>

definition ticket_file :: "'a posix_scheme \<Rightarrow> nat \<Rightarrow> pystr \<Rightarrow> pyval \<Rightarrow> bool" where
  "ticket_file w d n t \<longleftrightarrow>
     ticket_ok t \<and> (\<exists>i t'. holds_file w d n i \<and> length (content (inode (fs w) i)) \<le> MAX_TICKET_BYTES
       \<and> parse_ticket (content (inode (fs w) i)) = Inr t' \<and> same_ticket t t')"

lemma ticket_file_acts:
  assumes "ticket_file w d n t" "acts P S (fs w) (fs w')" "uid w' = uid w" "S d" "published n"
  shows "ticket_file w' d n t"
  using assms holds_file_acts [OF _ assms(2-5)] unfolding ticket_file_def by metis

lemma parse_ticket_ok: "parse_ticket b = Inr t \<Longrightarrow> ticket_ok t"
  by (auto simp: parse_ticket_def validate_ticket_Inr split: option.splits sum.splits if_splits)

lemma ticket_fileI:
  "holds_file w d n i \<Longrightarrow> length (content (inode (fs w) i)) \<le> MAX_TICKET_BYTES \<Longrightarrow>
     parse_ticket (content (inode (fs w) i)) = Inr t \<Longrightarrow> ticket_file w d n t"
  by (auto simp: ticket_file_def same_ticket_def dest: parse_ticket_ok)

lemma check_ticket_work_Inr:
  "check_ticket_work wk rn t = Inr x \<longleftrightarrow> field t ''worker'' = PStr wk \<and> field t ''run'' = PStr rn"
  by (auto simp: check_ticket_work_def)

lemma check_ticket_work_Inr':
  "Inr x = check_ticket_work wk rn t \<longleftrightarrow> field t ''worker'' = PStr wk \<and> field t ''run'' = PStr rn"
  by (auto simp: check_ticket_work_def)

lemma ticket_file_unique:
  "ticket_file w d n t \<Longrightarrow> ticket_file w d n u \<Longrightarrow> same_ticket t u"
  by (auto simp: ticket_file_def holds_file_def same_ticket_def)

lemma lease_token_same:
  assumes "same_ticket t u" "ticket_ok t" "ticket_ok u"
  shows "lease_token t = lease_token u"
proof -
  have "validate_ticket t = Inr t" "validate_ticket u = Inr u" using assms by (simp_all add: validate_ticket_Inr)
  then show ?thesis using assms(1) by (simp add: lease_token_def same_ticket_def ticket_fields_def)
qed

lemma staging_not_published: "\<not> published (claim_staging @ h)"
  by (simp add: published_def starts_with_def claim_staging_def lit_simps)

lemma wp_uuid4: "wp uuid4 (\<lambda>r w'. evolves P S w w' \<and> (\<forall>u. r = Inr u \<longrightarrow> canonical_uuid_text u)) w"
  by (cases "uuid4 w") (auto simp: wp_def dest: shared.keepsD [OF keeps_uuid(2)] uuid4_canonical)

lemma wp_token: "wp (token_urlsafe 32) (\<lambda>r w'. evolves P S w w' \<and> (\<forall>u. r = Inr u \<longrightarrow> full_token 43 u)) w"
  by (cases "token_urlsafe 32 w") (auto simp: wp_def dest: shared.keepsD [OF keeps_uuid(3)] token_urlsafe_full)

lemma wp_publish_ticket:
  assumes f0: "fair P S w" and total: "\<And>q. q \<noteq> pid w \<Longrightarrow> P q" and sd: "S d" "published n"
    and ids: "canonical_uuid_text wk" "canonical_uuid_text rn"
  shows "wp (publish_ticket d n wk rn) (\<lambda>r w'. evolves P S w w' \<and> (\<forall>t. r = Inr t \<longrightarrow>
     ticket_file w' d n t \<and> field t ''worker'' = PStr wk \<and> field t ''run'' = PStr rn)) w"
    (is "wp _ ?Q w")
  unfolding publish_ticket_def
proof (rule wp_ebindI [OF wp_uuid4 [where P = P and S = S]], goal_cases)
  case (2 nonce w1)
  then have e1: "evolves P S w w1" and nonce: "canonical_uuid_text nonce" by auto
  show ?case
  proof (rule wp_ebindI [OF wp_token [where P = P and S = S]], goal_cases)
    case (2 secret w2)
    then have e2: "evolves P S w w2" and secret: "full_token 43 secret"
      using e1 by (auto intro: shared.R_trans)
    show ?case
    proof (rule wp_ebindI [OF wp_keeps [OF keeps_uuid(1) [where P = P and S = S]]], goal_cases)
      case (2 h w3)
      then have e3: "evolves P S w w3" using e2 by (auto intro: shared.R_trans)
      note f3 = evolvesD(1) [OF e3 f0]
      let ?t = "new_ticket wk rn nonce secret" and ?s = "claim_staging @ h"
      note np = staging_not_published [of h]
      have tot: "P q" if "q \<noteq> pid w'" "evolves P S w w'" for q w'
        using that total by (auto simp: evolves_def)
      show ?case
        unfolding Let_def
      proof (rule wp_on_errorI [where R = ?Q], goal_cases)
        case 1
        show ?case
        proof (rule wp_ebindI [OF wp_write_staged [OF f3 np]], goal_cases)
          case (2 i w4)
          then have e4: "evolves P S w w4" and st: "staged_file w4 i d ?s (encode_ticket ?t)"
            using e3 by (auto intro: shared.R_trans)
          note f4 = evolvesD(1) [OF e4 f0]
          have "wp (try_except (ebind (sys_link d ?s n) (\<lambda>_. ret ?t))
              (\<lambda>e. if e = FileExistsError then load_ticket d n else raise e))
            (\<lambda>r w'. evolves P S w w' \<and> (\<forall>t. r = Inr t \<longrightarrow> ticket_file w' d n t)) w4"
            (is "wp _ ?R w4")
          proof (rule wp_try_exceptI [where R = ?R], goal_cases)
            case 1
            show ?case
            proof (rule wp_ebindI [OF wp_link [OF f4 st]], goal_cases)
              case (2 x w5)
              then have "ticket_file w5 d n ?t"
                using ticket_roundtrip [OF ids nonce secret] new_ticket_ok [OF ids nonce secret]
                by (auto simp: ticket_file_def same_ticket_def ticket_fields_def field_sort_keys ticket_wf)
              with 2 e4 show ?case by (auto intro: shared.R_trans)
            qed (use e4 in \<open>auto intro: shared.R_trans\<close>)
          next
            case (2 e w5)
            then have e5: "evolves P S w w5" by simp
            have "wp (load_ticket d n) ?R w5"
              by (rule wp_mono [OF wp_load_ticket [OF evolvesD(1) [OF e5 f0] sd]])
                (use e5 in \<open>auto intro: ticket_fileI evolves_trans_others\<close>)
            with e5 show ?case by simp
          qed simp
          then show ?case
          proof (rule wp_ebindI, goal_cases)
            case (2 t w6)
            then have e6: "evolves P S w w6" and tf: "ticket_file w6 d n t" by auto
            have "wp (ebind (sys_unlink d ?s) (\<lambda>_. ret t)) (\<lambda>r w'. evolves P S w6 w') w6"
              by (rule wp_ebindI [OF wp_unlink [OF evolvesD(1) [OF e6 f0] np tot [OF _ e6]]]) auto
            moreover have "ticket_file w' d n t" if "evolves P S w6 w'" for w'
              using ticket_file_acts [OF tf evolvesD(2) [OF that evolvesD(1) [OF e6 f0]] _ sd]
                that by (simp add: evolves_def)
            ultimately have "wp (ebind (sys_unlink d ?s) (\<lambda>_. ret t))
                (\<lambda>r w'. evolves P S w w' \<and> (\<forall>t'. r = Inr t' \<longrightarrow> t' = t \<and> ticket_file w' d n t)) w6"
              using e6 by (auto simp: wp_def ebind_def split: prod.splits sum.splits intro: shared.R_trans)
            then have "wp (ebind (sys_unlink d ?s) (\<lambda>_. ret t))
                (\<lambda>r w'. evolves P S w w' \<and> (\<forall>t'. r = Inr t' \<longrightarrow> t' = t \<and> ticket_file w' d n t)) w6" .
            then show ?case using e6
              by (rule_tac wp_ebindI [where R = "\<lambda>r w'. r = check_ticket_work wk rn t \<and> w' = w6"])
                (auto simp del: wp_ebind simp: check_ticket_work_Inr' elim!: wp_mono)
          qed simp
        qed (use e3 in \<open>auto intro: shared.R_trans\<close>)
      next
        case (3 e w')
        then have ev: "evolves P S w w'" by simp
        show ?case
          by (rule wp_mono [OF wp_unlink [OF evolvesD(1) [OF ev f0] np tot]])
            (use ev in \<open>auto split: sum.splits intro: shared.R_trans\<close>)
      qed simp
    qed (use e2 in \<open>auto intro: shared.R_trans\<close>)
  qed (use e1 in \<open>auto intro: shared.R_trans\<close>)
qed auto


lemma wp_fsync: "fair P S w \<Longrightarrow> wp (sys_fsync i) (\<lambda>r w'. evolves P S w w') w"
  by (rule wp_keeps) simp

text \<open>The ticket a process holds is on disk.\<close>

definition ticket_saved :: "'a posix_scheme \<Rightarrow> nat \<Rightarrow> pystr \<Rightarrow> pyval \<Rightarrow> bool" where
  "ticket_saved w d n t \<longleftrightarrow>
     ticket_ok t \<and> (\<exists>enc t'. on_disk w d n enc \<and> length enc \<le> MAX_TICKET_BYTES
       \<and> parse_ticket enc = Inr t' \<and> same_ticket t t')"

lemma ticket_saved_acts:
  assumes "ticket_saved w d n t" "acts P S (fs w) (fs w')" "uid w' = uid w" "S d" "published n"
  shows "ticket_saved w' d n t"
  using assms(1) on_disk_acts [OF _ assms(2-5)] unfolding ticket_saved_def by blast

lemma ticket_saved_file: "ticket_saved w d n t \<Longrightarrow> ticket_file w d n t"
  by (auto simp: ticket_saved_def ticket_file_def on_disk_def)

lemma parse_ticket_Nil: "parse_ticket [] \<noteq> Inr t"
  by (simp add: parse_ticket_def json_loads_def skip_ws_def scan_atom_def)

lemma wp_prepare_at:
  assumes f0: "fair P S w" and total: "\<And>q. q \<noteq> pid w \<Longrightarrow> P q" and sd: "S d" "published n"
    and ids: "canonical_uuid_text wk" "canonical_uuid_text rn"
  shows "wp (prepare_at d n wk rn) (\<lambda>r w'. evolves P S w w' \<and> (\<forall>t. r = Inr t \<longrightarrow>
     ticket_saved w' d n t \<and> field t ''worker'' = PStr wk \<and> field t ''run'' = PStr rn)) w"
    (is "wp _ ?Q w")
  unfolding prepare_at_def
proof (rule wp_ebindI [where R = "\<lambda>r w'. evolves P S w w' \<and> (\<forall>t. r = Inr (Some t) \<longrightarrow> ticket_file w' d n t)"], goal_cases)
  case 1
  have "wp (load_ticket d n) (\<lambda>r w'. evolves P S w w' \<and> (\<forall>t. r = Inr t \<longrightarrow> ticket_file w' d n t)) w"
    by (rule wp_mono [OF wp_load_ticket [OF f0 sd]]) (auto intro: ticket_fileI evolves_others)
  then show ?case by (auto elim!: wp_mono split: sum.splits)
next
  case (3 found w1)
  then have e1: "evolves P S w w1" by simp
  note f1 = evolvesD(1) [OF e1 f0]
  have tot1: "P q" if "q \<noteq> pid w1" for q using that total e1 by (simp add: evolves_def)
  show ?case
  proof (rule wp_ebindI [where R = "\<lambda>r w'. evolves P S w w' \<and> (\<forall>t. r = Inr t \<longrightarrow>
      ticket_file w' d n t \<and> field t ''worker'' = PStr wk \<and> field t ''run'' = PStr rn)"], goal_cases)
    case 1
    show ?case
    proof (cases found)
      case None
      have "wp (publish_ticket d n wk rn) (\<lambda>r w'. evolves P S w w' \<and> (\<forall>t. r = Inr t \<longrightarrow>
          ticket_file w' d n t \<and> field t ''worker'' = PStr wk \<and> field t ''run'' = PStr rn)) w1"
        by (rule wp_mono [OF wp_publish_ticket [OF f1 tot1 sd ids]]) (use e1 in \<open>auto intro: shared.R_trans\<close>)
      with None show ?thesis by simp
    next
      case (Some t)
      with 3 show ?thesis by (simp add: check_ticket_work_def)
    qed
  next
    case (3 t w2)
    then have e2: "evolves P S w w2" and tf: "ticket_file w2 d n t" by auto
    note f2 = evolvesD(1) [OF e2 f0]
    from tf obtain i t' where i: "holds_file w2 d n i" "length (content (inode (fs w2) i)) \<le> MAX_TICKET_BYTES"
      "parse_ticket (content (inode (fs w2) i)) = Inr t'" "same_ticket t t'" "ticket_ok t"
      by (auto simp: ticket_file_def)
    show ?case
    proof (rule wp_ebindI [OF wp_fsync_dir [OF f2 i(1) sd]], goal_cases)
      case (2 x w3)
      then have e3: "evolves P S w2 w3" and h: "holds_file w3 d n i" "stable_lookup (fs w3) d n = Some i"
        and c: "content (inode (fs w3) i) = content (inode (fs w2) i)" by auto
      have "settled S (fs w3)" using evolvesD(1) [OF e3 f2] by (simp add: fair_def)
      then have "durable (inode (fs w3) i) = Some (content (inode (fs w3) i))"
        using h(1) sd i(3) c parse_ticket_Nil unfolding settled_def holds_file_def by metis
      with h c i have "ticket_saved w3 d n t" unfolding ticket_saved_def on_disk_def by metis
      with 3 e2 e3 show ?case by (auto intro: shared.R_trans)
    qed (use e2 in \<open>auto intro: shared.R_trans\<close>)
  qed simp
qed simp

text \<open>With no other process and no failing call, a ticket on disk is read back.\<close>

lemma load_ticket_quiet:
  assumes "script w = []" "holds_file w d n i" "length (content (inode (fs w) i)) \<le> MAX_TICKET_BYTES"
  shows "load_ticket d n w = (parse_ticket (content (inode (fs w) i)), w)"
  using assms
  by (simp add: load_ticket_def ebind_def sys_stat_def sys_open_def sys_fstat_def sys_read_def syscall_def
      syscall_partial_def next_step_def find_entry_def open_entry_def holds_file_def check_regular_def
      regular_info_def)

section \<open>The lock\<close>

text \<open>Process \<open>p\<close> holds the lock of the file with this name.\<close>

definition holds_lock :: "fs \<Rightarrow> nat \<Rightarrow> pystr \<Rightarrow> nat \<Rightarrow> bool" where
  "holds_lock f d n p \<longleftrightarrow> (\<exists>i. lookup f d n = Some i \<and> map_of (locks f) i = Some p)"

lemma holds_lock_acts:
  "holds_lock f d n p \<Longrightarrow> acts P S f f' \<Longrightarrow> \<not> P p \<Longrightarrow> S d \<Longrightarrow> published n \<Longrightarrow> holds_lock f' d n p"
  by (auto simp: holds_lock_def actsD(9,12))


lemma wp_open_create:
  assumes "fair P S w" "S d" "published n"
  shows "wp (sys_open_create d n m) (\<lambda>r w'. evolves P S w w' \<and>
     (\<forall>i. r = Inr i \<longrightarrow> lookup (fs w') d n = Some i)) w" (is "wp _ ?Q w")
proof -
  let ?f = "\<lambda>f. case lookup f d n of
        None \<Rightarrow> make Reg (uid w) (pid w) (masked m (umask w)) d n f
      | Some i \<Rightarrow> rbind (open_entry f i)
          (\<lambda>i. if kind (inode f i) = Dir then Inl (OSError ''EISDIR'') else Inr (i, f))"
  have eq: "wp (sys_open_create d n m) Q w \<longleftrightarrow> wp (syscall ?f) Q w" for Q
    by (simp add: wp_def sys_open_create_def)
  show ?thesis
    unfolding eq
  proof (rule wp_syscall [OF assms(1)])
    fix w1 assume o: "others P S w w1"
    have ok: "fs_ok (fs w1)" using othersD(1) [OF o] by (simp add: fair_def)
    have "evolves P S w (w1\<lparr>fs := s\<rparr>) \<and> lookup s d n = Some i"
      if "make Reg (uid w) (pid w) (masked m (umask w)) d n (fs w1) = Inr (i, s)" for i s
      using acts_make [OF that _ ok] make_unshared [OF that ok] by (auto intro: evolves_step [OF o])
    then show "case ?f (fs w1) of
        Inl e \<Rightarrow> ?Q (Inl e) w1
      | Inr (x, s) \<Rightarrow> ?Q (Inr x) (w1\<lparr>fs := s\<rparr>) \<and> ?Q (Inl io_error) (w1\<lparr>fs := s\<rparr>) \<and> ?Q (Inl io_error) w1"
      using evolves_others [OF o] by (auto simp: open_entry_def split: option.splits sum.splits)
  qed
qed

lemma wp_flock:
  assumes "fair P S w" "lookup (fs w) d n = Some i" "S d" "published n"
  shows "wp (sys_flock i) (\<lambda>r w'. evolves P S w w' \<and> (r = Inr () \<longrightarrow> holds_lock (fs w') d n (pid w'))) w"
    (is "wp _ ?Q w")
proof -
  let ?f = "\<lambda>f. case map_of (locks f) i of Some q \<Rightarrow> Inl BlockingIOError
      | None \<Rightarrow> Inr ((), f\<lparr>locks := (i, pid w) # locks f\<rparr>)"
  have eq: "wp (sys_flock i) Q w \<longleftrightarrow> wp (syscall_partial ?f (\<lambda>n f. f)) Q w" for Q
    by (simp add: wp_def sys_flock_def)
  show ?thesis
    unfolding eq
  proof (rule wp_syscall_partial [OF assms(1)])
    fix w1 assume o: "others P S w w1"
    have "lookup (fs w1) d n = Some i" using assms(2-4) actsD(9) [OF othersD(2) [OF o]] by blast
    then have "holds_lock ((fs w1)\<lparr>locks := (i, pid w) # locks (fs w1)\<rparr>) d n (pid w1)"
      using othersD(3) [OF o] by (simp add: holds_lock_def)
    moreover have "evolves P S w (w1\<lparr>fs := (fs w1)\<lparr>locks := (i, pid w) # locks (fs w1)\<rparr>\<rparr>)"
      if "map_of (locks (fs w1)) i = None"
      using that by (intro evolves_step [OF o] acts_locks) auto
    ultimately show "case ?f (fs w1) of
        Inl e \<Rightarrow> ?Q (Inl e) w1
      | Inr (x, s) \<Rightarrow> ?Q (Inr x) (w1\<lparr>fs := s\<rparr>) \<and> (\<forall>n. ?Q (Inl io_error) (w1\<lparr>fs := fs w1\<rparr>))"
      using evolves_others [OF o] by (auto split: option.splits)
  qed
qed

lemma lock_body_runs_body:
  assumes f0: "fair P S w" and sd: "S d" "published (lock_name wk)"
    and r: "lock_body d wk body w = (Inr x, w')"
  shows "\<exists>v v'. body v = (Inr x, v') \<and> fair P S v \<and> evolves P S w v \<and> holds_lock (fs v) d (lock_name wk) (pid v)"
proof -
  have "wp (lock_body d wk body) (\<lambda>r w'. \<forall>x. r = Inr x \<longrightarrow> (\<exists>v v'. body v = (Inr x, v') \<and> fair P S v
      \<and> evolves P S w v \<and> holds_lock (fs v) d (lock_name wk) (pid v))) w" (is "wp _ ?Q w")
    unfolding lock_body_def
  proof (rule wp_ebindI [where R = "\<lambda>r w'. evolves P S w w'"], goal_cases)
    case 1
    show ?case
      by (rule wp_try_exceptI [where R = "\<lambda>r w'. evolves P S w w'"],
          rule wp_ebindI [OF wp_stat [OF f0]])
        (auto intro: evolves_others)
  next
    case (3 y w1)
    note f1 = evolvesD(1) [OF 3 f0]
    show ?case
    proof (rule wp_ebindI [OF wp_open_create [OF f1 sd]], goal_cases)
      case (2 i w2)
      then have e2: "evolves P S w w2" and l2: "lookup (fs w2) d (lock_name wk) = Some i"
        using 3 by (auto intro: shared.R_trans)
      show ?case
      proof (rule wp_ebindI [OF wp_fstat [OF evolvesD(1) [OF e2 f0]]], goal_cases)
        case (2 info w3)
        then have e3: "evolves P S w w3" and l3: "lookup (fs w3) d (lock_name wk) = Some i"
          using e2 l2 sd actsD(9) [OF othersD(2)] by (auto intro: evolves_trans_others)
        note f3 = evolvesD(1) [OF e3 f0]
        have "wp (ebind (try_except (sys_flock i)
              (\<lambda>e. if e = BlockingIOError then raise (ValueError ''Another controller owns this local worker'')
                   else raise e)) (\<lambda>_. try_finally body (release_lock i))) ?Q w3"
        proof (rule wp_ebindI [OF wp_try_exceptI [OF wp_flock [OF f3 l3 sd], where
              Q = "\<lambda>r w'. r = Inr () \<longrightarrow> evolves P S w3 w' \<and> holds_lock (fs w') d (lock_name wk) (pid w')"]], goal_cases)
          case (4 z w4)
          then have e4: "evolves P S w w4" "holds_lock (fs w4) d (lock_name wk) (pid w4)"
            using e3 by (auto intro: shared.R_trans)
          with evolvesD(1) [OF e4(1) f0] show ?case
            by (auto simp: wp_def try_finally_def split: prod.splits sum.splits)
        qed auto
        then show ?case by simp
      qed simp
    qed simp
  qed simp
  with r show ?thesis by (simp add: wp_def)
qed


lemma uuid_lock_published: "canonical_uuid_text wk \<Longrightarrow> published (lock_name wk)"
proof -
  assume c: "canonical_uuid_text wk"
  then obtain a r where w: "wk = a # r" using canonical_uuid_text_length by (cases wk) force+
  then have "is_lower_hex a \<or> a = 45" using canonical_uuid_text_chars [OF c, of a] by simp
  then show ?thesis by (auto simp: w published_def starts_with_def lock_name_def lit_simps is_lower_hex_def)
qed

text \<open>Small instances for the witnesses.\<close>

lemma staging_differs: "published n \<Longrightarrow> n \<noteq> claim_staging @ h"
  using staging_not_published by auto

definition claim_name :: pystr where "claim_name = lit ''claim.json''"

lemma claim_name_published [simp]: "published claim_name"
  by (simp add: published_def starts_with_def claim_name_def lit_simps)

lemma host_prepare:
  "\<exists>t w'. prepare_at 0 claim_name sample_uuid sample_uuid (host empty_root p) = (Inr t, w')"
  using staging_differs [OF claim_name_published]
  by (simp add: prepare_at_def publish_ticket_def write_staged_def load_ticket_def uuid4_def uuid4_hex_def
      token_urlsafe_def draw_def quiet_calls host_def empty_root_def check_regular_def regular_info_def Let_def
      check_ticket_work_def)

lemma host_prepare_again:
  assumes "ticket_saved (host f q) d n t" "field t ''worker'' = PStr wk" "field t ''run'' = PStr rn"
  shows "\<exists>u w. prepare_at d n wk rn (host f q) = (Inr u, w)"
proof -
  obtain i u where i: "holds_file (host f q) d n i" "length (content (inode f i)) \<le> MAX_TICKET_BYTES"
    "parse_ticket (content (inode f i)) = Inr u" "same_ticket t u"
    using assms(1) by (auto simp: ticket_saved_def on_disk_def)
  have "load_ticket d n (host f q) = (Inr u, host f q)" using load_ticket_quiet [OF _ i(1)] i(2,3) by simp
  moreover have "check_ticket_work wk rn u = Inr ()"
    using assms(2,3) i(4) check_ticket_work_Inr [of wk rn u "()"] by (auto simp: same_ticket_def ticket_fields_def)
  moreover have "has_inode f d" using i(1) by (auto simp: holds_file_def dest: lookup_has_inode)
  ultimately show ?thesis
    by (simp add: prepare_at_def ebind_def try_except_def sys_fsync_def syscall_def syscall_partial_def next_step_def)
qed

lemma host_lock: "\<exists>f w'. lock_body 0 wk (gets fs) (host empty_root p) = (Inr f, w')"
  by (simp add: lock_body_def quiet_calls host_def empty_root_def check_regular_def regular_info_def Let_def)

section \<open>Properties\<close>

text \<open>
  C16. One claim per name.  Two processes prepare the same ticket name under any interleaving, with any
  failing calls.  If both return, then once both states are part of a common history they hold the
  same ticket: the same work, nonce and proof, hence the same lease credential.  A loser adopts the
  winner's identity and never keeps its own second proof.
\<close>

theorem prepare_agreement:
  assumes "fair (\<lambda>q. q \<noteq> pid w1) S w1" and "fair (\<lambda>q. q \<noteq> pid w2) S w2"
    and "S d" and "published n"
    and "canonical_uuid_text wk1" "canonical_uuid_text rn1" "canonical_uuid_text wk2" "canonical_uuid_text rn2"
    and "prepare_at d n wk1 rn1 w1 = (Inr t1, w1')" and "prepare_at d n wk2 rn2 w2 = (Inr t2, w2')"
    and "acts (\<lambda>_. True) S (fs w1') F" and "acts (\<lambda>_. True) S (fs w2') F"
  shows "same_ticket t1 t2 \<and> lease_token t1 = lease_token t2 \<and> wk1 = wk2 \<and> rn1 = rn2"
proof -
  have 1: "ticket_saved w1' d n t1" "field t1 ''worker'' = PStr wk1" "field t1 ''run'' = PStr rn1"
    using wpD [OF wp_prepare_at [OF assms(1) _ assms(3-6)] assms(9)] by auto
  have 2: "ticket_saved w2' d n t2" "field t2 ''worker'' = PStr wk2" "field t2 ''run'' = PStr rn2"
    using wpD [OF wp_prepare_at [OF assms(2) _ assms(3,4,7,8)] assms(10)] by auto
  let ?w = "host F 0"
  have "same_ticket t1 t2"
  proof -
    obtain i t where i: "lookup F d n = Some i" "parse_ticket (content (inode F i)) = Inr t" "same_ticket t1 t"
      using 1(1) actsD(9,10) [OF assms(11,3,4)]
      by (fastforce simp: ticket_saved_def on_disk_def holds_file_def kept_def)
    moreover obtain j u where "lookup F d n = Some j" "parse_ticket (content (inode F j)) = Inr u" "same_ticket t2 u"
      using 2(1) actsD(9,10) [OF assms(12,3,4)]
      by (fastforce simp: ticket_saved_def on_disk_def holds_file_def kept_def)
    ultimately show ?thesis by (simp add: same_ticket_def)
  qed
  moreover have "ticket_ok t1" "ticket_ok t2" using 1(1) 2(1) by (simp_all add: ticket_saved_def)
  ultimately show ?thesis
    using 1 2 lease_token_same by (auto simp: same_ticket_def ticket_fields_def)
qed

theorem prepare_agreement_witness:
  "\<exists>t v u w. prepare_at 0 claim_name sample_uuid sample_uuid (host empty_root 7) = (Inr t, v) \<and>
     prepare_at 0 claim_name sample_uuid sample_uuid (host (fs v) 8) = (Inr u, w) \<and>
     same_ticket t u \<and> lease_token t = lease_token u"
proof -
  obtain t v where p: "prepare_at 0 claim_name sample_uuid sample_uuid (host empty_root 7) = (Inr t, v)"
    using host_prepare by blast
  have f: "fair (\<lambda>q. q \<noteq> pid (host empty_root 7)) (\<lambda>_. True) (host empty_root 7)"
    by (simp add: host_fair empty_root_ok)
  have v: "ticket_saved v 0 claim_name t" "evolves (\<lambda>q. q \<noteq> pid (host empty_root 7)) (\<lambda>_. True) (host empty_root 7) v"
    "field t ''worker'' = PStr sample_uuid" "field t ''run'' = PStr sample_uuid"
    using wpD [OF wp_prepare_at [OF f _ TrueI claim_name_published sample_uuid_ok sample_uuid_ok] p] by auto
  have fv: "fair (\<lambda>q. q \<noteq> pid (host (fs v) 8)) (\<lambda>_. True) (host (fs v) 8)"
    using evolvesD(1) [OF v(2) f] by (simp add: fair_def)
  have "ticket_saved (host (fs v) 8) 0 claim_name t"
    using v(1,2) by (rule_tac ticket_saved_acts [where S = "\<lambda>_. True"]) (auto simp: evolves_def)
  from host_prepare_again [OF this v(3,4)]
  obtain u w where q: "prepare_at 0 claim_name sample_uuid sample_uuid (host (fs v) 8) = (Inr u, w)" by blast
  have "acts (\<lambda>_. True) (\<lambda>_. True) (fs v) (fs w)"
    using wpD [OF wp_prepare_at [OF fv _ TrueI claim_name_published sample_uuid_ok sample_uuid_ok] q]
      fv by (auto simp: evolves_def intro: acts_mono)
  from prepare_agreement [OF f fv TrueI claim_name_published sample_uuid_ok sample_uuid_ok
      sample_uuid_ok sample_uuid_ok p q this acts_refl] p q show ?thesis by blast
qed

text \<open>
  C17. A claim outlives its controller.  When \<open>prepare\<close> has returned a ticket, then after any later
  activity of processes that keep the rules and a crash of the machine at any moment, the ticket file
  is still there and a restarted controller reads the same ticket from it.
\<close>

theorem prepare_survives_crash:
  assumes "fair (\<lambda>q. q \<noteq> pid w) S w" and "S d" and "published n"
    and "canonical_uuid_text wk" and "canonical_uuid_text rn"
    and "prepare_at d n wk rn w = (Inr t, w')"
    and "acts (\<lambda>_. True) S (fs w') F" and "crashed F (fs v)" and "uid v = uid w" and "script v = []"
  shows "\<exists>u. load_ticket d n v = (Inr u, v) \<and> same_ticket t u"
proof -
  have s: "ticket_saved w' d n t" and e: "evolves (\<lambda>q. q \<noteq> pid w) S w w'"
    using wpD [OF wp_prepare_at [OF assms(1) _ assms(2-5)] assms(6)] by auto
  have "uid w' = uid w" using e by (simp add: evolves_def)
  have "ticket_saved (w'\<lparr>fs := F\<rparr>) d n t" using s _ _ assms(2,3) by (rule ticket_saved_acts [where P = "\<lambda>_. True"]) (simp_all add: assms(7))
  then obtain enc u where en: "on_disk (w'\<lparr>fs := F\<rparr>) d n enc" "length enc \<le> MAX_TICKET_BYTES"
    "parse_ticket enc = Inr u" "same_ticket t u" by (auto simp: ticket_saved_def)
  obtain i where "holds_file v d n i" "content (inode (fs v) i) = enc"
    using on_disk_crashed [OF en(1), of v] assms(8,9) \<open>uid w' = uid w\<close> by auto
  with load_ticket_quiet [OF assms(10)] en show ?thesis by auto
qed

theorem prepare_survives_crash_witness:
  "\<exists>t w' u. prepare_at 0 claim_name sample_uuid sample_uuid (host empty_root 7) = (Inr t, w') \<and>
     load_ticket 0 claim_name (host (restart (fs w')) 8) = (Inr u, host (restart (fs w')) 8) \<and> same_ticket t u"
proof -
  obtain t w' where p: "prepare_at 0 claim_name sample_uuid sample_uuid (host empty_root 7) = (Inr t, w')"
    using host_prepare by blast
  have f: "fair (\<lambda>q. q \<noteq> pid (host empty_root 7)) (\<lambda>_. True) (host empty_root 7)"
    by (simp add: host_fair empty_root_ok)
  have "crashed (fs w') (fs (host (restart (fs w')) 8))" by (simp add: crashed_restart)
  from prepare_survives_crash [OF f TrueI claim_name_published sample_uuid_ok sample_uuid_ok p acts_refl this]
  show ?thesis using p by auto
qed

text \<open>
  C18. Exclusive ownership.  Two processes that are inside \<open>controller_lock\<close> of the same worker at the
  same moment are the same process: the lock file's name always leads to the inode that was locked,
  and a lock is not taken away.
\<close>

theorem controller_lock_exclusive:
  assumes "fair (\<lambda>q. q \<noteq> pid w1) S w1" and "fair (\<lambda>q. q \<noteq> pid w2) S w2"
    and "S d" and "canonical_uuid_text wk"
    and "lock_body d wk (gets fs) w1 = (Inr f1, w1')" and "lock_body d wk (gets fs) w2 = (Inr f2, w2')"
    and "acts (\<lambda>q. q \<noteq> pid w1) S f1 F" and "acts (\<lambda>q. q \<noteq> pid w2) S f2 F"
  shows "pid w1 = pid w2"
proof -
  note pub = uuid_lock_published [OF assms(4)]
  have "holds_lock f1 d (lock_name wk) (pid w1)"
    using lock_body_runs_body [OF assms(1,3) pub assms(5)] by (auto simp: evolves_def)
  then have 1: "holds_lock F d (lock_name wk) (pid w1)"
    using assms(7) _ assms(3) pub by (rule holds_lock_acts) simp
  have "holds_lock f2 d (lock_name wk) (pid w2)"
    using lock_body_runs_body [OF assms(2,3) pub assms(6)] by (auto simp: evolves_def)
  then have "holds_lock F d (lock_name wk) (pid w2)"
    using assms(8) _ assms(3) pub by (rule holds_lock_acts) simp
  with 1 show ?thesis by (auto simp: holds_lock_def)
qed

theorem controller_lock_exclusive_witness:
  "\<exists>f w'. lock_body 0 sample_uuid (gets fs) (host empty_root 7) = (Inr f, w') \<and>
     pid (host empty_root 7) = pid (host empty_root 7)"
proof -
  obtain f w' where p: "lock_body 0 sample_uuid (gets fs) (host empty_root 7) = (Inr f, w')"
    using host_lock by blast
  have "pid (host empty_root 7) = pid (host empty_root 7)"
    by (rule controller_lock_exclusive [where S = "\<lambda>_. True", OF _ _ TrueI sample_uuid_ok p p acts_refl acts_refl])
      (simp_all add: host_fair empty_root_ok)
  with p show ?thesis by blast
qed

end
