(* ===== verification/Py_Files.thy ===== *)
theory Py_Files
  imports Py_Rely
begin

text \<open>
  More calls on files: an atomic rename, temporary files with random names, a lock that is waited
  for, and the text a file holds.
\<close>

section \<open>Renaming and testing\<close>

text \<open>\<open>os.replace(src, dst)\<close> in one directory\<close>

definition rename_entry :: "nat \<Rightarrow> pystr \<Rightarrow> pystr \<Rightarrow> nat \<Rightarrow> fs \<Rightarrow> fs" where
  "rename_entry d src dst i f =
     (let f1 = (case lookup f d dst of
                  None \<Rightarrow> f
                | Some j \<Rightarrow> remove_entry d dst
                    (set_inode j ((inode f j)\<lparr>links := links (inode f j) - 1\<rparr>) f))
      in add_entry d dst i (remove_entry d src f1))"

definition sys_replace :: "nat \<Rightarrow> pystr \<Rightarrow> pystr \<Rightarrow> ('a posix_scheme, unit) prog" where
  "sys_replace d src dst =
     syscall (\<lambda>f. rbind (find_entry f d src) (\<lambda>i.
       case lookup f d dst of
         None \<Rightarrow> Inr ((), rename_entry d src dst i f)
       | Some j \<Rightarrow>
           if j = i then Inr ((), f)
           else if kind (inode f j) = Dir then Inl (OSError ''EISDIR'')
           else Inr ((), rename_entry d src dst i f)))"

text \<open>\<open>os.path.lexists\<close>: a name is there, whatever it leads to\<close>

definition sys_exists :: "nat \<Rightarrow> pystr \<Rightarrow> ('a posix_scheme, bool) prog" where
  "sys_exists d n = syscall (\<lambda>f. Inr (lookup f d n \<noteq> None, f))"

section \<open>Temporary files\<close>

text \<open>
  \<open>tempfile.mkstemp(prefix=..., dir=...)\<close>: eight random characters, and a new name while the name
  exists, at most \<open>TMP_MAX\<close> times.
\<close>

definition tmp_char :: "8 word \<Rightarrow> nat" where
  "tmp_char b =
     (let n = unat b mod 37 in if n < 26 then 97 + n else if n < 36 then 48 + (n - 26) else 95)"

fun mkstemp_tries :: "nat \<Rightarrow> nat \<Rightarrow> pystr \<Rightarrow> ('a posix_scheme, nat \<times> pystr) prog" where
  "mkstemp_tries 0 d prefix = raise FileExistsError"
| "mkstemp_tries (Suc n) d prefix =
     ebind (draw 8) (\<lambda>b.
     let name = prefix @ map tmp_char b in
     try_except (ebind (sys_create d name 384) (\<lambda>fd. ret (fd, name)))
       (\<lambda>e. if e = FileExistsError then mkstemp_tries n d prefix else raise e))"

definition TMP_MAX :: nat where "TMP_MAX = 10000"

definition mkstemp :: "nat \<Rightarrow> pystr \<Rightarrow> ('a posix_scheme, nat \<times> pystr) prog" where
  "mkstemp d prefix = mkstemp_tries TMP_MAX d prefix"

section \<open>Waiting for a lock\<close>

text \<open>
  \<open>fcntl.flock(fd, LOCK_EX)\<close>: the others run until the lock is free.  A wait that no step of theirs
  ends is the error \<open>EDEADLK\<close>: it stands for a call that does not return.
\<close>

lemma next_step_shorter: "script w \<noteq> [] \<Longrightarrow> length (script (snd (next_step w))) < length (script w)"
  by (cases "script w") (auto simp: next_step_def split: prod.splits)

function flock_wait :: "nat \<Rightarrow> 'a posix_scheme \<Rightarrow> (exn + unit) \<times> 'a posix_scheme" where
  "flock_wait i w =
     (case next_step w of (out, w1) \<Rightarrow>
        (case map_of (locks (fs w1)) i of
           None \<Rightarrow>
             (case out of
                Done \<Rightarrow> (Inr (), w1\<lparr>fs := (fs w1)\<lparr>locks := (i, pid w1) # locks (fs w1)\<rparr>\<rparr>)
              | Fails n \<Rightarrow> (Inl io_error, w1))
         | Some q \<Rightarrow> if script w = [] then (Inl (OSError ''EDEADLK''), w1) else flock_wait i w1))"
  by pat_completeness auto
termination
  by (relation "measure (\<lambda>(i, w). length (script w))") (simp, metis in_measure next_step_shorter prod.case snd_conv)

declare flock_wait.simps [simp del]

section \<open>Text files\<close>

text \<open>A file opened for text is UTF-8, and every line end reads as a line feed.\<close>

fun universal_newlines :: "pystr \<Rightarrow> pystr" where
  "universal_newlines [] = []"
| "universal_newlines [c] = [if c = 13 then 10 else c]"
| "universal_newlines (c # d # cs) =
     (if c = 13 \<and> d = 10 then 10 # universal_newlines cs
      else (if c = 13 then 10 else c) # universal_newlines (d # cs))"

definition text_of :: "bytes \<Rightarrow> exn + pystr" where
  "text_of b = (case utf8_decode b of None \<Rightarrow> Inl UnicodeError | Some s \<Rightarrow> Inr (universal_newlines s))"

definition sys_read_all :: "nat \<Rightarrow> ('a posix_scheme, bytes) prog" where
  "sys_read_all i =
     syscall (\<lambda>f. if has_inode f i \<and> kind (inode f i) = Reg then Inr (content (inode f i), f)
                  else Inl (OSError ''EISDIR''))"

text \<open>\<open>str.splitlines\<close>\<close>

definition is_line_end :: "nat \<Rightarrow> bool" where
  "is_line_end c \<longleftrightarrow> 10 \<le> c \<and> c \<le> 13 \<or> 28 \<le> c \<and> c \<le> 30 \<or> c = 133 \<or> c = 8232 \<or> c = 8233"

fun split_lines :: "pystr \<Rightarrow> pystr \<Rightarrow> pystr list" where
  "split_lines line [] = (if line = [] then [] else [rev line])"
| "split_lines line [c] = (if is_line_end c then [rev line] else [rev (c # line)])"
| "split_lines line (c # d # cs) =
     (if c = 13 \<and> d = 10 then rev line # split_lines [] cs
      else if is_line_end c then rev line # split_lines [] (d # cs)
      else split_lines (c # line) (d # cs))"

definition splitlines :: "pystr \<Rightarrow> pystr list" where
  "splitlines s = split_lines [] s"

section \<open>They keep the rules\<close>

lemma keeps_exists [simp]: "shared.keeps P S (sys_exists d n)"
  unfolding sys_exists_def by (rule shared.keepsI, erule evolves_syscall [rotated], force)

lemma keeps_read_all [simp]: "shared.keeps P S (sys_read_all i)"
  unfolding sys_read_all_def by (rule shared.keepsI, erule evolves_syscall [rotated], force split: if_splits)

lemma keeps_mkstemp_tries: "shared.keeps P S (mkstemp_tries k d p)"
proof (induction k)
  case 0
  then show ?case by (simp add: shared.keeps_def shared.R_refl)
next
  case (Suc k)
  show ?case
    unfolding mkstemp_tries.simps Let_def
    by (intro shared.keeps_intros Suc keeps_draw keeps_create shared.keeps_pure)
qed

lemma keeps_mkstemp [simp]: "shared.keeps P S (mkstemp d p)"
  by (simp add: mkstemp_def keeps_mkstemp_tries)

end
