(* ===== verification/Worker_Materialize.thy ===== *)
theory Worker_Materialize
  imports Worker_Inputs Py_Files
begin

text \<open>
  \<open>materialize\<close> of \<^verbatim>\<open>scripts/worker_inputs.py\<close>: the frozen files as a new private directory tree.  A
  \<open>Path\<close> is the inode of its directory and a name.  \<open>os.dup\<close> and \<open>os.close\<close> have no effect here, and
  \<open>shutil.rmtree\<close> is one call that takes the fresh tree off its parent.
\<close>

section \<open>Temporary directories\<close>

fun mkdtemp_tries :: "nat \<Rightarrow> nat \<Rightarrow> pystr \<Rightarrow> ('a posix_scheme, pystr) prog" where
  "mkdtemp_tries 0 d pre = raise FileExistsError"
| "mkdtemp_tries (Suc n) d pre =
     ebind (draw 8) (\<lambda>b.
     let name = pre @ map tmp_char b in
     try_except (ebind (sys_mkdir d name 448) (\<lambda>_. ret name))
       (\<lambda>e. if e = FileExistsError then mkdtemp_tries n d pre else raise e))"

definition mkdtemp :: "nat \<Rightarrow> pystr \<Rightarrow> ('a posix_scheme, pystr) prog" where
  "mkdtemp d pre = mkdtemp_tries TMP_MAX d pre"

definition sys_rmtree :: "nat \<Rightarrow> pystr \<Rightarrow> ('a posix_scheme, unit) prog" where
  "sys_rmtree d n = syscall (\<lambda>f. rbind (find_entry f d n) (\<lambda>_. Inr ((), remove_entry d n f)))"

section \<open>Writing the tree\<close>

text \<open>One directory of a path: made unless it is there, and never through a symbolic link.\<close>

definition enter_directory :: "pystr \<Rightarrow> nat \<Rightarrow> ('a posix_scheme, nat) prog" where
  "enter_directory part directory =
     ebind (try_except (sys_mkdir directory part 448) (\<lambda>e. if e = FileExistsError then ret () else raise e))
       (\<lambda>_. sys_opendir directory part)"

definition disk_mode :: "pyval \<Rightarrow> nat" where
  "disk_mode file = (case map_of MODES (int_of (field file ''mode'')) of None \<Rightarrow> 0 | Some m \<Rightarrow> m)"

definition write_input :: "nat \<Rightarrow> pystr \<times> pyval \<Rightarrow> unit \<Rightarrow> ('a posix_scheme, unit) prog" where
  "write_input root pf _ =
     (case pf of (path, file) \<Rightarrow>
        ebind (lift (path_parts (PStr path))) (\<lambda>parts.
        ebind (efor enter_directory (butlast parts) root) (\<lambda>directory.
        ebind (sys_create directory (last parts) 384) (\<lambda>fd.
        ebind (lift (file_bytes file)) (\<lambda>bytes.
        ebind (sys_write fd bytes) (\<lambda>_.
        ebind (sys_fchmod fd (disk_mode file)) (\<lambda>_.
        sys_fsync fd)))))))"

definition tree_prefix :: pystr where "tree_prefix = lit ''simmis-worker-''"

definition materialize :: "pyval \<Rightarrow> pyval \<Rightarrow> nat \<Rightarrow> ('a posix_scheme, pystr) prog" where
  "materialize frozen config parent =
     ebind (lift (validate frozen config)) (\<lambda>_.
     ebind (mkdtemp parent tree_prefix) (\<lambda>root.
     on_error
       (ebind (sys_opendir parent root) (\<lambda>root_fd.
        ebind (efor (write_input root_fd) (items (field frozen ''files'')) ()) (\<lambda>_. ret root)))
       (sys_rmtree parent root)))"

end
