(* ===== verification/Worker_Outputs.thy ===== *)
theory Worker_Outputs
  imports Worker_Inputs Py_Files
begin

text \<open>
  \<^verbatim>\<open>scripts/worker_outputs.py\<close>: what a finished task may return.  \<open>validate\<close> (here \<open>validate_output\<close>) is
  the data check alone; \<open>collect\<close> reads the changed selected files and the regular files under \<open>out/\<close>
  from the workspace, and passes its result through that check.
\<close>

section \<open>The data check\<close>

definition MAX_ENTRIES :: nat where "MAX_ENTRIES = 2048"
definition summary_limit :: nat where "summary_limit = 16000"

definition completion_fields :: "string list" where
  "completion_fields = [''files'', ''summary'', ''exit-code'']"

definition metadata_ok :: "pyval \<Rightarrow> pyval \<Rightarrow> bool" where
  "metadata_ok summary code \<longleftrightarrow>
     is_str summary \<and> length (str_of summary) \<le> summary_limit
     \<and> is_int code \<and> 0 \<le> int_of code \<and> int_of code \<le> 255"

definition metadata_error :: exn where
  "metadata_error = ValueError ''Invalid worker completion metadata''"

definition encodable :: "pystr \<Rightarrow> exn + unit" where
  "encodable s = (if utf8_encode s = None then Inl UnicodeError else Inr ())"

text \<open>The loop over the files threads the total and the paths that will exist afterwards.\<close>

definition out_prefix :: pystr where "out_prefix = lit ''out/''"

definition check_output_file ::
  "pydict \<Rightarrow> pystr \<times> pyval \<Rightarrow> int \<times> pystr list \<Rightarrow> exn + int \<times> pystr list" where
  "check_output_file inputs pf st =
     (case (pf, st) of ((path, file), (tot, written)) \<Rightarrow>
        rbind (path_parts (PStr path)) (\<lambda>_.
        if map_of inputs path = None \<and> \<not> (file \<noteq> PNone \<and> starts_with out_prefix path)
        then Inl (ValueError ''Output is outside selected inputs and out/ deliverables'')
        else
        rbind (if file = PNone then Inr (tot, filter (\<lambda>p. p \<noteq> path) written)
               else rbind (file_bytes file) (\<lambda>data.
                 Inr (tot + int (length data), if path \<in> set written then written else written @ [path])))
          (\<lambda>(tot', written').
        if max_total_bytes < tot' then Inl (ValueError ''Worker output exceeds total byte limit'')
        else Inr (tot', written'))))"

definition check_collision :: "pystr list \<Rightarrow> pystr \<Rightarrow> unit \<Rightarrow> exn + unit" where
  "check_collision written path _ =
     rbind (path_parts (PStr path)) (\<lambda>parts.
     if has_ancestor parts written
     then Inl (ValueError ''Worker output contains file/directory collisions'') else Inr ())"

definition validate_output :: "pyval \<Rightarrow> pyval \<Rightarrow> pyval \<Rightarrow> exn + pyval" where
  "validate_output frozen config output =
     rbind (validate frozen config) (\<lambda>_.
     rbind (closed output completion_fields) (\<lambda>_.
     let files = field output ''files''; inputs = items (field frozen ''files'') in
     if \<not> metadata_ok (field output ''summary'') (field output ''exit-code'')
        \<or> \<not> is_dict files \<or> max_files < int (length (items files))
     then Inl metadata_error
     else
     rbind (encodable (str_of (field output ''summary''))) (\<lambda>_.
     rbind (for_each (check_output_file inputs) (items files) (0, map fst inputs)) (\<lambda>(tot, written).
     rbind (for_each (check_collision written) written ()) (\<lambda>_.
     Inr output)))))"

section \<open>Reading the workspace\<close>

text \<open>The set-user-id and set-group-id bits are the two above the permission bits' sticky bit.\<close>

definition regular_output :: "stat_info \<Rightarrow> exn + unit" where
  "regular_output info =
     (if st_kind info \<noteq> Reg \<or> st_nlink info \<noteq> 1 \<or> st_mode info div 1024 mod 4 \<noteq> 0
         \<or> max_file_bytes < int (st_size info)
      then Inl (ValueError ''Worker output must be a bounded unlinked regular file'') else Inr ())"

definition executable :: "nat \<Rightarrow> bool" where
  "executable m \<longleftrightarrow> m mod 2 = 1 \<or> m div 8 mod 2 = 1 \<or> m div 64 mod 2 = 1"

definition output_file :: "bytes \<Rightarrow> nat \<Rightarrow> pyval" where
  "output_file data m =
     PDict [(lit ''base64'', PStr (b64encode data)), (lit ''bytes'', PInt (int (length data))),
            (lit ''sha256'', PStr (sha256_hex data)), (lit ''mode'', PInt (if executable m then 33261 else 33188))]"

definition read_file :: "nat \<Rightarrow> pystr \<Rightarrow> ('a posix_scheme, pyval) prog" where
  "read_file directory name =
     ebind (sys_stat directory name) (\<lambda>inspected.
     ebind (lift (regular_output inspected)) (\<lambda>_.
     ebind (sys_open directory name) (\<lambda>fd.
     ebind (sys_fstat fd) (\<lambda>before.
     ebind (lift (regular_output before)) (\<lambda>_.
     if st_ino inspected \<noteq> st_ino before
     then raise (ValueError ''Worker output was replaced during collection'')
     else
     ebind (sys_read fd (nat max_file_bytes + 1)) (\<lambda>data.
     ebind (sys_fstat fd) (\<lambda>after.
     if length data \<noteq> st_size before \<or> max_file_bytes < int (length data)
        \<or> (st_size before, st_time before) \<noteq> (st_size after, st_time after)
     then raise (ValueError ''Worker output changed during collection'')
     else ret (output_file data (st_mode before)))))))))"

text \<open>A selected file as it is now; None when it, or a directory on its path, is gone.\<close>

definition selected :: "nat \<Rightarrow> pystr \<Rightarrow> ('a posix_scheme, pyval) prog" where
  "selected root path =
     try_except
       (ebind (lift (path_parts (PStr path))) (\<lambda>parts.
        ebind (efor (\<lambda>name directory. sys_opendir directory name) (butlast parts) root) (\<lambda>directory.
        read_file directory (last parts))))
       (\<lambda>e. if e = FileNotFoundError then ret PNone else raise e)"

section \<open>Collecting\<close>

text \<open>The variables of \<open>collect\<close> that its inner functions assign.\<close>

record collected =
  found :: pydict
  total_bytes :: int
  seen :: nat

definition add_result :: "pystr \<Rightarrow> pyval \<Rightarrow> collected \<Rightarrow> exn + collected" where
  "add_result path file c =
     (if path \<in> fst ` set (found c) then Inr c
      else if max_files \<le> int (length (found c)) then Inl (ValueError ''Too many worker result files/deletions'')
      else
      let tot = total_bytes c + (if is_dict file then int_of (field file ''bytes'') else 0) in
      if max_total_bytes < tot then Inl (ValueError ''Worker output exceeds total byte limit'')
      else Inr (c\<lparr>total_bytes := tot, found := found c @ [(path, file)]\<rparr>))"

definition original :: "pydict \<Rightarrow> pystr \<Rightarrow> pyval" where
  "original inputs path = (case map_of inputs path of None \<Rightarrow> PNone | Some file \<Rightarrow> file)"

text \<open>One entry of a directory; \<open>visit\<close> is the traversal of a subdirectory.\<close>

definition visit_entry ::
  "(nat \<Rightarrow> pystr \<Rightarrow> collected \<Rightarrow> ('a posix_scheme, collected) prog) \<Rightarrow> pydict \<Rightarrow> nat \<Rightarrow> pystr \<Rightarrow> pystr
     \<Rightarrow> collected \<Rightarrow> ('a posix_scheme, collected) prog" where
  "visit_entry visit inputs directory pre name c0 =
     (let c = c0\<lparr>seen := seen c0 + 1\<rparr>; path = pre @ slash # name in
      if MAX_ENTRIES < seen c then raise (ValueError ''Worker output directory exceeds traversal limit'')
      else
      ebind (lift (path_parts (PStr path))) (\<lambda>_.
      ebind (sys_stat directory name) (\<lambda>info.
      if st_kind info = Dir then
        ebind (sys_opendir directory name) (\<lambda>child. visit child path c)
      else
        ebind (read_file directory name) (\<lambda>result.
        if py_eq result (original inputs path) then ret c else lift (add_result path result c)))))"

text \<open>
  Every directory that is entered counted one entry, so the depth is at most \<open>MAX_ENTRIES\<close>: with one
  more unit of fuel the traversal never runs out (\<open>visit_fuel\<close>).
\<close>

fun visit :: "nat \<Rightarrow> pydict \<Rightarrow> nat \<Rightarrow> pystr \<Rightarrow> collected \<Rightarrow> ('a posix_scheme, collected) prog" where
  "visit 0 inputs directory pre c = raise out_of_fuel"
| "visit (Suc n) inputs directory pre c =
     ebind (sys_scandir directory) (\<lambda>names.
     efor (visit_entry (visit n inputs) inputs directory pre) names c)"

definition visit_selected ::
  "nat \<Rightarrow> pystr \<times> pyval \<Rightarrow> collected \<Rightarrow> ('a posix_scheme, collected) prog" where
  "visit_selected root pf c =
     (case pf of (path, file) \<Rightarrow>
        ebind (selected root path) (\<lambda>current.
        if py_eq current file then ret c else lift (add_result path current c)))"

definition out_name :: pystr where "out_name = lit ''out''"

text \<open>The deliverable directory, or None: there is none, or the selected file of that name is there.\<close>

definition open_out :: "nat \<Rightarrow> pydict \<Rightarrow> ('a posix_scheme, nat option) prog" where
  "open_out root inputs =
     try_except (ebind (sys_opendir root out_name) (\<lambda>d. ret (Some d)))
       (\<lambda>e. if e = FileNotFoundError then ret None
            else if e = NotADirectoryError \<and> map_of inputs out_name \<noteq> None then ret None
            else raise e)"

definition completion :: "pydict \<Rightarrow> pyval \<Rightarrow> pyval \<Rightarrow> pyval" where
  "completion files summary code =
     PDict [(lit ''files'', PDict files), (lit ''summary'', summary), (lit ''exit-code'', code)]"

definition collect ::
  "nat \<Rightarrow> pystr \<Rightarrow> pyval \<Rightarrow> pyval \<Rightarrow> pyval \<Rightarrow> pyval \<Rightarrow> ('a posix_scheme, pyval) prog" where
  "collect parent root frozen config summary code =
     ebind (lift (validate frozen config)) (\<lambda>_.
     if \<not> metadata_ok summary code then raise metadata_error
     else
     ebind (lift (encodable (str_of summary))) (\<lambda>_.
     ebind (sys_opendir parent root) (\<lambda>root_fd.
     ebind (sys_fstat root_fd) (\<lambda>info.
     ebind (gets uid) (\<lambda>u.
     if st_uid info \<noteq> u \<or> st_mode info mod 64 \<noteq> 0
     then raise (ValueError ''Worker workspace must remain private and owned by you'')
     else
     let inputs = items (field frozen ''files'') in
     ebind (efor (visit_selected root_fd) inputs \<lparr>found = [], total_bytes = 0, seen = 0\<rparr>) (\<lambda>c.
     ebind (open_out root_fd inputs) (\<lambda>out.
     ebind (case out of None \<Rightarrow> ret c | Some d \<Rightarrow> visit (Suc MAX_ENTRIES) inputs d out_name c) (\<lambda>c.
     lift (validate_output frozen config (completion (found c) summary code))))))))))"

end
