(* ===== verification/Py_Url.thy ===== *)
theory Py_Url
  imports Py_Text
begin

text \<open>
  \<open>urllib.parse.urlsplit\<close> and \<open>urlunsplit\<close>, with the properties of a split result that the scripts
  read, and \<open>pathlib.PurePosixPath\<close>: its parts, its string, and whether it is absolute.
\<close>

section \<open>Searching and cutting strings\<close>

definition lit_char :: "char \<Rightarrow> nat" where
  "lit_char c = of_char c"

text \<open>\<open>s.partition(sep)\<close>: before, whether the separator was found, after; \<open>rpartition\<close> cuts at the last.\<close>

definition partition_at :: "nat \<Rightarrow> pystr \<Rightarrow> pystr \<times> bool \<times> pystr" where
  "partition_at c s =
     (let a = takeWhile (\<lambda>x. x \<noteq> c) s in
      if c \<in> set s then (a, True, drop (Suc (length a)) s) else (s, False, []))"

definition rpartition_at :: "nat \<Rightarrow> pystr \<Rightarrow> pystr \<times> bool \<times> pystr" where
  "rpartition_at c s =
     (case partition_at c (rev s) of (b, found, a) \<Rightarrow>
        if found then (rev a, True, rev b) else ([], False, s))"

lemma partition_at_found:
  "partition_at c s = (a, f, b) \<Longrightarrow> s = (if f then a @ c # b else a) \<and> c \<notin> set a"
proof -
  have "c \<in> set s \<Longrightarrow> s = takeWhile (\<lambda>x. x \<noteq> c) s @ c # drop (Suc (length (takeWhile (\<lambda>x. x \<noteq> c) s))) s"
    by (induction s) auto
  then show "partition_at c s = (a, f, b) \<Longrightarrow> ?thesis"
    by (auto simp: partition_at_def Let_def split: if_splits dest: set_takeWhileD)
qed

lemma partition_at_append: "c \<notin> set a \<Longrightarrow> partition_at c (a @ c # b) = (a, True, b)"
  by (induction a) (auto simp: partition_at_def Let_def)

lemma partition_at_absent: "c \<notin> set a \<Longrightarrow> partition_at c a = (a, False, [])"
  by (simp add: partition_at_def)

section \<open>Internet addresses\<close>

text \<open>
  \<open>ipaddress.ip_address\<close> on the text between brackets: it must be an IPv6 address, possibly with an
  IPv4 suffix and a scope.
\<close>

definition is_hex_any :: "nat \<Rightarrow> bool" where
  "is_hex_any c \<longleftrightarrow> is_digit c \<or> 97 \<le> c \<and> c \<le> 102 \<or> 65 \<le> c \<and> c \<le> 70"

definition octet_ok :: "pystr \<Rightarrow> bool" where
  "octet_ok s \<longleftrightarrow>
     s \<noteq> [] \<and> list_all is_digit s \<and> length s \<le> 3 \<and> (s = [48] \<or> hd s \<noteq> 48)
     \<and> (case digits_value 0 s of None \<Rightarrow> False | Some n \<Rightarrow> n \<le> 255)"

definition ipv4_ok :: "pystr \<Rightarrow> bool" where
  "ipv4_ok s \<longleftrightarrow> length (split 46 s) = 4 \<and> list_all octet_ok (split 46 s)"

definition hextet_ok :: "pystr \<Rightarrow> bool" where
  "hextet_ok s \<longleftrightarrow> s \<noteq> [] \<and> list_all is_hex_any s \<and> length s \<le> 4"

text \<open>The empty parts between the end points: more than one is refused.\<close>

definition skipped_parts :: "pystr list \<Rightarrow> nat list" where
  "skipped_parts parts = filter (\<lambda>i. parts ! i = []) [1..<length parts - 1]"

definition hextets_ok :: "pystr list \<Rightarrow> bool" where
  "hextets_ok parts \<longleftrightarrow>
     (case skipped_parts parts of
        [] \<Rightarrow> length parts = 8 \<and> list_all hextet_ok parts
      | [i] \<Rightarrow>
          (let hi = take i parts; lo = drop (Suc i) parts;
               hi' = (if hd parts = [] then tl hi else hi);
               lo' = (if last parts = [] then butlast lo else lo)
           in (hd parts = [] \<longrightarrow> hi' = []) \<and> (last parts = [] \<longrightarrow> lo' = [])
              \<and> length hi' + length lo' < 8 \<and> list_all hextet_ok hi' \<and> list_all hextet_ok lo')
      | _ \<Rightarrow> False)"

definition ipv6_parts :: "pystr \<Rightarrow> pystr list option" where
  "ipv6_parts s =
     (let parts = split 58 s in
      if s = [] \<or> length parts < 3 then None
      else if 46 \<in> set (last parts)
        then (if ipv4_ok (last parts) then Some (butlast parts @ [[48], [48]]) else None)
        else Some parts)"

definition ipv6_ok :: "pystr \<Rightarrow> bool" where
  "ipv6_ok text \<longleftrightarrow>
     (case partition_at 37 text of (s, scoped, zone) \<Rightarrow>
        47 \<notin> set text \<and> (scoped \<longrightarrow> zone \<noteq> [] \<and> 37 \<notin> set zone)
        \<and> (case ipv6_parts s of None \<Rightarrow> False | Some parts \<Rightarrow> length parts \<le> 9 \<and> hextets_ok parts))"

definition bracketed_host_ok :: "pystr \<Rightarrow> bool" where
  "bracketed_host_ok h \<longleftrightarrow>
     (if starts_with (lit ''v'') h then
        (let ds = takeWhile is_hex_any (tl h); r = dropWhile is_hex_any (tl h)
         in ds \<noteq> [] \<and> (case r of c # rest \<Rightarrow> c = 46 \<and> rest \<noteq> [] \<and> 10 \<notin> set rest | [] \<Rightarrow> False))
      else ipv6_ok h)"

section \<open>Splitting a URL\<close>

record url =
  scheme :: pystr
  netloc :: pystr
  url_path :: pystr
  query :: pystr
  fragment :: pystr

definition is_ascii_alpha :: "nat \<Rightarrow> bool" where
  "is_ascii_alpha c \<longleftrightarrow> 65 \<le> c \<and> c \<le> 90 \<or> 97 \<le> c \<and> c \<le> 122"

definition is_scheme_char :: "nat \<Rightarrow> bool" where
  "is_scheme_char c \<longleftrightarrow> is_ascii_alpha c \<or> is_digit c \<or> c = 43 \<or> c = 45 \<or> c = 46"

text \<open>
  \<open>str.lower\<close>, exact on the characters whose lower form has an ASCII character: the capitals, the
  dotted capital I and the Kelvin sign.  The scripts compare the result with ASCII names only.
\<close>

definition lower_char :: "nat \<Rightarrow> pystr" where
  "lower_char c =
     (if 65 \<le> c \<and> c \<le> 90 then [c + 32] else if c = 304 then [105, 775] else if c = 8490 then [107] else [c])"

definition lower :: "pystr \<Rightarrow> pystr" where
  "lower s = concat (map lower_char s)"

text \<open>
  The characters whose compatibility form contains one of \<open>/ ? # @ :\<close>; \<open>_checknetloc\<close> refuses them.
\<close>

definition unsafe_netloc_chars :: "nat list" where
  "unsafe_netloc_chars =
     [0x2047, 0x2048, 0x2049, 0x2100, 0x2101, 0x2105, 0x2106, 0x2A74, 0xFE13, 0xFE16, 0xFE55, 0xFE56,
      0xFE5F, 0xFE6B, 0xFF03, 0xFF0F, 0xFF1A, 0xFF1F, 0xFF20]"

definition netloc_ok :: "pystr \<Rightarrow> bool" where
  "netloc_ok n \<longleftrightarrow>
     (91 \<in> set n \<longleftrightarrow> 93 \<in> set n)
     \<and> (91 \<in> set n \<longrightarrow>
          (case partition_at 91 n of (_, _, r) \<Rightarrow> (case partition_at 93 r of (h, _, _) \<Rightarrow> bracketed_host_ok h)))
     \<and> list_all (\<lambda>c. c \<notin> set unsafe_netloc_chars) n"

definition split_scheme :: "pystr \<Rightarrow> pystr \<times> pystr" where
  "split_scheme u =
     (case partition_at 58 u of (a, found, r) \<Rightarrow>
        if found \<and> a \<noteq> [] \<and> is_ascii_alpha (hd a) \<and> list_all is_scheme_char a then (lower a, r) else ([], u))"

definition is_netloc_delim :: "nat \<Rightarrow> bool" where
  "is_netloc_delim c \<longleftrightarrow> c = 47 \<or> c = 63 \<or> c = 35"

definition split_netloc :: "pystr \<Rightarrow> pystr \<times> pystr" where
  "split_netloc u =
     (if starts_with (lit ''//'') u
      then (takeWhile (\<lambda>c. \<not> is_netloc_delim c) (drop 2 u), dropWhile (\<lambda>c. \<not> is_netloc_delim c) (drop 2 u))
      else ([], u))"

text \<open>Leading control characters and spaces are dropped, and tabs and line breaks everywhere.\<close>

definition clean_url :: "pystr \<Rightarrow> pystr" where
  "clean_url s = filter (\<lambda>c. c \<noteq> 9 \<and> c \<noteq> 13 \<and> c \<noteq> 10) (dropWhile (\<lambda>c. c \<le> 32) s)"

definition urlsplit :: "pystr \<Rightarrow> exn + url" where
  "urlsplit s =
     (case split_scheme (clean_url s) of (sch, u1) \<Rightarrow>
      case split_netloc u1 of (loc, u2) \<Rightarrow>
      case partition_at 35 u2 of (u3, _, frag) \<Rightarrow>
      case partition_at 63 u3 of (p, _, q) \<Rightarrow>
        if netloc_ok loc
        then Inr \<lparr>scheme = sch, netloc = loc, url_path = p, query = q, fragment = frag\<rparr>
        else Inl (ValueError ''Invalid URL''))"

definition uses_netloc :: "string list" where
  "uses_netloc =
     [''ftp'', ''http'', ''gopher'', ''nntp'', ''telnet'', ''imap'', ''wais'', ''file'', ''mms'', ''https'',
      ''shttp'', ''snews'', ''prospero'', ''rtsp'', ''rtspu'', ''rsync'', ''svn'', ''svn+ssh'', ''sftp'',
      ''nfs'', ''git'', ''git+ssh'', ''ws'', ''wss'', ''itms-services'']"

definition urlunsplit :: "url \<Rightarrow> pystr" where
  "urlunsplit u =
     (let p = url_path u;
          a = (if netloc u \<noteq> [] \<or> (scheme u \<noteq> [] \<and> list_ex (\<lambda>s. lit s = scheme u) uses_netloc)
                  \<or> starts_with (lit ''//'') p
               then lit ''//'' @ netloc u @ (if p \<noteq> [] \<and> hd p \<noteq> 47 then 47 # p else p)
               else p);
          b = (if scheme u \<noteq> [] then scheme u @ 58 # a else a);
          c = (if query u \<noteq> [] then b @ 63 # query u else b)
      in if fragment u \<noteq> [] then c @ 35 # fragment u else c)"

text \<open>\<open>urlunsplit((parsed.scheme, parsed.netloc, "", "", ""))\<close>\<close>

definition origin_part :: "url \<Rightarrow> url" where
  "origin_part u = \<lparr>scheme = scheme u, netloc = netloc u, url_path = [], query = [], fragment = []\<rparr>"

text \<open>The properties of a result; an absent name and an empty one are both false, so \<open>[]\<close> stands for both.\<close>

definition userinfo :: "url \<Rightarrow> pystr \<times> pystr" where
  "userinfo u =
     (case rpartition_at 64 (netloc u) of (info, found, _) \<Rightarrow>
        if found then (case partition_at 58 info of (name, has, pass) \<Rightarrow> (name, if has then pass else []))
        else ([], []))"

definition hostname :: "url \<Rightarrow> pystr" where
  "hostname u =
     (case rpartition_at 64 (netloc u) of (_, _, host) \<Rightarrow>
      case partition_at 91 host of (_, bracket, b) \<Rightarrow>
        let h = (if bracket then fst (partition_at 93 b) else fst (partition_at 58 host)) in
        (case partition_at 37 h of (name, zoned, zone) \<Rightarrow> lower name @ (if zoned then 37 # zone else [])))"

section \<open>Pure paths\<close>

text \<open>
  The root of a path is empty, one slash, or two when there are exactly two; the parts are what is
  between slashes without the empty and the dot ones.
\<close>

definition path_root :: "pystr \<Rightarrow> pystr" where
  "path_root s =
     (let n = length (takeWhile (\<lambda>c. c = 47) s) in if n = 0 then [] else if n = 2 then [47, 47] else [47])"

definition path_names :: "pystr \<Rightarrow> pystr list" where
  "path_names s = filter (\<lambda>p. p \<noteq> [] \<and> p \<noteq> lit ''.'') (split 47 s)"

definition pure_parts :: "pystr \<Rightarrow> pystr list" where
  "pure_parts s = (if path_root s = [] then path_names s else path_root s # path_names s)"

definition pure_str :: "pystr \<Rightarrow> pystr" where
  "pure_str s =
     (let t = path_root s @ join 47 (path_names s) in if t = [] then lit ''.'' else t)"

definition is_absolute :: "pystr \<Rightarrow> bool" where
  "is_absolute s \<longleftrightarrow> path_root s \<noteq> []"

text \<open>A path that is its own canonical form, absolute, and without \<open>..\<close>.\<close>

definition canonical_path :: "pystr \<Rightarrow> bool" where
  "canonical_path s \<longleftrightarrow> is_absolute s \<and> pure_str s = s \<and> lit ''..'' \<notin> set (pure_parts s)"

lemma is_absolute_iff: "is_absolute s \<longleftrightarrow> (\<exists>r. s = 47 # r)"
  by (cases s) (auto simp: is_absolute_def path_root_def Let_def)

lemma join_filter_names: "set (split 47 (join 47 (path_names s))) \<subseteq> set (path_names s) \<union> {[]}"
proof (cases "path_names s = []")
  case False
  then have "split 47 (join 47 (path_names s)) = path_names s"
    by (rule split_join) (auto simp: path_names_def dest: split_no_sep)
  then show ?thesis by auto
qed simp

end
