(* ===== verification/Py_Web.thy ===== *)
theory Py_Web
  imports Py_Json Py_Url Py_Posix
begin

text \<open>
  What the network clients share: the dict operations on values of unknown type, \<open>json.loads\<close> of
  bytes (which guesses the encoding), and \<open>urllib.request\<close> with the two handlers the scripts install:
  no proxy, and a refusal of every redirect.
\<close>

section \<open>Values of unknown type\<close>

text \<open>\<open>bool(v)\<close>; a float literal is zero when its mantissa is.\<close>

definition float_zero :: "pystr \<Rightarrow> bool" where
  "float_zero t \<longleftrightarrow>
     list_all (\<lambda>c. \<not> is_digit c \<or> c = 48) (takeWhile (\<lambda>c. c \<noteq> 101 \<and> c \<noteq> 69) t) \<and> list_ex is_digit t"

fun truthy :: "pyval \<Rightarrow> bool" where
  "truthy PNone = False"
| "truthy (PBool b) = b"
| "truthy (PInt i) = (i \<noteq> 0)"
| "truthy (PFloat t) = (\<not> float_zero t)"
| "truthy (PStr s) = (s \<noteq> [])"
| "truthy (PList xs) = (xs \<noteq> [])"
| "truthy (PDict d) = (d \<noteq> [])"

text \<open>\<open>v.get(key)\<close> and \<open>v.get(key, default)\<close>: only a dict has the method.\<close>

fun get_or :: "pyval \<Rightarrow> string \<Rightarrow> pyval \<Rightarrow> exn + pyval" where
  "get_or (PDict d) k x = Inr (case map_of d (lit k) of None \<Rightarrow> x | Some v \<Rightarrow> v)"
| "get_or v k x = Inl AttributeError"

definition get :: "pyval \<Rightarrow> string \<Rightarrow> exn + pyval" where
  "get v k = get_or v k PNone"

lemma get_PDict [simp]: "get (PDict d) k = Inr (field (PDict d) k)"
  by (simp add: get_def field_def)

text \<open>\<open>d[key] = v\<close> keeps the place of an existing key; \<open>dict(pairs)\<close> lets later pairs win.\<close>

fun dict_set :: "pydict \<Rightarrow> pystr \<Rightarrow> pyval \<Rightarrow> pydict" where
  "dict_set [] k v = [(k, v)]"
| "dict_set ((k', v') # d) k v = (if k' = k then (k, v) # d else (k', v') # dict_set d k v)"

definition dict_of :: "pydict \<Rightarrow> pydict" where
  "dict_of pairs = fold (\<lambda>(k, v) d. dict_set d k v) pairs []"

lemma map_of_dict_set [simp]: "map_of (dict_set d k v) = (map_of d)(k \<mapsto> v)"
  by (induction d) auto

lemma dict_set_keys: "set (map fst (dict_set d k v)) = insert k (set (map fst d))"
proof (induction d)
  case (Cons kv d)
  then show ?case by (cases kv) auto
qed simp

lemma distinct_dict_set: "distinct (map fst d) \<Longrightarrow> distinct (map fst (dict_set d k v))"
proof (induction d)
  case (Cons kv d)
  obtain k' v' where kv: "kv = (k', v')" by (cases kv)
  with Cons dict_set_keys [of d k v] show ?case by (auto simp del: set_map)
qed simp

lemma dict_of_append: "dict_of (ps @ [(k, v)]) = dict_set (dict_of ps) k v"
  by (simp add: dict_of_def)

lemma distinct_dict_of: "distinct (map fst (dict_of ps))"
  by (induction ps rule: rev_induct) (auto simp: dict_of_append distinct_dict_set, simp add: dict_of_def)

section \<open>JSON from bytes\<close>

definition default_hooks :: json_hooks where
  "default_hooks = \<lparr>pairs_hook = (\<lambda>d. Inr (dict_of d)), constant_hook = (\<lambda>c. Inr (PFloat c))\<rparr>"

fun units_16 :: "bool \<Rightarrow> bytes \<Rightarrow> nat list option" where
  "units_16 le [] = Some []"
| "units_16 le [a] = None"
| "units_16 le (a # b # r) =
     map_option (Cons (if le then unat b * 256 + unat a else unat a * 256 + unat b)) (units_16 le r)"

fun join_units :: "nat list \<Rightarrow> pystr" where
  "join_units [] = []"
| "join_units [u] = [u]"
| "join_units (u # v # r) =
     (if 55296 \<le> u \<and> u < 56320 \<and> 56320 \<le> v \<and> v < 57344
      then (65536 + (u - 55296) * 1024 + (v - 56320)) # join_units r
      else u # join_units (v # r))"

fun units_32 :: "bool \<Rightarrow> bytes \<Rightarrow> pystr option" where
  "units_32 le [] = Some []"
| "units_32 le (a # b # c # d # r) =
     (let n = (if le then ((unat d * 256 + unat c) * 256 + unat b) * 256 + unat a
               else ((unat a * 256 + unat b) * 256 + unat c) * 256 + unat d)
      in if n < 1114112 then map_option (Cons n) (units_32 le r) else None)"
| "units_32 le _ = None"

text \<open>UTF-8 with the \<open>surrogatepass\<close> handler: the three-byte form of a surrogate is accepted.\<close>

definition first_pass :: "bytes \<Rightarrow> (nat \<times> bytes) option" where
  "first_pass bs =
     (case utf8_first bs of
        Some x \<Rightarrow> Some x
      | None \<Rightarrow>
          (case bs of
             a # b # c # r \<Rightarrow>
               if a = 237 \<and> 160 \<le> unat b \<and> unat b < 192 \<and> cont c
               then Some (53248 + (unat b - 128) * 64 + (unat c - 128), r) else None
           | _ \<Rightarrow> None))"

lemma first_pass_shorter: "first_pass bs = Some (c, r) \<Longrightarrow> length r < length bs"
  by (auto simp: first_pass_def split: option.splits list.splits if_splits dest: utf8_first_shorter)

function decode_pass :: "bytes \<Rightarrow> pystr option" where
  "decode_pass bs =
     (if bs = [] then Some []
      else (case first_pass bs of None \<Rightarrow> None | Some (c, r) \<Rightarrow> map_option (Cons c) (decode_pass r)))"
  by pat_completeness auto
termination
  by (relation "measure length") (auto dest: first_pass_shorter)

declare decode_pass.simps [simp del]

datatype encoding = UTF8 | UTF8_SIG | UTF16 bool | UTF16_BOM | UTF32 bool | UTF32_BOM

text \<open>\<open>json.detect_encoding\<close>; the argument of a constructor says whether it is little-endian.\<close>

definition detect_encoding :: "bytes \<Rightarrow> encoding" where
  "detect_encoding b =
     (if take 4 b = [0, 0, 254, 255] \<or> take 4 b = [255, 254, 0, 0] then UTF32_BOM
      else if take 2 b = [254, 255] \<or> take 2 b = [255, 254] then UTF16_BOM
      else if take 3 b = [239, 187, 191] then UTF8_SIG
      else
        (case b of
           x # y # z # u # _ \<Rightarrow>
             if x = 0 then (if y \<noteq> 0 then UTF16 False else UTF32 False)
             else if y = 0 then (if z \<noteq> 0 \<or> u \<noteq> 0 then UTF16 True else UTF32 True)
             else UTF8
         | [x, y] \<Rightarrow> if x = 0 then UTF16 False else if y = 0 then UTF16 True else UTF8
         | _ \<Rightarrow> UTF8))"

definition decode_json_bytes :: "bytes \<Rightarrow> pystr option" where
  "decode_json_bytes b =
     (case detect_encoding b of
        UTF8 \<Rightarrow> decode_pass b
      | UTF8_SIG \<Rightarrow> decode_pass (drop 3 b)
      | UTF16 le \<Rightarrow> map_option join_units (units_16 le b)
      | UTF16_BOM \<Rightarrow> map_option join_units (units_16 (hd b = 255) (drop 2 b))
      | UTF32 le \<Rightarrow> units_32 le b
      | UTF32_BOM \<Rightarrow> units_32 (hd b = 255) (drop 4 b))"

text \<open>\<open>json.loads(data)\<close> and \<open>json.loads(text)\<close>; a text must not begin with a byte order mark.\<close>

definition loads_text :: "json_hooks \<Rightarrow> pystr \<Rightarrow> exn + pyval" where
  "loads_text h s = (if s \<noteq> [] \<and> hd s = 65279 then Inl json_error else json_loads h s)"

definition loads_bytes :: "bytes \<Rightarrow> exn + pyval" where
  "loads_bytes b =
     (case decode_json_bytes b of None \<Rightarrow> Inl UnicodeError | Some s \<Rightarrow> json_loads default_hooks s)"

text \<open>\<open>json.dumps(v).encode()\<close>: the text is ASCII.\<close>

definition dumps_bytes :: "json_format \<Rightarrow> pyval \<Rightarrow> bytes" where
  "dumps_bytes f v = map byte (render f v)"

section \<open>HTTP\<close>

record http_request =
  target :: pystr
  verb :: string
  header_list :: "(string \<times> pystr) list"
  payload :: "bytes option"

record http_reply =
  http_code :: nat
  location :: "pystr option"
  session_id :: "pystr option"
  answer :: bytes

text \<open>
  The opener: \<open>net\<close> is the transport (it may raise anything), a status outside 200-299 is an
  \<open>HTTPError\<close>, and a redirect with a usable location reaches \<open>NoRedirects.redirect_request\<close>.
\<close>

definition redirect_request :: exn where
  "redirect_request = ValueError ''Authentication redirects are refused''"

definition redirect_codes :: "nat list" where
  "redirect_codes = [301, 302, 303, 307, 308]"

definition http_status :: "http_reply \<Rightarrow> exn + http_reply" where
  "http_status r =
     (if 200 \<le> http_code r \<and> http_code r < 300 then Inr r
      else if http_code r \<in> set redirect_codes then
        (case location r of
           None \<Rightarrow> Inl (HTTPError (http_code r))
         | Some l \<Rightarrow>
             rbind (urlsplit l) (\<lambda>u.
             if list_ex (\<lambda>s. scheme u = lit s) [''http'', ''https'', ''ftp'', '''']
             then Inl redirect_request else Inl (HTTPError (http_code r))))
      else Inl (HTTPError (http_code r)))"

type_synonym 'w transport = "http_request \<Rightarrow> ('w, http_reply) prog"

definition open_url :: "'w transport \<Rightarrow> http_request \<Rightarrow> ('w, http_reply) prog" where
  "open_url net req = ebind (net req) (\<lambda>r. lift (http_status r))"

end
