(* ===== verification/Worker_Namespace.thy ===== *)
theory Worker_Namespace
  imports Worker_Materialize Worker_Outputs Py_Web
begin

text \<open>
  \<^verbatim>\<open>scripts/worker_namespace.py\<close>: the guard that is process 1 of a task's private PID namespace.  Its
  fixed command line, the framing of its one request, the checks of its own confinement, the killing
  and reaping of every task process, and the whole run \<open>inside\<close> with its two answers.
\<close>

section \<open>Policy and command line\<close>

definition work_bytes :: int where "work_bytes = 134217728"
definition runtime_bytes :: int where "runtime_bytes = 16777216"
definition shm_bytes :: int where "shm_bytes = 8388608"

definition namespace_policy :: pyval where
  "namespace_policy =
     PDict [(lit ''version'', PInt 1), (lit ''work-bytes'', PInt work_bytes),
            (lit ''runtime-bytes'', PInt runtime_bytes), (lit ''shm-bytes'', PInt shm_bytes),
            (lit ''network'', PBool False), (lit ''host-writable-mounts'', PBool False)]"

definition MAX_REQUEST_BYTES :: nat where "MAX_REQUEST_BYTES = 4456448"

text \<open>\<open>exists\<close> says which host folders there are; \<open>folder\<close> is the directory of the scripts.\<close>

definition namespace_argv :: "(string \<Rightarrow> bool) \<Rightarrow> pystr \<Rightarrow> pystr list" where
  "namespace_argv exists folder =
     map lit [''bwrap'', ''--unshare-all'', ''--as-pid-1'', ''--new-session'', ''--clearenv'']
     @ concat (map (\<lambda>f. if exists f then [lit ''--ro-bind'', lit f, lit f] else [])
                 [''/usr'', ''/bin'', ''/lib'', ''/lib64''])
     @ map lit [''--proc'', ''/proc'', ''--dev'', ''/dev'', ''--remount-ro'', ''/proc'',
                ''--remount-ro'', ''/dev'']
     @ [lit ''--perms'', lit ''0700'', lit ''--size'', dec_int work_bytes, lit ''--tmpfs'', lit ''/work'',
        lit ''--perms'', lit ''0700'', lit ''--size'', dec_int runtime_bytes, lit ''--tmpfs'', lit ''/runtime'',
        lit ''--perms'', lit ''1777'', lit ''--size'', dec_int shm_bytes, lit ''--tmpfs'', lit ''/dev/shm'',
        lit ''--symlink'', lit ''/runtime/tmp'', lit ''/tmp'',
        lit ''--ro-bind'', folder, lit ''/opt/simmis-worker'',
        lit ''--chdir'', lit ''/work'', lit ''--remount-ro'', lit ''/'', lit ''--'',
        lit ''/usr/bin/python3'', lit ''-I'', lit ''/opt/simmis-worker/worker_namespace.py'', lit ''--inside'']"

section \<open>The request\<close>

text \<open>\<open>stream.readline(limit)\<close>: through the first line feed, at most \<open>limit\<close> bytes, and the rest.\<close>

definition line_feed :: "8 word" where "line_feed = 10"

fun readline :: "nat \<Rightarrow> bytes \<Rightarrow> bytes \<times> bytes" where
  "readline 0 s = ([], s)"
| "readline (Suc n) [] = ([], [])"
| "readline (Suc n) (b # s) =
     (if b = line_feed then ([b], s) else (case readline n s of (line, r) \<Rightarrow> (b # line, r)))"

definition argument_ok :: "pyval \<Rightarrow> bool" where
  "argument_ok arg \<longleftrightarrow>
     is_str arg \<and> 1 \<le> length (str_of arg) \<and> length (str_of arg) \<le> 4096 \<and> 0 \<notin> set (str_of arg)"

definition command_ok :: "pyval \<Rightarrow> bool" where
  "command_ok command \<longleftrightarrow>
     is_list command \<and> 1 \<le> length (elements command) \<and> length (elements command) \<le> 64
     \<and> list_all argument_ok (elements command)
     \<and> starts_with (lit ''/'') (str_of (hd (elements command)))"

definition parse_request :: "bytes \<Rightarrow> exn + pyval" where
  "parse_request encoded =
     (if MAX_REQUEST_BYTES < length encoded \<or> encoded = [] \<or> last encoded \<noteq> line_feed
      then Inl (ValueError ''Invalid namespace request framing'')
      else
      rbind (strict_loads encoded) (\<lambda>req.
      rbind (closed req [''frozen'', ''config'', ''argv'']) (\<lambda>_.
      rbind (validate (field req ''frozen'') (field req ''config'')) (\<lambda>_.
      if \<not> command_ok (field req ''argv'')
      then Inl (ValueError ''Expected a bounded local adapter argv'')
      else
      rbind (for_each (\<lambda>arg _. encodable (str_of arg)) (elements (field req ''argv'')) ()) (\<lambda>_.
      Inr req)))))"

definition read_request :: "bytes \<Rightarrow> (exn + pyval) \<times> bytes" where
  "read_request stream =
     (case readline (MAX_REQUEST_BYTES + 1) stream of (encoded, rest) \<Rightarrow> (parse_request encoded, rest))"

section \<open>Confinement\<close>

text \<open>What \<open>protect_guard\<close> observes of the kernel.\<close>

record confinement =
  guard_pid :: nat
  set_dumpable :: int
  get_dumpable :: int
  status_text :: pystr
  volume_bytes :: "string \<Rightarrow> int"
  surface :: "string \<Rightarrow> bool"

text \<open>\<open>str.strip\<close>, and \<open>int(s, 16)\<close>: blanks around, a sign, the prefix \<open>0x\<close>, single underscores between digits.\<close>

definition strip :: "pystr \<Rightarrow> pystr" where
  "strip s = rev (dropWhile is_space (rev (dropWhile is_space s)))"

definition hex_any_value :: "nat \<Rightarrow> nat option" where
  "hex_any_value c = (if 65 \<le> c \<and> c \<le> 70 then Some (c - 55) else hex_value c)"

fun digits_16 :: "nat \<Rightarrow> pystr \<Rightarrow> nat option" where
  "digits_16 acc [] = None"
| "digits_16 acc [c] = map_option (\<lambda>v. acc * 16 + v) (hex_any_value c)"
| "digits_16 acc (c # d # s) =
     (case hex_any_value c of
        None \<Rightarrow> None
      | Some v \<Rightarrow> if d = 95 then digits_16 (acc * 16 + v) s else digits_16 (acc * 16 + v) (d # s))"

definition int_16 :: "pystr \<Rightarrow> exn + int" where
  "int_16 t =
     (let s = strip t;
          (sgn, u) = (if s \<noteq> [] \<and> (hd s = 45 \<or> hd s = 43) then (if hd s = 45 then -1 else 1, tl s) else (1, s));
          v = (if starts_with (lit ''0x'') u \<or> starts_with (lit ''0X'') u
               then (if length u > 3 \<and> u ! 2 = 95 then drop 3 u else drop 2 u) else u)
      in case digits_16 0 v of
           None \<Rightarrow> Inl (ValueError ''invalid literal for int() with base 16'')
         | Some n \<Rightarrow> Inr (sgn * int n))"

text \<open>\<open>dict(line.split(":", 1) for line in text.splitlines() if ":" in line)\<close>: later lines win.\<close>

definition status_fields :: "pystr \<Rightarrow> (pystr \<times> pystr) list" where
  "status_fields text =
     rev (map (\<lambda>line. case partition_at 58 line of (k, _, v) \<Rightarrow> (k, v)) (filter (\<lambda>l. 58 \<in> set l) (splitlines text)))"

definition status_field :: "(pystr \<times> pystr) list \<Rightarrow> string \<Rightarrow> exn + pystr" where
  "status_field known k = (case map_of known (lit k) of None \<Rightarrow> Inl KeyError | Some v \<Rightarrow> Inr v)"

definition capability_fields :: "string list" where
  "capability_fields = [''CapEff'', ''CapPrm'', ''CapInh'', ''CapBnd'', ''CapAmb'']"

text \<open>\<open>any(...)\<close> stops at the first capability that is not zero, after the first test failed.\<close>

fun any_capability :: "(pystr \<times> pystr) list \<Rightarrow> string list \<Rightarrow> exn + bool" where
  "any_capability known [] = Inr False"
| "any_capability known (k # ks) =
     rbind (rbind (status_field known k) int_16) (\<lambda>n. if n \<noteq> 0 then Inr True else any_capability known ks)"

definition scratch_volumes :: "(string \<times> int) list" where
  "scratch_volumes = [(''/work'', work_bytes), (''/runtime'', runtime_bytes), (''/dev/shm'', shm_bytes)]"

definition host_surfaces :: "string list" where
  "host_surfaces = [''/run/user'', ''/sys/fs/cgroup'', ''/home'']"

definition protect_guard :: "confinement \<Rightarrow> exn + unit" where
  "protect_guard k =
     (if guard_pid k \<noteq> 1
      then Inl (ValueError ''The execution guard must own its private PID namespace'')
      else if set_dumpable k \<noteq> 0 \<or> get_dumpable k \<noteq> 0
      then Inl (OSError ''Cannot protect the execution guard'')
      else
      let known = status_fields (status_text k) in
      rbind (status_field known ''NoNewPrivs'') (\<lambda>nnp.
      rbind (if strip nnp \<noteq> lit ''1'' then Inr True else any_capability known capability_fields) (\<lambda>bad.
      if bad then Inl (ValueError ''Namespace privileges were not dropped'')
      else if list_ex (\<lambda>(folder, limit). volume_bytes k folder \<noteq> limit) scratch_volumes
      then Inl (ValueError ''Namespace scratch bound differs from the local policy'')
      else if list_ex (surface k) host_surfaces
      then Inl (ValueError ''Unexpected host control surface in task namespace'')
      else Inr ())))"

section \<open>The task processes\<close>

text \<open>
  The processes of the namespace besides the guard (process 1), in the order they were made.  A process
  that ends stays as a zombie until its parent waits for it, and its children become children of the
  guard; \<open>kill(-1, SIGKILL)\<close> ends every process at once.
\<close>

record process =
  proc_id :: nat
  parent :: nat
  alive :: bool

datatype task_step = Fork nat nat | Exit nat

definition is_alive :: "process list \<Rightarrow> nat \<Rightarrow> bool" where
  "is_alive t p \<longleftrightarrow> list_ex (\<lambda>x. proc_id x = p \<and> alive x) t"

definition exit_process :: "nat \<Rightarrow> process list \<Rightarrow> process list" where
  "exit_process p t =
     map (\<lambda>x. x\<lparr>alive := alive x \<and> proc_id x \<noteq> p, parent := if parent x = p then 1 else parent x\<rparr>) t"

fun do_step :: "task_step \<Rightarrow> process list \<Rightarrow> process list" where
  "do_step (Fork p q) t =
     (if is_alive t p \<and> q \<noteq> 1 \<and> q \<notin> proc_id ` set t
      then t @ [\<lparr>proc_id = q, parent = p, alive = True\<rparr>] else t)"
| "do_step (Exit p) t = (if is_alive t p then exit_process p t else t)"

text \<open>
  Before every call the tasks do some steps, and the call may be interrupted by a signal.  An empty
  schedule is a namespace in which nothing more happens.
\<close>

record tasks =
  table :: "process list"
  schedule :: "(task_step list \<times> bool) list"

definition tasks_run :: "tasks \<Rightarrow> bool \<times> tasks" where
  "tasks_run s =
     (case schedule s of
        [] \<Rightarrow> (False, s)
      | (steps, interrupted) # rest \<Rightarrow>
          (interrupted, s\<lparr>table := fold do_step steps (table s), schedule := rest\<rparr>))"

text \<open>\<open>_kill_namespace_tasks\<close>: no process to kill is not an error.\<close>

definition end_process :: "process \<Rightarrow> process" where
  "end_process x = x\<lparr>alive := False, parent := 1\<rparr>"

definition kill_namespace_tasks :: "tasks \<Rightarrow> tasks" where
  "kill_namespace_tasks s =
     (case tasks_run s of (_, s1) \<Rightarrow> s1\<lparr>table := map end_process (table s1)\<rparr>)"

text \<open>
  \<open>os.waitpid(-1, 0)\<close>: a zombie child is removed; with no child at all the call fails; otherwise it
  waits, and a wait that nothing ends is \<open>EDEADLK\<close>, which stands for a call that does not return.
\<close>

definition zombie_of_guard :: "process \<Rightarrow> bool" where
  "zombie_of_guard x \<longleftrightarrow> parent x = 1 \<and> \<not> alive x"

definition blocked :: exn where "blocked = OSError ''EDEADLK''"

lemma tasks_run_shorter:
  "tasks_run s = (b, s1) \<Longrightarrow> schedule s \<noteq> [] \<Longrightarrow> length (schedule s1) < length (schedule s)"
  by (auto simp: tasks_run_def split: list.splits prod.splits)

function waitpid :: "(process \<Rightarrow> bool) \<Rightarrow> tasks \<Rightarrow> (exn + nat) \<times> tasks" where
  "waitpid which s =
     (case tasks_run s of (interrupted, s1) \<Rightarrow>
        (case filter (\<lambda>x. which x \<and> zombie_of_guard x) (table s1) of
           x # _ \<Rightarrow>
             if interrupted then (Inl InterruptedError, s1)
             else (Inr (proc_id x), s1\<lparr>table := remove1 x (table s1)\<rparr>)
         | [] \<Rightarrow>
             if \<not> list_ex (\<lambda>x. which x \<and> parent x = 1) (table s1) then (Inl ChildProcessError, s1)
             else if interrupted then (Inl InterruptedError, s1)
             else if schedule s = [] then (Inl blocked, s1)
             else waitpid which s1))"
  by pat_completeness auto
termination
  by (relation "measure (\<lambda>(which, s). length (schedule s))")
    (simp, simp, metis tasks_run_shorter)

declare waitpid.simps [simp del]

lemma waitpid_schedule: "waitpid which s = (r, s1) \<Longrightarrow> length (schedule s1) \<le> length (schedule s)"
proof (induction which s rule: waitpid.induct)
  case (1 which s)
  obtain b s0 where run: "tasks_run s = (b, s0)" by (cases "tasks_run s")
  have le: "length (schedule s0) \<le> length (schedule s)"
    using run by (auto simp: tasks_run_def split: list.splits prod.splits)
  show ?case
    using 1(2) run le 1(1) [OF run [symmetric]]
    by (subst (asm) waitpid.simps) (auto split: list.splits if_splits)
qed

lemma waitpid_interrupted:
  "waitpid which s = (Inl InterruptedError, s1) \<Longrightarrow> length (schedule s1) < length (schedule s)"
proof (induction which s rule: waitpid.induct)
  case (1 which s)
  obtain b s0 where run: "tasks_run s = (b, s0)" by (cases "tasks_run s")
  have lt: "b \<Longrightarrow> length (schedule s0) < length (schedule s)" "length (schedule s0) \<le> length (schedule s)"
    using run by (auto simp: tasks_run_def split: list.splits prod.splits)
  show ?case
    using 1(2) run lt 1(1) [OF run [symmetric]]
    by (subst (asm) waitpid.simps) (auto simp: blocked_def split: list.splits if_splits)
qed

lemma length_remove1_le: "length (remove1 x t) \<le> length t"
  by (simp add: length_remove1)

lemma waitpid_reaped:
  "waitpid which s = (Inr p, s1) \<Longrightarrow>
     length (schedule s1) < length (schedule s) \<or>
     length (schedule s1) = length (schedule s) \<and> length (table s1) < length (table s)"
proof (induction which s rule: waitpid.induct)
  case (1 which s)
  obtain b s0 where run: "tasks_run s = (b, s0)" by (cases "tasks_run s")
  have le: "schedule s = [] \<and> s0 = s \<or> length (schedule s0) < length (schedule s)"
    using run by (auto simp: tasks_run_def split: list.splits prod.splits)
  show ?case
  proof (cases "filter (\<lambda>x. which x \<and> zombie_of_guard x) (table s0)")
    case Nil
    with 1(2) run 1(1) [OF run [symmetric]] le show ?thesis
      by (subst (asm) waitpid.simps) (auto split: if_splits)
  next
    case (Cons x xs)
    then have "x \<in> set (table s0)" by (metis filter_is_subset list.set_intros(1) subsetD)
    moreover from this have "0 < length (table s0)" by (rule length_pos_if_in_set)
    ultimately have "length (remove1 x (table s0)) < length (table s0)" by (simp add: length_remove1)
    with 1(2) run le Cons show ?thesis
      by (subst (asm) waitpid.simps) (auto split: if_splits)
  qed
qed

lemma kill_schedule:
  "length (schedule (kill_namespace_tasks s)) < length (schedule s) \<or>
   schedule (kill_namespace_tasks s) = schedule s \<and> length (table (kill_namespace_tasks s)) = length (table s)"
  by (auto simp: kill_namespace_tasks_def tasks_run_def split: list.splits prod.splits)

text \<open>\<open>child.wait()\<close>: a signal does not end the wait, and a child that is gone is not waited for.\<close>

function wait_child :: "nat \<Rightarrow> tasks \<Rightarrow> (exn + unit) \<times> tasks" where
  "wait_child child s =
     (case waitpid (\<lambda>x. proc_id x = child) s of
        (Inr _, s1) \<Rightarrow> (Inr (), s1)
      | (Inl e, s1) \<Rightarrow>
          if e = InterruptedError \<and> length (schedule s1) < length (schedule s) then wait_child child s1
          else if e = ChildProcessError then (Inr (), s1) else (Inl e, s1))"
  by pat_completeness auto
termination
  by (relation "measure (\<lambda>(child, s). length (schedule s))") auto

declare wait_child.simps [simp del]

text \<open>\<open>reap_tasks\<close>: only a real \<open>ECHILD\<close> ends the loop.\<close>

function reap_loop :: "nat \<Rightarrow> tasks \<Rightarrow> (exn + nat) \<times> tasks" where
  "reap_loop reaped s =
     (case waitpid (\<lambda>_. True) s of
        (Inr _, s1) \<Rightarrow> reap_loop (reaped + 1) (kill_namespace_tasks s1)
      | (Inl e, s1) \<Rightarrow>
          if e = InterruptedError then reap_loop reaped s1
          else if e = ChildProcessError then (Inr reaped, s1)
          else (Inl e, s1))"
  by pat_completeness auto
termination
proof (relation "measures [\<lambda>(n, s). length (schedule s), \<lambda>(n, s). length (table s)]", goal_cases)
  case (2 reaped s r s1 e)
  then have "waitpid (\<lambda>_. True) s = (Inl InterruptedError, s1)" by simp
  from waitpid_interrupted [OF this] show ?case by auto
next
  case (3 reaped s r s1 p)
  then have "waitpid (\<lambda>_. True) s = (Inr p, s1)" by simp
  from waitpid_reaped [OF this] kill_schedule [of s1] show ?case by auto
qed simp

declare reap_loop.simps [simp del]

definition reap_tasks :: "nat \<Rightarrow> tasks \<Rightarrow> (exn + nat) \<times> tasks" where
  "reap_tasks child s =
     (case wait_child child (kill_namespace_tasks s) of
        (Inl e, s1) \<Rightarrow> (Inl e, s1)
      | (Inr _, s1) \<Rightarrow> reap_loop 0 s1)"

section \<open>Every task is reaped\<close>

text \<open>After the first kill every process is a zombie child of the guard, and none can start another.\<close>

definition ended :: "process list \<Rightarrow> bool" where
  "ended t \<longleftrightarrow> list_all zombie_of_guard t"

lemma ended_not_alive: "ended t \<Longrightarrow> \<not> is_alive t p"
  by (auto simp: ended_def is_alive_def zombie_of_guard_def list_all_iff list_ex_iff)

lemma ended_steps: "ended t \<Longrightarrow> fold do_step steps t = t"
proof (induction steps)
  case (Cons x steps)
  then show ?case by (cases x) (simp_all add: ended_not_alive)
qed simp

lemma ended_run: "ended (table s) \<Longrightarrow> tasks_run s = (b, s1) \<Longrightarrow> table s1 = table s"
  by (auto simp: tasks_run_def ended_steps split: list.splits prod.splits)

lemma ended_kill: "ended (table (kill_namespace_tasks s))"
  by (auto simp: kill_namespace_tasks_def ended_def end_process_def zombie_of_guard_def list_all_iff split: prod.splits)

lemma kill_ended: "ended (table s) \<Longrightarrow> table (kill_namespace_tasks s) = table s"
proof -
  assume e: "ended (table s)"
  obtain b s1 where run: "tasks_run s = (b, s1)" by (cases "tasks_run s")
  have "map end_process (table s) = map (\<lambda>x. x) (table s)"
    using e by (intro map_cong) (auto simp: ended_def list_all_iff zombie_of_guard_def end_process_def)
  then show ?thesis using ended_run [OF e run] by (simp add: kill_namespace_tasks_def run)
qed

lemma ended_remove: "ended t \<Longrightarrow> ended (remove1 x t)"
  using set_remove1_subset [of x t] by (auto simp: ended_def list_all_iff)

lemma waitpid_ended:
  assumes "ended (table s)"
  shows "case waitpid which s of
      (Inr p, s1) \<Rightarrow> \<exists>x. x \<in> set (table s) \<and> which x \<and> p = proc_id x \<and> table s1 = remove1 x (table s)
    | (Inl e, s1) \<Rightarrow> table s1 = table s \<and>
        (e = InterruptedError \<or> e = ChildProcessError \<and> \<not> list_ex which (table s))"
proof -
  obtain b s1 where run: "tasks_run s = (b, s1)" by (cases "tasks_run s")
  note t = ended_run [OF assms run]
  have f: "filter (\<lambda>x. which x \<and> zombie_of_guard x) (table s) = filter which (table s)"
    using assms by (intro filter_cong) (auto simp: ended_def list_all_iff)
  show ?thesis
  proof (cases "filter which (table s)")
    case Nil
    then show ?thesis
      using run t f assms
      by (subst waitpid.simps) (auto simp: filter_empty_conv list_ex_iff ended_def)
  next
    case (Cons x xs)
    then have "x \<in> set (filter which (table s))" by simp
    then have "x \<in> set (table s)" "which x" by simp_all
    then show ?thesis using run t f Cons by (subst waitpid.simps) (auto intro!: exI [of _ x])
  qed
qed

lemma wait_child_ended:
  "ended (table s) \<Longrightarrow>
     fst (wait_child child s) = Inr () \<and> ended (table (snd (wait_child child s)))
     \<and> length (table s) = length (table (snd (wait_child child s)))
         + (if list_ex (\<lambda>x. proc_id x = child) (table s) then 1 else 0)"
proof (induction child s rule: wait_child.induct)
  case (1 child s)
  obtain r s1 where w: "waitpid (\<lambda>x. proc_id x = child) s = (r, s1)" by (cases "waitpid (\<lambda>x. proc_id x = child) s")
  note e = waitpid_ended [OF 1(2), of "\<lambda>x. proc_id x = child", unfolded w]
  show ?case
  proof (cases r)
    case (Inl ex)
    show ?thesis
    proof (cases "ex = InterruptedError")
      case True
      with w Inl have "length (schedule s1) < length (schedule s)" by (auto intro: waitpid_interrupted)
      with 1(1) [OF w [symmetric] Inl] True e Inl 1(2) w show ?thesis
        by (subst (1 2 3) wait_child.simps) auto
    next
      case False
      with w Inl e 1(2) show ?thesis by (subst (1 2 3) wait_child.simps) auto
    qed
  next
    case (Inr p)
    with e obtain x where x: "x \<in> set (table s)" "proc_id x = child" "table s1 = remove1 x (table s)" by auto
    then have "0 < length (table s)" by (auto dest: length_pos_if_in_set)
    with x have "length (table s) = Suc (length (table s1))" by (simp add: length_remove1)
    moreover have "list_ex (\<lambda>x. proc_id x = child) (table s)" using x by (auto simp: list_ex_iff)
    moreover have "ended (table s1)" using x(3) 1(2) by (simp add: ended_remove)
    ultimately show ?thesis using w Inr by (subst (1 2 3) wait_child.simps) auto
  qed
qed

lemma reap_loop_ended:
  "ended (table s) \<Longrightarrow>
     fst (reap_loop n s) = Inr (n + length (table s)) \<and> table (snd (reap_loop n s)) = []"
proof (induction n s rule: reap_loop.induct)
  case (1 n s)
  obtain r s1 where w: "waitpid (\<lambda>_. True) s = (r, s1)" by (cases "waitpid (\<lambda>_. True) s")
  note e = waitpid_ended [OF 1(3), of "\<lambda>_. True", unfolded w]
  show ?case
  proof (cases r)
    case (Inl ex)
    show ?thesis
    proof (cases "ex = InterruptedError")
      case True
      with 1(1) [OF w [symmetric] Inl True] w Inl e 1(3) show ?thesis
        by (subst (1 2) reap_loop.simps) auto
    next
      case False
      with e Inl have "ex = ChildProcessError" "table s1 = table s" "table s = []"
        by (auto simp: list_ex_iff)
      with w Inl show ?thesis by (subst (1 2) reap_loop.simps) auto
    qed
  next
    case (Inr p)
    with e obtain x where x: "x \<in> set (table s)" "table s1 = remove1 x (table s)" by auto
    then have "0 < length (table s)" by (auto dest: length_pos_if_in_set)
    with x have l: "length (table s) = Suc (length (table s1))" by (simp add: length_remove1)
    have e1: "ended (table s1)" using x(2) 1(3) by (simp add: ended_remove)
    from 1(2) [OF w [symmetric] Inr] kill_ended [OF e1] e1 l w Inr show ?thesis
      by (subst (1 2) reap_loop.simps) auto
  qed
qed

section \<open>The run\<close>

text \<open>
  \<open>bytes.decode("utf-8", errors="replace")\<close>: every maximal ill-formed part becomes U+FFFD.  The second
  byte of a longer form has a range of its own after some first bytes.
\<close>

definition second_ok :: "nat \<Rightarrow> nat \<Rightarrow> bool" where
  "second_ok a b \<longleftrightarrow>
     (if a = 224 then 160 \<le> b \<and> b < 192
      else if a = 237 then 128 \<le> b \<and> b < 160
      else if a = 240 then 144 \<le> b \<and> b < 192
      else if a = 244 then 128 \<le> b \<and> b < 144
      else 128 \<le> b \<and> b < 192)"

definition ill_formed_length :: "bytes \<Rightarrow> nat" where
  "ill_formed_length bs =
     (case bs of
        a # b # r \<Rightarrow>
          if 224 \<le> unat a \<and> unat a \<le> 244 \<and> second_ok (unat a) (unat b)
          then (case r of c # _ \<Rightarrow> if 240 \<le> unat a \<and> cont c then 3 else 2 | [] \<Rightarrow> 2)
          else 1
      | _ \<Rightarrow> 1)"

lemma ill_formed_length_pos: "0 < ill_formed_length bs"
  by (auto simp: ill_formed_length_def split: list.splits)

function decode_replace :: "bytes \<Rightarrow> pystr" where
  "decode_replace bs =
     (if bs = [] then []
      else (case utf8_first bs of
              Some (c, r) \<Rightarrow> c # decode_replace r
            | None \<Rightarrow> 65533 # decode_replace (drop (ill_formed_length bs) bs)))"
  by pat_completeness auto
termination
  by (relation "measure length") (auto dest: utf8_first_shorter simp: ill_formed_length_pos)

declare decode_replace.simps [simp del]

text \<open>
  The world of the guard: its two pipes and its processes.  \<open>work\<close> and \<open>runtime\<close> are the inodes of
  \<open>/work\<close> and \<open>/runtime\<close>.
\<close>

record guard = posix +
  input_pipe :: bytes
  output_pipe :: "bytes list"
  task_state :: tasks
  work :: nat
  runtime :: nat
  kernel :: confinement

text \<open>
  What the kernel does with the task is an argument: \<open>start\<close> is \<open>subprocess.Popen\<close> (the child's process
  number), and \<open>await\<close> is \<open>child.wait(timeout)\<close>, which may raise \<open>TimeoutExpired\<close>, or \<open>Cancelled\<close> when a
  signal arrives.  Both may change every file the task can reach, and the processes.
\<close>

record task_runner =
  start :: "pystr list \<Rightarrow> (guard, nat) prog"
  await :: "nat \<Rightarrow> int \<Rightarrow> (guard, int) prog"

definition receive_request :: "(guard, pyval) prog" where
  "receive_request w =
     (case read_request (input_pipe w) of (r, rest) \<Rightarrow> (r, w\<lparr>input_pipe := rest\<rparr>))"

definition receive_line :: "nat \<Rightarrow> (guard, bytes) prog" where
  "receive_line n w =
     (case readline n (input_pipe w) of (line, rest) \<Rightarrow> (Inr line, w\<lparr>input_pipe := rest\<rparr>))"

definition emit :: "pyval \<Rightarrow> (guard, unit) prog" where
  "emit value =
     (let encoded = dumps_bytes fmt_compact value @ [line_feed] in
      if MAX_REQUEST_BYTES < length encoded
      then raise (ValueError ''Namespace response exceeds its bound'')
      else modify (\<lambda>w. w\<lparr>output_pipe := output_pipe w @ [encoded]\<rparr>))"

definition reap :: "nat \<Rightarrow> (guard, nat) prog" where
  "reap child w = (case reap_tasks child (task_state w) of (r, s) \<Rightarrow> (r, w\<lparr>task_state := s\<rparr>))"

definition exit_status :: "int \<Rightarrow> int" where
  "exit_status code = min 255 (if 0 \<le> code then code else 128 - code)"

definition attempt :: "('w, 'a) prog \<Rightarrow> ('w, exn + 'a) prog" where
  "attempt m w = (case m w of (r, w') \<Rightarrow> (Inr r, w'))"

text \<open>The task from its start to the last \<open>ECHILD\<close>, on every path: the exit code and the number reaped.\<close>

definition run_task :: "task_runner \<Rightarrow> pystr list \<Rightarrow> int \<Rightarrow> (guard, int \<times> nat) prog" where
  "run_task kern command limit =
     ebind (start kern command) (\<lambda>child.
     ebind
       (attempt
          (try_except (ebind (await kern child limit) (\<lambda>code. ret (exit_status code)))
             (\<lambda>e. if e = TimeoutExpired then ret 124 else raise e)))
       (\<lambda>outcome.
     ebind (reap child) (\<lambda>reaped.
     lift (rbind outcome (\<lambda>code. Inr (code, reaped))))))"

definition ready_message :: "pyval \<Rightarrow> pyval" where
  "ready_message frozen =
     PDict [(lit ''kind'', PStr (lit ''ready'')), (lit ''policy'', namespace_policy),
            (lit ''input-id'', field frozen ''input-id'')]"

definition complete_message :: "pyval \<Rightarrow> pyval \<Rightarrow> nat \<Rightarrow> pyval" where
  "complete_message frozen output reaped =
     PDict [(lit ''kind'', PStr (lit ''complete'')), (lit ''input-id'', field frozen ''input-id''),
            (lit ''output'', output), (lit ''reaped-descendants'', PInt (int reaped))]"

definition go_line :: bytes where "go_line = [71, 79, 10]"

text \<open>\<open>open(path, "w+b")\<close> of a file that is new in the private \<open>/runtime\<close>\<close>

definition runtime_file :: "string \<Rightarrow> (guard, nat) prog" where
  "runtime_file name = ebind (gets runtime) (\<lambda>d. sys_open_create d (lit name) 438)"

definition command_of :: "pyval \<Rightarrow> pystr list" where
  "command_of req = map str_of (elements (field req ''argv''))"

definition execute :: "task_runner \<Rightarrow> pyval \<Rightarrow> pystr \<Rightarrow> (guard, unit) prog" where
  "execute kern req root =
     (let frozen = field req ''frozen''; config = field req ''config'' in
      ebind (runtime_file ''task-input'') (\<lambda>prompt.
      ebind (runtime_file ''task-log'') (\<lambda>log.
      ebind (lift (case utf8_encode (str_of (field frozen ''task'')) of None \<Rightarrow> Inl UnicodeError | Some b \<Rightarrow> Inr b))
        (\<lambda>b.
      ebind (sys_write prompt b) (\<lambda>_.
      ebind (run_task kern (command_of req) (int_of (field (field frozen ''limits'') ''timeout-ms'')))
        (\<lambda>(code, reaped).
      ebind (sys_read log 16000) (\<lambda>logged.
      ebind (gets work) (\<lambda>parent_dir.
      ebind (collect parent_dir root frozen config (PStr (take 16000 (decode_replace logged))) (PInt code)) (\<lambda>output.
      emit (complete_message frozen output reaped))))))))))"

definition inside :: "task_runner \<Rightarrow> (guard, unit) prog" where
  "inside kern =
     ebind (gets kernel) (\<lambda>k.
     ebind (lift (protect_guard k)) (\<lambda>_.
     ebind (modify (\<lambda>w. w\<lparr>umask := 63\<rparr>)) (\<lambda>_.
     ebind receive_request (\<lambda>req.
     ebind (gets work) (\<lambda>parent_dir.
     ebind (materialize (field req ''frozen'') (field req ''config'') parent_dir) (\<lambda>root.
     ebind (gets runtime) (\<lambda>d.
     ebind (efor (\<lambda>folder _. sys_mkdir d (lit folder) 448) [''home'', ''tmp'', ''cache''] ()) (\<lambda>_.
     ebind (emit (ready_message (field req ''frozen''))) (\<lambda>_.
     ebind (receive_line 4) (\<lambda>line.
     if line \<noteq> go_line then ret () else execute kern req root))))))))))"

end
