(* ===== verification/Worker_Runtime.thy ===== *)
theory Worker_Runtime
  imports Worker_Inputs Py_Url Py_Files "HOL-Library.AList"
begin

text \<open>
  \<^verbatim>\<open>scripts/worker_runtime.py\<close>: the pinned SCI runtime.  \<open>validate_profile\<close> is pure; \<open>verify\<close> hashes and
  inspects the selected archive.  Two parts of the standard library are arguments: \<open>resolve\<close> is
  \<open>str(Path(p).resolve(strict=True))\<close>, and \<open>unzip\<close> is \<open>zipfile.ZipFile\<close> (the members with their declared
  size and contents).  \<open>folder\<close> is the directory of the scripts.
\<close>

section \<open>Policy\<close>

definition max_jar_bytes :: int where "max_jar_bytes = 536870912"
definition heap_mib :: int where "heap_mib = 512"
definition metaspace_mib :: int where "metaspace_mib = 256"
definition direct_mib :: int where "direct_mib = 64"

definition runtime_policy :: pyval where
  "runtime_policy =
     PDict [(lit ''version'', PInt 1), (lit ''profile'', PStr (lit ''dvergr-sci'')),
            (lit ''max-jar-bytes'', PInt max_jar_bytes), (lit ''heap-mib'', PInt heap_mib),
            (lit ''metaspace-mib'', PInt metaspace_mib), (lit ''direct-mib'', PInt direct_mib)]"

definition ENTRYPOINT :: pystr where "ENTRYPOINT = lit ''is.simm.ops.worker-process''"

definition REQUIRED :: "string list" where
  "REQUIRED =
     [''clojure/main.class'', ''is/simm/ops/worker_process.clj'', ''is/simm/ops/worker_guest.clj'',
      ''is/simm/ops/worker_broker.clj'', ''is/simm/ops/worker_executor.clj'',
      ''is/simm/ops/worker_subscription.clj'']"

definition ambient_startup :: "string list" where
  "ambient_startup = [''user.clj'', ''user.cljc'', ''user__init.class'']"

section \<open>Profiles\<close>

definition profile_fields :: "string list" where
  "profile_fields =
     [''version'', ''kind'', ''runtime'', ''bootstrap'', ''runtime-policy'', ''executor-policy-id'',
      ''inference-policy-id'']"

text \<open>\<open>json.dumps(v, sort_keys=True)\<close>\<close>

definition dumps_sorted :: "pyval \<Rightarrow> pystr" where
  "dumps_sorted v = render fmt_default (sort_keys v)"

definition journaled_descriptor_ok :: "pyval \<Rightarrow> bool" where
  "journaled_descriptor_ok d \<longleftrightarrow>
     is_dict d \<and> key_set_is d [''jar'', ''sha256'']
     \<and> is_str (field d ''jar'') \<and> canonical_path (str_of (field d ''jar''))
     \<and> is_str (field d ''sha256'') \<and> full_hex 64 (str_of (field d ''sha256''))"

definition validate_profile :: "pyval \<Rightarrow> exn + pyval" where
  "validate_profile value =
     (if \<not> is_dict value \<or> \<not> key_set_is value profile_fields
         \<or> \<not> is_int (field value ''version'') \<or> int_of (field value ''version'') \<noteq> 1
         \<or> field value ''kind'' \<noteq> PStr (lit ''dvergr-sci'') \<or> field value ''bootstrap'' \<noteq> PStr ENTRYPOINT
         \<or> dumps_sorted (field value ''runtime-policy'') \<noteq> dumps_sorted runtime_policy
      then Inl (ValueError ''Unsupported local SCI execution profile'')
      else if \<not> journaled_descriptor_ok (field value ''runtime'')
      then Inl (ValueError ''Invalid journaled SCI runtime descriptor'')
      else
      for_each (\<lambda>key v.
          if \<not> is_str (field v key) \<or> \<not> canonical_uuid_text (str_of (field v key))
          then Inl (ValueError ''Invalid SCI endpoint policy identity'') else Inr v)
        [''executor-policy-id'', ''inference-policy-id''] value)"

text \<open>\<open>dict(descriptor)\<close>: the callers pass a dict.\<close>

definition copy_dict :: "pyval \<Rightarrow> exn + pyval" where
  "copy_dict v = (if is_dict v then Inr v else Inl TypeError)"

definition profile :: "pyval \<Rightarrow> pyval \<Rightarrow> pyval \<Rightarrow> exn + pyval" where
  "profile descriptor executor_policy_id inference_policy_id =
     rbind (copy_dict descriptor) (\<lambda>d.
     validate_profile
       (PDict [(lit ''version'', PInt 1), (lit ''kind'', PStr (lit ''dvergr-sci'')), (lit ''runtime'', d),
               (lit ''bootstrap'', PStr ENTRYPOINT), (lit ''runtime-policy'', runtime_policy),
               (lit ''executor-policy-id'', executor_policy_id),
               (lit ''inference-policy-id'', inference_policy_id)]))"

section \<open>Verifying the archive\<close>

record member =
  member_name :: pystr
  file_size :: nat
  member_data :: "exn + bytes"

definition trusted_info :: "nat \<Rightarrow> stat_info \<Rightarrow> bool" where
  "trusted_info u info \<longleftrightarrow>
     st_kind info = Reg \<and> (st_uid info = 0 \<or> st_uid info = u)
     \<and> st_mode info div 2 mod 2 = 0 \<and> st_mode info div 16 mod 2 = 0
     \<and> 0 < st_size info \<and> int (st_size info) \<le> max_jar_bytes"

definition manifest_name :: pystr where "manifest_name = lit ''META-INF/MANIFEST.MF''"
definition manifest_limit :: nat where "manifest_limit = 65536"

text \<open>\<open>jar.getinfo(name)\<close>: the last member of that name\<close>

definition check_manifest :: "member \<Rightarrow> exn + unit" where
  "check_manifest m =
     (if manifest_limit < file_size m then Inl (ValueError ''Runtime manifest exceeds its bound'')
      else
      rbind (member_data m) (\<lambda>b.
      case utf8_decode b of
        None \<Rightarrow> Inl UnicodeError
      | Some text \<Rightarrow>
          if list_ex (\<lambda>line. starts_with (lit ''class-path:'') (lower line)) (splitlines text)
          then Inl (ValueError ''Runtime declares an ambient classpath'') else Inr ()))"

definition check_inventory :: "member list \<Rightarrow> exn + unit" where
  "check_inventory jar =
     (let names = map member_name jar in
      if \<not> distinct names \<or> \<not> list_all (\<lambda>r. lit r \<in> set names) REQUIRED
      then Inl (ValueError ''Runtime bootstrap inventory differs'')
      else if list_ex (\<lambda>r. lit r \<in> set names) ambient_startup
      then Inl (ValueError ''Runtime contains ambient Clojure startup code'')
      else
      (case find (\<lambda>m. member_name m = manifest_name) jar of None \<Rightarrow> Inr () | Some m \<Rightarrow> check_manifest m))"

definition descriptor_ok :: "pyval \<Rightarrow> bool" where
  "descriptor_ok d \<longleftrightarrow>
     is_dict d \<and> key_set_is d [''jar'', ''sha256'']
     \<and> is_str (field d ''jar'') \<and> is_str (field d ''sha256'') \<and> full_hex 64 (str_of (field d ''sha256''))"

text \<open>\<open>os.open(path, O_RDONLY | O_NOFOLLOW | O_NONBLOCK)\<close> of an absolute canonical path\<close>

definition sys_open_file :: "pystr \<Rightarrow> ('a posix_scheme, nat) prog" where
  "sys_open_file p =
     (let names = path_names p in
      if names = [] then sys_open_path []
      else ebind (sys_open_path (butlast names)) (\<lambda>d. sys_open d (last names)))"

definition verify ::
  "(pystr \<Rightarrow> exn + pystr) \<Rightarrow> (bytes \<Rightarrow> exn + member list) \<Rightarrow> pyval \<Rightarrow> ('a posix_scheme, pyval) prog" where
  "verify resolve unzip descriptor =
     (if \<not> descriptor_ok descriptor
      then raise (ValueError ''Expected a pinned local SCI runtime descriptor'')
      else
      let jar = str_of (field descriptor ''jar'') in
      ebind (lift (if is_absolute jar then rbind (resolve jar) (\<lambda>p. Inr (p = jar)) else Inr False)) (\<lambda>same.
      if \<not> same then raise (ValueError ''Runtime must be an absolute canonical local file'')
      else
      ebind (sys_open_file jar) (\<lambda>fd.
      ebind (sys_fstat fd) (\<lambda>info.
      ebind (gets uid) (\<lambda>u.
      if \<not> trusted_info u info
      then raise (ValueError ''Runtime is not a bounded trusted local regular file'')
      else
      ebind (sys_read_all fd) (\<lambda>bytes.
      if sha256_hex bytes \<noteq> str_of (field descriptor ''sha256'')
      then raise (ValueError ''Local SCI runtime digest differs'')
      else
      ebind (lift (rbind (unzip bytes) check_inventory)) (\<lambda>_.
      ebind (sys_fstat fd) (\<lambda>after.
      if (st_size info, st_time info) \<noteq> (st_size after, st_time after)
      then raise (ValueError ''Runtime changed during verification'')
      else ret descriptor))))))))"

section \<open>Command lines and environments\<close>

definition jvm_flag :: "string \<Rightarrow> int \<Rightarrow> pystr" where
  "jvm_flag flag n = lit flag @ dec_int n @ lit ''m''"

definition canonical_home :: "(pystr \<Rightarrow> exn + pystr) \<Rightarrow> pyval \<Rightarrow> exn + bool" where
  "canonical_home resolve home =
     (if is_str home \<and> is_absolute (str_of home)
      then rbind (resolve (str_of home)) (\<lambda>p. Inr (p = str_of home)) else Inr False)"

definition runtime_modes :: "string list" where
  "runtime_modes = [''check'', ''guest'', ''broker'']"

definition argv ::
  "(pystr \<Rightarrow> exn + pystr) \<Rightarrow> (bytes \<Rightarrow> exn + member list) \<Rightarrow> pyval \<Rightarrow> pystr \<Rightarrow> pyval
     \<Rightarrow> ('a posix_scheme, pystr list) prog" where
  "argv resolve unzip descriptor mode_name private_home =
     (if \<not> list_ex (\<lambda>m. mode_name = lit m) runtime_modes
      then raise (ValueError ''Unknown local SCI runtime mode'')
      else
      ebind (lift (canonical_home resolve private_home)) (\<lambda>ok.
      if \<not> ok then raise (ValueError ''Expected a canonical private runtime home'')
      else
      ebind (verify resolve unzip descriptor) (\<lambda>checked.
      ret [lit ''/usr/bin/java'', lit ''-Xms32m'', jvm_flag ''-Xmx'' heap_mib,
           jvm_flag ''-XX:MaxMetaspaceSize='' metaspace_mib, jvm_flag ''-XX:MaxDirectMemorySize='' direct_mib,
           lit ''-XX:ActiveProcessorCount=1'', lit ''-XX:+ExitOnOutOfMemoryError'',
           lit ''-Duser.home='' @ str_of private_home, lit ''-cp'', str_of (field checked ''jar''),
           lit ''clojure.main'', lit ''-m'', ENTRYPOINT, mode_name])))"

text \<open>\<open>str(Path(home) / name)\<close>\<close>

definition path_child :: "pystr \<Rightarrow> string \<Rightarrow> pystr" where
  "path_child home name = pure_str (home @ slash # lit name)"

definition base_environment :: "pystr \<Rightarrow> (string \<times> pystr) list" where
  "base_environment home =
     [(''PATH'', lit ''/usr/bin:/bin''), (''HOME'', home), (''DVERGR_HOME'', path_child home ''dvergr''),
      (''CODEX_HOME'', path_child home ''codex''), (''CLAUDE_CONFIG_DIR'', path_child home ''claude''),
      (''TMPDIR'', home)]"

definition environment ::
  "(pystr \<Rightarrow> exn + pystr) \<Rightarrow> pyval \<Rightarrow> pyval option \<Rightarrow> exn + (string \<times> pystr) list" where
  "environment resolve private_home codex_home =
     (if \<not> is_str private_home \<or> \<not> is_absolute (str_of private_home)
      then Inl (ValueError ''Expected a private runtime home'')
      else
      let env = base_environment (str_of private_home) in
      (case codex_home of
         None \<Rightarrow> Inr env
       | Some codex \<Rightarrow>
           rbind (canonical_home resolve codex) (\<lambda>ok.
           if \<not> ok then Inl (ValueError ''Expected a canonical broker-only Codex directory'')
           else Inr (AList.update ''CODEX_HOME'' (str_of codex) env))))"

text \<open>Without a Codex directory the list would hold None, which the launch refuses: a TypeError here.\<close>

definition supervisor_argv ::
  "(pystr \<Rightarrow> exn + pystr) \<Rightarrow> (bytes \<Rightarrow> exn + member list) \<Rightarrow> pystr \<Rightarrow> pyval \<Rightarrow> pyval
     \<Rightarrow> ('a posix_scheme, pystr list) prog" where
  "supervisor_argv resolve unzip folder selected codex_home =
     ebind (lift (validate_profile selected)) (\<lambda>_.
     ebind (verify resolve unzip (field selected ''runtime'')) (\<lambda>_.
     ebind (lift (environment resolve (PStr (lit ''/unused-private-home''))
                    (if codex_home = PNone then None else Some codex_home))) (\<lambda>_.
     if is_str codex_home
     then ret [lit ''/usr/bin/python3'', lit ''-I'', path_child folder ''worker_sci.py'',
               render fmt_compact (sort_keys selected), str_of codex_home]
     else raise TypeError)))"

end
