(* ===== verification/Py_Outside.thy ===== *)
theory Py_Outside
  imports Py_Files
begin

text \<open>
  What lies outside the files: the D-Bus connection, the kernel's pseudo files, pipes, child processes
  and the clocks.  Every call takes its answer from a list of replies, which may be anything, and is
  kept with its answer and the files at that moment, so that a statement can be about what was done
  and when.  With a reply come the D-Bus signals that were dispatched while the call waited.

  Bytes in an answer are the string of their values; times are whole numbers (nanoseconds of the
  monotonic clock, milliseconds of the wall clock).
\<close>

datatype bus_event = Wake | OwnerChanged pystr | Disconnected | Expire | Tick

datatype outside_call =
    GetNameOwner | GetOwnerPid | GetOwnerUid | GetControlGroup | GetBusId | Subscribe | IsConnected | CloseBus
  | StartTransientUnit pystr pyval | RefUnit pystr | UnrefUnit pystr | StopUnit pystr
  | GetUnit pystr | GetAll pyval string | RunLoop
  | ReadText pystr | PathExists pystr
  | Monotonic | WallClock
  | MakePipe | PipeReady nat | PipeWrite nat bytes | PipeRead nat nat | PipeClose nat
  | Spawn "pystr list" | ProcessPoll nat | ProcessKill nat | ProcessWait nat "int option"
  | SpawnPiped "pystr list" pystr "(string \<times> pystr) list" | DupFd nat
  | RunProcess "pystr list" pystr "(string \<times> pystr) list" int
  | StdinLine nat | StdoutWrite bytes

record made_call =
  asked :: outside_call
  answered :: "exn + pyval"
  files_then :: fs

record outside = posix +
  replies :: "(bus_event list \<times> (exn + pyval)) list"
  calls :: "made_call list"
  bus_owner :: pystr
  unknown :: bool
  generation :: nat

section \<open>Signals\<close>

text \<open>
  \<open>_wake\<close>, \<open>_owner_changed\<close> and \<open>_disconnected\<close> of \<^verbatim>\<open>scripts/worker_unit.py\<close>; the last two events are the
  timers of its event loop.
\<close>

definition wake :: "'a outside_scheme \<Rightarrow> 'a outside_scheme" where
  "wake w = w\<lparr>generation := generation w + 1\<rparr>"

fun signal :: "bus_event \<Rightarrow> 'a outside_scheme \<Rightarrow> 'a outside_scheme" where
  "signal Wake w = wake w"
| "signal (OwnerChanged after) w = (if after \<noteq> bus_owner w then wake (w\<lparr>unknown := True\<rparr>) else w)"
| "signal Disconnected w = wake (w\<lparr>unknown := True\<rparr>)"
| "signal e w = w"

section \<open>Calls\<close>

definition consult :: "outside_call \<Rightarrow> ('a outside_scheme, pyval) prog" where
  "consult c w =
     (let (events, r, rest) = (case replies w of [] \<Rightarrow> ([], Inl DBusException, []) | (es, r) # rs \<Rightarrow> (es, r, rs))
      in (r, fold signal events (w\<lparr>replies := rest,
                calls := calls w @ [\<lparr>asked = c, answered = r, files_then = fs w\<rparr>]\<rparr>)))"

definition as_str :: "pyval \<Rightarrow> exn + pystr" where
  "as_str v = (if is_str v then Inr (str_of v) else Inl TypeError)"

definition as_int :: "pyval \<Rightarrow> exn + int" where
  "as_int v = (if is_int v then Inr (int_of v) else Inl TypeError)"

definition as_bool :: "pyval \<Rightarrow> exn + bool" where
  "as_bool v = (if is_bool v then Inr (bool_of v) else Inl TypeError)"

definition as_nat :: "pyval \<Rightarrow> exn + nat" where
  "as_nat v = (if is_int v \<and> 0 \<le> int_of v then Inr (nat (int_of v)) else Inl TypeError)"

definition as_bytes :: "pyval \<Rightarrow> exn + bytes" where
  "as_bytes v =
     (if is_str v \<and> list_all (\<lambda>c. c < 256) (str_of v) then Inr (map byte (str_of v)) else Inl TypeError)"

definition ask_str :: "outside_call \<Rightarrow> ('a outside_scheme, pystr) prog" where
  "ask_str c = ebind (consult c) (\<lambda>v. lift (as_str v))"

definition ask_int :: "outside_call \<Rightarrow> ('a outside_scheme, int) prog" where
  "ask_int c = ebind (consult c) (\<lambda>v. lift (as_int v))"

definition ask_nat :: "outside_call \<Rightarrow> ('a outside_scheme, nat) prog" where
  "ask_nat c = ebind (consult c) (\<lambda>v. lift (as_nat v))"

definition ask_bool :: "outside_call \<Rightarrow> ('a outside_scheme, bool) prog" where
  "ask_bool c = ebind (consult c) (\<lambda>v. lift (as_bool v))"

definition ask_bytes :: "outside_call \<Rightarrow> ('a outside_scheme, bytes) prog" where
  "ask_bytes c = ebind (consult c) (\<lambda>v. lift (as_bytes v))"

section \<open>What a program did\<close>

text \<open>
  \<open>did w w'\<close>: from \<open>w\<close> to \<open>w'\<close> calls were only added.  \<open>news w w'\<close> are the added ones.
\<close>

definition did :: "'a outside_scheme \<Rightarrow> 'a outside_scheme \<Rightarrow> bool" where
  "did w w' \<longleftrightarrow> (\<exists>new. calls w' = calls w @ new)"

definition news :: "'a outside_scheme \<Rightarrow> 'a outside_scheme \<Rightarrow> made_call list" where
  "news w w' = drop (length (calls w)) (calls w')"

lemma signal_simps [simp]:
  "calls (signal e w) = calls w" "replies (signal e w) = replies w" "fs (signal e w) = fs w"
  "pid (signal e w) = pid w" "uid (signal e w) = uid w" "script (signal e w) = script w"
  "umask (signal e w) = umask w" "entropy (signal e w) = entropy w" "drawn (signal e w) = drawn w"
  "bus_owner (signal e w) = bus_owner w" "outside.more (signal e w) = outside.more w"
  by (cases e; simp add: wake_def)+

lemma signals_simps [simp]:
  "calls (fold signal es w) = calls w" "replies (fold signal es w) = replies w" "fs (fold signal es w) = fs w"
  "pid (fold signal es w) = pid w" "uid (fold signal es w) = uid w" "script (fold signal es w) = script w"
  "umask (fold signal es w) = umask w" "entropy (fold signal es w) = entropy w" "drawn (fold signal es w) = drawn w"
  "bus_owner (fold signal es w) = bus_owner w" "outside.more (fold signal es w) = outside.more w"
  by (induction es arbitrary: w) simp_all

lemma consult_simps:
  assumes "consult c w = (r, w')"
  shows "calls w' = calls w @ [\<lparr>asked = c, answered = r, files_then = fs w\<rparr>]" "fs w' = fs w" "pid w' = pid w"
    "uid w' = uid w" "script w' = script w" "umask w' = umask w" "entropy w' = entropy w" "drawn w' = drawn w"
    "bus_owner w' = bus_owner w" "outside.more w' = outside.more w" "replies w' = tl (replies w)"
  using assms by (auto simp: consult_def Let_def split: list.splits prod.splits)

lemma news_refl [simp]: "news w w = []"
  by (simp add: news_def)

lemma news_trans: "did u v \<Longrightarrow> did v w \<Longrightarrow> news u w = news u v @ news v w"
  by (auto simp: did_def news_def)

lemma did_refl [simp]: "did w w"
  by (simp add: did_def)

lemma did_trans: "did u v \<Longrightarrow> did v w \<Longrightarrow> did u w"
  by (auto simp: did_def)

lemma news_consult: "consult c w = (r, w') \<Longrightarrow> news w w' = [\<lparr>asked = c, answered = r, files_then = fs w\<rparr>]"
  by (simp add: news_def consult_simps(1))

end
