(* ===== verification/Worker_Unit.thy ===== *)
theory Worker_Unit
  imports Worker_Namespace Worker_Runtime Py_Outside
begin

text \<open>
  \<^verbatim>\<open>scripts/worker_unit.py\<close>: the observer of one retained systemd unit.  The names and identities it
  accepts, the reading of the kernel's control groups, and \<open>UnitBus\<close> with its three sets of unit names.
  A property of a unit is a \<open>pyval\<close>; one that has not the type the manager documents is a \<open>TypeError\<close>.
\<close>

section \<open>Policies\<close>

definition mebibyte :: int where "mebibyte = 1048576"

definition policy_items :: "int \<Rightarrow> int \<Rightarrow> int \<Rightarrow> pydict" where
  "policy_items version memory max_tasks =
     [(lit ''version'', PInt version), (lit ''memory-bytes'', PInt memory), (lit ''swap-bytes'', PInt 0),
      (lit ''max-tasks'', PInt max_tasks), (lit ''cpu-quota-usec'', PInt 1000000),
      (lit ''deadline-slack-ms'', PInt 30000), (lit ''stop-timeout-ms'', PInt 2000),
      (lit ''type'', PStr (lit ''exec'')), (lit ''exit-type'', PStr (lit ''cgroup'')),
      (lit ''restart'', PStr (lit ''no'')), (lit ''kill-mode'', PStr (lit ''control-group'')),
      (lit ''oom-policy'', PStr (lit ''kill''))]"

definition unit_policy :: pyval where
  "unit_policy = PDict (policy_items 1 (256 * mebibyte) 64)"

definition SCI_POLICY :: pyval where
  "SCI_POLICY =
     PDict (policy_items 2 (2560 * mebibyte) 128 @ [(lit ''profile'', PStr (lit ''dvergr-sci''))])"

section \<open>Names and identities\<close>

definition unit_prefix :: pystr where "unit_prefix = lit ''simmis-worker-''"
definition unit_suffix :: pystr where "unit_suffix = lit ''.service''"

definition unit_name :: "('a posix_scheme, pystr) prog" where
  "unit_name = ebind uuid4_hex (\<lambda>h. ret (unit_prefix @ h @ unit_suffix))"

definition unit_name_ok :: "pystr \<Rightarrow> bool" where
  "unit_name_ok s \<longleftrightarrow>
     length s = 54 \<and> starts_with unit_prefix s \<and> full_hex 32 (take 32 (drop 14 s)) \<and> ends_with unit_suffix s"

definition validate_name :: "pyval \<Rightarrow> exn + unit" where
  "validate_name name =
     (if \<not> is_str name \<or> \<not> unit_name_ok (str_of name)
      then Inl (ValueError ''Invalid private execution-unit identity'') else Inr ())"

definition identity_fields :: "string list" where
  "identity_fields = [''version'', ''unit'', ''boot-id'', ''invocation-id'', ''cgroup'', ''manager'']"

text \<open>\<open>re.fullmatch(r":[0-9]+\.[0-9]+", s)\<close>\<close>

definition bus_owner_ok :: "pystr \<Rightarrow> bool" where
  "bus_owner_ok s \<longleftrightarrow>
     s \<noteq> [] \<and> hd s = 58 \<and>
     (case partition_at 46 (tl s) of (a, dot, b) \<Rightarrow>
        dot \<and> a \<noteq> [] \<and> b \<noteq> [] \<and> list_all is_digit a \<and> list_all is_digit b)"

definition user_slice :: pystr where "user_slice = lit ''/user.slice/''"

definition manager_root_of :: "int \<Rightarrow> pystr" where
  "manager_root_of u =
     lit ''/user.slice/user-'' @ dec_int u @ lit ''.slice/user@'' @ dec_int u @ unit_suffix"

definition group_ok :: "pystr \<Rightarrow> pystr \<Rightarrow> bool" where
  "group_ok cg unit \<longleftrightarrow>
     starts_with user_slice cg \<and> pure_str cg = cg \<and> lit ''..'' \<notin> set (pure_parts cg)
     \<and> last (pure_parts cg) = unit"

definition manager_ok :: "pyval \<Rightarrow> pystr \<Rightarrow> bool" where
  "manager_ok manager cg \<longleftrightarrow>
     is_dict manager \<and> key_set_is manager [''uid'', ''root'', ''bus-id'', ''owner'']
     \<and> is_int (field manager ''uid'') \<and> 0 \<le> int_of (field manager ''uid'')
     \<and> int_of (field manager ''uid'') < 4294967296
     \<and> is_str (field manager ''bus-id'') \<and> full_hex 32 (str_of (field manager ''bus-id''))
     \<and> is_str (field manager ''owner'') \<and> bus_owner_ok (str_of (field manager ''owner''))
     \<and> field manager ''root'' = PStr (manager_root_of (int_of (field manager ''uid'')))
     \<and> starts_with (str_of (field manager ''root'') @ [slash]) cg"

definition validate_identity :: "pyval \<Rightarrow> exn + pyval" where
  "validate_identity identity =
     (if \<not> is_dict identity \<or> \<not> key_set_is identity identity_fields
         \<or> \<not> is_int (field identity ''version'') \<or> int_of (field identity ''version'') \<noteq> 1
      then Inl (ValueError ''Invalid execution-unit observation'')
      else
      rbind (validate_name (field identity ''unit'')) (\<lambda>_.
      if list_ex (\<lambda>k. \<not> is_str (field identity k)) [''boot-id'', ''invocation-id'', ''cgroup'']
      then Inl (ValueError ''Execution identities must be strings'')
      else if \<not> canonical_uuid_text (str_of (field identity ''boot-id''))
      then Inl (ValueError ''Invalid machine boot identity'')
      else if \<not> full_hex 32 (str_of (field identity ''invocation-id''))
              \<or> str_of (field identity ''invocation-id'') = replicate 32 48
      then Inl (ValueError ''Missing execution invocation identity'')
      else if \<not> group_ok (str_of (field identity ''cgroup'')) (str_of (field identity ''unit''))
      then Inl (ValueError ''Invalid non-root execution cgroup'')
      else if \<not> manager_ok (field identity ''manager'') (str_of (field identity ''cgroup''))
      then Inl (ValueError ''Invalid execution manager identity'')
      else Inr identity))"

section \<open>The observer\<close>

text \<open>The object's fields; the three sets are lists without repetition.\<close>

record unit_bus = outside +
  bus_policy :: pyval
  references :: "pystr list"
  confirmed :: "pystr list"
  launched :: "pystr list"
  manager_pid :: int
  manager_root :: pystr
  manager_identity :: pyval

section \<open>Control groups\<close>

text \<open>\<open>str.split()\<close> at blanks, \<open>s.split(" - ", 1)\<close>, \<open>s.lstrip("/")\<close>, \<open>int(s)\<close>\<close>

fun split_blank :: "pystr \<Rightarrow> pystr \<Rightarrow> pystr list" where
  "split_blank word [] = (if word = [] then [] else [rev word])"
| "split_blank word (c # cs) =
     (if is_space c then (if word = [] then split_blank [] cs else rev word # split_blank [] cs)
      else split_blank (c # word) cs)"

definition words_of :: "pystr \<Rightarrow> pystr list" where
  "words_of s = split_blank [] s"

fun split_dash :: "pystr \<Rightarrow> pystr \<Rightarrow> (pystr \<times> pystr) option" where
  "split_dash before [] = None"
| "split_dash before (c # cs) =
     (if starts_with (lit '' - '') (c # cs) then Some (rev before, drop 3 (c # cs))
      else split_dash (c # before) cs)"

definition lstrip_slash :: "pystr \<Rightarrow> pystr" where
  "lstrip_slash s = dropWhile (\<lambda>c. c = 47) s"

fun digits_10 :: "nat \<Rightarrow> pystr \<Rightarrow> nat option" where
  "digits_10 acc [] = None"
| "digits_10 acc [c] = (if is_digit c then Some (acc * 10 + (c - 48)) else None)"
| "digits_10 acc (c # d # s) =
     (if \<not> is_digit c then None
      else if d = 95 then digits_10 (acc * 10 + (c - 48)) s
      else digits_10 (acc * 10 + (c - 48)) (d # s))"

definition int_10 :: "pystr \<Rightarrow> exn + int" where
  "int_10 t =
     (let s = strip t;
          (sgn, u) = (if s \<noteq> [] \<and> (hd s = 45 \<or> hd s = 43) then (if hd s = 45 then -1 else 1, tl s) else (1, s))
      in case digits_10 0 u of
           None \<Rightarrow> Inl (ValueError ''invalid literal for int() with base 10'')
         | Some n \<Rightarrow> Inr (sgn * int n))"

definition nth_word :: "pystr list \<Rightarrow> nat \<Rightarrow> exn + pystr" where
  "nth_word ws n = (if n < length ws then Inr (ws ! n) else Inl IndexError)"

text \<open>The roots mounted at \<open>/sys/fs/cgroup\<close>, with the type of each.\<close>

definition cgroup_mount :: pystr where "cgroup_mount = lit ''/sys/fs/cgroup''"

definition split_mount :: "pystr \<Rightarrow> exn + pystr \<times> pystr" where
  "split_mount line = (case split_dash [] line of None \<Rightarrow> Inl (ValueError ''unpack'') | Some p \<Rightarrow> Inr p)"

definition mount_root :: "pystr \<Rightarrow> (pystr \<times> pystr) list \<Rightarrow> exn + (pystr \<times> pystr) list" where
  "mount_root line roots =
     rbind (split_mount line) (\<lambda>(before, after).
     rbind (nth_word (words_of before) 4) (\<lambda>point.
     if point \<noteq> cgroup_mount then Inr roots
     else
     rbind (nth_word (words_of before) 3) (\<lambda>root.
     rbind (nth_word (words_of after) 0) (\<lambda>kind. Inr (roots @ [(root, kind)])))))"

definition mount_roots :: "pystr \<Rightarrow> exn + (pystr \<times> pystr) list" where
  "mount_roots text = for_each mount_root (splitlines text) []"

definition unified_paths :: "pystr \<Rightarrow> pystr list" where
  "unified_paths text = map (drop 3) (filter (starts_with (lit ''0::'')) (splitlines text))"

definition in_cgroup :: "pystr \<Rightarrow> string \<Rightarrow> pystr" where
  "in_cgroup cg name = pure_str (cgroup_mount @ slash # lstrip_slash cg @ slash # lit name)"

definition proc_file :: "int \<Rightarrow> string \<Rightarrow> pystr" where
  "proc_file p name = lit ''/proc/'' @ dec_int p @ slash # lit name"

definition verify_cgroup_view :: "int \<Rightarrow> pystr \<Rightarrow> ('a unit_bus_scheme, unit) prog" where
  "verify_cgroup_view mpid root =
     ebind (ask_str (ReadText (lit ''/proc/self/mountinfo''))) (\<lambda>mounts.
     ebind (lift (mount_roots mounts)) (\<lambda>roots.
     if roots \<noteq> [(lit ''/'', lit ''cgroup2'')]
     then raise (ValueError ''Observer lacks the execution manager's full cgroup-v2 hierarchy'')
     else if \<not> starts_with user_slice root \<or> lit ''..'' \<in> set (pure_parts root) \<or> pure_str root \<noteq> root
     then raise (ValueError ''Unexpected execution manager root'')
     else
     ebind (ask_str (ReadText (proc_file mpid ''cgroup''))) (\<lambda>text.
     let paths = unified_paths text in
     if length paths \<noteq> 1 \<or> \<not> (hd paths = root \<or> starts_with (root @ [slash]) (hd paths))
     then raise (ValueError ''Observer and execution manager use different cgroup coordinates'')
     else
     ebind (ask_str (ReadText (in_cgroup (hd paths) ''cgroup.procs''))) (\<lambda>members.
     if dec_int mpid \<notin> set (splitlines members)
     then raise (ValueError ''Execution manager is not in the observer's mounted hierarchy'')
     else ret ()))))"

definition populated_fields :: "pystr \<Rightarrow> exn + (pystr \<times> pystr) list" where
  "populated_fields events =
     for_each (\<lambda>line found. case words_of line of [k, v] \<Rightarrow> Inr ((k, v) # found) | _ \<Rightarrow> Inl (ValueError ''unpack''))
       (splitlines events) []"

definition cgroup_empty :: "pystr \<Rightarrow> ('a unit_bus_scheme, bool) prog" where
  "cgroup_empty cg =
     ebind
       (try_except (ebind (ask_str (ReadText (in_cgroup cg ''cgroup.events''))) (\<lambda>t. ret (Some t)))
          (\<lambda>e. if e = FileNotFoundError then ret None else raise e))
       (\<lambda>events.
     case events of
       None \<Rightarrow>
         ebind (ask_bool (PathExists (pure_str (cgroup_mount @ slash # lstrip_slash cg)))) (\<lambda>there.
         if there then raise (ValueError ''Missing execution cgroup state'') else ret True)
     | Some text \<Rightarrow>
         ebind (lift (populated_fields text)) (\<lambda>values.
         case map_of values (lit ''populated'') of
           None \<Rightarrow> raise (ValueError ''Malformed execution cgroup state'')
         | Some v \<Rightarrow>
             if v \<noteq> lit ''0'' \<and> v \<noteq> lit ''1'' then raise (ValueError ''Malformed execution cgroup state'')
             else ret (v = lit ''0'')))"

section \<open>UnitBus\<close>

definition add_name :: "pystr \<Rightarrow> pystr list \<Rightarrow> pystr list" where
  "add_name n s = (if n \<in> set s then s else s @ [n])"

definition drop_name :: "pystr \<Rightarrow> pystr list \<Rightarrow> pystr list" where
  "drop_name n s = filter (\<lambda>x. x \<noteq> n) s"

lemma set_names [simp]:
  "set (add_name n s) = insert n (set s)" "set (drop_name n s) = set s - {n}"
  by (auto simp: add_name_def drop_name_def)

definition check :: "('a unit_bus_scheme, unit) prog" where
  "check =
     ebind
       (ebind (gets unknown) (\<lambda>lost.
        if lost then ret False
        else
        ebind (ask_bool IsConnected) (\<lambda>up.
        if \<not> up then ret False
        else
        ebind (ask_str GetNameOwner) (\<lambda>o'.
        ebind (gets bus_owner) (\<lambda>mine. ret (o' = mine))))))
       (\<lambda>known.
     if \<not> known then raise (ValueError ''Execution manager ownership is unknown'')
     else
     ebind (gets manager_pid) (\<lambda>p.
     ebind (gets manager_root) (\<lambda>root.
     verify_cgroup_view p root)))"

text \<open>\<open>__init__\<close> on a new connection\<close>

definition fresh_bus :: "pyval \<Rightarrow> 'a unit_bus_scheme \<Rightarrow> 'a unit_bus_scheme" where
  "fresh_bus policy w =
     w\<lparr>bus_policy := policy, unknown := False, generation := 0, references := [], confirmed := [], launched := []\<rparr>"

definition UnitBus :: "bool \<Rightarrow> ('a unit_bus_scheme, unit) prog" where
  "UnitBus sci =
     ebind (modify (fresh_bus (if sci then SCI_POLICY else unit_policy))) (\<lambda>_.
     ebind (ask_str GetNameOwner) (\<lambda>o'.
     ebind (modify (bus_owner_update (\<lambda>_. o'))) (\<lambda>_.
     ebind (ask_int GetOwnerPid) (\<lambda>p.
     ebind (modify (manager_pid_update (\<lambda>_. p))) (\<lambda>_.
     ebind (ask_int GetOwnerUid) (\<lambda>muid.
     ebind (gets uid) (\<lambda>u.
     if muid \<noteq> int u then raise (ValueError ''Execution manager belongs to a different local user'')
     else
     ebind (ask_str GetControlGroup) (\<lambda>root.
     ebind (modify (manager_root_update (\<lambda>_. root))) (\<lambda>_.
     ebind (ask_str GetBusId) (\<lambda>b.
     ebind (modify (manager_identity_update (\<lambda>_.
       PDict [(lit ''uid'', PInt muid), (lit ''root'', PStr root), (lit ''bus-id'', PStr b), (lit ''owner'', PStr o')])))
       (\<lambda>_.
     ebind (consult Subscribe) (\<lambda>_. check))))))))))))"

text \<open>What the standard library and the host tell \<open>launch\<close>.\<close>

record platform =
  resolve_path :: "pystr \<Rightarrow> exn + pystr"
  open_zip :: "bytes \<Rightarrow> exn + member list"
  script_folder :: pystr
  host_folder :: "string \<Rightarrow> bool"

definition unit_prop :: "string \<Rightarrow> pyval \<Rightarrow> pyval" where
  "unit_prop k v = PList [PStr (lit k), v]"

definition policy_int :: "pyval \<Rightarrow> string \<Rightarrow> int" where
  "policy_int policy k = int_of (field policy k)"

definition unit_properties :: "pyval \<Rightarrow> int \<Rightarrow> pystr list \<Rightarrow> nat \<times> nat \<times> nat \<Rightarrow> pyval" where
  "unit_properties policy timeout_ms command fds =
     (case fds of (stdin, stdout, stderr) \<Rightarrow>
      PList [unit_prop ''AddRef'' (PBool True), unit_prop ''Type'' (PStr (lit ''exec'')), unit_prop ''ExitType'' (PStr (lit ''cgroup'')),
             unit_prop ''Restart'' (PStr (lit ''no'')), unit_prop ''KillMode'' (PStr (lit ''control-group'')),
             unit_prop ''SendSIGKILL'' (PBool True), unit_prop ''OOMPolicy'' (PStr (lit ''kill'')),
             unit_prop ''MemoryMax'' (PInt (policy_int policy ''memory-bytes'')), unit_prop ''MemorySwapMax'' (PInt 0),
             unit_prop ''TasksMax'' (PInt (policy_int policy ''max-tasks'')),
             unit_prop ''CPUQuotaPerSecUSec'' (PInt (policy_int policy ''cpu-quota-usec'')),
             unit_prop ''RuntimeMaxUSec'' (PInt ((timeout_ms + policy_int policy ''deadline-slack-ms'') * 1000)),
             unit_prop ''TimeoutStopUSec'' (PInt (policy_int policy ''stop-timeout-ms'' * 1000)),
             unit_prop ''StandardInputFileDescriptor'' (PInt (int stdin)),
             unit_prop ''StandardOutputFileDescriptor'' (PInt (int stdout)),
             unit_prop ''StandardErrorFileDescriptor'' (PInt (int stderr)),
             unit_prop ''ExecStart'' (PList [PList [PStr (hd command), PList (map PStr command), PBool False]])])"

definition launch_command :: "platform \<Rightarrow> pyval option \<Rightarrow> pyval \<Rightarrow> ('a unit_bus_scheme, pystr list) prog" where
  "launch_command plat sci policy =
     (case sci of
        None \<Rightarrow>
          if \<not> py_eq policy unit_policy
          then raise (ValueError ''SCI observer cannot launch a native namespace'')
          else ret (lit ''/usr/bin/bwrap'' # tl (namespace_argv (host_folder plat) (script_folder plat)))
      | Some s \<Rightarrow>
          if \<not> py_eq policy SCI_POLICY \<or> \<not> is_dict s \<or> \<not> key_set_is s [''profile'', ''codex-home'']
          then raise (ValueError ''SCI launch needs its explicit resource policy'')
          else supervisor_argv (resolve_path plat) (open_zip plat) (script_folder plat)
                 (field s ''profile'') (field s ''codex-home''))"

text \<open>
  The name is a reference from before the call that starts the unit; it is confirmed, and counts as
  launched here, only when the call returned.
\<close>

definition launch ::
  "platform \<Rightarrow> pyval \<Rightarrow> nat \<times> nat \<times> nat \<Rightarrow> pyval \<Rightarrow> pyval option \<Rightarrow> ('a unit_bus_scheme, unit) prog" where
  "launch plat name fds timeout_ms sci =
     ebind (lift (validate_name name)) (\<lambda>_.
     let n = str_of name in
     ebind (gets references) (\<lambda>refs.
     if n \<in> set refs then raise (ValueError ''Execution-unit names must never be reused'')
     else if \<not> is_int timeout_ms \<or> \<not> (1000 \<le> int_of timeout_ms \<and> int_of timeout_ms \<le> 600000)
     then raise (ValueError ''Invalid finite task deadline'')
     else
     ebind check (\<lambda>_.
     ebind (gets bus_policy) (\<lambda>policy.
     ebind (launch_command plat sci policy) (\<lambda>command.
     ebind (modify (references_update (add_name n))) (\<lambda>_.
     ebind (consult (StartTransientUnit n (unit_properties policy (int_of timeout_ms) command fds))) (\<lambda>_.
     ebind (modify (confirmed_update (add_name n))) (\<lambda>_.
     modify (launched_update (add_name n))))))))))"

text \<open>\<open>_properties\<close>: the unit's and the service's properties, of one unchanged unit.\<close>

definition property_str :: "pyval \<Rightarrow> string \<Rightarrow> exn + pystr" where
  "property_str v k = rbind (item v k) as_str"

definition property_int :: "pyval \<Rightarrow> string \<Rightarrow> exn + int" where
  "property_int v k = rbind (item v k) as_int"

text \<open>An array of bytes is a list of ints; \<open>bytes(v).hex()\<close>.\<close>

definition byte_value :: "pyval \<Rightarrow> bool" where
  "byte_value v \<longleftrightarrow> is_int v \<and> 0 \<le> int_of v \<and> int_of v < 256"

definition property_bytes :: "pyval \<Rightarrow> string \<Rightarrow> exn + bytes" where
  "property_bytes v k =
     rbind (item v k) (\<lambda>x.
     if is_list x \<and> list_all byte_value (elements x)
     then Inr (map (\<lambda>e. byte (nat (int_of e))) (elements x)) else Inl TypeError)"

definition changed_between :: "pystr \<Rightarrow> pyval \<Rightarrow> pyval \<Rightarrow> exn + bool" where
  "changed_between name before after =
     rbind (property_str before ''Id'') (\<lambda>a.
     rbind (property_str after ''Id'') (\<lambda>b.
     rbind (property_bytes before ''InvocationID'') (\<lambda>i.
     rbind (property_bytes after ''InvocationID'') (\<lambda>j.
     Inr (a \<noteq> name \<or> b \<noteq> name \<or> i \<noteq> j)))))"

definition unit_properties_of :: "pystr \<Rightarrow> ('a unit_bus_scheme, pyval \<times> pyval) prog" where
  "unit_properties_of name =
     ebind check (\<lambda>_.
     ebind (gets confirmed) (\<lambda>known.
     if name \<notin> set known then raise (ValueError ''Execution unit is not retained by this connection'')
     else
     ebind (consult (GetUnit name)) (\<lambda>path.
     ebind (consult (GetAll path ''Unit'')) (\<lambda>before.
     ebind (consult (GetAll path ''Service'')) (\<lambda>service.
     ebind (consult (GetAll path ''Unit'')) (\<lambda>after.
     ebind check (\<lambda>_.
     ebind (lift (changed_between name before after)) (\<lambda>differ.
     if differ then raise (ValueError ''Execution unit changed during observation'')
     else ret (after, service)))))))))"

definition boot_id_path :: pystr where "boot_id_path = lit ''/proc/sys/kernel/random/boot_id''"

definition boot_id :: "('a unit_bus_scheme, pystr) prog" where
  "boot_id = ebind (ask_str (ReadText boot_id_path)) (\<lambda>t. ret (strip t))"

definition snapshot :: "pyval \<Rightarrow> ('a unit_bus_scheme, pyval \<times> pyval) prog" where
  "snapshot identity =
     ebind (lift (validate_identity identity)) (\<lambda>_.
     ebind boot_id (\<lambda>boot.
     if PStr boot \<noteq> field identity ''boot-id''
     then raise (ValueError ''Execution observation belongs to another machine boot'')
     else
     ebind (gets manager_identity) (\<lambda>mine.
     if \<not> py_eq (field identity ''manager'') mine
     then raise (ValueError ''Execution observation belongs to another manager'')
     else
     ebind (unit_properties_of (str_of (field identity ''unit''))) (\<lambda>(unit, service).
     ebind (lift (property_bytes unit ''InvocationID'')) (\<lambda>invocation.
     if PStr (hex invocation) \<noteq> field identity ''invocation-id''
     then raise (ValueError ''Execution invocation changed'')
     else
     ebind (lift (property_str service ''ControlGroup'')) (\<lambda>cg.
     if cg \<noteq> [] \<and> PStr cg \<noteq> field identity ''cgroup''
     then raise (ValueError ''Execution cgroup changed'')
     else ret (unit, service)))))))"

definition retain :: "pyval \<Rightarrow> ('a unit_bus_scheme, unit) prog" where
  "retain identity =
     ebind (lift (validate_identity identity)) (\<lambda>_.
     let n = str_of (field identity ''unit'') in
     ebind check (\<lambda>_.
     ebind (gets references) (\<lambda>refs.
     ebind (gets confirmed) (\<lambda>known.
     if n \<in> set refs \<and> n \<notin> set known
     then raise (ValueError ''An ambiguous reference needs a fresh observer connection'')
     else
     ebind
       (if n \<in> set refs then ret ()
        else
        ebind (modify (references_update (add_name n))) (\<lambda>_.
        ebind (consult (RefUnit n)) (\<lambda>_.
        modify (confirmed_update (add_name n)))))
       (\<lambda>_.
     ebind (snapshot identity) (\<lambda>_. ret ()))))))"

section \<open>Admission\<close>

text \<open>\<open>a or b or ...\<close>, where a test may raise\<close>

fun any_of :: "(exn + bool) list \<Rightarrow> exn + bool" where
  "any_of [] = Inr False"
| "any_of (t # ts) = rbind t (\<lambda>b. if b then Inr True else any_of ts)"

fun eany :: "('w, bool) prog list \<Rightarrow> ('w, bool) prog" where
  "eany [] = ret False"
| "eany (t # ts) = ebind t (\<lambda>b. if b then ret True else eany ts)"

definition test_str :: "pyval \<Rightarrow> string \<Rightarrow> (pystr \<Rightarrow> bool) \<Rightarrow> exn + bool" where
  "test_str v k P = rbind (property_str v k) (\<lambda>x. Inr (P x))"

definition test_int :: "pyval \<Rightarrow> string \<Rightarrow> (int \<Rightarrow> bool) \<Rightarrow> exn + bool" where
  "test_int v k P = rbind (property_int v k) (\<lambda>x. Inr (P x))"

text \<open>\<open>int(v["Job"][0])\<close>\<close>

definition job_of :: "pyval \<Rightarrow> exn + int" where
  "job_of v =
     rbind (item v ''Job'') (\<lambda>j.
     if \<not> is_list j then Inl TypeError
     else (case elements j of [] \<Rightarrow> Inl IndexError | x # _ \<Rightarrow> as_int x))"

definition not_running :: "pyval \<Rightarrow> pyval \<Rightarrow> exn + bool" where
  "not_running unit service =
     any_of [test_str unit ''ActiveState'' (\<lambda>s. s \<noteq> lit ''active''), rbind (job_of unit) (\<lambda>j. Inr (j \<noteq> 0)),
             test_int service ''MainPID'' (\<lambda>p. p \<le> 0)]"

definition other_shutdown :: "pyval \<Rightarrow> exn + bool" where
  "other_shutdown service =
     any_of [test_str service ''Type'' (\<lambda>s. s \<noteq> lit ''exec''), test_str service ''ExitType'' (\<lambda>s. s \<noteq> lit ''cgroup''),
             test_str service ''Restart'' (\<lambda>s. s \<noteq> lit ''no''),
             test_str service ''KillMode'' (\<lambda>s. s \<noteq> lit ''control-group''),
             rbind (rbind (item service ''SendSIGKILL'') as_bool) (\<lambda>b. Inr (\<not> b)),
             test_str service ''OOMPolicy'' (\<lambda>s. s \<noteq> lit ''kill''),
             test_int service ''RuntimeMaxUSec'' (\<lambda>n. \<not> (0 < n \<and> n \<le> 630000000)),
             test_int service ''TimeoutStopUSec'' (\<lambda>n. \<not> (0 < n \<and> n \<le> 2000000))]"

definition bound_file :: "pystr \<Rightarrow> string \<Rightarrow> int \<Rightarrow> ('a unit_bus_scheme, bool) prog" where
  "bound_file cg name limit =
     ebind (ask_str (ReadText (in_cgroup cg name))) (\<lambda>t.
     lift (rbind (int_10 t) (\<lambda>n. Inr (\<not> (0 < n \<and> n \<le> limit)))))"

definition exact_file :: "pystr \<Rightarrow> string \<Rightarrow> string \<Rightarrow> ('a unit_bus_scheme, bool) prog" where
  "exact_file cg name text =
     ebind (ask_str (ReadText (in_cgroup cg name))) (\<lambda>t. ret (strip t \<noteq> lit text))"

definition other_bounds :: "pystr \<Rightarrow> pyval \<Rightarrow> ('a unit_bus_scheme, bool) prog" where
  "other_bounds cg policy =
     eany [bound_file cg ''memory.max'' (policy_int policy ''memory-bytes''),
           exact_file cg ''memory.swap.max'' ''0'',
           bound_file cg ''pids.max'' (policy_int policy ''max-tasks''),
           exact_file cg ''memory.oom.group'' ''1'']"

definition cpu_bound :: "pystr \<Rightarrow> exn + bool" where
  "cpu_bound text =
     (case words_of text of
        [q, p] \<Rightarrow> rbind (int_10 q) (\<lambda>quota. rbind (int_10 p) (\<lambda>period. Inr (0 < quota \<and> quota \<le> period)))
      | _ \<Rightarrow> Inl (ValueError ''unpack''))"

definition observed_identity :: "pyval \<Rightarrow> pystr \<Rightarrow> bytes \<Rightarrow> pystr \<Rightarrow> pyval \<Rightarrow> pyval" where
  "observed_identity name boot invocation cg manager =
     PDict [(lit ''version'', PInt 1), (lit ''unit'', name), (lit ''boot-id'', PStr boot),
            (lit ''invocation-id'', PStr (hex invocation)), (lit ''cgroup'', PStr cg), (lit ''manager'', manager)]"

definition capture :: "pyval \<Rightarrow> ('a unit_bus_scheme, pyval) prog" where
  "capture name =
     ebind (lift (validate_name name)) (\<lambda>_.
     ebind (gets launched) (\<lambda>mine.
     if str_of name \<notin> set mine then raise (ValueError ''A lost launch reply never authorizes execution'')
     else
     ebind (unit_properties_of (str_of name)) (\<lambda>(unit, service).
     ebind boot_id (\<lambda>boot.
     ebind (lift (property_bytes unit ''InvocationID'')) (\<lambda>invocation.
     ebind (lift (property_str service ''ControlGroup'')) (\<lambda>cg.
     ebind (gets manager_identity) (\<lambda>manager.
     ebind (lift (validate_identity (observed_identity name boot invocation cg manager))) (\<lambda>identity.
     ebind (lift (not_running unit service)) (\<lambda>bad.
     if bad then raise (ValueError ''Execution guard is not in its ready running unit'')
     else
     ebind (lift (other_shutdown service)) (\<lambda>bad.
     if bad then raise (ValueError ''Execution unit shutdown policy differs from its envelope'')
     else
     ebind (gets bus_policy) (\<lambda>policy.
     ebind (other_bounds cg policy) (\<lambda>bad.
     if bad then raise (ValueError ''Effective execution memory/process bounds differ'')
     else
     ebind (ask_str (ReadText (in_cgroup cg ''cpu.max''))) (\<lambda>cpu.
     ebind (lift (cpu_bound cpu)) (\<lambda>ok.
     if \<not> ok then raise (ValueError ''Effective execution CPU bound differs'')
     else
     ebind (lift (property_int service ''MainPID'')) (\<lambda>main.
     ebind (ask_str (ReadText (proc_file main ''cgroup''))) (\<lambda>actual.
     if lit ''0::'' @ cg \<notin> set (splitlines actual)
     then raise (ValueError ''Execution process is not in its claimed cgroup'')
     else
     ebind (snapshot identity) (\<lambda>_. ret identity)))))))))))))))))"

definition stop :: "pyval \<Rightarrow> ('a unit_bus_scheme, unit) prog" where
  "stop identity =
     ebind (snapshot identity) (\<lambda>_.
     ebind (consult (StopUnit (str_of (field identity ''unit'')))) (\<lambda>_. ret ()))"

definition abort_launch :: "pyval \<Rightarrow> ('a unit_bus_scheme, unit) prog" where
  "abort_launch name =
     ebind (lift (validate_name name)) (\<lambda>_.
     ebind (gets launched) (\<lambda>mine.
     if str_of name \<notin> set mine then raise (ValueError ''Cannot abort an unknown or reattached launch'')
     else
     ebind (unit_properties_of (str_of name)) (\<lambda>_.
     ebind (consult (StopUnit (str_of name))) (\<lambda>_. ret ()))))"

section \<open>Waiting for the physical stop\<close>

text \<open>The variables of \<open>wait_stopped\<close> that its timers assign.\<close>

record waiting =
  expired :: bool
  failure :: "exn option"
  ticking :: bool

type_synonym 'w tick = "('w, unit) prog"

text \<open>One source of the event loop: the new variables, whether the loop was told to quit, the world.\<close>

fun dispatch ::
  "('a unit_bus_scheme) tick \<Rightarrow> bus_event \<Rightarrow> waiting \<times> bool \<times> 'a unit_bus_scheme
     \<Rightarrow> waiting \<times> bool \<times> 'a unit_bus_scheme" where
  "dispatch tick Expire (v, quit, w) = (if expired v then (v, quit, w) else (v\<lparr>expired := True\<rparr>, True, w))"
| "dispatch tick Tick (v, quit, w) =
     (if \<not> ticking v then (v, quit, w)
      else (case tick w of
              (Inr _, w') \<Rightarrow> (v, quit \<or> generation w' \<noteq> generation w, w')
            | (Inl e, w') \<Rightarrow> (v\<lparr>failure := Some e, ticking := False\<rparr>, True, w')))"
| "dispatch tick e (v, quit, w) = (v, quit \<or> generation (signal e w) \<noteq> generation w, signal e w)"

fun run_loop ::
  "nat \<Rightarrow> ('a unit_bus_scheme) tick \<Rightarrow> waiting \<Rightarrow> ('a unit_bus_scheme, waiting) prog" where
  "run_loop 0 tick v w = (Inl out_of_fuel, w)"
| "run_loop (Suc n) tick v w =
     (case replies w of
        [] \<Rightarrow> (Inl blocked, w)
      | (events, _) # rest \<Rightarrow>
          (case fold (dispatch tick) events
                  (v, False, w\<lparr>replies := rest, calls := calls w @ [\<lparr>asked = RunLoop, answered = Inr PNone, files_then = fs w\<rparr>]\<rparr>) of
             (v', quit, w') \<Rightarrow> if quit then (Inr v', w') else run_loop n tick v' w'))"

definition terminal_states :: "pystr list" where
  "terminal_states = [lit ''inactive'', lit ''failed'']"

definition looks_stopped :: "pyval \<Rightarrow> pyval \<Rightarrow> pystr \<Rightarrow> ('a unit_bus_scheme, bool) prog" where
  "looks_stopped unit service cg =
     ebind
       (lift (any_of [test_str unit ''ActiveState'' (\<lambda>s. s \<notin> set terminal_states),
                      rbind (job_of unit) (\<lambda>j. Inr (j \<noteq> 0)), test_int service ''MainPID'' (\<lambda>p. p \<noteq> 0)]))
       (\<lambda>busy. if busy then ret False else cgroup_empty cg)"

definition stop_observation :: "pyval \<Rightarrow> pystr \<Rightarrow> pystr \<Rightarrow> int \<Rightarrow> pyval" where
  "stop_observation identity state result now =
     PDict [(lit ''version'', PInt 1), (lit ''identity'', identity), (lit ''state'', PStr state),
            (lit ''result'', PStr result), (lit ''observed-monotonic-ns'', PInt now)]"

definition final_observation :: "pyval \<Rightarrow> pyval \<Rightarrow> ('a unit_bus_scheme, pyval) prog" where
  "final_observation identity service =
     ebind (snapshot identity) (\<lambda>(final, _).
     ebind (lift (property_str final ''ActiveState'')) (\<lambda>state.
     ebind (if state \<notin> set terminal_states then ret True
            else ebind (lift (job_of final)) (\<lambda>j. ret (j \<noteq> 0))) (\<lambda>changed.
     if changed then raise (ValueError ''Execution unit changed during shutdown observation'')
     else
     ebind (lift (property_str service ''Result'')) (\<lambda>result.
     ebind (ask_int Monotonic) (\<lambda>now.
     ret (stop_observation identity state result now))))))"

fun wait_loop ::
  "nat \<Rightarrow> ('a unit_bus_scheme) tick \<Rightarrow> pyval \<Rightarrow> int \<Rightarrow> waiting \<Rightarrow> ('a unit_bus_scheme, pyval) prog" where
  "wait_loop 0 tick identity deadline v = raise out_of_fuel"
| "wait_loop (Suc n) tick identity deadline v =
     (case failure v of
        Some e \<Rightarrow> raise e
      | None \<Rightarrow>
          ebind (gets generation) (\<lambda>g.
          ebind (snapshot identity) (\<lambda>(unit, service).
          ebind (looks_stopped unit service (str_of (field identity ''cgroup''))) (\<lambda>stopped.
          if stopped then final_observation identity service
          else
          ebind (if expired v then ret True else ebind (ask_int Monotonic) (\<lambda>now. ret (deadline \<le> now))) (\<lambda>late.
          if late then raise (PyTimeoutError ''Physical execution shutdown remains unknown'')
          else
          ebind (gets generation) (\<lambda>g'.
          ebind (if g = g' then run_loop n tick v else ret v) (\<lambda>v'.
          wait_loop n tick identity deadline v')))))))"

text \<open>\<open>limit\<close> is the time to wait in milliseconds; the clock counts nanoseconds.\<close>

definition wait_stopped ::
  "nat \<Rightarrow> pyval \<Rightarrow> int \<Rightarrow> ('a unit_bus_scheme) tick option \<Rightarrow> ('a unit_bus_scheme, pyval) prog" where
  "wait_stopped fuel identity limit on_tick =
     (if \<not> (0 < limit \<and> limit \<le> 660000) then raise (ValueError ''Invalid finite observation deadline'')
      else
      ebind (ask_int Monotonic) (\<lambda>now.
      ebind (case on_tick of None \<Rightarrow> ret () | Some tick \<Rightarrow> tick) (\<lambda>_.
      wait_loop fuel (case on_tick of None \<Rightarrow> ret () | Some tick \<Rightarrow> tick) identity (now + limit * 1000000)
        \<lparr>expired = False, failure = None, ticking = (on_tick \<noteq> None)\<rparr>)))"

text \<open>\<open>set.remove\<close> raises when the name is not there.\<close>

definition remove_name :: "pystr \<Rightarrow> pystr list \<Rightarrow> exn + pystr list" where
  "remove_name n s = (if n \<in> set s then Inr (drop_name n s) else Inl KeyError)"

definition release :: "nat \<Rightarrow> pyval \<Rightarrow> ('a unit_bus_scheme, unit) prog" where
  "release fuel identity =
     ebind (wait_stopped fuel identity 1000 None) (\<lambda>_.
     let n = str_of (field identity ''unit'') in
     ebind (consult (UnrefUnit n)) (\<lambda>_.
     ebind (gets references) (\<lambda>refs.
     ebind (lift (remove_name n refs)) (\<lambda>refs'.
     ebind (modify (references_update (\<lambda>_. refs'))) (\<lambda>_.
     ebind (gets confirmed) (\<lambda>known.
     ebind (lift (remove_name n known)) (\<lambda>known'.
     ebind (modify (confirmed_update (\<lambda>_. known'))) (\<lambda>_.
     modify (launched_update (drop_name n))))))))))"

definition close_bus :: "('a unit_bus_scheme, unit) prog" where
  "close_bus =
     ebind (gets references) (\<lambda>refs.
     if refs \<noteq> [] then raise (ValueError ''Retained units need sealed shutdown observations before close'')
     else ebind (consult CloseBus) (\<lambda>_. ret ()))"

end
