(* ===== verification/Mcp_Client.thy ===== *)
theory Mcp_Client
  imports Py_Web Py_Files
begin

text \<open>
  \<^verbatim>\<open>scripts/mcp_client.py\<close>: which destinations may receive a credential, the private session file, and
  the exchange of a login session for a short-lived MCP credential with at most one refresh, saved
  before it is used.  A path is the inode of its directory and a name; \<open>Path.expanduser\<close>, the creation
  of the parent directory and the argument parser are not modelled.
\<close>

section \<open>Destinations\<close>

definition loopback :: "pystr \<Rightarrow> bool" where
  "loopback h \<longleftrightarrow> list_ex (\<lambda>s. h = lit s) [''127.0.0.1'', ''::1'', ''localhost'']"

definition origin_text :: "pystr \<Rightarrow> exn + pystr" where
  "origin_text s =
     rbind (urlsplit s) (\<lambda>u.
     if hostname u = [] \<or> fst (userinfo u) \<noteq> [] \<or> snd (userinfo u) \<noteq> [] \<or> query u \<noteq> [] \<or> fragment u \<noteq> []
        \<or> \<not> (url_path u = [] \<or> url_path u = [47])
        \<or> \<not> (scheme u = lit ''https'' \<or> (scheme u = lit ''http'' \<and> loopback (hostname u)))
     then Inl (ValueError ''Use an HTTPS origin, or HTTP on loopback only'')
     else Inr (urlunsplit (origin_part u)))"

text \<open>\<open>urlsplit\<close> of a value that is not a string: the false ones read as the empty URL.\<close>

fun origin :: "pyval \<Rightarrow> exn + pystr" where
  "origin (PStr s) = origin_text s"
| "origin (PList xs) = Inl TypeError"
| "origin (PDict d) = Inl TypeError"
| "origin v = (if truthy v then Inl AttributeError else origin_text [])"

definition plain_url :: "pystr \<Rightarrow> bool" where
  "plain_url s \<longleftrightarrow> 1 \<le> length s \<and> length s \<le> 2048 \<and> \<not> list_ex (\<lambda>c. c < 32 \<or> c = 127) s"

definition mcp_endpoint :: "pyval \<Rightarrow> exn + pystr" where
  "mcp_endpoint value =
     (if \<not> is_str value \<or> \<not> plain_url (str_of value)
      then Inl (ValueError ''Expected a canonical MCP destination'')
      else
      rbind (urlsplit (str_of value)) (\<lambda>parsed.
      rbind (origin_text (urlunsplit (origin_part parsed))) (\<lambda>_.
      if urlunsplit parsed \<noteq> str_of value \<or> url_path parsed \<noteq> lit ''/mcp'' \<or> query parsed \<noteq> []
         \<or> fragment parsed \<noteq> []
      then Inl (ValueError ''Expected a canonical /mcp destination'')
      else Inr (str_of value))))"

section \<open>Authenticated requests\<close>

definition bearer :: "pyval \<Rightarrow> exn + pystr" where
  "bearer token = (if is_str token then Inr (lit ''Bearer '' @ str_of token) else Inl TypeError)"

definition auth_headers :: "pyval \<Rightarrow> exn + (string \<times> pystr) list" where
  "auth_headers token =
     (let common = [(''Content-Type'', lit ''application/json''), (''Accept'', lit ''application/json'')] in
      if truthy token then rbind (bearer token) (\<lambda>b. Inr (common @ [(''Authorization'', b)])) else Inr common)"

definition auth_limit :: nat where "auth_limit = 1048576"

definition post :: "'w transport \<Rightarrow> pystr \<Rightarrow> string \<Rightarrow> pyval \<Rightarrow> pyval \<Rightarrow> ('w, pyval) prog" where
  "post net base route message token =
     ebind (lift (auth_headers token)) (\<lambda>hs.
     ebind (lift (origin_text base)) (\<lambda>site.
     ebind (open_url net \<lparr>target = site @ lit route, verb = ''POST'', header_list = hs,
                          payload = Some (dumps_bytes fmt_default (if truthy message then message else PDict []))\<rparr>)
       (\<lambda>response.
     let received = take (auth_limit + 1) (answer response) in
     if auth_limit < length received then raise (ValueError ''Authentication response too large'')
     else lift (loads_bytes received))))"

section \<open>The session file\<close>

definition private_info :: "nat \<Rightarrow> stat_info \<Rightarrow> bool" where
  "private_info u info \<longleftrightarrow> st_kind info = Reg \<and> st_uid info = u \<and> st_mode info mod 64 = 0"

definition check_private :: "nat \<Rightarrow> ('a posix_scheme, nat) prog" where
  "check_private fd =
     ebind (sys_fstat fd) (\<lambda>info.
     ebind (gets uid) (\<lambda>u.
     if private_info u info then ret fd
     else raise (ValueError ''Credential and lock files must be owned by you with mode 600'')))"

text \<open>\<open>private_file\<close> with \<open>O_RDONLY\<close>, and with \<open>O_CREAT | O_RDWR\<close>\<close>

definition private_file :: "nat \<Rightarrow> pystr \<Rightarrow> bool \<Rightarrow> ('a posix_scheme, nat) prog" where
  "private_file d n create =
     ebind (if create then sys_open_create d n 384 else sys_open d n) check_private"

definition session_staging :: pystr where "session_staging = lit ''.mcp-session-''"

definition save :: "nat \<Rightarrow> pystr \<Rightarrow> pyval \<Rightarrow> ('a posix_scheme, unit) prog" where
  "save d n session =
     ebind (mkstemp d session_staging) (\<lambda>(fd, name).
     try_finally
       (ebind (sys_write fd (dumps_bytes fmt_default session)) (\<lambda>_.
        ebind (sys_fsync fd) (\<lambda>_.
        sys_replace d name n)))
       (ebind (sys_exists d name) (\<lambda>there. if there then sys_unlink d name else ret ())))"

section \<open>Exchange\<close>

definition mode_of :: "pyval \<Rightarrow> exn + pyval" where
  "mode_of v = get_or v ''mode'' (PStr (lit ''read''))"

definition mcp_mode :: "pyval \<Rightarrow> exn + pyval" where
  "mcp_mode session = get_or session ''mcp_mode'' (PStr (lit ''read''))"

definition credential :: "'w transport \<Rightarrow> pystr \<Rightarrow> pyval \<Rightarrow> pyval \<Rightarrow> ('w, pyval) prog" where
  "credential net base md session =
     ebind (lift (item session ''access_token'')) (\<lambda>token.
     ebind (post net base ''/auth/mcp-token'' (PDict [(lit ''mode'', md)]) token) (\<lambda>result.
     ebind (lift (mode_of result)) (\<lambda>m.
     if \<not> py_eq m md then raise (ValueError ''Server did not issue the requested MCP mode'') else ret result)))"

definition set_field :: "pyval \<Rightarrow> string \<Rightarrow> pyval \<Rightarrow> pyval" where
  "set_field v k x = PDict (dict_set (items v) (lit k) x)"

text \<open>The renewed session: the new access token, and the new refresh token when there is one.\<close>

definition renew :: "'w transport \<Rightarrow> pystr \<Rightarrow> pyval \<Rightarrow> ('w, pyval) prog" where
  "renew net base session =
     ebind (lift (item session ''refresh_token'')) (\<lambda>refresh.
     ebind (post net base ''/auth/refresh'' (PDict [(lit ''refresh_token'', refresh)]) PNone) (\<lambda>renewed.
     ebind (lift (get renewed ''access_token'')) (\<lambda>access.
     if \<not> truthy access then raise (ValueError ''Login session cannot be renewed'')
     else
     ebind (lift (get renewed ''refresh_token'')) (\<lambda>next.
     let session = set_field session ''access_token'' access in
     ret (if truthy next then set_field session ''refresh_token'' next else session)))))"

definition mode_names :: "string list" where
  "mode_names = [''read'', ''work'', ''worker-control'']"

definition exchange ::
  "('a posix_scheme) transport \<Rightarrow> nat \<Rightarrow> pystr \<Rightarrow> pyval \<Rightarrow> ('a posix_scheme, pyval) prog" where
  "exchange net d n session =
     ebind (lift (rbind (item session ''origin'') origin)) (\<lambda>base.
     ebind (lift (mcp_mode session)) (\<lambda>md.
     if \<not> list_ex (\<lambda>m. py_eq md (PStr (lit m))) mode_names then raise (ValueError ''Unknown MCP access mode'')
     else
     ebind
       (try_except (ebind (credential net base md session) (\<lambda>r. ret (Some r)))
          (\<lambda>e. if e = HTTPError 401 then ret None else raise e))
       (\<lambda>first.
     case first of
       Some result \<Rightarrow> ret result
     | None \<Rightarrow>
         ebind (renew net base session) (\<lambda>session.
         ebind (save d n session) (\<lambda>_.
         credential net base md session)))))"

section \<open>The operator's helper\<close>

definition session_limit :: nat where "session_limit = 1048576"

text \<open>\<open>with os.fdopen(private_file(...)) as stream: stream.read(limit)\<close>\<close>

definition read_private :: "nat \<Rightarrow> pystr \<Rightarrow> ('a posix_scheme, pystr) prog" where
  "read_private d n =
     ebind (private_file d n False) (\<lambda>fd.
     ebind (sys_read_all fd) (\<lambda>b. lift (text_of b)))"

definition with_session_lock :: "nat \<Rightarrow> pystr \<Rightarrow> ('a posix_scheme, 'b) prog \<Rightarrow> ('a posix_scheme, 'b) prog" where
  "with_session_lock d n body =
     ebind (private_file d (n @ lit ''.lock'') True) (\<lambda>lock.
     ebind (flock_wait lock) (\<lambda>_. try_finally body (release_lock lock)))"

definition usable_token :: "pyval \<Rightarrow> exn + pystr" where
  "usable_token result =
     rbind (get result ''token'') (\<lambda>token.
     if \<not> is_str token \<or> str_of token = [] then Inl (ValueError ''No MCP credential returned'')
     else Inr (str_of token))"

definition bound_endpoint :: "pyval \<Rightarrow> exn + pystr" where
  "bound_endpoint session =
     rbind (rbind (item session ''origin'') origin) (\<lambda>site.
     rbind (get_or session ''mcp_endpoint'' (PStr (site @ lit ''/mcp''))) mcp_endpoint)"

definition session_credential ::
  "('a posix_scheme) transport \<Rightarrow> nat \<Rightarrow> pystr \<Rightarrow> pyval \<Rightarrow> pyval \<Rightarrow> ('a posix_scheme, pystr) prog" where
  "session_credential net d n expected_mode expected_endpoint =
     with_session_lock d n
       (ebind (read_private d n) (\<lambda>text.
        let encoded = take (session_limit + 1) text in
        if session_limit < length encoded then raise (ValueError ''Private MCP session exceeds its bound'')
        else
        ebind (lift (loads_text default_hooks encoded)) (\<lambda>session.
        ebind (lift (mcp_mode session)) (\<lambda>m.
        if \<not> py_eq m expected_mode then raise (ValueError ''Explicit matching MCP login mode is required'')
        else
        ebind (lift (mcp_endpoint expected_endpoint)) (\<lambda>destination.
        ebind (lift (bound_endpoint session)) (\<lambda>bound.
        if destination \<noteq> bound
        then raise (ValueError ''MCP destination differs from the private login binding'')
        else
        ebind (exchange net d n session) (\<lambda>result. lift (usable_token result))))))))"

section \<open>The command line\<close>

record login_args =
  login_origin :: pystr
  login_email :: "pystr option"
  login_access :: "pystr option"
  login_endpoint :: "pystr option"

text \<open>\<open>ask\<close> is \<open>input\<close> and \<open>getpass\<close>: the answers of the person at the terminal.\<close>

definition login ::
  "('a posix_scheme) transport \<Rightarrow> (string \<Rightarrow> exn + pystr) \<Rightarrow> nat \<Rightarrow> pystr \<Rightarrow> login_args
     \<Rightarrow> ('a posix_scheme, unit) prog" where
  "login net ask d n args =
     with_session_lock d n
       (ebind (lift (origin_text (login_origin args))) (\<lambda>base.
        ebind (lift (mcp_endpoint (PStr (case login_endpoint args of
            Some e \<Rightarrow> if e \<noteq> [] then e else base @ lit ''/mcp'' | None \<Rightarrow> base @ lit ''/mcp'')))) (\<lambda>endpoint.
        ebind (lift (case login_email args of
            Some e \<Rightarrow> if e \<noteq> [] then Inr e else ask ''Simmis email: '' | None \<Rightarrow> ask ''Simmis email: '')) (\<lambda>email.
        ebind (lift (ask ''Password: '')) (\<lambda>password.
        ebind (post net base ''/auth/login''
                 (PDict [(lit ''email'', PStr email), (lit ''password'', PStr password)]) PNone) (\<lambda>result.
        ebind (lift (item result ''access_token'')) (\<lambda>access.
        ebind (lift (item result ''refresh_token'')) (\<lambda>refresh.
        let md = PStr (case login_access args of Some a \<Rightarrow> a | None \<Rightarrow> lit ''read'');
            session = PDict [(lit ''origin'', PStr base), (lit ''access_token'', access),
                             (lit ''refresh_token'', refresh), (lit ''mcp_mode'', md),
                             (lit ''mcp_endpoint'', PStr endpoint)] in
        ebind (credential net base md session) (\<lambda>_.
        ebind (sys_exists d n) (\<lambda>there.
        ebind (if there then private_file d n False else ret 0) (\<lambda>_.
        save d n session)))))))))))"

definition bearer_header :: "pystr \<Rightarrow> pyval" where
  "bearer_header token = PDict [(lit ''Authorization'', PStr (lit ''Bearer '' @ token))]"

definition print_headers ::
  "('a posix_scheme) transport \<Rightarrow> nat \<Rightarrow> pystr \<Rightarrow> ('a posix_scheme, pystr) prog" where
  "print_headers net d n =
     with_session_lock d n
       (ebind (read_private d n) (\<lambda>text.
        ebind (lift (loads_text default_hooks text)) (\<lambda>session.
        ebind (exchange net d n session) (\<lambda>result.
        ebind (lift (usable_token result)) (\<lambda>token.
        ret (render fmt_default (bearer_header token)))))))"

end
