(* ===== verification/Mcp_Workspace.thy ===== *)
theory Mcp_Workspace
  imports Mcp_Client Py_Sha256 Py_Chunks
begin

text \<open>
  \<^verbatim>\<open>scripts/mcp_workspace.py\<close>: the MCP client (a session over authenticated JSON-RPC requests) and the
  download of a verified snapshot, published under a new name only.
\<close>

section \<open>The client\<close>

text \<open>
  The object's fields; \<open>lease_proof\<close> is None for a client without one.  The inactivity timeout is an
  int at every call of the scripts.
\<close>

record mcp =
  mcp_url :: pystr
  mcp_token :: pystr
  session :: "pystr option"
  sequence :: nat
  lease_proof :: "pystr option"
  timeout :: int

definition MCP :: "pyval \<Rightarrow> pystr \<Rightarrow> pystr option \<Rightarrow> int \<Rightarrow> exn + mcp" where
  "MCP url token proof seconds =
     (if \<not> is_str url \<or> \<not> plain_url (str_of url)
      then Inl (ValueError ''Use a canonical MCP endpoint'')
      else
      rbind (urlsplit (str_of url)) (\<lambda>parsed.
      if urlunsplit parsed \<noteq> str_of url then Inl (ValueError ''Use a canonical MCP endpoint'')
      else
      rbind (origin_text (urlunsplit (origin_part parsed))) (\<lambda>_.
      if url_path parsed \<noteq> lit ''/mcp'' \<or> query parsed \<noteq> [] \<or> fragment parsed \<noteq> []
      then Inl (ValueError ''Use the /mcp endpoint without query or fragment'')
      else if (case proof of None \<Rightarrow> False | Some p \<Rightarrow> \<not> full_token 43 p)
      then Inl (ValueError ''Invalid worker claim proof'')
      else if \<not> (0 < seconds \<and> seconds \<le> 30)
      then Inl (ValueError ''Invalid MCP socket inactivity timeout'')
      else Inr \<lparr>mcp_url = str_of url, mcp_token = token, session = None, sequence = 0, lease_proof = proof,
                timeout = seconds\<rparr>)))"

definition is_notification :: "string \<Rightarrow> bool" where
  "is_notification method \<longleftrightarrow> take (length ''notifications/'') method = ''notifications/''"

definition has_session :: "mcp \<Rightarrow> bool" where
  "has_session m \<longleftrightarrow> (case session m of None \<Rightarrow> False | Some s \<Rightarrow> s \<noteq> [])"

definition authorization :: "mcp \<Rightarrow> string \<times> pystr" where
  "authorization m = (''Authorization'', lit ''Bearer '' @ mcp_token m)"

definition proof_header :: "mcp \<Rightarrow> (string \<times> pystr) list" where
  "proof_header m = (case lease_proof m of None \<Rightarrow> [] | Some p \<Rightarrow> [(''Simmis-Lease-Proof'', p)])"

definition session_header :: "mcp \<Rightarrow> (string \<times> pystr) list" where
  "session_header m = (if has_session m then [(''Mcp-Session-Id'', the (session m))] else [])"

definition rpc_headers :: "mcp \<Rightarrow> (string \<times> pystr) list" where
  "rpc_headers m =
     [authorization m, (''Content-Type'', lit ''application/json''),
      (''Accept'', lit ''application/json, text/event-stream''), (''MCP-Protocol-Version'', lit ''2025-06-18'')]
     @ proof_header m @ session_header m"

definition rpc_id :: "mcp \<Rightarrow> string \<Rightarrow> pyval" where
  "rpc_id m method = (if is_notification method then PNone else PInt (int (sequence m)))"

definition rpc_body :: "mcp \<Rightarrow> string \<Rightarrow> pyval \<Rightarrow> pyval" where
  "rpc_body m method params =
     PDict ([(lit ''jsonrpc'', PStr (lit ''2.0'')), (lit ''method'', PStr (lit method)), (lit ''params'', params)]
            @ (if is_notification method then [] else [(lit ''id'', rpc_id m method)]))"

definition rpc_limit :: nat where "rpc_limit = 131072"

text \<open>What a received body means, for the id the request carried.\<close>

definition rpc_result :: "string \<Rightarrow> pyval \<Rightarrow> bytes \<Rightarrow> exn + pyval" where
  "rpc_result method ident received =
     (if rpc_limit < length received then Inl (ValueError ''MCP response exceeds limit'')
      else if received = [] \<and> is_notification method then Inr PNone
      else
      rbind (loads_bytes received) (\<lambda>result.
      if \<not> is_dict result \<or> truthy (field result ''error'') \<or> \<not> py_eq (field result ''id'') ident
      then Inl (ValueError ''MCP request refused'')
      else item result ''result''))"

text \<open>
  \<open>request\<close> also returns the object: the sequence number was counted, and the session is the one the
  server named (kept when it names none).  When the transport fails the session is unchanged.
\<close>

definition request :: "'w transport \<Rightarrow> mcp \<Rightarrow> string \<Rightarrow> pyval \<Rightarrow> 'w \<Rightarrow> (exn + pyval) \<times> mcp \<times> 'w" where
  "request net m method params w =
     (let m1 = m\<lparr>sequence := sequence m + 1\<rparr>;
          req = \<lparr>target = mcp_url m, verb = ''POST'', header_list = rpc_headers m1,
                 payload = Some (dumps_bytes fmt_default (rpc_body m1 method params))\<rparr>
      in case open_url net req w of
           (Inl e, w') \<Rightarrow> (Inl e, m1, w')
         | (Inr response, w') \<Rightarrow>
             (rpc_result method (rpc_id m1 method) (take (rpc_limit + 1) (answer response)),
              m1\<lparr>session := (case session_id response of None \<Rightarrow> session m1 | Some s \<Rightarrow> Some s)\<rparr>, w'))"

definition client_info :: pyval where
  "client_info =
     PDict [(lit ''protocolVersion'', PStr (lit ''2025-06-18'')), (lit ''capabilities'', PDict []),
            (lit ''clientInfo'', PDict [(lit ''name'', PStr (lit ''simmis-workspace'')),
                                        (lit ''version'', PStr (lit ''1''))])]"

text \<open>\<open>__enter__\<close>\<close>

definition enter :: "'w transport \<Rightarrow> mcp \<Rightarrow> 'w \<Rightarrow> (exn + unit) \<times> mcp \<times> 'w" where
  "enter net m w =
     (case request net m ''initialize'' client_info w of
        (Inl e, m1, w1) \<Rightarrow> (Inl e, m1, w1)
      | (Inr _, m1, w1) \<Rightarrow>
          (case request net m1 ''notifications/initialized'' (PDict []) w1 of
             (Inl e, m2, w2) \<Rightarrow> (Inl e, m2, w2)
           | (Inr _, m2, w2) \<Rightarrow> (Inr (), m2, w2)))"

text \<open>\<open>close\<close>: the session is forgotten whatever happens, and only an \<open>OSError\<close> is swallowed.\<close>

definition close :: "'w transport \<Rightarrow> mcp \<Rightarrow> 'w \<Rightarrow> (exn + unit) \<times> mcp \<times> 'w" where
  "close net m w =
     (if has_session m then
        (let req = \<lparr>target = mcp_url m, verb = ''DELETE'',
                    header_list = [authorization m, (''Mcp-Session-Id'', the (session m))] @ proof_header m,
                    payload = None\<rparr>
         in case open_url net req w of
              (Inl e, w') \<Rightarrow> (if is_OSError e then Inr () else Inl e, m\<lparr>session := None\<rparr>, w')
            | (Inr _, w') \<Rightarrow> (Inr (), m\<lparr>session := None\<rparr>, w'))
      else (Inr (), m, w))"

section \<open>Tool calls\<close>

text \<open>\<open>len(v)\<close> and \<open>v[0]\<close> of a value of unknown type\<close>

fun py_len :: "pyval \<Rightarrow> exn + nat" where
  "py_len (PStr s) = Inr (length s)"
| "py_len (PList xs) = Inr (length xs)"
| "py_len (PDict d) = Inr (length d)"
| "py_len v = Inl TypeError"

fun py_first :: "pyval \<Rightarrow> exn + pyval" where
  "py_first (PStr s) = (case s of [] \<Rightarrow> Inl IndexError | c # _ \<Rightarrow> Inr (PStr [c]))"
| "py_first (PList xs) = (case xs of [] \<Rightarrow> Inl IndexError | x # _ \<Rightarrow> Inr x)"
| "py_first (PDict d) = Inl KeyError"
| "py_first v = Inl TypeError"

text \<open>\<open>json.loads(v)\<close> of a value: only text can be read.\<close>

definition loads_value :: "pyval \<Rightarrow> exn + pyval" where
  "loads_value v = (if is_str v then loads_text default_hooks (str_of v) else Inl TypeError)"

definition refused :: exn where
  "refused = ValueError ''Workspace read refused; check access or restart after workspace changes''"

definition too_large :: exn where
  "too_large = ValueError ''MCP result too large; the operation may have completed. Request a bounded summary or artifact chunks; do not resubmit a write with a new request id.''"

definition tool_error :: "pyval \<Rightarrow> exn" where
  "tool_error result =
     (let structured = field result ''structuredContent'';
          error = (if is_dict structured then field structured ''error'' else PNone)
      in if is_dict error \<and> py_eq (field error ''type'') (PStr (lit ''result-too-large'')) then too_large
         else refused)"

definition structured_value :: "pyval \<Rightarrow> exn + pyval" where
  "structured_value result =
     (let structured = field result ''structuredContent'' in
      if is_dict structured
      then Inr (if key_set_is structured [''result''] then field structured ''result'' else structured)
      else Inl (ValueError ''Invalid workspace response''))"

definition tool_value :: "pyval \<Rightarrow> exn + pyval" where
  "tool_value result =
     (if \<not> is_dict result then Inl refused
      else if truthy (field result ''isError'') then Inl (tool_error result)
      else
      rbind (get_or result ''content'' (PList [])) (\<lambda>content.
      rbind (py_len content) (\<lambda>n.
      if n = 1 then
        rbind (py_first content) (\<lambda>first.
        rbind (get first ''type'') (\<lambda>t.
        if py_eq t (PStr (lit ''text'')) then rbind (item first ''text'') loads_value
        else structured_value result))
      else structured_value result)))"

definition tool_params :: "string \<Rightarrow> pyval \<Rightarrow> pyval" where
  "tool_params name arguments = PDict [(lit ''name'', PStr (lit name)), (lit ''arguments'', arguments)]"

definition call :: "'w transport \<Rightarrow> mcp \<Rightarrow> string \<Rightarrow> pyval \<Rightarrow> 'w \<Rightarrow> (exn + pyval) \<times> mcp \<times> 'w" where
  "call net m name arguments w =
     (case request net m ''tools/call'' (tool_params name arguments) w of
        (r, m', w') \<Rightarrow> (rbind r tool_value, m', w'))"

section \<open>Snapshots\<close>

definition MAX_BUNDLE :: int where "MAX_BUNDLE = 9437184"
definition CHUNK :: int where "CHUNK = 16384"

text \<open>
  The descriptor.  \<open>re.fullmatch\<close> of a value that is not text is a TypeError, and \<open>uuid.UUID\<close> of a
  malformed text a ValueError; a well-formed one is compared with its canonical text.
\<close>

definition match_hex :: "nat \<Rightarrow> pyval \<Rightarrow> exn + bool" where
  "match_hex n v = (if is_str v then Inr (full_hex n (str_of v)) else Inl TypeError)"

definition bad_descriptor :: exn where "bad_descriptor = ValueError ''Invalid snapshot descriptor''"

definition check_descriptor :: "pyval \<Rightarrow> exn + int \<times> pystr" where
  "check_descriptor v =
     (if \<not> is_dict v then Inl bad_descriptor
      else
      let size = field v ''bytes''; snapshot = field v ''snapshot''; files = field v ''files'' in
      if \<not> is_int size \<or> \<not> (1 \<le> int_of size \<and> int_of size \<le> MAX_BUNDLE)
         \<or> field v ''history'' \<noteq> PBool False
         \<or> \<not> is_int files \<or> \<not> (0 \<le> int_of files \<and> int_of files \<le> 512)
         \<or> \<not> is_str snapshot \<or> \<not> canonical_uuid_text (str_of snapshot)
      then Inl bad_descriptor
      else
      rbind (get_or v ''sha256'' (PStr [])) (\<lambda>s. rbind (match_hex 64 s) (\<lambda>ok.
      if \<not> ok then Inl bad_descriptor
      else
      rbind (get_or v ''commit'' (PStr [])) (\<lambda>c. rbind (match_hex 40 c) (\<lambda>ok.
      if \<not> ok then Inl bad_descriptor else Inr (int_of size, str_of snapshot))))))"

definition pinned_keys :: "string list" where
  "pinned_keys = [''snapshot'', ''bytes'', ''sha256'', ''commit'', ''files'', ''history'']"

text \<open>
  One chunk against the descriptor.  \<open>base64.b64decode(v, validate=True)\<close> of a value that is not
  text is a TypeError.
\<close>

definition b64_value_of :: "pyval \<Rightarrow> exn + bytes" where
  "b64_value_of v = (if is_str v then b64decode (str_of v) else Inl TypeError)"

definition check_chunk :: "pyval \<Rightarrow> int \<Rightarrow> int \<Rightarrow> pyval \<Rightarrow> exn + bytes" where
  "check_chunk descriptor nbytes offset part =
     (if \<not> is_dict part \<or> list_ex (\<lambda>k. \<not> py_eq (field part k) (field descriptor k)) pinned_keys
         \<or> \<not> is_int (field part ''offset'') \<or> int_of (field part ''offset'') \<noteq> offset
      then Inl (ValueError ''Snapshot changed or offsets do not match'')
      else
      rbind (item part ''base64'') (\<lambda>b. rbind (b64_value_of b) (\<lambda>data.
      let end = offset + int (length data) in
      if \<not> (1 \<le> int (length data) \<and> int (length data) \<le> CHUNK) \<or> nbytes < end
         \<or> (end < nbytes \<and> (\<not> is_int (field part ''next-offset'') \<or> int_of (field part ''next-offset'') \<noteq> end))
         \<or> (end = nbytes \<and> has_key part ''next-offset'')
      then Inl (ValueError ''Invalid snapshot chunk length'')
      else Inr data)))"

lemma check_chunk_Inr:
  assumes "check_chunk descriptor nbytes offset part = Inr data"
  shows "1 \<le> length data" "int (length data) \<le> CHUNK" "offset + int (length data) \<le> nbytes"
  using assms by (auto simp: check_chunk_def Let_def split: if_split_asm)

definition chunk_arguments :: "pyval \<Rightarrow> pystr \<Rightarrow> int \<Rightarrow> pyval" where
  "chunk_arguments room snapshot offset =
     PDict [(lit ''room'', room), (lit ''expected-snapshot'', PStr snapshot), (lit ''offset'', PInt offset),
            (lit ''length'', PInt CHUNK)]"

text \<open>
  The loop \<open>while offset < size\<close>: every chunk that passes the check is written to the staging file and
  counted into the digest (the chunks so far).  The offset grows, so it ends.
\<close>

type_synonym 'w tool = "string \<Rightarrow> pyval \<Rightarrow> ('w, pyval) prog"

definition save_chunk ::
  "('a posix_scheme) tool \<Rightarrow> nat \<Rightarrow> pyval \<Rightarrow> pyval \<Rightarrow> int \<Rightarrow> pystr \<Rightarrow> int \<Rightarrow> ('a posix_scheme, bytes) prog" where
  "save_chunk ask fd room descriptor nbytes snapshot offset =
     ebind (ask ''simmis_workspace-bundle-chunk'' (chunk_arguments room snapshot offset)) (\<lambda>part.
     ebind (lift (check_chunk descriptor nbytes offset part)) (\<lambda>data.
     ebind (sys_write fd data) (\<lambda>_. ret data)))"

lemma save_chunk_progress:
  assumes "save_chunk ask fd room descriptor nbytes snapshot offset w = (Inr data, w')"
  shows "1 \<le> length data" "int (length data) \<le> CHUNK" "offset + int (length data) \<le> nbytes"
  using assms check_chunk_Inr unfolding save_chunk_def
  by (fastforce simp: ebind_def split: prod.splits sum.splits)+

lemma save_chunk_shrinks:
  assumes "(Inr data, w') = save_chunk ask fd room descriptor nbytes snapshot offset w" and "offset < nbytes"
  shows "nat (nbytes - (offset + int (length data))) < nat (nbytes - offset)"
  using save_chunk_progress(1) [OF assms(1) [symmetric]] assms(2) by auto

function download_loop ::
  "('a posix_scheme) tool \<Rightarrow> nat \<Rightarrow> pyval \<Rightarrow> pyval \<Rightarrow> int \<Rightarrow> pystr \<Rightarrow> bytes list \<Rightarrow> int \<Rightarrow> 'a posix_scheme
     \<Rightarrow> (exn + bytes list) \<times> 'a posix_scheme" where
  "download_loop ask fd room descriptor nbytes snapshot chunks offset w =
     (if offset < nbytes then
        (case save_chunk ask fd room descriptor nbytes snapshot offset w of
           (Inl e, w') \<Rightarrow> (Inl e, w')
         | (Inr data, w') \<Rightarrow>
             download_loop ask fd room descriptor nbytes snapshot (chunks @ [data])
               (offset + int (length data)) w')
      else (Inr chunks, w))"
  by pat_completeness auto
termination
  by (relation "measure (\<lambda>(ask, fd, room, descriptor, nbytes, snapshot, chunks, offset, w). nat (nbytes - offset))")
    (auto dest: save_chunk_shrinks)

declare download_loop.simps [simp del]

definition bundle_staging :: pystr where "bundle_staging = lit ''.simmis-bundle-''"

text \<open>\<open>download\<close> into the directory \<open>d\<close> of the destination, under the name \<open>n\<close>\<close>

definition download ::
  "('a posix_scheme) tool \<Rightarrow> pyval \<Rightarrow> nat \<Rightarrow> pystr \<Rightarrow> ('a posix_scheme, pyval) prog" where
  "download ask room d n =
     ebind (ask ''simmis_workspace-bundle'' (PDict [(lit ''room'', room)])) (\<lambda>descriptor.
     ebind (lift (check_descriptor descriptor)) (\<lambda>(nbytes, snapshot).
     ebind (mkstemp d bundle_staging) (\<lambda>(fd, staged).
     ebind
       (try_finally
          (ebind (\<lambda>w. download_loop ask fd room descriptor nbytes snapshot [] 0 w) (\<lambda>chunks.
           if sha256_hex (concat chunks) \<noteq> str_of (field descriptor ''sha256'')
           then raise (ValueError ''Snapshot digest mismatch'')
           else
           ebind (sys_fsync fd) (\<lambda>_.
           sys_link d staged n)))
          (sys_unlink d staged))
       (\<lambda>_. ret descriptor))))"

section \<open>The program\<close>

text \<open>The connection is a part of the world, so that the download can call it.\<close>

record workspace = posix +
  connection :: mcp

definition call_tool :: "('a workspace_scheme) transport \<Rightarrow> ('a workspace_scheme) tool" where
  "call_tool net name arguments w =
     (case call net (connection w) name arguments w of (r, m, w') \<Rightarrow> (r, w'\<lparr>connection := m\<rparr>))"

definition with_mcp ::
  "('a workspace_scheme) transport \<Rightarrow> mcp \<Rightarrow> ('a workspace_scheme, 'b) prog \<Rightarrow> ('a workspace_scheme, 'b) prog" where
  "with_mcp net m body w =
     (case enter net m w of
        (Inl e, m1, w1) \<Rightarrow> (Inl e, w1\<lparr>connection := m1\<rparr>)
      | (Inr _, m1, w1) \<Rightarrow>
          try_finally body
            (\<lambda>w. case close net (connection w) w of (r, m2, w2) \<Rightarrow> (r, w2\<lparr>connection := m2\<rparr>))
            (w1\<lparr>connection := m1\<rparr>))"

definition stored_token :: "('a posix_scheme) transport \<Rightarrow> nat \<Rightarrow> pystr \<Rightarrow> ('a posix_scheme, pyval) prog" where
  "stored_token net d n =
     with_session_lock d n
       (ebind (read_private d n) (\<lambda>text.
        ebind (lift (loads_text default_hooks text)) (\<lambda>session.
        ebind (exchange net d n session) (\<lambda>result. lift (item result ''token'')))))"

text \<open>\<open>output\<close> is the destination as given, the inode of its directory and its name.\<close>

definition workspace_main ::
  "('a workspace_scheme) transport \<Rightarrow> nat \<times> pystr \<Rightarrow> pystr \<Rightarrow> pystr \<Rightarrow> pystr \<times> nat \<times> pystr
     \<Rightarrow> ('a workspace_scheme, pystr) prog" where
  "workspace_main net login_file url room output =
     ebind (stored_token net (fst login_file) (snd login_file)) (\<lambda>token.
     ebind (lift (MCP (PStr url) (str_of token) None 30)) (\<lambda>m.
     if \<not> is_str token then raise TypeError
     else
     ebind (with_mcp net m (download (call_tool net) (PStr room) (fst (snd output)) (snd (snd output))))
       (\<lambda>descriptor.
     ret (render fmt_default (PDict (dict_of ((lit ''output'', PStr (fst output)) # items descriptor)))))))"

end
