(* ===== verification/Worker_Journal.thy ===== *)
theory Worker_Journal
  imports Worker_Claim Worker_Unit Mcp_Workspace
begin

text \<open>
  \<^verbatim>\<open>scripts/worker_journal.py\<close>: the private journal of one Run.  Four phases, each an immutable file that
  names the digest of the phase before; a chain is read back, validated and synced before it counts,
  and a phase is published once, durably.  \<open>unresolved\<close> inspects every Run of a worker.
\<close>

section \<open>Records\<close>

definition PHASES :: "string list" where
  "PHASES = [''launch'', ''admitted'', ''stopped'', ''acknowledged'']"

definition MAX_RECORD_BYTES :: nat where "MAX_RECORD_BYTES = MAX_REQUEST_BYTES"

definition encode :: "pyval \<Rightarrow> exn + bytes" where
  "encode value =
     (case utf8_encode (render fmt_canonical (sort_keys value)) of None \<Rightarrow> Inl UnicodeError | Some b \<Rightarrow> Inr b)"

definition digest :: "pyval \<Rightarrow> exn + pystr" where
  "digest value = rbind (encode value) (\<lambda>b. Inr (sha256_hex b))"

definition closed_record :: "pyval \<Rightarrow> string list \<Rightarrow> exn + unit" where
  "closed_record value ks =
     (if \<not> is_dict value \<or> \<not> key_set_is value ks
      then Inl (ValueError ''Unexpected private journal fields'') else Inr ())"

definition record_name :: "string \<Rightarrow> pystr" where
  "record_name phase = lit phase @ lit ''.json''"

definition malformed_record :: exn where
  "malformed_record = ValueError ''Malformed private journal record''"

text \<open>What the bytes of a record mean: canonical JSON of a dict.\<close>

definition parse_canonical :: "bytes \<Rightarrow> exn + pyval" where
  "parse_canonical encoded =
     rbind (strict_loads encoded) (\<lambda>value.
     if \<not> is_dict value then Inl (ValueError ''Private journal encoding is not canonical'')
     else
     rbind (encode value) (\<lambda>b.
     if b \<noteq> encoded then Inl (ValueError ''Private journal encoding is not canonical'') else Inr value))"

definition parse_record :: "bytes \<Rightarrow> exn + pyval" where
  "parse_record encoded =
     (case parse_canonical encoded of
        Inl e \<Rightarrow> if is_ValueError e then Inl malformed_record else Inl e
      | Inr value \<Rightarrow> Inr value)"

definition bound_error :: exn where
  "bound_error = ValueError ''Private journal record exceeds its bound''"

definition read_present :: "nat \<Rightarrow> pystr \<Rightarrow> stat_info \<Rightarrow> ('a posix_scheme, pyval) prog" where
  "read_present directory name inspected =
     ebind (check_regular inspected) (\<lambda>_.
     if MAX_RECORD_BYTES < st_size inspected then raise bound_error
     else
     ebind (sys_open directory name) (\<lambda>fd.
     ebind (sys_fstat fd) (\<lambda>current.
     ebind (check_regular current) (\<lambda>_.
     if st_ino current \<noteq> st_ino inspected
     then raise (ValueError ''Private journal record changed during open'')
     else
     ebind (sys_read fd (MAX_RECORD_BYTES + 1)) (\<lambda>encoded.
     if MAX_RECORD_BYTES < length encoded then raise bound_error
     else
     ebind (lift (parse_record encoded)) (\<lambda>value.
     ebind (sys_fsync fd) (\<lambda>_. ret value)))))))"

definition read_phase :: "nat \<Rightarrow> string \<Rightarrow> ('a posix_scheme, pyval option) prog" where
  "read_phase directory phase =
     ebind
       (try_except (ebind (sys_stat directory (record_name phase)) (\<lambda>info. ret (Some info)))
          (\<lambda>e. if e = FileNotFoundError then ret None else raise e))
       (\<lambda>inspected.
     case inspected of
       None \<Rightarrow> ret None
     | Some info \<Rightarrow> ebind (read_present directory (record_name phase) info) (\<lambda>value. ret (Some value)))"

section \<open>Validation\<close>

text \<open>\<open>digest(previous) if previous is not None else None\<close>\<close>

definition link_of :: "pyval option \<Rightarrow> exn + pyval" where
  "link_of previous =
     (case previous of None \<Rightarrow> Inr PNone | Some p \<Rightarrow> rbind (digest p) (\<lambda>d. Inr (PStr d)))"

definition common :: "pyval \<Rightarrow> string \<Rightarrow> pyval option \<Rightarrow> string list \<Rightarrow> int \<Rightarrow> exn + unit" where
  "common value phase previous ks version =
     rbind (closed_record value ([''version'', ''phase'', ''previous''] @ ks)) (\<lambda>_.
     if \<not> is_int (field value ''version'') \<or> int_of (field value ''version'') \<noteq> version
        \<or> field value ''phase'' \<noteq> PStr (lit phase)
     then Inl (ValueError ''Private journal phase linkage differs'')
     else
     rbind (link_of previous) (\<lambda>l.
     if \<not> py_eq (field value ''previous'') l then Inl (ValueError ''Private journal phase linkage differs'')
     else Inr ()))"

definition owner_fields :: "string list" where
  "owner_fields = [''worker'', ''run'', ''nonce'']"

definition ticket_owner :: "pyval \<Rightarrow> exn + pyval" where
  "ticket_owner ticket =
     rbind (validate_ticket ticket) (\<lambda>_. Inr (PDict (map (\<lambda>k. (lit k, field ticket k)) owner_fields)))"

definition canonical_endpoint :: "pyval \<Rightarrow> exn + bool" where
  "canonical_endpoint endpoint =
     (if \<not> is_str endpoint \<or> \<not> (1 \<le> length (str_of endpoint) \<and> length (str_of endpoint) \<le> 2048) then Inr False
      else
      rbind (urlsplit (str_of endpoint)) (\<lambda>u.
      Inr (urlunsplit u = str_of endpoint \<and> \<not> list_ex (\<lambda>c. c < 32 \<or> c = 127) (str_of endpoint))))"

definition same_encoding :: "pyval \<Rightarrow> pyval \<Rightarrow> exn + bool" where
  "same_encoding a b = rbind (encode a) (\<lambda>x. rbind (encode b) (\<lambda>y. Inr (x = y)))"

definition launch_fields :: "bool \<Rightarrow> string list" where
  "launch_fields sci =
     [''owner'', ''endpoint'', ''unit'', ''frozen'', (if sci then ''execution-profile'' else ''namespace-policy''),
      ''unit-policy'']"

definition policies_agree :: "bool \<Rightarrow> pyval \<Rightarrow> exn + bool" where
  "policies_agree sci value =
     rbind (if sci then Inr True else same_encoding (field value ''namespace-policy'') namespace_policy) (\<lambda>a.
     if \<not> a then Inr False
     else same_encoding (field value ''unit-policy'') (if sci then SCI_POLICY else unit_policy))"

definition is_sci :: "pyval \<Rightarrow> bool" where
  "is_sci value \<longleftrightarrow> py_eq (field value ''version'') (PInt 2)"

definition validate_launch :: "pyval \<Rightarrow> exn + unit" where
  "validate_launch value =
     (let sci = is_sci value in
      rbind (common value ''launch'' None (launch_fields sci) (if sci then 2 else 1)) (\<lambda>_.
      rbind (closed_record (field value ''owner'') owner_fields) (\<lambda>_.
      rbind (for_each (\<lambda>k _. rbind (canonical_uuid (field (field value ''owner'') k)) (\<lambda>_. Inr ())) owner_fields ())
        (\<lambda>_.
      rbind (canonical_endpoint (field value ''endpoint'')) (\<lambda>ok.
      if \<not> ok then Inl (ValueError ''Private worker endpoint must be canonical'')
      else
      rbind (MCP (field value ''endpoint'') [] None 30) (\<lambda>_.
      rbind (validate_name (field value ''unit'')) (\<lambda>_.
      rbind (item (field value ''frozen'') ''config'') (\<lambda>config.
      rbind (Worker_Inputs.validate (field value ''frozen'') config) (\<lambda>_.
      rbind (if sci then rbind (validate_profile (field value ''execution-profile'')) (\<lambda>_. Inr ()) else Inr ()) (\<lambda>_.
      rbind (policies_agree sci value) (\<lambda>ok.
      if \<not> ok then Inl (ValueError ''Unsupported private execution policy'') else Inr ())))))))))))"

definition validate_admitted :: "pyval \<Rightarrow> pyval \<Rightarrow> exn + unit" where
  "validate_admitted value intent =
     rbind (common value ''admitted'' (Some intent) [''identity''] 1) (\<lambda>_.
     rbind (validate_identity (field value ''identity'')) (\<lambda>_.
     if field (field value ''identity'') ''unit'' \<noteq> field intent ''unit''
     then Inl (ValueError ''Admission belongs to a different physical unit'') else Inr ()))"

text \<open>\<open>re.fullmatch(r"[a-z][a-z0-9-]{0,79}", s)\<close>, and membership in a set of strings (a list or a dict
  cannot be looked up in a set)\<close>

definition is_lower_alpha :: "nat \<Rightarrow> bool" where
  "is_lower_alpha c \<longleftrightarrow> 97 \<le> c \<and> c \<le> 122"

definition result_ok :: "pyval \<Rightarrow> bool" where
  "result_ok v \<longleftrightarrow>
     is_str v \<and> str_of v \<noteq> [] \<and> length (str_of v) \<le> 80 \<and> is_lower_alpha (hd (str_of v))
     \<and> list_all (\<lambda>c. is_lower_alpha c \<or> is_digit c \<or> c = 45) (tl (str_of v))"

definition in_strings :: "pyval \<Rightarrow> string list \<Rightarrow> exn + bool" where
  "in_strings v ss = (if is_list v \<or> is_dict v then Inl TypeError else Inr (list_ex (\<lambda>s. v = PStr (lit s)) ss))"

definition observation_fields :: "string list" where
  "observation_fields = [''version'', ''identity'', ''state'', ''result'', ''observed-monotonic-ns'']"

definition check_observation :: "pyval \<Rightarrow> pyval \<Rightarrow> exn + bool" where
  "check_observation observation admitted =
     (if \<not> is_int (field observation ''version'') \<or> int_of (field observation ''version'') \<noteq> 1 then Inr False
      else
      rbind (same_encoding (field observation ''identity'') (field admitted ''identity'')) (\<lambda>same.
      if \<not> same then Inr False
      else
      rbind (in_strings (field observation ''state'') [''inactive'', ''failed'']) (\<lambda>terminal.
      Inr (terminal \<and> result_ok (field observation ''result'')
           \<and> is_int (field observation ''observed-monotonic-ns'')
           \<and> 0 < int_of (field observation ''observed-monotonic-ns'')))))"

definition optional_digest :: "pyval \<Rightarrow> exn + pyval" where
  "optional_digest output = link_of (if output = PNone then None else Some output)"

definition validate_stopped :: "pyval \<Rightarrow> pyval \<Rightarrow> pyval \<Rightarrow> exn + unit" where
  "validate_stopped value intent admitted =
     rbind (common value ''stopped'' (Some admitted) [''observation'', ''output'', ''output-sha256''] 1) (\<lambda>_.
     let observation = field value ''observation''; output = field value ''output'' in
     rbind (closed_record observation observation_fields) (\<lambda>_.
     rbind (check_observation observation admitted) (\<lambda>ok.
     if \<not> ok then Inl (ValueError ''Physical stop observation differs from admitted identity'')
     else
     rbind
       (if output = PNone then Inr ()
        else
        rbind (validate_output (field intent ''frozen'') (field (field intent ''frozen'') ''config'') output) (\<lambda>_.
        if py_eq (field output ''exit-code'') (PInt 0) \<and> field observation ''result'' \<noteq> PStr (lit ''success'')
        then Inl (ValueError ''A failed execution unit cannot publish successful output'') else Inr ()))
       (\<lambda>_.
     rbind (optional_digest output) (\<lambda>d.
     if \<not> py_eq (field value ''output-sha256'') d then Inl (ValueError ''Stopped output identity differs'')
     else Inr ())))))"

definition receipt_fields :: "string list" where
  "receipt_fields =
     [''run'', ''lease'', ''state'', ''cancel-requested?'', ''stop-ack?'', ''expires-at-ms'', ''output-id'']"

definition completion_receipt_ok :: "pyval \<Rightarrow> pyval \<Rightarrow> pyval \<Rightarrow> bool" where
  "completion_receipt_ok receipt intent sealed \<longleftrightarrow>
     field sealed ''output'' \<noteq> PNone
     \<and> py_eq (field receipt ''lease'') (field (field intent ''owner'') ''nonce'')
     \<and> field receipt ''state'' = PStr (lit ''completed'') \<and> is_bool (field receipt ''cancel-requested?'')
     \<and> is_int (field receipt ''expires-at-ms'') \<and> 0 \<le> int_of (field receipt ''expires-at-ms'')
     \<and> int_of (field receipt ''expires-at-ms'') < 2 ^ 63"

definition check_outcome :: "pyval \<Rightarrow> pyval \<Rightarrow> pyval \<Rightarrow> pyval \<Rightarrow> exn + unit" where
  "check_outcome outcome receipt intent sealed =
     (if outcome = PStr (lit ''stopped'') then closed_record receipt [''run'', ''stop-ack?'']
      else if outcome = PStr (lit ''completed'') then
        rbind (closed_record receipt receipt_fields) (\<lambda>_.
        if \<not> completion_receipt_ok receipt intent sealed
        then Inl (ValueError ''Server completion receipt differs'')
        else rbind (canonical_uuid (field receipt ''output-id'')) (\<lambda>_. Inr ()))
      else Inl (ValueError ''Unknown server acknowledgment outcome''))"

definition validate_acknowledged :: "pyval \<Rightarrow> pyval \<Rightarrow> pyval \<Rightarrow> exn + unit" where
  "validate_acknowledged value intent sealed =
     rbind (common value ''acknowledged'' (Some sealed) [''outcome'', ''receipt''] 1) (\<lambda>_.
     let receipt = field value ''receipt'' in
     rbind (check_outcome (field value ''outcome'') receipt intent sealed) (\<lambda>_.
     if \<not> py_eq (field receipt ''run'') (field (field intent ''owner'') ''run'')
        \<or> field receipt ''stop-ack?'' \<noteq> PBool True
     then Inl (ValueError ''Server has not acknowledged this exact work'') else Inr ()))"

section \<open>Chains\<close>

text \<open>The records that are there, by phase.\<close>

type_synonym chain = "(string \<times> pyval) list"

definition validate_phase :: "chain \<Rightarrow> string \<Rightarrow> pyval \<Rightarrow> pyval \<Rightarrow> exn + unit" where
  "validate_phase records phase value prior =
     (let intent = (case map_of records ''launch'' of None \<Rightarrow> PNone | Some v \<Rightarrow> v) in
      if phase = ''launch'' then validate_launch value
      else if phase = ''admitted'' then validate_admitted value prior
      else if phase = ''stopped'' then validate_stopped value intent prior
      else validate_acknowledged value intent prior)"

fun check_phases :: "chain \<Rightarrow> string list \<Rightarrow> pyval \<Rightarrow> exn + unit" where
  "check_phases records [] prior = Inr ()"
| "check_phases records (phase # later) prior =
     (case map_of records phase of
        None \<Rightarrow>
          if list_ex (\<lambda>p. map_of records p \<noteq> None) later
          then Inl (ValueError ''Private journal is missing an earlier phase'') else Inr ()
      | Some value \<Rightarrow>
          rbind (validate_phase records phase value prior) (\<lambda>_. check_phases records later value))"

definition read_into :: "nat \<Rightarrow> string \<Rightarrow> chain \<Rightarrow> ('a posix_scheme, chain) prog" where
  "read_into directory phase records =
     ebind (read_phase directory phase) (\<lambda>found.
     ret (case found of None \<Rightarrow> records | Some value \<Rightarrow> records @ [(phase, value)]))"

definition chain_at :: "nat \<Rightarrow> ('a posix_scheme, chain) prog" where
  "chain_at directory =
     ebind (efor (read_into directory) PHASES []) (\<lambda>records.
     ebind (lift (check_phases records PHASES PNone)) (\<lambda>_.
     ebind (sys_fsync directory) (\<lambda>_. ret records)))"

definition load_journal :: "pystr list \<Rightarrow> ('a posix_scheme, chain) prog" where
  "load_journal folder = ebind (state_directory folder) chain_at"

section \<open>Publication\<close>

definition phase_staging :: pystr where "phase_staging = lit ''.phase-''"

definition check_same :: "pyval option \<Rightarrow> bytes \<Rightarrow> exn + unit" where
  "check_same existing encoded =
     (case existing of
        None \<Rightarrow> Inr ()
      | Some value \<Rightarrow>
          rbind (encode value) (\<lambda>b.
          if b \<noteq> encoded then Inl (ValueError ''Immutable private journal phase conflicts'') else Inr ()))"

text \<open>The link to the permanent name, or the record another process put there.\<close>

definition link_phase :: "nat \<Rightarrow> string \<Rightarrow> pystr \<Rightarrow> ('a posix_scheme, pyval option) prog" where
  "link_phase directory phase staged =
     try_except (ebind (sys_link directory staged (record_name phase)) (\<lambda>_. ret None))
       (\<lambda>e. if e = FileExistsError
            then ebind (read_phase directory phase) (\<lambda>existing.
              if existing = None then raise (ValueError ''Published private journal phase disappeared'')
              else ret existing)
            else raise e)"

definition publish_new :: "nat \<Rightarrow> string \<Rightarrow> bytes \<Rightarrow> ('a posix_scheme, unit) prog" where
  "publish_new directory phase encoded =
     ebind uuid4_hex (\<lambda>h.
     let staged = phase_staging @ h in
     on_error
       (ebind (write_staged directory staged encoded) (\<lambda>_.
        ebind (link_phase directory phase staged) (\<lambda>existing.
        ebind (lift (check_same existing encoded)) (\<lambda>_.
        sys_unlink directory staged))))
       (sys_unlink directory staged))"

definition publish :: "nat \<Rightarrow> string \<Rightarrow> pyval \<Rightarrow> ('a posix_scheme, pyval) prog" where
  "publish directory phase value =
     ebind (lift (encode value)) (\<lambda>encoded.
     if MAX_RECORD_BYTES < length encoded then raise bound_error
     else
     ebind (read_phase directory phase) (\<lambda>existing.
     ebind
       (case existing of
          None \<Rightarrow> publish_new directory phase encoded
        | Some _ \<Rightarrow> lift (check_same existing encoded))
       (\<lambda>_.
     ebind (sys_fsync directory) (\<lambda>_.
     lift (loads_bytes encoded)))))"

section \<open>Phases\<close>

definition launch_record ::
  "pyval \<Rightarrow> pyval \<Rightarrow> pyval \<Rightarrow> pyval \<Rightarrow> pyval option \<Rightarrow> pyval" where
  "launch_record claimant endpoint unit frozen selected_profile =
     PDict ([(lit ''version'', PInt (if selected_profile = None then 1 else 2)), (lit ''phase'', PStr (lit ''launch'')),
             (lit ''previous'', PNone), (lit ''owner'', claimant), (lit ''endpoint'', endpoint), (lit ''unit'', unit),
             (lit ''frozen'', frozen)]
            @ (case selected_profile of
                 None \<Rightarrow> [(lit ''namespace-policy'', namespace_policy), (lit ''unit-policy'', unit_policy)]
               | Some p \<Rightarrow> [(lit ''unit-policy'', SCI_POLICY), (lit ''execution-profile'', p)]))"

definition prepare_launch_at ::
  "nat \<Rightarrow> pyval \<Rightarrow> pyval \<Rightarrow> pyval \<Rightarrow> pyval option \<Rightarrow> ('a posix_scheme, pyval) prog" where
  "prepare_launch_at directory claimant endpoint frozen selected_profile =
     ebind (chain_at directory) (\<lambda>records.
     ebind (case map_of records ''launch'' of
              Some previous \<Rightarrow> ret (field previous ''unit'')
            | None \<Rightarrow> ebind unit_name (\<lambda>n. ret (PStr n))) (\<lambda>unit.
     let value = launch_record claimant endpoint unit frozen selected_profile in
     ebind (lift (validate_launch value)) (\<lambda>_.
     publish directory ''launch'' value)))"

definition prepare_launch ::
  "pystr list \<Rightarrow> pyval \<Rightarrow> pyval \<Rightarrow> pyval \<Rightarrow> pyval \<Rightarrow> pyval option \<Rightarrow> ('a posix_scheme, pyval) prog" where
  "prepare_launch folder ticket endpoint frozen config selected_profile =
     ebind (lift (Worker_Inputs.validate frozen config)) (\<lambda>_.
     ebind (lift (ticket_owner ticket)) (\<lambda>claimant.
     ebind (state_directory folder) (\<lambda>directory.
     prepare_launch_at directory claimant endpoint frozen selected_profile)))"

definition previous_phase :: "string \<Rightarrow> string" where
  "previous_phase phase =
     (if phase = ''admitted'' then ''launch'' else if phase = ''stopped'' then ''admitted'' else ''stopped'')"

definition phase_record :: "string \<Rightarrow> pystr \<Rightarrow> pydict \<Rightarrow> pyval" where
  "phase_record phase link values =
     PDict ([(lit ''version'', PInt 1), (lit ''phase'', PStr (lit phase)), (lit ''previous'', PStr link)] @ values)"

definition advance_at :: "nat \<Rightarrow> string \<Rightarrow> pydict \<Rightarrow> ('a posix_scheme, pyval) prog" where
  "advance_at directory phase values =
     ebind (chain_at directory) (\<lambda>records.
     case map_of records (previous_phase phase) of
       None \<Rightarrow> raise (ValueError ''Earlier durable controller phase is required'')
     | Some prior \<Rightarrow>
         ebind (lift (digest prior)) (\<lambda>link.
         let value = phase_record phase link values in
         ebind (lift (validate_phase records phase value prior)) (\<lambda>_.
         publish directory phase value)))"

definition advance :: "pystr list \<Rightarrow> string \<Rightarrow> pydict \<Rightarrow> ('a posix_scheme, pyval) prog" where
  "advance folder phase values = ebind (state_directory folder) (\<lambda>directory. advance_at directory phase values)"

definition admit :: "pystr list \<Rightarrow> pyval \<Rightarrow> ('a posix_scheme, pyval) prog" where
  "admit folder identity = advance folder ''admitted'' [(lit ''identity'', identity)]"

definition stopped :: "pystr list \<Rightarrow> pyval \<Rightarrow> pyval \<Rightarrow> ('a posix_scheme, pyval) prog" where
  "stopped folder observation output =
     ebind (lift (optional_digest output)) (\<lambda>d.
     advance folder ''stopped''
       [(lit ''observation'', observation), (lit ''output'', output), (lit ''output-sha256'', d)])"

definition acknowledge :: "pystr list \<Rightarrow> string \<Rightarrow> pyval \<Rightarrow> ('a posix_scheme, pyval) prog" where
  "acknowledge folder outcome receipt =
     advance folder ''acknowledged'' [(lit ''outcome'', PStr (lit outcome)), (lit ''receipt'', receipt)]"

section \<open>Unresolved work\<close>

definition claim_file :: pystr where "claim_file = lit ''claim.json''"

definition last_phase :: "chain \<Rightarrow> string" where
  "last_phase records =
     (case find (\<lambda>p. map_of records p \<noteq> None) (rev PHASES) of None \<Rightarrow> ''claim-only'' | Some p \<Rightarrow> p)"

definition inspect_run ::
  "nat \<Rightarrow> pyval \<Rightarrow> pystr \<Rightarrow> (pystr \<times> string) list \<Rightarrow> ('a posix_scheme, (pystr \<times> string) list) prog" where
  "inspect_run directory worker name pending =
     ebind (lift (canonical_uuid (PStr name))) (\<lambda>run.
     ebind (sys_opendir directory run) (\<lambda>child.
     ebind (sys_fstat child) (\<lambda>info.
     ebind (gets uid) (\<lambda>u.
     if st_uid info \<noteq> u \<or> group_other (st_mode info) \<noteq> 0
     then raise (ValueError ''Run journal directory must be private and owned by you'')
     else
     ebind (load_ticket child claim_file) (\<lambda>ticket.
     if \<not> py_eq (field ticket ''worker'') worker \<or> \<not> py_eq (field ticket ''run'') (PStr run)
     then raise (ValueError ''Run claim belongs to another worker or directory'')
     else
     ebind (chain_at child) (\<lambda>records.
     ebind (case map_of records ''launch'' of
              None \<Rightarrow> ret True
            | Some intent \<Rightarrow>
                ebind (lift (ticket_owner ticket)) (\<lambda>claimant. ret (py_eq (field intent ''owner'') claimant))) (\<lambda>same.
     if \<not> same then raise (ValueError ''Run journal and claim identity differ'')
     else
     ret (if map_of records ''acknowledged'' = None then pending @ [(run, last_phase records)] else pending))))))))"

definition unresolved :: "pystr list \<Rightarrow> pyval \<Rightarrow> ('a posix_scheme, (pystr \<times> string) list) prog" where
  "unresolved folder worker =
     ebind (lift (canonical_uuid worker)) (\<lambda>_.
     ebind (state_directory folder) (\<lambda>directory.
     ebind (sys_scandir directory) (\<lambda>names.
     ebind (efor (inspect_run directory worker) names []) (\<lambda>pending.
     ebind (sys_fsync directory) (\<lambda>_.
     ret (sort_key fst pending))))))"

end
