(* ===== verification/Worker_Io.thy ===== *)
theory Worker_Io
  imports Worker_Inputs Py_Outside
begin

text \<open>
  \<^verbatim>\<open>scripts/worker_io.py\<close>: frames of one JSON line over nonblocking pipes, with an absolute deadline and a
  callback before every wait.  The two loops end when the clock passes the deadline; \<open>fuel\<close> bounds the
  turns until then.
\<close>

definition MAX_FRAME_BYTES :: nat where "MAX_FRAME_BYTES = 4456448"
definition PIPE_CHUNK :: nat where "PIPE_CHUNK = 16384"

text \<open>The object; a closed end is None.\<close>

record frames =
  writer :: "nat option"
  reader :: "nat option"
  pending :: bytes

definition new_frames :: "nat \<Rightarrow> nat \<Rightarrow> frames" where
  "new_frames w r = \<lparr>writer = Some w, reader = Some r, pending = []\<rparr>"

text \<open>\<open>selector.register(None)\<close> is a ValueError.\<close>

definition end_of :: "nat option \<Rightarrow> exn + nat" where
  "end_of fd = (case fd of None \<Rightarrow> Inl (ValueError ''Invalid file object'') | Some n \<Rightarrow> Inr n)"

definition deadline_error :: exn where
  "deadline_error = PyTimeoutError ''Worker pipe protocol deadline exceeded''"

definition frame_ready :: "('a outside_scheme, unit) prog \<Rightarrow> nat option \<Rightarrow> int \<Rightarrow> ('a outside_scheme, bool) prog" where
  "frame_ready tick fd deadline =
     ebind tick (\<lambda>_.
     ebind (ask_int Monotonic) (\<lambda>now.
     if deadline - now \<le> 0 then raise deadline_error
     else ebind (lift (end_of fd)) (\<lambda>n. ask_bool (PipeReady n))))"

text \<open>\<open>os.write\<close> of one slice; a pipe that is full after all writes nothing.\<close>

definition write_slice :: "nat option \<Rightarrow> bytes \<Rightarrow> ('a outside_scheme, nat) prog" where
  "write_slice fd part =
     ebind (lift (end_of fd)) (\<lambda>n.
     try_except (ask_nat (PipeWrite n part)) (\<lambda>e. if e = BlockingIOError then ret 0 else raise e))"

fun write_loop ::
  "nat \<Rightarrow> ('a outside_scheme, unit) prog \<Rightarrow> nat option \<Rightarrow> bytes \<Rightarrow> nat \<Rightarrow> int \<Rightarrow> ('a outside_scheme, unit) prog"
where
  "write_loop 0 tick fd encoded offset deadline = raise out_of_fuel"
| "write_loop (Suc fuel) tick fd encoded offset deadline =
     (if length encoded \<le> offset then ret ()
      else
      ebind (frame_ready tick fd deadline) (\<lambda>ready.
      ebind (if ready then write_slice fd (take PIPE_CHUNK (drop offset encoded)) else ret 0) (\<lambda>n.
      write_loop fuel tick fd encoded (offset + n) deadline)))"

definition frame_write ::
  "nat \<Rightarrow> ('a outside_scheme, unit) prog \<Rightarrow> frames \<Rightarrow> bytes \<Rightarrow> int \<Rightarrow> ('a outside_scheme, unit) prog" where
  "frame_write fuel tick fr encoded deadline =
     (if MAX_FRAME_BYTES < length encoded then raise (ValueError ''Worker pipe request exceeds its bound'')
      else write_loop fuel tick (writer fr) encoded 0 deadline)"

definition newline :: "8 word" where "newline = 10"

definition parse_frame :: "bytes \<Rightarrow> exn + pyval" where
  "parse_frame encoded =
     rbind (strict_loads encoded) (\<lambda>value.
     if is_dict value then Inr value else Inl (ValueError ''Worker pipe frame must be an object''))"

text \<open>The first line of the buffer, with its end, and what follows.\<close>

definition first_line :: "bytes \<Rightarrow> (bytes \<times> bytes) option" where
  "first_line b =
     (if newline \<in> set b
      then (let n = length (takeWhile (\<lambda>c. c \<noteq> newline) b) in Some (take (n + 1) b, drop (n + 1) b))
      else None)"

text \<open>\<open>os.read\<close>: None when nothing was there after all, an empty answer at the end of the stream.\<close>

definition read_chunk :: "nat option \<Rightarrow> nat \<Rightarrow> ('a outside_scheme, bytes option) prog" where
  "read_chunk fd n =
     ebind (lift (end_of fd)) (\<lambda>d.
     try_except (ebind (ask_bytes (PipeRead d n)) (\<lambda>b. ret (Some b)))
       (\<lambda>e. if e = BlockingIOError then ret None else raise e))"

fun read_loop ::
  "nat \<Rightarrow> ('a outside_scheme, unit) prog \<Rightarrow> frames \<Rightarrow> int \<Rightarrow> ('a outside_scheme, pyval \<times> frames) prog" where
  "read_loop 0 tick fr deadline = raise out_of_fuel"
| "read_loop (Suc fuel) tick fr deadline =
     ebind tick (\<lambda>_.
     ebind (ask_int Monotonic) (\<lambda>now.
     if deadline \<le> now then raise deadline_error
     else
     (case first_line (pending fr) of
        Some (line, rest) \<Rightarrow>
          ebind (lift (parse_frame line)) (\<lambda>value. ret (value, fr\<lparr>pending := rest\<rparr>))
      | None \<Rightarrow>
          if MAX_FRAME_BYTES \<le> length (pending fr)
          then raise (ValueError ''Worker pipe frame exceeds its bound'')
          else
          ebind (frame_ready tick (reader fr) deadline) (\<lambda>ready.
          ebind (if ready then read_chunk (reader fr) (min PIPE_CHUNK (MAX_FRAME_BYTES - length (pending fr)))
                 else ret None) (\<lambda>chunk.
          case chunk of
            None \<Rightarrow> read_loop fuel tick fr deadline
          | Some [] \<Rightarrow> raise (EOFError ''Worker pipe exited without its complete bounded frame'')
          | Some (b # bs) \<Rightarrow> read_loop fuel tick (fr\<lparr>pending := pending fr @ b # bs\<rparr>) deadline)))))"

definition frame_read ::
  "nat \<Rightarrow> ('a outside_scheme, unit) prog \<Rightarrow> frames \<Rightarrow> int \<Rightarrow> ('a outside_scheme, pyval \<times> frames) prog" where
  "frame_read fuel tick fr deadline = read_loop fuel tick fr deadline"

definition close_end :: "nat option \<Rightarrow> ('a outside_scheme, unit) prog" where
  "close_end fd = (case fd of None \<Rightarrow> ret () | Some n \<Rightarrow> ebind (consult (PipeClose n)) (\<lambda>_. ret ()))"

definition frames_close :: "frames \<Rightarrow> ('a outside_scheme, frames) prog" where
  "frames_close fr =
     ebind (close_end (writer fr)) (\<lambda>_.
     ebind (close_end (reader fr)) (\<lambda>_.
     ret (fr\<lparr>writer := None, reader := None\<rparr>)))"

end
