(* ===== verification/Worker_Transport.thy ===== *)
theory Worker_Transport
  imports Worker_Io Mcp_Workspace
begin

text \<open>
  \<^verbatim>\<open>scripts/worker_transport.py\<close>: the worker's MCP client, whose HTTP runs in a helper process so that a
  deadline can be total.  The first part is the controller's side (a request that fails asks for the
  candidate's stop, then kills and joins the helper); the second is the helper itself.
\<close>

section \<open>Policy\<close>

definition NETWORK_SECONDS :: int where "NETWORK_SECONDS = 5"
definition second_ns :: int where "second_ns = 1000000000"

definition TOOLS :: "string list" where
  "TOOLS =
     [''simmis_worker-pending'', ''simmis_worker-claim'', ''simmis_worker-input'', ''simmis_worker-heartbeat'',
      ''simmis_worker-complete'', ''simmis_worker-stop'']"

text \<open>\<open>json.dumps(v, separators=(",", ":"), allow_nan=False).encode()\<close>\<close>

fun finite :: "pyval \<Rightarrow> bool" where
  "finite (PFloat t) = (\<not> list_ex (\<lambda>c. t = lit c) [''NaN'', ''Infinity'', ''-Infinity''])"
| "finite (PList xs) = list_all finite xs"
| "finite (PDict d) = list_all (\<lambda>(k, v). finite v) d"
| "finite v = True"

definition dumps_finite :: "pyval \<Rightarrow> exn + bytes" where
  "dumps_finite v =
     (if finite v then Inr (dumps_bytes fmt_compact v)
      else Inl (ValueError ''Out of range float values are not JSON compliant''))"

definition json_line :: "pyval \<Rightarrow> exn + bytes" where
  "json_line v = rbind (dumps_finite v) (\<lambda>b. Inr (b @ [newline]))"

section \<open>The controller's side\<close>

record helper_link =
  t_url :: pyval
  t_token :: pystr
  t_proof :: "pystr option"
  t_timeout :: int
  t_process :: "nat option"
  t_frames :: "frames option"

definition Transport :: "pyval \<Rightarrow> pystr \<Rightarrow> pystr option \<Rightarrow> int \<Rightarrow> exn + helper_link" where
  "Transport url token proof seconds =
     rbind (MCP url token proof seconds) (\<lambda>_.
     if \<not> (0 < seconds \<and> seconds \<le> NETWORK_SECONDS)
     then Inl (ValueError ''Invalid worker total network deadline'')
     else Inr \<lparr>t_url = url, t_token = token, t_proof = proof, t_timeout = seconds, t_process = None,
               t_frames = None\<rparr>)"

definition join_process :: "nat \<Rightarrow> ('a outside_scheme, unit) prog" where
  "join_process p =
     ebind (consult (ProcessPoll p)) (\<lambda>status.
     ebind (if status = PNone then ebind (consult (ProcessKill p)) (\<lambda>_. ret ()) else ret ()) (\<lambda>_.
     ebind (consult (ProcessWait p None)) (\<lambda>_. ret ())))"

definition terminate :: "helper_link \<Rightarrow> ('a outside_scheme, helper_link) prog" where
  "terminate t =
     ebind (case t_process t of None \<Rightarrow> ret () | Some p \<Rightarrow> join_process p) (\<lambda>_.
     case t_frames t of
       None \<Rightarrow> ret t
     | Some fr \<Rightarrow> ebind (frames_close fr) (\<lambda>_. ret (t\<lparr>t_frames := None\<rparr>)))"

text \<open>What one exchange returns, before its failure is handled.\<close>

definition exchange_frames ::
  "nat \<Rightarrow> frames \<Rightarrow> pyval \<Rightarrow> int \<Rightarrow> ('a outside_scheme, pyval \<times> frames) prog" where
  "exchange_frames fuel fr value deadline =
     ebind (lift (json_line value)) (\<lambda>encoded.
     ebind (frame_write fuel (ret ()) fr encoded deadline) (\<lambda>_.
     ebind (frame_read fuel (ret ()) fr deadline) (\<lambda>(response, fr').
     ebind (lift (closed response [''ok'', ''value''])) (\<lambda>_.
     if field response ''ok'' \<noteq> PBool True
     then raise (OSError ''Worker MCP request failed; outcome may be ambiguous'')
     else ret (field response ''value'', fr')))))"

text \<open>
  \<open>_request\<close>: on any failure first the callback, then the helper is killed and joined whatever the
  callback did; an exception of either replaces the first one.
\<close>

type_synonym 'w on_failure = "('w, unit) prog"

definition fail_request ::
  "('a outside_scheme) on_failure \<Rightarrow> helper_link \<Rightarrow> exn \<Rightarrow> 'a outside_scheme
     \<Rightarrow> (exn + pyval) \<times> helper_link \<times> 'a outside_scheme" where
  "fail_request on_failure t e w =
     (case on_failure w of (r, w1) \<Rightarrow>
        (case terminate t w1 of
           (Inl e2, w2) \<Rightarrow> (Inl e2, t, w2)
         | (Inr t', w2) \<Rightarrow> (case r of Inl e1 \<Rightarrow> (Inl e1, t', w2) | Inr _ \<Rightarrow> (Inl e, t', w2))))"

definition transport_request ::
  "nat \<Rightarrow> ('a outside_scheme) on_failure \<Rightarrow> helper_link \<Rightarrow> pyval \<Rightarrow> 'a outside_scheme
     \<Rightarrow> (exn + pyval) \<times> helper_link \<times> 'a outside_scheme" where
  "transport_request fuel on_failure t value w =
     (case t_frames t of
        None \<Rightarrow> (Inl (OSError ''Worker transport is not open''), t, w)
      | Some fr \<Rightarrow>
          (case ask_int Monotonic w of
             (Inl e, w1) \<Rightarrow> (Inl e, t, w1)
           | (Inr now, w1) \<Rightarrow>
               (case exchange_frames fuel fr value (now + t_timeout t * second_ns) w1 of
                  (Inr (v, fr'), w2) \<Rightarrow> (Inr v, t\<lparr>t_frames := Some fr'\<rparr>, w2)
                | (Inl e, w2) \<Rightarrow> fail_request on_failure t e w2)))"

definition as_pair :: "pyval \<Rightarrow> exn + nat \<times> nat" where
  "as_pair v =
     (case elements v of [a, b] \<Rightarrow> rbind (as_nat a) (\<lambda>x. rbind (as_nat b) (\<lambda>y. Inr (x, y))) | _ \<Rightarrow> Inl TypeError)"

definition ask_pipe :: "('a outside_scheme, nat \<times> nat) prog" where
  "ask_pipe = ebind (consult MakePipe) (\<lambda>v. lift (as_pair v))"

text \<open>\<open>helper_argv\<close> is the command of the helper: the interpreter, this script, and the parent's pid.\<close>

definition start_helper ::
  "pystr list \<Rightarrow> ('a outside_scheme, nat \<times> frames) prog" where
  "start_helper helper_argv =
     ebind ask_pipe (\<lambda>(incoming, w_end).
     ebind ask_pipe (\<lambda>(r_end, outgoing).
     let fr = new_frames w_end r_end in
     try_finally
       (ebind (on_error (ask_nat (Spawn helper_argv)) (ebind (frames_close fr) (\<lambda>_. ret ()))) (\<lambda>p. ret (p, fr)))
       (ebind (close_end (Some incoming)) (\<lambda>_. close_end (Some outgoing)))))"

definition open_message :: "helper_link \<Rightarrow> pyval" where
  "open_message t =
     PDict [(lit ''op'', PStr (lit ''open'')), (lit ''url'', t_url t), (lit ''token'', PStr (t_token t)),
            (lit ''lease-proof'', (case t_proof t of None \<Rightarrow> PNone | Some p \<Rightarrow> PStr p))]"

definition transport_enter ::
  "nat \<Rightarrow> pystr list \<Rightarrow> ('a outside_scheme) on_failure \<Rightarrow> helper_link \<Rightarrow> 'a outside_scheme
     \<Rightarrow> (exn + unit) \<times> helper_link \<times> 'a outside_scheme" where
  "transport_enter fuel helper_argv on_failure t w =
     (if t_process t \<noteq> None then (Inl (ValueError ''Worker transports are single use''), t, w)
      else
      (case start_helper helper_argv w of
         (Inl e, w1) \<Rightarrow> (Inl e, t, w1)
       | (Inr (p, fr), w1) \<Rightarrow>
           (let t1 = t\<lparr>t_process := Some p, t_frames := Some fr\<rparr> in
            case transport_request fuel on_failure t1 (open_message t) w1 of
              (Inl e, t2, w2) \<Rightarrow> (Inl e, t2, w2)
            | (Inr _, t2, w2) \<Rightarrow> (Inr (), t2, w2))))"

definition call_message :: "string \<Rightarrow> pyval \<Rightarrow> pyval" where
  "call_message name arguments =
     PDict [(lit ''op'', PStr (lit ''call'')), (lit ''name'', PStr (lit name)), (lit ''arguments'', arguments)]"

definition transport_call ::
  "nat \<Rightarrow> ('a outside_scheme) on_failure \<Rightarrow> helper_link \<Rightarrow> string \<Rightarrow> pyval \<Rightarrow> 'a outside_scheme
     \<Rightarrow> (exn + pyval) \<times> helper_link \<times> 'a outside_scheme" where
  "transport_call fuel on_failure t name arguments w =
     (if name \<notin> set TOOLS
      then (Inl (ValueError ''Worker transport cannot invoke human or arbitrary tools''), t, w)
      else transport_request fuel on_failure t (call_message name arguments) w)"

definition close_message :: pyval where
  "close_message = PDict [(lit ''op'', PStr (lit ''close''))]"

text \<open>\<open>except Exception\<close>: everything the scripts raise but an interrupt from the keyboard and an exit.\<close>

fun is_Exception :: "exn \<Rightarrow> bool" where
  "is_Exception KeyboardInterrupt = False"
| "is_Exception (SystemExit n) = False"
| "is_Exception e = True"

definition transport_exit ::
  "nat \<Rightarrow> ('a outside_scheme) on_failure \<Rightarrow> helper_link \<Rightarrow> 'a outside_scheme
     \<Rightarrow> (exn + unit) \<times> helper_link \<times> 'a outside_scheme" where
  "transport_exit fuel on_failure t w =
     (let (r, t1, w1) =
            (if t_frames t = None then (Inr PNone, t, w) else transport_request fuel on_failure t close_message w);
          outcome = (case r of Inl e \<Rightarrow> if is_Exception e then Inr () else Inl e | Inr _ \<Rightarrow> Inr ())
      in case terminate t1 w1 of
           (Inl e, w2) \<Rightarrow> (Inl e, t1, w2)
         | (Inr t2, w2) \<Rightarrow> (outcome, t2, w2))"

section \<open>The helper\<close>

text \<open>\<open>_read\<close>: None at the end of the stream.\<close>

fun read_line :: "nat \<Rightarrow> bytes \<Rightarrow> bytes \<times> bytes" where
  "read_line 0 s = ([], s)"
| "read_line (Suc n) [] = ([], [])"
| "read_line (Suc n) (b # s) =
     (if b = newline then ([b], s) else (case read_line n s of (l, r) \<Rightarrow> (b # l, r)))"

lemma read_line_append: "read_line n s = (l, r) \<Longrightarrow> s = l @ r"
  by (induction n s arbitrary: l r rule: read_line.induct) (auto split: if_splits prod.splits)

definition helper_read :: "bytes \<Rightarrow> (exn + pyval option) \<times> bytes" where
  "helper_read stream =
     (case read_line (MAX_FRAME_BYTES + 1) stream of (encoded, rest) \<Rightarrow>
        (if encoded = [] then Inr None
         else if MAX_FRAME_BYTES < length encoded \<or> last encoded \<noteq> newline
         then Inl (ValueError ''Invalid worker transport frame'')
         else
         rbind (strict_loads encoded) (\<lambda>value.
         if is_dict value then Inr (Some value) else Inl (ValueError ''Invalid worker transport object'')),
         rest))"

lemma helper_read_shorter: "helper_read s = (Inr (Some v), rest) \<Longrightarrow> length rest < length s"
  by (cases "read_line (MAX_FRAME_BYTES + 1) s")
    (auto simp: helper_read_def dest: read_line_append split: if_splits)

definition emit_line :: "bool \<Rightarrow> pyval \<Rightarrow> exn + bytes" where
  "emit_line ok value =
     rbind (json_line (PDict [(lit ''ok'', PBool ok), (lit ''value'', value)])) (\<lambda>encoded.
     if MAX_FRAME_BYTES < length encoded
     then Inl (ValueError ''Worker transport response exceeds its bound'') else Inr encoded)"

definition helper_tool :: "pyval \<Rightarrow> exn + string" where
  "helper_tool req =
     rbind (closed req [''op'', ''name'', ''arguments'']) (\<lambda>_.
     if field req ''op'' \<noteq> PStr (lit ''call'') \<or> \<not> is_dict (field req ''arguments'')
     then Inl (ValueError ''Invalid worker transport call'')
     else (case find (\<lambda>t. field req ''name'' = PStr (lit t)) TOOLS of
             None \<Rightarrow> Inl (ValueError ''Invalid worker transport call'')
           | Some t \<Rightarrow> Inr t))"

text \<open>
  The loop of the helper after it opened its client: every request is one line of its input, so the
  input gets shorter.  The result is the output lines so far, the client and the world.
\<close>

function serve ::
  "'w transport \<Rightarrow> mcp \<Rightarrow> bytes \<Rightarrow> bytes list \<Rightarrow> 'w \<Rightarrow> (exn + unit) \<times> mcp \<times> bytes list \<times> 'w" where
  "serve net m stream out w =
     (case helper_read stream of
        (Inl e, rest) \<Rightarrow> (Inl e, m, out, w)
      | (Inr None, rest) \<Rightarrow> (Inr (), m, out, w)
      | (Inr (Some req), rest) \<Rightarrow>
          if field req ''op'' = PStr (lit ''close'') then
            (case closed req [''op''] of
               Inl e \<Rightarrow> (Inl e, m, out, w)
             | Inr _ \<Rightarrow>
                 (case close net m w of
                    (Inl e, m1, w1) \<Rightarrow> (Inl e, m1, out, w1)
                  | (Inr _, m1, w1) \<Rightarrow>
                      (case emit_line True PNone of
                         Inl e \<Rightarrow> (Inl e, m1, out, w1)
                       | Inr l \<Rightarrow> (Inr (), m1, out @ [l], w1))))
          else
            (case helper_tool req of
               Inl e \<Rightarrow> (Inl e, m, out, w)
             | Inr tool \<Rightarrow>
                 (case call net m tool (field req ''arguments'') w of
                    (Inl e, m1, w1) \<Rightarrow> (Inl e, m1, out, w1)
                  | (Inr v, m1, w1) \<Rightarrow>
                      (case emit_line True v of
                         Inl e \<Rightarrow> (Inl e, m1, out, w1)
                       | Inr l \<Rightarrow> serve net m1 rest (out @ [l]) w1))))"
  by pat_completeness auto
termination
  by (relation "measure (\<lambda>(net, m, stream, out, w). length stream)")
    (auto dest: helper_read_shorter [OF sym] helper_read_shorter)

declare serve.simps [simp del]

definition opening_proof :: "pyval \<Rightarrow> exn + pystr option" where
  "opening_proof v =
     (case v of PNone \<Rightarrow> Inr None | PStr s \<Rightarrow> Inr (Some s) | _ \<Rightarrow> Inl (ValueError ''Invalid worker claim proof''))"

definition check_opening :: "pyval option \<Rightarrow> exn + mcp" where
  "check_opening opening =
     (case opening of
        None \<Rightarrow> Inl (ValueError ''Unexpected worker input fields'')
      | Some o' \<Rightarrow>
          rbind (closed o' [''op'', ''url'', ''token'', ''lease-proof'']) (\<lambda>_.
          if field o' ''op'' \<noteq> PStr (lit ''open'') \<or> \<not> text_within (field o' ''token'') 16384
          then Inl (ValueError ''Invalid worker transport opening'')
          else
          rbind (opening_proof (field o' ''lease-proof'')) (\<lambda>p.
          MCP (field o' ''url'') (str_of (field o' ''token'')) p NETWORK_SECONDS)))"

text \<open>
  \<open>child\<close>: \<open>adopted\<close> says that \<open>prctl\<close> succeeded and the parent is still the controller.  The client is
  closed on every way out of the \<open>with\<close> block.
\<close>

definition helper ::
  "'w transport \<Rightarrow> bool \<Rightarrow> bytes \<Rightarrow> 'w \<Rightarrow> (exn + unit) \<times> bytes list \<times> 'w" where
  "helper net adopted stream w =
     (if \<not> adopted then (Inl (ValueError ''Worker transport lost its owning controller''), [], w)
      else
      (case helper_read stream of
         (Inl e, rest) \<Rightarrow> (Inl e, [], w)
       | (Inr opening, rest) \<Rightarrow>
           (case check_opening opening of
              Inl e \<Rightarrow> (Inl e, [], w)
            | Inr m \<Rightarrow>
                (case enter net m w of
                   (Inl e, m1, w1) \<Rightarrow> (Inl e, [], w1)
                 | (Inr _, m1, w1) \<Rightarrow>
                     (let (r, m2, out, w2) =
                            (case emit_line True PNone of
                               Inl e \<Rightarrow> (Inl e, m1, [], w1)
                             | Inr l \<Rightarrow> serve net m1 rest [l] w1)
                      in case close net m2 w2 of
                           (Inl e, _, w3) \<Rightarrow> (Inl e, out, w3)
                         | (Inr _, _, w3) \<Rightarrow> (r, out, w3))))))"

text \<open>The script: a failure is answered with one line that says only that it failed.\<close>

definition helper_main :: "'w transport \<Rightarrow> bool \<Rightarrow> bytes \<Rightarrow> 'w \<Rightarrow> bytes list \<times> bool \<times> 'w" where
  "helper_main net adopted stream w =
     (case helper net adopted stream w of
        (Inr _, out, w') \<Rightarrow> (out, True, w')
      | (Inl _, out, w') \<Rightarrow>
          (case emit_line False PNone of Inl _ \<Rightarrow> (out, False, w') | Inr l \<Rightarrow> (out @ [l], False, w')))"

end
