(* ===== verification/Worker_Sci.thy ===== *)
theory Worker_Sci
  imports Worker_Unit Worker_Transport
begin

text \<open>
  \<^verbatim>\<open>scripts/worker_sci.py\<close>: the supervisor of the two local endpoints (broker and guest) inside one
  retained unit.  It forwards at most 32 inference requests of the guest to the broker, and on every
  way out kills, joins and closes both.  \<open>ends\<close> are the started children in order.
\<close>

section \<open>Messages\<close>

definition sci_encoded :: "pyval \<Rightarrow> exn + bytes" where
  "sci_encoded value = json_line value"

definition opening_limit :: nat where
  "opening_limit = nat max_input_json_bytes + 16384"

definition parse_opening :: "bytes \<Rightarrow> pyval \<Rightarrow> exn + pyval" where
  "parse_opening raw expected =
     (if raw = [] \<or> last raw \<noteq> line_feed \<or> opening_limit < length raw
      then Inl (ValueError ''Invalid bounded SCI opening'')
      else
      rbind (strict_loads raw) (\<lambda>value.
      rbind (closed value [''frozen'', ''config'', ''execution-profile'']) (\<lambda>_.
      rbind (validate (field value ''frozen'') (field value ''config'')) (\<lambda>_.
      rbind (validate_profile (field value ''execution-profile'')) (\<lambda>_.
      if \<not> py_eq (field value ''execution-profile'') expected
         \<or> field (field value ''config'') ''adapter'' \<noteq> PStr (lit ''codex'')
      then Inl (ValueError ''SCI local configuration differs'') else Inr value)))))"

definition sci_request :: "bytes \<Rightarrow> pyval \<Rightarrow> (exn + pyval) \<times> bytes" where
  "sci_request stream expected =
     (case readline (opening_limit + 1) stream of (raw, rest) \<Rightarrow> (parse_opening raw expected, rest))"

section \<open>Children\<close>

datatype endpoint = Broker | Guest

record supervisor = outside +
  ends :: "(endpoint \<times> nat \<times> frames) list"
  scratch :: nat
  scratch_path :: pystr

definition as_child :: "pyval \<Rightarrow> exn + nat \<times> nat \<times> nat" where
  "as_child v =
     (case elements v of
        [p, i, q] \<Rightarrow> rbind (as_nat p) (\<lambda>p. rbind (as_nat i) (\<lambda>i. rbind (as_nat q) (\<lambda>q. Inr (p, i, q))))
      | _ \<Rightarrow> Inl TypeError)"

definition kill_child :: "nat \<Rightarrow> ('a outside_scheme, unit) prog" where
  "kill_child p =
     ebind (consult (ProcessKill p)) (\<lambda>_. ebind (consult (ProcessWait p (Some (5 * second_ns)))) (\<lambda>_. ret ()))"

definition start ::
  "platform \<Rightarrow> pyval \<Rightarrow> string \<Rightarrow> pystr \<Rightarrow> pyval option \<Rightarrow> ('a outside_scheme, nat \<times> frames) prog" where
  "start plat prof mode_name home codex_home =
     ebind (argv (resolve_path plat) (open_zip plat) (field prof ''runtime'') (lit mode_name) (PStr home))
       (\<lambda>command.
     ebind (lift (environment (resolve_path plat) (PStr home) codex_home)) (\<lambda>env.
     ebind (ebind (consult (SpawnPiped command home env)) (\<lambda>v. lift (as_child v))) (\<lambda>(child, stdin, stdout).
     try_finally
       (on_error
          (ebind (ask_nat (DupFd stdin)) (\<lambda>w. ebind (ask_nat (DupFd stdout)) (\<lambda>r. ret (child, new_frames w r))))
          (kill_child child))
       (ebind (close_end (Some stdin)) (\<lambda>_. close_end (Some stdout))))))"

definition set_end :: "endpoint \<Rightarrow> frames \<Rightarrow> (endpoint \<times> nat \<times> frames) list \<Rightarrow> (endpoint \<times> nat \<times> frames) list"
where
  "set_end e fr xs = map (\<lambda>(x, p, f). if x = e then (x, p, fr) else (x, p, f)) xs"

definition the_end :: "endpoint \<Rightarrow> ('a supervisor_scheme, nat \<times> frames) prog" where
  "the_end e =
     ebind (gets ends) (\<lambda>xs. case map_of xs e of None \<Rightarrow> raise AttributeError | Some x \<Rightarrow> ret x)"

definition read_end :: "nat \<Rightarrow> endpoint \<Rightarrow> int \<Rightarrow> ('a supervisor_scheme, pyval) prog" where
  "read_end fuel e deadline =
     ebind (the_end e) (\<lambda>(_, fr).
     ebind (frame_read fuel (ret ()) fr deadline) (\<lambda>(v, fr').
     ebind (modify (ends_update (set_end e fr'))) (\<lambda>_. ret v)))"

definition write_end :: "nat \<Rightarrow> endpoint \<Rightarrow> pyval \<Rightarrow> int \<Rightarrow> ('a supervisor_scheme, unit) prog" where
  "write_end fuel e value deadline =
     ebind (the_end e) (\<lambda>(_, fr).
     ebind (lift (sci_encoded value)) (\<lambda>b.
     frame_write fuel (ret ()) fr b deadline))"

text \<open>\<open>close_writer\<close> and \<open>finish\<close>\<close>

definition close_writer :: "endpoint \<Rightarrow> ('a supervisor_scheme, unit) prog" where
  "close_writer e =
     ebind (the_end e) (\<lambda>(_, fr).
     ebind (close_end (writer fr)) (\<lambda>_.
     modify (ends_update (set_end e (fr\<lparr>writer := None\<rparr>)))))"

definition finish :: "endpoint \<Rightarrow> int \<Rightarrow> ('a supervisor_scheme, unit) prog" where
  "finish e deadline =
     ebind (close_writer e) (\<lambda>_.
     ebind (the_end e) (\<lambda>(p, _).
     ebind (ask_int Monotonic) (\<lambda>now.
     ebind (ask_int (ProcessWait p (Some (max 1000000 (deadline - now))))) (\<lambda>status.
     if status \<noteq> 0 then raise (ValueError ''SCI endpoint failed'') else ret ()))))"

section \<open>One run\<close>

definition start_end ::
  "platform \<Rightarrow> pyval \<Rightarrow> endpoint \<Rightarrow> string \<Rightarrow> pystr \<Rightarrow> pyval option \<Rightarrow> ('a supervisor_scheme, unit) prog" where
  "start_end plat prof e mode_name home codex_home =
     ebind (start plat prof mode_name home codex_home) (\<lambda>(p, fr).
     modify (ends_update (\<lambda>xs. xs @ [(e, p, fr)])))"

definition configure_message :: "pyval \<Rightarrow> pyval" where
  "configure_message frozen =
     PDict [(lit ''version'', PInt 1), (lit ''kind'', PStr (lit ''configure'')), (lit ''config'', field frozen ''config'')]"

definition check_broker_ready :: "pyval \<Rightarrow> pyval \<Rightarrow> exn + unit" where
  "check_broker_ready prof ready =
     rbind (closed ready [''version'', ''kind'', ''config-id'', ''inference-policy-id'']) (\<lambda>_.
     rbind (canonical_uuid (field ready ''config-id'')) (\<lambda>_.
     if field ready ''version'' \<noteq> PInt 1 \<or> field ready ''kind'' \<noteq> PStr (lit ''broker-ready'')
        \<or> \<not> py_eq (field ready ''inference-policy-id'') (field prof ''inference-policy-id'')
     then Inl (ValueError ''SCI broker policy differs'') else Inr ()))"

definition execute_message :: "pyval \<Rightarrow> pyval" where
  "execute_message frozen =
     PDict [(lit ''version'', PInt 1), (lit ''kind'', PStr (lit ''execute'')), (lit ''frozen'', frozen)]"

definition guest_ready :: "pyval \<Rightarrow> pyval \<Rightarrow> pyval" where
  "guest_ready prof frozen =
     PDict [(lit ''version'', PInt 1), (lit ''kind'', PStr (lit ''guest-ready'')),
            (lit ''input-id'', field frozen ''input-id''),
            (lit ''executor-policy-id'', field prof ''executor-policy-id''),
            (lit ''inference-policy-id'', field prof ''inference-policy-id'')]"

definition handshake :: "nat \<Rightarrow> pyval \<Rightarrow> pyval \<Rightarrow> int \<Rightarrow> ('a supervisor_scheme, unit) prog" where
  "handshake fuel prof frozen deadline =
     ebind (write_end fuel Broker (configure_message frozen) deadline) (\<lambda>_.
     ebind (read_end fuel Broker deadline) (\<lambda>ready.
     ebind (lift (check_broker_ready prof ready)) (\<lambda>_.
     ebind (write_end fuel Guest (execute_message frozen) deadline) (\<lambda>_.
     ebind (read_end fuel Guest deadline) (\<lambda>answer.
     if \<not> py_eq answer (guest_ready prof frozen) then raise (ValueError ''SCI guest policy differs'')
     else ret ())))))"

definition is_inference :: "pyval \<Rightarrow> bool" where
  "is_inference frame \<longleftrightarrow> field frame ''kind'' = PStr (lit ''inference'')"

definition check_inference :: "bool \<Rightarrow> pyval \<Rightarrow> exn + unit" where
  "check_inference exhausted frame =
     rbind (closed frame [''version'', ''kind'', ''request'']) (\<lambda>_.
     if field frame ''version'' \<noteq> PInt 1 \<or> exhausted
     then Inl (ValueError ''SCI inference envelope differs'') else Inr ())"

definition check_broker_reply :: "pyval \<Rightarrow> exn + unit" where
  "check_broker_reply reply =
     rbind (closed reply [''version'', ''kind'', ''reply'']) (\<lambda>_.
     if field reply ''version'' \<noteq> PInt 1 \<or> field reply ''kind'' \<noteq> PStr (lit ''inference-result'')
     then Inl (ValueError ''SCI broker reply differs'') else Inr ())"

definition check_result :: "pyval \<Rightarrow> pyval \<Rightarrow> exn + pyval" where
  "check_result frozen frame =
     rbind (closed frame [''version'', ''kind'', ''input-id'', ''output'']) (\<lambda>_.
     if field frame ''version'' \<noteq> PInt 1 \<or> field frame ''kind'' \<noteq> PStr (lit ''result'')
        \<or> \<not> py_eq (field frame ''input-id'') (field frozen ''input-id'')
     then Inl (ValueError ''SCI result differs'')
     else validate_output frozen (field frozen ''config'') (field frame ''output''))"

definition sci_close_message :: pyval where
  "sci_close_message = PDict [(lit ''version'', PInt 1), (lit ''kind'', PStr (lit ''close''))]"

definition finish_both :: "nat \<Rightarrow> pyval \<Rightarrow> pyval \<Rightarrow> int \<Rightarrow> ('a supervisor_scheme, pyval) prog" where
  "finish_both fuel frozen frame deadline =
     ebind (lift (check_result frozen frame)) (\<lambda>output.
     ebind (finish Guest deadline) (\<lambda>_.
     ebind (write_end fuel Broker sci_close_message deadline) (\<lambda>_.
     ebind (finish Broker deadline) (\<lambda>_. ret output))))"

definition forward :: "nat \<Rightarrow> pyval \<Rightarrow> int \<Rightarrow> ('a supervisor_scheme, unit) prog" where
  "forward fuel frame deadline =
     ebind (write_end fuel Broker frame deadline) (\<lambda>_.
     ebind (read_end fuel Broker deadline) (\<lambda>reply.
     ebind (lift (check_broker_reply reply)) (\<lambda>_.
     write_end fuel Guest reply deadline)))"

text \<open>The loop; \<open>left\<close> is 32 less the calls that were forwarded.\<close>

fun serve_guest :: "nat \<Rightarrow> pyval \<Rightarrow> int \<Rightarrow> nat \<Rightarrow> ('a supervisor_scheme, pyval) prog" where
  "serve_guest fuel frozen deadline 0 =
     ebind (read_end fuel Guest deadline) (\<lambda>frame.
     if is_inference frame then ebind (lift (check_inference True frame)) (\<lambda>_. raise out_of_fuel)
     else finish_both fuel frozen frame deadline)"
| "serve_guest fuel frozen deadline (Suc left) =
     ebind (read_end fuel Guest deadline) (\<lambda>frame.
     if is_inference frame
     then ebind (lift (check_inference False frame)) (\<lambda>_.
          ebind (forward fuel frame deadline) (\<lambda>_. serve_guest fuel frozen deadline left))
     else finish_both fuel frozen frame deadline)"

definition MAX_CALLS :: nat where "MAX_CALLS = 32"

definition kill_running :: "endpoint \<times> nat \<times> frames \<Rightarrow> unit \<Rightarrow> ('a outside_scheme, unit) prog" where
  "kill_running x _ =
     (case x of (_, p, _) \<Rightarrow>
        ebind (consult (ProcessPoll p)) (\<lambda>status.
        if status = PNone then ebind (consult (ProcessKill p)) (\<lambda>_. ret ()) else ret ()))"

definition join_end :: "endpoint \<times> nat \<times> frames \<Rightarrow> unit \<Rightarrow> ('a outside_scheme, unit) prog" where
  "join_end x _ =
     (case x of (_, p, fr) \<Rightarrow>
        try_finally (ebind (consult (ProcessWait p (Some (5 * second_ns)))) (\<lambda>_. ret ()))
          (ebind (frames_close fr) (\<lambda>_. ret ())))"

definition end_children :: "('a supervisor_scheme, unit) prog" where
  "end_children =
     ebind (gets ends) (\<lambda>xs.
     ebind (efor kill_running xs ()) (\<lambda>_.
     ebind (gets ends) (\<lambda>xs. efor join_end xs ())))"

definition sci_prefix :: pystr where "sci_prefix = lit ''simmis-sci-''"

definition run_endpoints ::
  "nat \<Rightarrow> platform \<Rightarrow> pyval \<Rightarrow> pyval \<Rightarrow> pyval \<Rightarrow> pystr \<Rightarrow> int \<Rightarrow> ('a supervisor_scheme, pyval) prog" where
  "run_endpoints fuel plat prof frozen codex_home root deadline =
     ebind (gets scratch) (\<lambda>tmp.
     ebind (sys_opendir tmp root) (\<lambda>d.
     ebind (efor (\<lambda>name _. sys_mkdir d (lit name) 448) [''guest'', ''broker''] ()) (\<lambda>_.
     ebind (gets scratch_path) (\<lambda>base.
     let home = (\<lambda>name. path_child (pure_str (base @ slash # root)) name) in
     ebind (start_end plat prof Broker ''broker'' (home ''broker'') (Some codex_home)) (\<lambda>_.
     ebind (start_end plat prof Guest ''guest'' (home ''guest'') None) (\<lambda>_.
     ebind (handshake fuel prof frozen deadline) (\<lambda>_.
     serve_guest fuel frozen deadline MAX_CALLS)))))))"

definition sci_execute ::
  "nat \<Rightarrow> platform \<Rightarrow> pyval \<Rightarrow> pyval \<Rightarrow> pyval \<Rightarrow> ('a supervisor_scheme, pyval) prog" where
  "sci_execute fuel plat prof frozen codex_home =
     ebind (ask_int Monotonic) (\<lambda>now.
     let deadline = now + int_of (field (field frozen ''limits'') ''timeout-ms'') * 1000000 in
     ebind (modify (ends_update (\<lambda>_. []))) (\<lambda>_.
     ebind (gets scratch) (\<lambda>tmp.
     ebind (mkdtemp tmp sci_prefix) (\<lambda>root.
     try_finally
       (try_finally (run_endpoints fuel plat prof frozen codex_home root deadline) end_children)
       (sys_rmtree tmp root)))))"

section \<open>The script\<close>

definition owned_unit :: "pystr \<Rightarrow> exn + unit" where
  "owned_unit text =
     (let memberships = unified_paths text in
      if length memberships \<noteq> 1 \<or> \<not> starts_with user_slice (hd memberships)
      then Inl (ValueError ''SCI supervisor needs its owned execution unit'')
      else validate_name (PStr (last (pure_parts (hd memberships)))))"

definition sci_ready :: "pyval \<Rightarrow> pyval \<Rightarrow> pyval" where
  "sci_ready prof frozen =
     PDict [(lit ''kind'', PStr (lit ''ready'')), (lit ''execution-profile'', prof),
            (lit ''input-id'', field frozen ''input-id'')]"

definition sci_complete :: "pyval \<Rightarrow> pyval \<Rightarrow> pyval" where
  "sci_complete frozen output =
     PDict [(lit ''kind'', PStr (lit ''complete'')), (lit ''input-id'', field frozen ''input-id''),
            (lit ''output'', output)]"

definition sci_emit :: "pyval \<Rightarrow> ('a outside_scheme, unit) prog" where
  "sci_emit v = ebind (lift (sci_encoded v)) (\<lambda>b. ebind (consult (StdoutWrite b)) (\<lambda>_. ret ()))"

definition sci_main :: "nat \<Rightarrow> platform \<Rightarrow> pyval \<Rightarrow> pyval \<Rightarrow> ('a supervisor_scheme, unit) prog" where
  "sci_main fuel plat prof codex_home =
     ebind (lift (validate_profile prof)) (\<lambda>_.
     ebind (verify (resolve_path plat) (open_zip plat) (field prof ''runtime'')) (\<lambda>_.
     ebind (lift (environment (resolve_path plat) (PStr (lit ''/unused-private-home'')) (Some codex_home))) (\<lambda>_.
     ebind (ask_str (ReadText (lit ''/proc/self/cgroup''))) (\<lambda>text.
     ebind (lift (owned_unit text)) (\<lambda>_.
     ebind (ask_bytes (StdinLine (opening_limit + 1))) (\<lambda>raw.
     ebind (lift (parse_opening raw prof)) (\<lambda>opening.
     let frozen = field opening ''frozen'' in
     ebind (sci_emit (sci_ready prof frozen)) (\<lambda>_.
     ebind (ask_bytes (StdinLine 4)) (\<lambda>line.
     if line \<noteq> go_line then ret ()
     else
     ebind (sci_execute fuel plat prof frozen codex_home) (\<lambda>output.
     sci_emit (sci_complete frozen output)))))))))))"

text \<open>\<open>__main__\<close>: the exit status; an error says only that it failed.\<close>

definition sci_script :: "nat \<Rightarrow> platform \<Rightarrow> pystr list \<Rightarrow> ('a supervisor_scheme, nat) prog" where
  "sci_script fuel plat args =
     try_except
       (case args of
          [_, a, b] \<Rightarrow>
            ebind (lift (loads_text default_hooks a)) (\<lambda>prof.
            ebind (sci_main fuel plat prof (PStr b)) (\<lambda>_. ret 0))
        | _ \<Rightarrow> raise (ValueError ''Invalid supervisor invocation''))
       (\<lambda>_. ret 1)"

end
