(* ===== verification/Worker_Controller.thy ===== *)
theory Worker_Controller
  imports Worker_Journal Worker_Sci
begin

text \<open>
  \<^verbatim>\<open>scripts/worker_controller.py\<close>: the controller that claims one Run, starts its unit, admits it
  durably, gives the GO, seals the stop and has the server acknowledge it; and the reconciliation of a
  Run after a restart.  The client, the lease and the pipe of the object are parts of the world, since
  the callbacks (the lease at every wait, the stop when the transport fails) act on them.
\<close>

section \<open>Receipts\<close>

definition receipt_required :: "string list" where
  "receipt_required = [''run'', ''lease'', ''state'', ''cancel-requested?'', ''stop-ack?'', ''expires-at-ms'']"

definition receipt_states :: "string list" where
  "receipt_states = [''claimed'', ''quarantined'', ''stopped'', ''completed'']"

definition receipt_error :: exn where
  "receipt_error = ValueError ''Worker receipt does not identify the exact bounded lease''"

definition receipt_values_ok :: "pyval \<Rightarrow> bool" where
  "receipt_values_ok v \<longleftrightarrow>
     is_bool (field v ''cancel-requested?'') \<and> is_bool (field v ''stop-ack?'') \<and> is_int (field v ''expires-at-ms'')
     \<and> 0 \<le> int_of (field v ''expires-at-ms'') \<and> int_of (field v ''expires-at-ms'') < 2 ^ 63"

definition checked_receipt :: "pyval \<Rightarrow> pyval \<Rightarrow> exn + pyval" where
  "checked_receipt value ticket =
     (if \<not> is_dict value
         \<or> \<not> (key_set_is value receipt_required \<or> key_set_is value (receipt_required @ [''output-id'']))
         \<or> \<not> py_eq (field value ''run'') (field ticket ''run'')
         \<or> \<not> py_eq (field value ''lease'') (field ticket ''nonce'')
      then Inl receipt_error
      else
      rbind (in_strings (field value ''state'') receipt_states) (\<lambda>known.
      if \<not> known \<or> \<not> receipt_values_ok value then Inl receipt_error
      else
      rbind (if has_key value ''output-id'' then rbind (canonical_uuid (field value ''output-id'')) (\<lambda>_. Inr ())
             else Inr ()) (\<lambda>_.
      if (field value ''state'' = PStr (lit ''completed'')) \<noteq> has_key value ''output-id''
      then Inl (ValueError ''Worker completion identity is missing or unexpected'')
      else Inr value)))"

definition not_live :: "pyval \<Rightarrow> bool" where
  "not_live receipt \<longleftrightarrow>
     field receipt ''state'' \<noteq> PStr (lit ''claimed'') \<or> bool_of (field receipt ''cancel-requested?'')
     \<or> bool_of (field receipt ''stop-ack?'')"

definition require_live :: "pyval \<Rightarrow> ('a outside_scheme, unit) prog" where
  "require_live receipt =
     ebind (if not_live receipt then ret True
            else ebind (ask_int WallClock) (\<lambda>now. ret (int_of (field receipt ''expires-at-ms'') \<le> now + 1000)))
       (\<lambda>dead. if dead then raise (Cancelled ''Worker lease is no longer live'') else ret ())"

section \<open>The object\<close>

record lease =
  lease_ticket :: pyval
  interval :: int
  next_beat :: int
  valid_until :: int

text \<open>
  \<open>self.observer is not None\<close> is \<open>observing\<close>; \<open>self.identity\<close> and \<open>self.launch\<close> are None or a dict.
\<close>

record controller = unit_bus +
  client :: helper_link
  beat :: lease
  pipe :: "frames option"
  observing :: bool
  held :: pyval
  intent_made :: pyval
  publication_attempted :: bool
  used :: bool

text \<open>
  What does not change: the state directory, the identity and configuration of the worker, the host, and
  the bound on the turns of each waiting loop.
\<close>

record installation =
  root_path :: "pystr list"
  worker_id :: pyval
  mcp_server :: pyval
  settings :: pyval
  heartbeat :: int
  host_platform :: platform
  helper_command :: "pystr list"
  null_device :: nat
  turns :: nat

definition runs_folder :: "installation \<Rightarrow> pystr list" where
  "runs_folder c = root_path c @ [lit ''runs'']"

section \<open>The client\<close>

definition no_callback :: "('w, unit) prog" where
  "no_callback = ret ()"

definition with_link ::
  "(helper_link \<Rightarrow> ('a controller_scheme) \<Rightarrow> (exn + 'b) \<times> helper_link \<times> 'a controller_scheme)
     \<Rightarrow> ('a controller_scheme, 'b) prog" where
  "with_link f w = (case f (client w) w of (r, t, w') \<Rightarrow> (r, w'\<lparr>client := t\<rparr>))"

definition client_call ::
  "installation \<Rightarrow> ('a controller_scheme) on_failure \<Rightarrow> string \<Rightarrow> pyval \<Rightarrow> ('a controller_scheme, pyval) prog" where
  "client_call c on_failure name arguments =
     with_link (\<lambda>t. transport_call (turns c) on_failure t name arguments)"

text \<open>\<open>with MCP(...) as client: body\<close>\<close>

definition with_client ::
  "installation \<Rightarrow> ('a controller_scheme) on_failure \<Rightarrow> pystr \<Rightarrow> pystr option \<Rightarrow> ('a controller_scheme, 'b) prog
     \<Rightarrow> ('a controller_scheme, 'b) prog" where
  "with_client c on_failure token proof body =
     ebind (lift (Transport (mcp_server c) token proof 5)) (\<lambda>t.
     ebind (modify (client_update (\<lambda>_. t))) (\<lambda>_.
     ebind (with_link (transport_enter (turns c) (helper_command c) on_failure)) (\<lambda>_.
     try_finally body (with_link (transport_exit (turns c) on_failure)))))"

section \<open>The lease\<close>

text \<open>The wall clock is in milliseconds, the monotonic clock in nanoseconds.\<close>

definition ms :: int where "ms = 1000000"

definition Lease :: "pyval \<Rightarrow> int \<Rightarrow> exn + lease" where
  "Lease ticket seconds =
     (if \<not> (0 < seconds \<and> seconds \<le> 5 * second_ns) then Inl (ValueError ''Invalid worker heartbeat interval'')
      else Inr \<lparr>lease_ticket = ticket, interval = seconds, next_beat = 0, valid_until = 0\<rparr>)"

definition renewed_lease :: "lease \<Rightarrow> int \<Rightarrow> int \<Rightarrow> int \<Rightarrow> lease" where
  "renewed_lease l started now remaining =
     (let until = min (started + lease_ttl_ms * ms - second_ns) (now + max 0 remaining)
      in l\<lparr>valid_until := until, next_beat := min (now + interval l) (until - 500 * ms)\<rparr>)"

definition lease_status :: "installation \<Rightarrow> ('a controller_scheme) on_failure \<Rightarrow> ('a controller_scheme, pyval) prog" where
  "lease_status c on_failure =
     ebind (gets beat) (\<lambda>l.
     ebind (ask_int Monotonic) (\<lambda>started.
     ebind (client_call c on_failure ''simmis_worker-heartbeat''
              (PDict [(lit ''run'', field (lease_ticket l) ''run'')])) (\<lambda>answer.
     ebind (lift (checked_receipt answer (lease_ticket l))) (\<lambda>value.
     ebind (ask_int Monotonic) (\<lambda>now.
     if NETWORK_SECONDS * second_ns \<le> now - started
     then raise (Cancelled ''Worker receipt exceeded its freshness bound'')
     else
     ebind (ask_int WallClock) (\<lambda>wall.
     let remaining = (int_of (field value ''expires-at-ms'') - wall - 1000) * ms in
     ebind (modify (beat_update (\<lambda>l. renewed_lease l started now remaining))) (\<lambda>_. ret value)))))))"

definition lease_tick ::
  "installation \<Rightarrow> ('a controller_scheme) on_failure \<Rightarrow> bool \<Rightarrow> ('a controller_scheme, unit) prog" where
  "lease_tick c on_failure force =
     ebind (gets beat) (\<lambda>l.
     ebind (if next_beat l = 0 then ret False
            else ebind (ask_int Monotonic) (\<lambda>now. ret (valid_until l \<le> now))) (\<lambda>stale.
     if stale then raise (Cancelled ''Worker receipt is no longer fresh'')
     else
     ebind (if force then ret True else ebind (ask_int Monotonic) (\<lambda>now. ret (next_beat l \<le> now))) (\<lambda>due.
     if due then ebind (lease_status c on_failure) require_live else ret ())))"

definition input_call :: "installation \<Rightarrow> ('a controller_scheme) on_failure \<Rightarrow> ('a controller_scheme) mcp_call" where
  "input_call c on_failure name arguments =
     ebind (lease_tick c on_failure False) (\<lambda>_. client_call c on_failure name arguments)"

section \<open>Directories\<close>

definition child_directory :: "pystr list \<Rightarrow> pystr \<Rightarrow> ('a posix_scheme, pystr list) prog" where
  "child_directory folder name =
     ebind (state_directory folder) (\<lambda>directory.
     ebind (try_except (sys_mkdir directory name 448) (\<lambda>e. if e = FileExistsError then ret () else raise e)) (\<lambda>_.
     ebind (sys_opendir directory name) (\<lambda>child.
     ebind (sys_fstat child) (\<lambda>info.
     ebind (gets uid) (\<lambda>u.
     if st_uid info \<noteq> u \<or> group_other (st_mode info) \<noteq> 0
     then raise (ValueError ''Worker child state directory must be private and owned by you'')
     else
     ebind (sys_fsync child) (\<lambda>_.
     ebind (sys_fsync directory) (\<lambda>_.
     ret (folder @ [name]))))))))"

definition controller_record :: "pyval \<Rightarrow> pyval \<Rightarrow> pyval" where
  "controller_record worker endpoint =
     PDict [(lit ''version'', PInt 1), (lit ''worker'', worker), (lit ''endpoint'', endpoint)]"

text \<open>\<open>__init__\<close>\<close>

definition Controller :: "installation \<Rightarrow> ('a controller_scheme, unit) prog" where
  "Controller c =
     ebind (lift (canonical_uuid (worker_id c))) (\<lambda>_.
     ebind (lift (MCP (mcp_server c) [] None 5)) (\<lambda>_.
     ebind (state_directory (root_path c)) (\<lambda>directory.
     ebind (publish directory ''controller'' (controller_record (worker_id c) (mcp_server c))) (\<lambda>_.
     ebind (child_directory (root_path c) (lit ''runs'')) (\<lambda>_.
     modify (\<lambda>w. w\<lparr>observing := False, pipe := None, held := PNone, intent_made := PNone,
                    publication_attempted := False, used := False\<rparr>))))))"

section \<open>Stopping\<close>

definition unit_of :: "pyval \<Rightarrow> pystr" where
  "unit_of v = str_of (field v ''unit'')"

definition stop_seconds :: int where "stop_seconds = 35"

definition seal ::
  "installation \<Rightarrow> pystr list \<Rightarrow> pyval \<Rightarrow> ('a controller_scheme) tick option \<Rightarrow> ('a controller_scheme, pyval) prog" where
  "seal c folder output tick =
     ebind (gets held) (\<lambda>h.
     ebind (wait_stopped (turns c) h (stop_seconds * 1000) tick) (\<lambda>seen.
     ebind (load_journal folder) (\<lambda>chain.
     ebind (case map_of chain ''stopped'' of Some r \<Rightarrow> ret r | None \<Rightarrow> stopped folder seen output) (\<lambda>r.
     ebind (gets held) (\<lambda>h.
     ebind (release (turns c) h) (\<lambda>_. ret r))))))"

definition abort_started :: "('a controller_scheme, unit) prog" where
  "abort_started =
     ebind (gets intent_made) (\<lambda>l.
     ebind (gets launched) (\<lambda>names.
     if l \<noteq> PNone \<and> unit_of l \<in> set names then abort_launch (field l ''unit'') else ret ()))"

definition stop_held :: "installation \<Rightarrow> pystr list \<Rightarrow> pyval \<Rightarrow> ('a controller_scheme, unit) prog" where
  "stop_held c folder h =
     ebind (load_journal folder) (\<lambda>chain.
     case map_of chain ''stopped'' of
       None \<Rightarrow>
         ebind (stop h) (\<lambda>_.
         ebind (admit folder h) (\<lambda>_.
         ebind (seal c folder PNone None) (\<lambda>_. ret ())))
     | Some _ \<Rightarrow>
         ebind (gets references) (\<lambda>refs. if unit_of h \<in> set refs then release (turns c) h else ret ()))"

definition run_arguments :: "pyval \<Rightarrow> pyval" where
  "run_arguments run = PDict [(lit ''run'', run)]"

text \<open>\<open>_request_stop\<close>, the callback of a failing transport\<close>

definition request_stop :: "('a controller_scheme, unit) prog" where
  "request_stop =
     ebind (gets observing) (\<lambda>on.
     if \<not> on then ret ()
     else
     ebind (gets held) (\<lambda>h.
     ebind (gets references) (\<lambda>refs.
     if h \<noteq> PNone \<and> unit_of h \<in> set refs then stop h else abort_started)))"

definition abort_run :: "installation \<Rightarrow> pystr list \<Rightarrow> ('a controller_scheme, unit) prog" where
  "abort_run c folder =
     ebind (gets observing) (\<lambda>on.
     if \<not> on then ret ()
     else
     ebind (gets held) (\<lambda>h.
     if h = PNone then abort_started
     else
     ebind (stop_held c folder h) (\<lambda>_.
     ebind (gets publication_attempted) (\<lambda>attempted.
     if attempted then ret ()
     else
     ebind (client_call c request_stop ''simmis_worker-stop'' (run_arguments (PStr (last folder)))) (\<lambda>receipt.
     ebind (acknowledge folder ''stopped'' receipt) (\<lambda>_. ret ()))))))"

section \<open>Running\<close>

text \<open>\<open>sci\<close> is None or the dict of the profile and the broker's login directory; \<open>command\<close> is None or a list.\<close>

definition check_sci :: "installation \<Rightarrow> pyval option \<Rightarrow> pyval \<Rightarrow> ('a controller_scheme, unit) prog" where
  "check_sci c command sci =
     (let plat = host_platform c in
      if command \<noteq> None \<or> \<not> is_dict sci \<or> \<not> key_set_is sci [''profile'', ''codex-home'']
         \<or> field (settings c) ''adapter'' \<noteq> PStr (lit ''codex'')
      then raise (ValueError ''SCI profile requires the supported native Codex broker'')
      else
      ebind (lift (validate_profile (field sci ''profile''))) (\<lambda>_.
      ebind (verify (resolve_path plat) (open_zip plat) (field (field sci ''profile'') ''runtime'')) (\<lambda>_.
      ebind (lift (environment (resolve_path plat) (PStr (lit ''/unused-private-home''))
                     (if field sci ''codex-home'' = PNone then None else Some (field sci ''codex-home'')))) (\<lambda>_.
      ret ()))))"

text \<open>The line the guard will read, checked by the guard's own reader.\<close>

definition opening_line :: "installation \<Rightarrow> pyval \<Rightarrow> pyval option \<Rightarrow> pyval option \<Rightarrow> exn + bytes" where
  "opening_line c frozen command sci =
     (case sci of
        None \<Rightarrow>
          (let line = dumps_bytes fmt_compact
                        (PDict [(lit ''frozen'', frozen), (lit ''config'', settings c),
                                (lit ''argv'', (case command of None \<Rightarrow> PNone | Some a \<Rightarrow> a))]) @ [newline]
           in rbind (fst (read_request line)) (\<lambda>_. Inr line))
      | Some s \<Rightarrow>
          rbind (sci_encoded (PDict [(lit ''frozen'', frozen), (lit ''config'', settings c),
                                     (lit ''execution-profile'', field s ''profile'')])) (\<lambda>line.
          rbind (fst (sci_request line (field s ''profile''))) (\<lambda>_. Inr line)))"

definition the_pipe :: "('a controller_scheme, frames) prog" where
  "the_pipe = ebind (gets pipe) (\<lambda>p. case p of None \<Rightarrow> raise AttributeError | Some fr \<Rightarrow> ret fr)"

definition pipe_write ::
  "installation \<Rightarrow> ('a controller_scheme) tick \<Rightarrow> bytes \<Rightarrow> int \<Rightarrow> ('a controller_scheme, unit) prog" where
  "pipe_write c tick line deadline = ebind the_pipe (\<lambda>fr. frame_write (turns c) tick fr line deadline)"

definition pipe_read ::
  "installation \<Rightarrow> ('a controller_scheme) tick \<Rightarrow> int \<Rightarrow> ('a controller_scheme, pyval) prog" where
  "pipe_read c tick deadline =
     ebind the_pipe (\<lambda>fr.
     ebind (frame_read (turns c) tick fr deadline) (\<lambda>(v, fr').
     ebind (modify (pipe_update (\<lambda>_. Some fr'))) (\<lambda>_. ret v)))"

definition close_pipe :: "('a controller_scheme, unit) prog" where
  "close_pipe =
     ebind (gets pipe) (\<lambda>p. case p of
       None \<Rightarrow> ret ()
     | Some fr \<Rightarrow> ebind (frames_close fr) (\<lambda>fr'. modify (pipe_update (\<lambda>_. Some fr'))))"

definition timeout_ms :: "pyval \<Rightarrow> pyval" where
  "timeout_ms frozen = field (field frozen ''limits'') ''timeout-ms''"

text \<open>The journal entry, the pipes and the unit.\<close>

definition start_unit ::
  "installation \<Rightarrow> pystr list \<Rightarrow> pyval \<Rightarrow> pyval \<Rightarrow> pyval option \<Rightarrow> ('a controller_scheme, unit) prog" where
  "start_unit c folder ticket frozen sci =
     ebind (prepare_launch folder ticket (mcp_server c) frozen (settings c)
              (map_option (\<lambda>s. field s ''profile'') sci)) (\<lambda>l.
     ebind (modify (intent_made_update (\<lambda>_. l))) (\<lambda>_.
     ebind ask_pipe (\<lambda>(input_read, input_write).
     ebind ask_pipe (\<lambda>(output_read, output_write).
     ebind (modify (pipe_update (\<lambda>_. Some (new_frames input_write output_read)))) (\<lambda>_.
     try_finally
       (launch (host_platform c) (field l ''unit'') (input_read, output_write, null_device c) (timeout_ms frozen) sci)
       (ebind (close_end (Some input_read)) (\<lambda>_. close_end (Some output_write))))))))"

definition expected_ready :: "pyval \<Rightarrow> pyval option \<Rightarrow> pyval" where
  "expected_ready frozen sci =
     PDict ([(lit ''kind'', PStr (lit ''ready'')), (lit ''input-id'', field frozen ''input-id'')]
            @ (case sci of None \<Rightarrow> [(lit ''policy'', namespace_policy)]
               | Some s \<Rightarrow> [(lit ''execution-profile'', field s ''profile'')]))"

text \<open>The guard is ready in the unit that was started, and the admission is durable.\<close>

definition admit_unit ::
  "installation \<Rightarrow> ('a controller_scheme) tick \<Rightarrow> pystr list \<Rightarrow> pyval \<Rightarrow> bytes \<Rightarrow> pyval option
     \<Rightarrow> ('a controller_scheme, unit) prog" where
  "admit_unit c tick folder frozen line sci =
     ebind (ask_int Monotonic) (\<lambda>now.
     let startup = now + 25 * second_ns in
     ebind (pipe_write c tick line startup) (\<lambda>_.
     ebind (pipe_read c tick startup) (\<lambda>ready.
     if \<not> py_eq ready (expected_ready frozen sci)
     then raise (ValueError ''Worker guard ready identity differs'')
     else
     ebind (gets intent_made) (\<lambda>l.
     ebind (capture (field l ''unit'')) (\<lambda>h.
     ebind (modify (held_update (\<lambda>_. h))) (\<lambda>_.
     ebind (admit folder h) (\<lambda>_. ret ())))))))"

definition completion_fields :: "pyval option \<Rightarrow> string list" where
  "completion_fields sci =
     [''kind'', ''input-id'', ''output''] @ (if sci = None then [''reaped-descendants''] else [])"

definition check_completion :: "pyval \<Rightarrow> pyval option \<Rightarrow> pyval \<Rightarrow> exn + unit" where
  "check_completion frozen sci complete =
     rbind (closed complete (completion_fields sci)) (\<lambda>_.
     if field complete ''kind'' \<noteq> PStr (lit ''complete'')
        \<or> \<not> py_eq (field complete ''input-id'') (field frozen ''input-id'')
        \<or> (sci = None \<and> (\<not> is_int (field complete ''reaped-descendants'')
                          \<or> int_of (field complete ''reaped-descendants'') < 0))
     then Inl (ValueError ''Worker guard completion identity differs'') else Inr ())"

definition send_go :: "installation \<Rightarrow> ('a controller_scheme) tick \<Rightarrow> ('a controller_scheme, unit) prog" where
  "send_go c tick = ebind (ask_int Monotonic) (\<lambda>now. pipe_write c tick go_line (now + 5 * second_ns))"

definition await_output ::
  "installation \<Rightarrow> ('a controller_scheme) tick \<Rightarrow> pyval \<Rightarrow> pyval option \<Rightarrow> ('a controller_scheme, pyval) prog" where
  "await_output c tick frozen sci =
     ebind (ask_int Monotonic) (\<lambda>now.
     ebind (pipe_read c tick (now + int_of (timeout_ms frozen) * ms + 10 * second_ns)) (\<lambda>complete.
     ebind (lift (check_completion frozen sci complete)) (\<lambda>_.
     lift (validate_output frozen (settings c) (field complete ''output'')))))"

definition complete_arguments :: "pyval \<Rightarrow> pyval \<Rightarrow> pyval" where
  "complete_arguments run output = PDict [(lit ''run'', run), (lit ''output'', output)]"

definition publish_output ::
  "installation \<Rightarrow> pystr list \<Rightarrow> pyval \<Rightarrow> pyval \<Rightarrow> ('a controller_scheme, pyval) prog" where
  "publish_output c folder run output =
     ebind (modify (publication_attempted_update (\<lambda>_. True))) (\<lambda>_.
     ebind (client_call c request_stop ''simmis_worker-complete'' (complete_arguments run output)) (\<lambda>receipt.
     acknowledge folder ''completed'' receipt))"

text \<open>The body of the inner \<open>try\<close>.\<close>

definition perform ::
  "installation \<Rightarrow> pystr list \<Rightarrow> pyval \<Rightarrow> pyval \<Rightarrow> pyval option \<Rightarrow> pyval option \<Rightarrow> ('a controller_scheme, pyval) prog"
where
  "perform c folder ticket run command sci =
     (let tick = lease_tick c request_stop False; force = lease_tick c request_stop True in
      ebind (fetch (input_call c request_stop) run (settings c)) (\<lambda>frozen.
      ebind (lift (opening_line c frozen command sci)) (\<lambda>line.
      ebind force (\<lambda>_.
      ebind (start_unit c folder ticket frozen sci) (\<lambda>_.
      ebind (admit_unit c tick folder frozen line sci) (\<lambda>_.
      ebind force (\<lambda>_.
      ebind (send_go c tick) (\<lambda>_.
      ebind (await_output c tick frozen sci) (\<lambda>output.
      ebind (seal c folder output (Some tick)) (\<lambda>_.
      ebind force (\<lambda>_.
      publish_output c folder run output)))))))))))"

text \<open>\<open>except BaseException ... finally\<close>\<close>

definition cleanup_error :: exn where
  "cleanup_error = RuntimeError ''Worker failed and cleanup remains unresolved''"

definition guarded ::
  "installation \<Rightarrow> pystr list \<Rightarrow> ('a controller_scheme, pyval) prog \<Rightarrow> ('a controller_scheme, pyval) prog" where
  "guarded c folder m =
     try_finally
       (try_except m (\<lambda>e.
          ebind (gets publication_attempted) (\<lambda>attempted.
          ebind (if attempted then ret ()
                 else try_except (abort_run c folder) (\<lambda>_. raise cleanup_error)) (\<lambda>_. raise e))))
       close_pipe"

definition path_lexists :: "pystr list \<Rightarrow> pystr \<Rightarrow> ('a posix_scheme, bool) prog" where
  "path_lexists folder name =
     try_except (ebind (sys_open_path folder) (\<lambda>d. sys_exists d name))
       (\<lambda>e. if is_OSError e then ret False else raise e)"

text \<open>The claim of the Run, with the ticket that was saved before.\<close>

definition claim_run :: "installation \<Rightarrow> pyval \<Rightarrow> pystr \<Rightarrow> pyval \<Rightarrow> ('a controller_scheme, unit) prog" where
  "claim_run c run issued ticket =
     with_client c no_callback issued (Some (str_of (field ticket ''proof'')))
       (ebind (client_call c no_callback ''simmis_worker-claim''
                 (PDict [(lit ''run'', run), (lit ''nonce'', field ticket ''nonce'')])) (\<lambda>answer.
        ebind (lift (checked_receipt answer ticket)) require_live))"

definition run_leased ::
  "installation \<Rightarrow> pystr list \<Rightarrow> pyval \<Rightarrow> pyval \<Rightarrow> pyval option \<Rightarrow> pyval option \<Rightarrow> ('a controller_scheme, pyval) prog"
where
  "run_leased c folder ticket run command sci =
     ebind (lift (lease_token ticket)) (\<lambda>token.
     with_client c request_stop token None
       (ebind (lift (Lease ticket (heartbeat c))) (\<lambda>l.
        ebind (modify (beat_update (\<lambda>_. l))) (\<lambda>_.
        ebind (lease_tick c request_stop True) (\<lambda>_.
        guarded c folder (perform c folder ticket run command sci))))))"

definition take_use :: "('a controller_scheme, unit) prog" where
  "take_use =
     ebind (gets used) (\<lambda>was.
     if was then raise (ValueError ''Controller instances are single use'')
     else modify (used_update (\<lambda>_. True)))"

definition run_locked ::
  "installation \<Rightarrow> pyval \<Rightarrow> pystr \<Rightarrow> pyval option \<Rightarrow> pyval option \<Rightarrow> ('a controller_scheme, pyval) prog" where
  "run_locked c run issued command sci =
     ebind (unresolved (runs_folder c) (worker_id c)) (\<lambda>left.
     if left \<noteq> [] then raise (ValueError ''Reconcile every unresolved worker Run before claiming new work'')
     else
     ebind (path_lexists (runs_folder c) (str_of run)) (\<lambda>there.
     if there
     then raise (ValueError ''Existing Run journals may only be reconciled, never executed again'')
     else
     ebind (UnitBus (sci \<noteq> None)) (\<lambda>_.
     ebind (modify (observing_update (\<lambda>_. True))) (\<lambda>_.
     ebind (child_directory (runs_folder c) (str_of run)) (\<lambda>folder.
     ebind (prepare (folder @ [claim_file]) (worker_id c) run) (\<lambda>ticket.
     ebind (claim_run c run issued ticket) (\<lambda>_.
     run_leased c folder ticket run command sci)))))))"

definition run ::
  "installation \<Rightarrow> pyval \<Rightarrow> pystr \<Rightarrow> pyval option \<Rightarrow> pyval option \<Rightarrow> ('a controller_scheme, pyval) prog" where
  "run c r issued command sci =
     ebind (lift (canonical_uuid r)) (\<lambda>_.
     ebind (case sci of None \<Rightarrow> ret () | Some s \<Rightarrow> check_sci c command s) (\<lambda>_.
     ebind take_use (\<lambda>_.
     controller_lock (root_path c) (worker_id c) (run_locked c r issued command sci))))"

section \<open>Reconciling\<close>

definition check_intent :: "installation \<Rightarrow> pyval \<Rightarrow> chain \<Rightarrow> exn + pyval" where
  "check_intent c ticket records =
     (let ambiguous = ValueError ''Pre-admission ambiguity requires operator reconciliation'' in
      case map_of records ''launch'' of
        None \<Rightarrow> Inl ambiguous
      | Some l \<Rightarrow>
          if \<not> py_eq (field l ''endpoint'') (mcp_server c) \<or> \<not> py_eq (field (field l ''frozen'') ''config'') (settings c)
          then Inl ambiguous
          else
          rbind (ticket_owner ticket) (\<lambda>claimant.
          if \<not> py_eq (field l ''owner'') claimant \<or> map_of records ''admitted'' = None then Inl ambiguous
          else Inr l))"

definition stop_again :: "installation \<Rightarrow> pystr list \<Rightarrow> pyval \<Rightarrow> pyval \<Rightarrow> ('a controller_scheme, chain) prog" where
  "stop_again c folder l h =
     ebind (UnitBus (py_eq (field l ''version'') (PInt 2))) (\<lambda>_.
     ebind (modify (observing_update (\<lambda>_. True))) (\<lambda>_.
     ebind (retain h) (\<lambda>_.
     ebind (stop h) (\<lambda>_.
     ebind (seal c folder PNone None) (\<lambda>_.
     load_journal folder)))))"

definition settle ::
  "installation \<Rightarrow> pystr list \<Rightarrow> pyval \<Rightarrow> pyval \<Rightarrow> pyval \<Rightarrow> ('a controller_scheme, pyval) prog" where
  "settle c folder r sealed status =
     (if field status ''state'' = PStr (lit ''completed'') then acknowledge folder ''completed'' status
      else if field sealed ''output'' \<noteq> PNone \<and> field status ''state'' = PStr (lit ''claimed'')
              \<and> \<not> bool_of (field status ''cancel-requested?'') \<and> \<not> bool_of (field status ''stop-ack?'')
      then publish_output c folder r (field sealed ''output'')
      else
      ebind (client_call c request_stop ''simmis_worker-stop'' (run_arguments r)) (\<lambda>receipt.
      acknowledge folder ''stopped'' receipt))"

definition reconcile_chain ::
  "installation \<Rightarrow> pystr list \<Rightarrow> pyval \<Rightarrow> pyval \<Rightarrow> chain \<Rightarrow> pyval \<Rightarrow> ('a controller_scheme, pyval) prog" where
  "reconcile_chain c folder ticket r records l =
     (let h = field (case map_of records ''admitted'' of None \<Rightarrow> PNone | Some a \<Rightarrow> a) ''identity'' in
      ebind (modify (\<lambda>w. w\<lparr>intent_made := l, held := h\<rparr>)) (\<lambda>_.
      ebind (if map_of records ''stopped'' = None then stop_again c folder l h else ret records) (\<lambda>records.
      ebind (lift (lease_token ticket)) (\<lambda>token.
      with_client c request_stop token None
        (ebind (lift (Lease ticket (5 * second_ns))) (\<lambda>b.
         ebind (modify (beat_update (\<lambda>_. b))) (\<lambda>_.
         ebind (lease_status c request_stop) (\<lambda>status.
         settle c folder r (case map_of records ''stopped'' of None \<Rightarrow> PNone | Some s \<Rightarrow> s) status))))))))"

definition reconcile_locked :: "installation \<Rightarrow> pyval \<Rightarrow> ('a controller_scheme, pyval) prog" where
  "reconcile_locked c r =
     (let folder = runs_folder c @ [str_of r] in
      ebind (load (folder @ [claim_file])) (\<lambda>ticket.
      if \<not> py_eq (field ticket ''worker'') (worker_id c) \<or> \<not> py_eq (field ticket ''run'') r
      then raise (ValueError ''Worker claim belongs to another controller'')
      else
      ebind (load_journal folder) (\<lambda>records.
      ebind (lift (check_intent c ticket records)) (\<lambda>l.
      case map_of records ''acknowledged'' of
        Some acked \<Rightarrow> ret acked
      | None \<Rightarrow> reconcile_chain c folder ticket r records l))))"

definition reconcile :: "installation \<Rightarrow> pyval \<Rightarrow> ('a controller_scheme, pyval) prog" where
  "reconcile c r =
     ebind (lift (canonical_uuid r)) (\<lambda>_.
     ebind take_use (\<lambda>_.
     controller_lock (root_path c) (worker_id c) (reconcile_locked c r)))"

definition close_controller :: "('a controller_scheme, unit) prog" where
  "close_controller = ebind (gets observing) (\<lambda>on. if on then close_bus else ret ())"

end
