(* ===== verification/Worker_Driver.thy ===== *)
theory Worker_Driver
  imports Worker_Controller
begin

text \<open>
  \<^verbatim>\<open>scripts/worker_driver.py\<close>: the operator's program.  A durable intent comes before the enrollment
  request; a run uses the runtime that was enrolled; of the server's answers only bounded fields of
  known names are printed.  The argument parser, \<open>expanduser\<close> and \<open>absolute\<close> are not modelled: a command
  is a value of \<open>command\<close> with its arguments read.
\<close>

section \<open>State\<close>

definition is_missing :: "exn \<Rightarrow> bool" where
  "is_missing e \<longleftrightarrow> e = FileNotFoundError \<or> e = NotADirectoryError"

definition path_exists :: "pystr list \<Rightarrow> ('a posix_scheme, bool) prog" where
  "path_exists names =
     try_except
       (if names = [] then ebind (sys_open_path []) (\<lambda>_. ret True)
        else ebind (sys_open_path (butlast names)) (\<lambda>d. sys_exists d (last names)))
       (\<lambda>e. if is_missing e then ret False else raise e)"

definition make_state_root :: "pystr list \<Rightarrow> ('a posix_scheme, unit) prog" where
  "make_state_root names =
     ebind (sys_open_path (butlast names)) (\<lambda>d.
     ebind (sys_mkdir d (last names) 448) (\<lambda>_.
     ebind (sys_open_path (butlast names)) (\<lambda>parent_fd. sys_fsync parent_fd)))"

text \<open>\<open>resolve\<close> is \<open>str(path.resolve(strict=False))\<close> of an absolute path.\<close>

definition state_root ::
  "(pystr \<Rightarrow> exn + pystr) \<Rightarrow> pystr \<Rightarrow> bool \<Rightarrow> ('a posix_scheme, pystr list) prog" where
  "state_root resolve path create =
     ebind (lift (resolve path)) (\<lambda>real.
     if real \<noteq> path then raise (ValueError ''Worker state must have a canonical non-aliased path'')
     else
     let names = path_names path in
     ebind (if create then ebind (path_exists names) (\<lambda>there. if there then ret () else make_state_root names)
            else ret ()) (\<lambda>_.
     ebind (state_directory names) (\<lambda>d.
     ebind (sys_fsync d) (\<lambda>_. ret names))))"

text \<open>\<open>record\<close>, with and without a value\<close>

definition save_record :: "pystr list \<Rightarrow> string \<Rightarrow> pyval \<Rightarrow> ('a posix_scheme, pyval) prog" where
  "save_record folder phase value = ebind (state_directory folder) (\<lambda>d. publish d phase value)"

definition load_record :: "pystr list \<Rightarrow> string \<Rightarrow> ('a posix_scheme, pyval) prog" where
  "load_record folder phase =
     ebind (state_directory folder) (\<lambda>d.
     ebind (read_phase d phase) (\<lambda>result.
     case result of
       None \<Rightarrow> raise (ValueError ''Private worker enrollment has not completed'')
     | Some v \<Rightarrow> ebind (sys_fsync d) (\<lambda>_. ret v)))"

section \<open>Configuration\<close>

definition configuration :: "pyval \<Rightarrow> pyval \<Rightarrow> exn + pyval" where
  "configuration prof model =
     rbind (validate_profile prof) (\<lambda>_.
     if \<not> is_str model \<or> \<not> (1 \<le> length (str_of model) \<and> length (str_of model) \<le> 200)
     then Inl (ValueError ''Expected an explicit registered native Codex model'')
     else
     let version = lit ''sci1/'' @ join 47
           [str_of (field (field prof ''runtime'') ''sha256''), str_of (field prof ''executor-policy-id''),
            str_of (field prof ''inference-policy-id'')]
     in Inr (PDict [(lit ''adapter'', PStr (lit ''codex'')), (lit ''version'', PStr version),
                    (lit ''model'', model), (lit ''policy'', PStr (lit ''local-trusted-v1''))]))"

section \<open>Preflight\<close>

text \<open>Where temporary directories are made, with the rest of the host.\<close>

record workstation = installation +
  tmp_inode :: nat
  tmp_folder :: pystr

definition strict_loads_detect :: "bytes \<Rightarrow> exn + pyval" where
  "strict_loads_detect b =
     (case decode_json_bytes b of None \<Rightarrow> Inl UnicodeError | Some s \<Rightarrow> json_loads strict_hooks s)"

definition as_completed :: "pyval \<Rightarrow> exn + int \<times> bytes" where
  "as_completed v =
     (case elements v of
        [code, out] \<Rightarrow> rbind (as_int code) (\<lambda>n. rbind (as_bytes out) (\<lambda>b. Inr (n, b)))
      | _ \<Rightarrow> Inl TypeError)"

definition preflight_prefix :: pystr where "preflight_prefix = lit ''simmis-worker-preflight-''"

definition check_preflight :: "pyval \<Rightarrow> int \<Rightarrow> bytes \<Rightarrow> exn + pyval" where
  "check_preflight descriptor code out =
     (if code \<noteq> 0 \<or> 4096 < length out then Inl (ValueError ''Packaged worker preflight failed'')
      else
      rbind (strict_loads_detect out) (\<lambda>value.
      rbind (closed value [''version'', ''kind'', ''executor-policy-id'', ''inference-policy-id'']) (\<lambda>_.
      if field value ''version'' \<noteq> PInt 1 \<or> field value ''kind'' \<noteq> PStr (lit ''runtime-ready'')
      then Inl (ValueError ''Packaged worker preflight differs'')
      else profile descriptor (field value ''executor-policy-id'') (field value ''inference-policy-id''))))"

definition preflight :: "'b workstation_scheme \<Rightarrow> pyval \<Rightarrow> ('a outside_scheme, pyval) prog" where
  "preflight c descriptor =
     (let plat = host_platform c in
      ebind (verify (resolve_path plat) (open_zip plat) descriptor) (\<lambda>_.
      ebind (mkdtemp (tmp_inode c) preflight_prefix) (\<lambda>name.
      let home = pure_str (tmp_folder c @ slash # name) in
      ebind
        (try_finally
           (ebind (argv (resolve_path plat) (open_zip plat) descriptor (lit ''check'') (PStr home)) (\<lambda>line.
            ebind (lift (environment (resolve_path plat) (PStr home) None)) (\<lambda>env.
            ebind (consult (RunProcess line home env 120)) (\<lambda>v. lift (as_completed v)))))
           (sys_rmtree (tmp_inode c) name))
        (\<lambda>(code, out). lift (check_preflight descriptor code out)))))"

section \<open>Calls with the operator's authority\<close>

text \<open>\<open>with MCP(endpoint, token) as client: return client.call(name, arguments)\<close>\<close>

definition single_call :: "'w transport \<Rightarrow> mcp \<Rightarrow> string \<Rightarrow> pyval \<Rightarrow> ('w, pyval) prog" where
  "single_call net m name arguments w =
     (case enter net m w of
        (Inl e, _, w1) \<Rightarrow> (Inl e, w1)
      | (Inr _, m1, w1) \<Rightarrow>
          (case call net m1 name arguments w1 of
             (r, m2, w2) \<Rightarrow>
               (case close net m2 w2 of
                  (Inl e, _, w3) \<Rightarrow> (Inl e, w3)
                | (Inr _, _, w3) \<Rightarrow> (r, w3))))"

text \<open>A login session is the directory and the name of its file.\<close>

type_synonym login_session = "nat \<times> pystr"

definition human_call ::
  "('a posix_scheme) transport \<Rightarrow> login_session \<Rightarrow> pyval \<Rightarrow> string \<Rightarrow> pyval \<Rightarrow> ('a posix_scheme, pyval) prog" where
  "human_call net s server name arguments =
     ebind (session_credential net (fst s) (snd s) (PStr (lit ''worker-control'')) server) (\<lambda>token.
     ebind (lift (MCP server token None 30)) (\<lambda>m.
     single_call net m name arguments))"

section \<open>Enrollment\<close>

definition enrolled_prefix :: pystr where "enrolled_prefix = lit ''simmis-worker.''"

definition issued_credential_ok :: "pystr \<Rightarrow> pystr \<Rightarrow> bool" where
  "issued_credential_ok worker c \<longleftrightarrow>
     (let before = enrolled_prefix @ worker @ [46] in
      starts_with before c \<and> full_token 43 (drop (length before) c))"

definition checked_enrollment :: "pyval \<Rightarrow> pyval \<Rightarrow> exn + pyval" where
  "checked_enrollment intent result =
     rbind (closed result [''worker'', ''room'', ''generation'', ''config-id'', ''config'', ''credential'']) (\<lambda>_.
     if \<not> py_eq (field result ''worker'') (field intent ''worker'')
        \<or> \<not> py_eq (field result ''config'') (field intent ''config'')
        \<or> \<not> is_int (field result ''generation'')
        \<or> \<not> (0 < int_of (field result ''generation'') \<and> int_of (field result ''generation'') < 2 ^ 63)
        \<or> \<not> is_str (field result ''credential'')
        \<or> \<not> issued_credential_ok (str_of (field intent ''worker'')) (str_of (field result ''credential''))
     then Inl (ValueError ''Enrollment receipt differs from durable local intent'')
     else
     rbind (canonical_uuid (field result ''room'')) (\<lambda>_.
     rbind (canonical_uuid (field result ''config-id'')) (\<lambda>_. Inr result)))"

definition enrollment_intent :: "pystr \<Rightarrow> pyval \<Rightarrow> pyval \<Rightarrow> pyval \<Rightarrow> pyval \<Rightarrow> pyval" where
  "enrollment_intent worker server room prof config =
     PDict [(lit ''version'', PInt 1), (lit ''worker'', PStr worker), (lit ''endpoint'', server),
            (lit ''room'', room), (lit ''profile'', prof), (lit ''config'', config)]"

definition chosen_worker :: "pystr option \<Rightarrow> (('a posix_scheme), pyval) prog \<Rightarrow> ('a posix_scheme, pystr) prog" where
  "chosen_worker worker other =
     ebind (case worker of Some u \<Rightarrow> if u \<noteq> [] then ret (PStr u) else other | None \<Rightarrow> other) (\<lambda>v.
     lift (canonical_uuid v))"

definition make_intent ::
  "'b workstation_scheme \<Rightarrow> pyval option \<Rightarrow> pyval \<Rightarrow> pyval \<Rightarrow> pyval \<Rightarrow> pyval \<Rightarrow> pystr option
     \<Rightarrow> ('a outside_scheme, pyval) prog" where
  "make_intent c old server room descriptor model worker =
     (case old of
        None \<Rightarrow>
          ebind (preflight c descriptor) (\<lambda>prof.
          ebind (chosen_worker worker (ebind uuid4 (\<lambda>u. ret (PStr u)))) (\<lambda>u.
          ebind (lift (configuration prof model)) (\<lambda>config.
          ret (enrollment_intent u server room prof config))))
      | Some before \<Rightarrow>
          ebind (lift (rbind (item before ''profile'') validate_profile)) (\<lambda>prof.
          ebind (verify (resolve_path (host_platform c)) (open_zip (host_platform c)) descriptor) (\<lambda>_.
          ebind (chosen_worker worker (lift (item before ''worker''))) (\<lambda>u.
          ebind (lift (configuration prof model)) (\<lambda>config.
          if \<not> py_eq (field prof ''runtime'') descriptor
          then raise (ValueError ''Runtime differs from durable enrollment intent'')
          else ret (enrollment_intent u server room prof config))))))"

definition enroll_arguments :: "pyval \<Rightarrow> pyval" where
  "enroll_arguments intent =
     PDict [(lit ''room'', field intent ''room''), (lit ''worker'', field intent ''worker''),
            (lit ''config'', field intent ''config'')]"

definition enroll_summary :: "pyval \<Rightarrow> pyval" where
  "enroll_summary reply =
     PDict [(lit ''worker'', field reply ''worker''), (lit ''room'', field reply ''room''),
            (lit ''generation'', field reply ''generation''), (lit ''enrolled'', PBool True)]"

definition enroll ::
  "('a outside_scheme) transport \<Rightarrow> 'b workstation_scheme \<Rightarrow> pystr list \<Rightarrow> pyval \<Rightarrow> login_session \<Rightarrow> pyval \<Rightarrow> pyval
     \<Rightarrow> pyval \<Rightarrow> pystr option \<Rightarrow> ('a outside_scheme, pyval) prog" where
  "enroll net c folder server s room descriptor model worker =
     ebind (lift (MCP server [] None 30)) (\<lambda>_.
     ebind (state_directory folder) (\<lambda>d.
     ebind (read_phase d ''worker-intent'') (\<lambda>old.
     ebind (make_intent c old server room descriptor model worker) (\<lambda>wanted.
     if \<not> is_str room \<or> \<not> (1 \<le> length (str_of room) \<and> length (str_of room) \<le> 200)
     then raise (ValueError ''Expected a bounded room handle'')
     else
     ebind (save_record folder ''worker-intent'' wanted) (\<lambda>intent.
     ebind (save_record folder ''controller'' (controller_record (field intent ''worker'') server)) (\<lambda>_.
     ebind (human_call net s server ''simmis_local-worker-enroll'' (enroll_arguments intent)) (\<lambda>reply.
     ebind (lift (checked_enrollment intent reply)) (\<lambda>_.
     ebind (save_record folder ''worker-enrollment'' reply) (\<lambda>_.
     ret (enroll_summary reply))))))))))"

definition check_enrolled :: "pyval \<Rightarrow> exn + unit" where
  "check_enrolled intent =
     rbind (closed intent [''version'', ''worker'', ''endpoint'', ''room'', ''profile'', ''config'']) (\<lambda>_.
     if field intent ''version'' \<noteq> PInt 1 then Inl (ValueError ''Unknown local worker state'')
     else
     rbind (canonical_uuid (field intent ''worker'')) (\<lambda>_.
     rbind (MCP (field intent ''endpoint'') [] None 30) (\<lambda>_.
     rbind (item (field intent ''config'') ''model'') (\<lambda>model.
     rbind (configuration (field intent ''profile'') model) (\<lambda>config.
     if \<not> py_eq (field intent ''config'') config
     then Inl (ValueError ''Local configuration differs from pinned runtime'') else Inr ())))))"

definition enrollment :: "pystr list \<Rightarrow> ('a posix_scheme, pyval \<times> pyval) prog" where
  "enrollment folder =
     ebind (load_record folder ''worker-intent'') (\<lambda>intent.
     ebind (lift (check_enrolled intent)) (\<lambda>_.
     ebind (load_record folder ''worker-enrollment'') (\<lambda>reply.
     ebind (lift (checked_enrollment intent reply)) (\<lambda>issued. ret (intent, issued)))))"

section \<open>One run\<close>

definition pending_run :: "pyval \<Rightarrow> exn + pyval option" where
  "pending_run waiting_runs =
     rbind (closed waiting_runs [''runs'']) (\<lambda>_.
     let runs = field waiting_runs ''runs'' in
     if \<not> is_list runs \<or> 10 < length (elements runs) then Inl (ValueError ''Invalid pending worker response'')
     else
     rbind (for_each (\<lambda>r _. rbind (canonical_uuid r) (\<lambda>_. Inr ())) (elements runs) ()) (\<lambda>_.
     Inr (case elements runs of [] \<Rightarrow> None | r # _ \<Rightarrow> Some r)))"

definition enrolled_setup :: "'b workstation_scheme \<Rightarrow> pystr list \<Rightarrow> pyval \<Rightarrow> installation" where
  "enrolled_setup c folder intent =
     \<lparr>root_path = folder, worker_id = field intent ''worker'', mcp_server = field intent ''endpoint'',
      settings = field intent ''config'', heartbeat = 5 * second_ns, host_platform = host_platform c,
      helper_command = helper_command c, null_device = null_device c, turns = turns c\<rparr>"

definition queued_run :: "installation \<Rightarrow> pystr \<Rightarrow> ('a controller_scheme, pyval option) prog" where
  "queued_run i token =
     ebind (with_client i no_callback token None (client_call i no_callback ''simmis_worker-pending'' (PDict [])))
       (\<lambda>answer. lift (pending_run answer))"

definition outcome_of :: "pyval \<Rightarrow> pyval \<Rightarrow> exn + pyval" where
  "outcome_of r result =
     rbind (item result ''outcome'') (\<lambda>x. Inr (PDict [(lit ''run'', r), (lit ''outcome'', x)]))"

definition control_run :: "installation \<Rightarrow> pyval \<Rightarrow> ('a controller_scheme, pyval) prog \<Rightarrow> ('a controller_scheme, pyval) prog"
where
  "control_run i r m =
     ebind (lift (canonical_uuid r)) (\<lambda>_.
     ebind (Controller i) (\<lambda>_.
     try_finally (ebind m (\<lambda>result. lift (outcome_of r result))) close_controller))"

definition reconcile_one :: "'b workstation_scheme \<Rightarrow> pystr list \<Rightarrow> pyval \<Rightarrow> ('a controller_scheme, pyval) prog" where
  "reconcile_one c folder r =
     ebind (enrollment folder) (\<lambda>(intent, _).
     let i = enrolled_setup c folder intent in control_run i r (reconcile i r))"

definition run_one ::
  "'b workstation_scheme \<Rightarrow> pystr list \<Rightarrow> pyval \<Rightarrow> pyval option \<Rightarrow> ('a controller_scheme, pyval) prog" where
  "run_one c folder codex_home chosen =
     ebind (enrollment folder) (\<lambda>(intent, issued).
     let i = enrolled_setup c folder intent; plat = host_platform c; prof = field intent ''profile'';
         token = str_of (field issued ''credential'') in
     ebind (verify (resolve_path plat) (open_zip plat) (field prof ''runtime'')) (\<lambda>_.
     ebind (lift (environment (resolve_path plat) (PStr (lit ''/unused-private-home''))
                    (if codex_home = PNone then None else Some codex_home))) (\<lambda>_.
     if codex_home = PNone then raise (ValueError ''Select the broker-only Codex home explicitly'')
     else
     ebind (case chosen of Some r \<Rightarrow> ret (Some r) | None \<Rightarrow> queued_run i token) (\<lambda>picked.
     case picked of
       None \<Rightarrow> ret (PDict [(lit ''worker'', field intent ''worker''), (lit ''queued'', PInt 0)])
     | Some r \<Rightarrow>
         control_run i r
           (run i r token None
              (Some (PDict [(lit ''profile'', prof), (lit ''codex-home'', codex_home)])))))))"

section \<open>The operator's other commands\<close>

datatype command =
    Enroll pystr pystr pystr pystr pystr "pystr option"
  | Allowance pystr int
  | Task pystr pystr "pystr list" int pystr
  | Workflow pystr pystr pystr pystr "pystr option" pystr pystr int pystr
  | Benchmark pystr pystr pystr pystr "pystr list" "pystr option" int int
  | Revoke
  | Run pystr "pystr option"
  | Reconcile pystr

definition parser_error :: exn where "parser_error = SystemExit 2"

definition limits :: "int \<Rightarrow> pystr \<Rightarrow> pyval" where
  "limits milliseconds settlement =
     PDict [(lit ''timeout-ms'', PInt milliseconds), (lit ''settlement'', PStr settlement)]"

definition deadline_ok :: "int \<Rightarrow> bool" where
  "deadline_ok n \<longleftrightarrow> 1000 \<le> n \<and> n \<le> 600000"

definition string_map :: "pystr \<Rightarrow> exn + pyval" where
  "string_map raw =
     (case utf8_encode raw of
        None \<Rightarrow> Inl UnicodeError
      | Some b \<Rightarrow>
          if 3000000 < length b then Inl parser_error
          else
          rbind (loads_text strict_hooks raw) (\<lambda>value.
          if \<not> is_dict value \<or> \<not> list_all (\<lambda>(k, v). is_str v) (items value) then Inl parser_error
          else Inr value))"

text \<open>The name and the arguments of a control command, after the checks of \<open>main\<close>.\<close>

fun control_fields :: "command \<Rightarrow> exn + string \<times> pydict" where
  "control_fields (Allowance req n) =
     (if \<not> (1 \<le> n \<and> n \<le> 32) then Inl parser_error
      else Inr (''allowance'', [(lit ''request-id'', PStr req), (lit ''max-worker-admissions'', PInt n)]))"
| "control_fields (Task req task paths n settlement) =
     (if \<not> deadline_ok n \<or> 100 < length paths \<or> \<not> (1 \<le> length task \<and> length task \<le> 16000)
      then Inl parser_error
      else
      rbind (for_each (\<lambda>p _. rbind (path_parts (PStr p)) (\<lambda>_. Inr ())) paths ()) (\<lambda>_.
      Inr (''task'', [(lit ''request-id'', PStr req), (lit ''task'', PStr task),
                      (lit ''paths'', PList (map PStr paths)), (lit ''limits'', limits n settlement)])))"
| "control_fields (Workflow req name bundle owned case_name params given n settlement) =
     (if \<not> deadline_ok n then Inl parser_error
      else
      rbind (string_map params) (\<lambda>p.
      rbind (string_map given) (\<lambda>g.
      Inr (''workflow'',
           [(lit ''request-id'', PStr req), (lit ''name'', PStr name), (lit ''expected-bundle'', PStr bundle),
            (lit ''expected-owned-source'', PStr owned), (lit ''limits'', limits n settlement),
            (lit ''params'', p), (lit ''inputs'', g)]
           @ (case case_name of None \<Rightarrow> [] | Some k \<Rightarrow> [(lit ''case'', PStr k)])))))"
| "control_fields (Benchmark req name bundle owned cases held_out repetitions n) =
     (if \<not> deadline_ok n \<or> \<not> (1 \<le> repetitions \<and> repetitions \<le> 2) \<or> 4 < length cases \<or> \<not> distinct cases
         \<or> list_ex (\<lambda>k. \<not> (1 \<le> length k \<and> length k \<le> 100)) cases
      then Inl parser_error
      else
      Inr (''benchmark'',
           [(lit ''request-id'', PStr req), (lit ''name'', PStr name), (lit ''expected-bundle'', PStr bundle),
            (lit ''expected-owned-source'', PStr owned), (lit ''repetitions'', PInt repetitions),
            (lit ''limits'', limits n (lit ''discard''))]
           @ (if cases = [] then [] else [(lit ''cases'', PList (map PStr cases))])
           @ (case held_out of None \<Rightarrow> [] | Some k \<Rightarrow> if k = [] then [] else [(lit ''split'', PStr k)])))"
| "control_fields c = Inr (''revoke'', [])"

definition check_identifiers :: "string \<Rightarrow> pyval \<Rightarrow> exn + unit" where
  "check_identifiers name args =
     rbind (for_each (\<lambda>k _. rbind (item args k) (\<lambda>v. rbind (canonical_uuid v) (\<lambda>_. Inr ())))
       ((if name \<in> {''allowance'', ''task'', ''workflow'', ''benchmark''} then [''request-id''] else [])
        @ (if name \<in> {''workflow'', ''benchmark''} then [''expected-bundle'', ''expected-owned-source''] else []))
       ()) (\<lambda>_. Inr ())"

definition control_arguments :: "pyval \<Rightarrow> pyval \<Rightarrow> string \<Rightarrow> pydict \<Rightarrow> pyval" where
  "control_arguments intent issued name arguments =
     (let d = dict_set arguments (lit ''room'') (field issued ''room'') in
      PDict (if name \<in> {''revoke'', ''task'', ''workflow'', ''benchmark''}
             then dict_set d (lit ''worker'') (field intent ''worker'') else d))"

definition printed_fields :: "string list" where
  "printed_fields =
     [''worker'', ''revoked'', ''room'', ''id'', ''client-id'', ''job'', ''state'', ''status'',
      ''max-worker-admissions'', ''timeout-ms'', ''settlement'', ''return-pending?'']"

definition printable :: "pyval \<Rightarrow> bool" where
  "printable v \<longleftrightarrow> is_bool v \<or> is_int v \<or> (is_str v \<and> length (str_of v) \<le> 200)"

definition printed :: "pyval \<Rightarrow> exn + pyval" where
  "printed response =
     (if \<not> is_dict response then Inl (ValueError ''Invalid human worker-control response'')
      else Inr (PDict (filter (\<lambda>(k, v). list_ex (\<lambda>f. k = lit f) printed_fields \<and> printable v) (items response))))"

definition operate ::
  "('a posix_scheme) transport \<Rightarrow> pystr list \<Rightarrow> login_session \<Rightarrow> string \<Rightarrow> pydict \<Rightarrow> ('a posix_scheme, pyval) prog" where
  "operate net folder s name arguments =
     ebind (enrollment folder) (\<lambda>(intent, issued).
     let args = control_arguments intent issued name arguments in
     ebind (lift (check_identifiers name args)) (\<lambda>_.
     ebind (human_call net s (field intent ''endpoint'') (''simmis_local-worker-'' @ name) args) (\<lambda>response.
     lift (printed response))))"

section \<open>The program\<close>

fun needs_session :: "command \<Rightarrow> bool" where
  "needs_session (Run h r) = False"
| "needs_session (Reconcile r) = False"
| "needs_session c = True"

fun is_enroll :: "command \<Rightarrow> bool" where
  "is_enroll (Enroll a b c d e f) = True"
| "is_enroll c = False"

definition runtime_descriptor :: "pystr \<Rightarrow> pystr \<Rightarrow> pyval" where
  "runtime_descriptor jar sha = PDict [(lit ''jar'', PStr jar), (lit ''sha256'', PStr sha)]"

fun dispatch_command ::
  "('a controller_scheme) transport \<Rightarrow> 'b workstation_scheme \<Rightarrow> pystr list \<Rightarrow> login_session \<Rightarrow> command
     \<Rightarrow> ('a controller_scheme, pyval) prog" where
  "dispatch_command net c folder s (Enroll server room jar sha model worker) =
     enroll net c folder (PStr server) s (PStr room) (runtime_descriptor jar sha) (PStr model) worker"
| "dispatch_command net c folder s (Run home r) = run_one c folder (PStr home) (map_option PStr r)"
| "dispatch_command net c folder s (Reconcile r) = reconcile_one c folder (PStr r)"
| "dispatch_command net c folder s cmd =
     ebind (lift (control_fields cmd)) (\<lambda>(name, arguments). operate net folder s name arguments)"

definition driver_main ::
  "('a controller_scheme) transport \<Rightarrow> 'b workstation_scheme \<Rightarrow> (pystr \<Rightarrow> exn + pystr) \<Rightarrow> pystr
     \<Rightarrow> login_session option \<Rightarrow> command \<Rightarrow> ('a controller_scheme, bytes) prog" where
  "driver_main net c resolve path s cmd =
     (if needs_session cmd \<and> s = None then raise parser_error
      else
      ebind (state_root resolve path (is_enroll cmd)) (\<lambda>folder.
      ebind (dispatch_command net c folder (case s of None \<Rightarrow> (0, []) | Some x \<Rightarrow> x) cmd) (\<lambda>result.
      ret (dumps_bytes fmt_compact result))))"

end
