(* ===== verification/Browser_Guard.thy ===== *)
theory Browser_Guard
  imports Worker_Namespace
begin

text \<open>
  \<^verbatim>\<open>scripts/browser_guard.py\<close>: the subreaper of a test browser.  It kills its children, adopts what they
  leave, and acknowledges only when it has no child left.  The process table is that of
  \<^verbatim>\<open>Worker_Namespace\<close>: process 1 stands for the supervisor, the nearest subreaper of every orphan.
\<close>

section \<open>Start\<close>

text \<open>\<open>Stop\<close> is the script's own exception, raised by its signal handler and when the parent is gone.\<close>

datatype ended = Stop | Failed exn

definition guard_prepare :: "nat \<Rightarrow> int \<Rightarrow> int \<Rightarrow> nat \<Rightarrow> ended + unit" where
  "guard_prepare parent_pid subreaper death_signal parent_after =
     (if subreaper \<noteq> 0 \<or> death_signal \<noteq> 0 then Inl (Failed (OSError ''Browser subreaper unavailable''))
      else if parent_pid = 1 \<or> parent_after \<noteq> parent_pid then Inl Stop
      else Inr ())"

section \<open>Reaping\<close>

definition children_of_guard :: "process list \<Rightarrow> nat list" where
  "children_of_guard t = map proc_id (filter (\<lambda>x. parent x = 1) t)"

text \<open>\<open>os.kill(pid, SIGKILL)\<close>; a process that is gone already is passed over.\<close>

definition kill_one :: "nat \<Rightarrow> tasks \<Rightarrow> tasks" where
  "kill_one p s =
     (case tasks_run s of (_, s1) \<Rightarrow> s1\<lparr>table := (if is_alive (table s1) p then exit_process p (table s1) else table s1)\<rparr>)"

definition kill_children :: "tasks \<Rightarrow> tasks" where
  "kill_children s = (case tasks_run s of (_, s1) \<Rightarrow> fold kill_one (children_of_guard (table s1)) s1)"

lemma run_schedule: "tasks_run s = (b, s1) \<Longrightarrow> schedule s = [] \<and> s1 = s \<or> length (schedule s1) < length (schedule s)"
  by (auto simp: tasks_run_def split: list.splits prod.splits)

lemma length_exit [simp]: "length (exit_process p t) = length t"
  by (simp add: exit_process_def)

lemma kill_one_schedule:
  "length (schedule (kill_one p s)) < length (schedule s)
   \<or> schedule s = [] \<and> schedule (kill_one p s) = [] \<and> length (table (kill_one p s)) = length (table s)"
  using run_schedule [of s] by (cases "tasks_run s") (auto simp: kill_one_def)

lemma kill_all_schedule:
  "length (schedule (fold kill_one ps s)) \<le> length (schedule s)
   \<and> (schedule s = [] \<longrightarrow> length (table (fold kill_one ps s)) = length (table s))"
proof (induction ps arbitrary: s)
  case (Cons p ps)
  then show ?case using kill_one_schedule [of p s] Cons.IH [of "kill_one p s"] by fastforce
qed simp

lemma kill_children_schedule:
  "length (schedule (kill_children s)) < length (schedule s)
   \<or> schedule s = [] \<and> schedule (kill_children s) = [] \<and> length (table (kill_children s)) = length (table s)"
proof -
  obtain b s1 where run: "tasks_run s = (b, s1)" by (cases "tasks_run s")
  with run_schedule [OF run] kill_all_schedule [of "children_of_guard (table s1)" s1] show ?thesis
    by (auto simp: kill_children_def)
qed

text \<open>\<open>reap\<close>: an interrupted wait starts again, and only \<open>ECHILD\<close> returns.\<close>

function reap_browser :: "tasks \<Rightarrow> (exn + unit) \<times> tasks" where
  "reap_browser s =
     (case waitpid (\<lambda>_. True) (kill_children s) of
        (Inr _, s1) \<Rightarrow> reap_browser s1
      | (Inl e, s1) \<Rightarrow>
          if e = InterruptedError then reap_browser s1
          else if e = ChildProcessError then (Inr (), s1)
          else (Inl e, s1))"
  by pat_completeness auto
termination
proof (relation "measures [\<lambda>s. length (schedule s), \<lambda>s. length (table s)]", goal_cases)
  case (2 s r s1 e)
  then have "waitpid (\<lambda>_. True) (kill_children s) = (Inl InterruptedError, s1)" by simp
  from waitpid_interrupted [OF this] kill_children_schedule [of s] show ?case by auto
next
  case (3 s r s1 p)
  then have "waitpid (\<lambda>_. True) (kill_children s) = (Inr p, s1)" by simp
  from waitpid_reaped [OF this] kill_children_schedule [of s] show ?case by auto
qed simp

declare reap_browser.simps [simp del]

text \<open>
  \<open>main\<close>: \<open>spawned\<close> is what \<open>Popen\<close> gives, \<open>signalled\<close> whether a signal ends the wait for the browser, and
  \<open>status\<close> its exit status.  The last component says whether the receipt was printed.
\<close>

definition browser_child :: "nat \<Rightarrow> process" where
  "browser_child p = \<lparr>proc_id = p, parent = 1, alive = True\<rparr>"

definition await_browser :: "(exn + nat) \<Rightarrow> bool \<Rightarrow> int \<Rightarrow> tasks \<Rightarrow> (ended + int) \<times> tasks" where
  "await_browser spawned signalled status s =
     (case spawned of
        Inl e \<Rightarrow> (Inl (Failed e), s)
      | Inr p \<Rightarrow>
          (let s1 = s\<lparr>table := table s @ [browser_child p]\<rparr> in
           if signalled then (Inl Stop, s1)
           else (case wait_child p s1 of
                   (Inl e, s2) \<Rightarrow> (Inl (Failed e), s2) | (Inr _, s2) \<Rightarrow> (Inr status, s2))))"

definition browser_main ::
  "(ended + unit) \<Rightarrow> (exn + nat) \<Rightarrow> bool \<Rightarrow> int \<Rightarrow> tasks \<Rightarrow> (ended + int) \<times> tasks \<times> bool" where
  "browser_main prepared spawned signalled status s =
     (case prepared of
        Inl e \<Rightarrow> (Inl e, s, False)
      | Inr _ \<Rightarrow>
          (case await_browser spawned signalled status s of
             (r, s1) \<Rightarrow>
               (case reap_browser s1 of
                  (Inl e, s2) \<Rightarrow> (Inl (Failed e), s2, False)
                | (Inr _, s2) \<Rightarrow> (if r = Inl Stop then Inr 0 else r, s2, True))))"

section \<open>The process tree\<close>

text \<open>
  Every process has a living parent that was made before it, or belongs to the supervisor.  \<open>live\<close> are
  the possible parents so far.
\<close>

fun rooted :: "nat set \<Rightarrow> process list \<Rightarrow> bool" where
  "rooted live [] = True"
| "rooted live (x # t) =
     (parent x \<in> live \<and> rooted (if alive x then insert (proc_id x) live else live) t)"

definition tree_ok :: "process list \<Rightarrow> bool" where
  "tree_ok t \<longleftrightarrow> distinct (map proc_id t) \<and> 1 \<notin> proc_id ` set t \<and> rooted {1} t"

lemma rooted_snoc:
  "rooted live (t @ [x]) \<longleftrightarrow> rooted live t \<and> (parent x \<in> live \<or> is_alive t (parent x))"
proof (induction t arbitrary: live)
  case (Cons y t)
  have "is_alive (y # t) q \<longleftrightarrow> alive y \<and> q = proc_id y \<or> is_alive t q" for q
    by (auto simp: is_alive_def)
  with Cons.IH show ?case by (cases "alive y") auto
qed (simp add: is_alive_def)

lemma rooted_exit:
  "rooted live t \<Longrightarrow> 1 \<in> live \<Longrightarrow> p \<noteq> 1 \<Longrightarrow> rooted (live - {p}) (exit_process p t)"
proof (induction t arbitrary: live)
  case (Cons x t)
  let ?l = "if alive x then insert (proc_id x) live else live"
  have "rooted (?l - {p}) (exit_process p t)" using Cons.prems by (intro Cons.IH) simp_all
  moreover have "?l - {p} = (if alive x \<and> proc_id x \<noteq> p then insert (proc_id x) (live - {p}) else live - {p})"
    by auto
  ultimately have "rooted (if alive x \<and> proc_id x \<noteq> p then insert (proc_id x) (live - {p}) else live - {p})
      (exit_process p t)" by simp
  with Cons.prems show ?case by (auto simp: exit_process_def)
qed (simp add: exit_process_def)

lemma rooted_mono: "rooted live t \<Longrightarrow> live \<subseteq> wider \<Longrightarrow> rooted wider t"
proof (induction t arbitrary: live wider)
  case (Cons x t)
  note m = Cons.IH [of "insert (proc_id x) live" "insert (proc_id x) wider"] Cons.IH [of live wider]
  show ?case using Cons.prems m by (cases "alive x") (simp_all add: subset_iff)
qed simp

lemma rooted_remove: "rooted live t \<Longrightarrow> \<not> alive x \<Longrightarrow> rooted live (remove1 x t)"
  by (induction t arbitrary: live) auto

lemma ids_exit [simp]: "map proc_id (exit_process p t) = map proc_id t"
  by (simp add: exit_process_def)

lemma tree_exit: "tree_ok t \<Longrightarrow> is_alive t p \<Longrightarrow> tree_ok (exit_process p t)"
proof -
  assume t: "tree_ok t" and p: "is_alive t p"
  from p have "p \<in> proc_id ` set t" by (auto simp: is_alive_def list_ex_iff)
  moreover have "1 \<notin> proc_id ` set t" using t unfolding tree_ok_def by blast
  ultimately have "p \<noteq> 1" by metis
  with t have "rooted ({1} - {p}) (exit_process p t)" by (intro rooted_exit) (auto simp: tree_ok_def)
  then have "rooted {1} (exit_process p t)" by (rule rooted_mono) auto
  moreover have "proc_id ` set (exit_process p t) = proc_id ` set t"
    by (metis ids_exit list.set_map)
  ultimately show ?thesis using t by (simp add: tree_ok_def)
qed

lemma tree_fork:
  "tree_ok t \<Longrightarrow> is_alive t p \<Longrightarrow> q \<noteq> 1 \<Longrightarrow> q \<notin> proc_id ` set t \<Longrightarrow>
     tree_ok (t @ [\<lparr>proc_id = q, parent = p, alive = True\<rparr>])"
  by (auto simp: tree_ok_def rooted_snoc)

lemma tree_step: "tree_ok t \<Longrightarrow> tree_ok (do_step e t)"
  by (cases e) (simp_all add: tree_exit tree_fork)

lemma tree_steps: "tree_ok t \<Longrightarrow> tree_ok (fold do_step es t)"
  by (induction es arbitrary: t) (auto simp: tree_step)

lemma tree_run: "tree_ok (table s) \<Longrightarrow> tasks_run s = (b, s1) \<Longrightarrow> tree_ok (table s1)"
  by (auto simp: tasks_run_def tree_steps split: list.splits prod.splits)

lemma tree_kill_one: "tree_ok (table s) \<Longrightarrow> tree_ok (table (kill_one p s))"
  by (cases "tasks_run s") (auto simp: kill_one_def tree_exit dest: tree_run)

lemma tree_kill_all: "tree_ok (table s) \<Longrightarrow> tree_ok (table (fold kill_one ps s))"
  by (induction ps arbitrary: s) (auto simp: tree_kill_one)

lemma tree_kill_children: "tree_ok (table s) \<Longrightarrow> tree_ok (table (kill_children s))"
  by (cases "tasks_run s") (auto simp: kill_children_def dest: tree_run intro: tree_kill_all)

lemma tree_remove: "tree_ok t \<Longrightarrow> \<not> alive x \<Longrightarrow> tree_ok (remove1 x t)"
  using set_remove1_subset [of x t]
  by (auto simp: tree_ok_def rooted_remove distinct_map intro: inj_on_subset)

lemma tree_waitpid: "tree_ok (table s) \<Longrightarrow> tree_ok (table (snd (waitpid which s)))"
proof (induction which s rule: waitpid.induct)
  case (1 which s)
  obtain b s0 where run: "tasks_run s = (b, s0)" by (cases "tasks_run s")
  have t: "tree_ok (table s0)" using 1(2) run by (rule tree_run)
  show ?case
  proof (cases "filter (\<lambda>x. which x \<and> zombie_of_guard x) (table s0)")
    case Nil
    with run t 1(1) [OF run [symmetric] Nil] show ?thesis
      by (subst waitpid.simps) (simp split: if_splits)
  next
    case (Cons x xs)
    then have "x \<in> set (filter (\<lambda>x. which x \<and> zombie_of_guard x) (table s0))" by simp
    then have "\<not> alive x" by (simp add: zombie_of_guard_def)
    with run t Cons show ?thesis
      by (subst waitpid.simps) (simp add: tree_remove split: if_splits)
  qed
qed

text \<open>No child of the supervisor means no process at all.\<close>

lemma no_children: "tree_ok t \<Longrightarrow> children_of_guard t = [] \<Longrightarrow> t = []"
  by (cases t) (auto simp: tree_ok_def children_of_guard_def)

text \<open>A killed child stays a zombie until it is waited for.\<close>

definition has_zombie :: "process list \<Rightarrow> bool" where
  "has_zombie t \<longleftrightarrow> list_ex zombie_of_guard t"

lemma zombie_exit: "has_zombie t \<Longrightarrow> has_zombie (exit_process p t)"
  by (auto simp: has_zombie_def exit_process_def list_ex_iff zombie_of_guard_def)

lemma zombie_append: "has_zombie t \<Longrightarrow> has_zombie (t @ u)"
  by (simp add: has_zombie_def)

lemma zombie_step: "has_zombie t \<Longrightarrow> has_zombie (do_step e t)"
  by (cases e) (simp_all add: zombie_exit zombie_append)

lemma zombie_steps: "has_zombie t \<Longrightarrow> has_zombie (fold do_step es t)"
  by (induction es arbitrary: t) (auto simp: zombie_step)

lemma zombie_run: "has_zombie (table s) \<Longrightarrow> tasks_run s = (b, s1) \<Longrightarrow> has_zombie (table s1)"
  by (auto simp: tasks_run_def zombie_steps split: list.splits prod.splits)

lemma zombie_kill_all: "has_zombie (table s) \<Longrightarrow> has_zombie (table (fold kill_one ps s))"
proof (induction ps arbitrary: s)
  case (Cons p ps)
  have "has_zombie (table (kill_one p s))"
    using Cons.prems by (cases "tasks_run s") (auto simp: kill_one_def zombie_exit dest: zombie_run)
  then show ?case by (simp add: Cons.IH)
qed simp

definition guards_child :: "process list \<Rightarrow> nat \<Rightarrow> bool" where
  "guards_child t p \<longleftrightarrow> list_ex (\<lambda>x. proc_id x = p \<and> parent x = 1) t"

lemma child_exit: "guards_child t p \<Longrightarrow> guards_child (exit_process q t) p"
  by (auto simp: guards_child_def exit_process_def list_ex_iff)

lemma child_append: "guards_child t p \<Longrightarrow> guards_child (t @ u) p"
  by (simp add: guards_child_def)

lemma child_step: "guards_child t p \<Longrightarrow> guards_child (do_step e t) p"
  by (cases e) (simp_all add: child_exit child_append)

lemma child_steps: "guards_child t p \<Longrightarrow> guards_child (fold do_step es t) p"
  by (induction es arbitrary: t) (auto simp: child_step)

lemma child_run: "guards_child (table s) p \<Longrightarrow> tasks_run s = (b, s1) \<Longrightarrow> guards_child (table s1) p"
  by (auto simp: tasks_run_def child_steps split: list.splits prod.splits)

lemma killed_child:
  "guards_child t p \<Longrightarrow> has_zombie (if is_alive t p then exit_process p t else t)"
  by (auto simp: has_zombie_def guards_child_def exit_process_def list_ex_iff zombie_of_guard_def is_alive_def)

lemma kill_children_zombie:
  assumes "tree_ok (table s)"
  shows "has_zombie (table (kill_children s)) \<or> table (kill_children s) = []"
proof -
  obtain b s1 where run: "tasks_run s = (b, s1)" by (cases "tasks_run s")
  have t: "tree_ok (table s1)" using assms run by (rule tree_run)
  show ?thesis
  proof (cases "children_of_guard (table s1)")
    case Nil
    with no_children [OF t] run show ?thesis by (simp add: kill_children_def)
  next
    case (Cons p ps)
    then have "p \<in> set (children_of_guard (table s1))" by simp
    then have "guards_child (table s1) p" by (auto simp: children_of_guard_def guards_child_def list_ex_iff)
    then have "guards_child (table (snd (tasks_run s1))) p"
      by (cases "tasks_run s1") (auto dest: child_run)
    then have "has_zombie (table (kill_one p s1))"
      using killed_child by (cases "tasks_run s1") (simp add: kill_one_def)
    then show ?thesis using run Cons by (simp add: kill_children_def zombie_kill_all)
  qed
qed

lemma empty_run: "table s = [] \<Longrightarrow> tasks_run s = (b, s1) \<Longrightarrow> table s1 = []"
  using ended_run [of s b s1] by (simp add: ended_def)

lemma waitpid_zombie:
  assumes "has_zombie (table s) \<or> table s = []" "waitpid (\<lambda>_. True) s = (r, s1)"
  shows "(\<exists>p. r = Inr p) \<or> r = Inl InterruptedError \<or> r = Inl ChildProcessError \<and> table s1 = []"
proof -
  obtain b s0 where run: "tasks_run s = (b, s0)" by (cases "tasks_run s")
  from assms(1) show ?thesis
  proof
    assume "has_zombie (table s)"
    then have "has_zombie (table s0)" using run by (rule zombie_run)
    then obtain x xs where "filter zombie_of_guard (table s0) = x # xs"
      by (cases "filter zombie_of_guard (table s0)") (auto simp: has_zombie_def list_ex_iff filter_empty_conv)
    with assms(2) run show ?thesis by (subst (asm) waitpid.simps) (auto split: if_splits)
  next
    assume "table s = []"
    then have "table s0 = []" using run by (rule empty_run)
    with assms(2) run show ?thesis by (subst (asm) waitpid.simps) (auto split: if_splits)
  qed
qed

lemma reap_browser_empty: "tree_ok (table s) \<Longrightarrow> fst (reap_browser s) = Inr () \<and> table (snd (reap_browser s)) = []"
proof (induction s rule: reap_browser.induct)
  case (1 s)
  obtain r s1 where w: "waitpid (\<lambda>_. True) (kill_children s) = (r, s1)"
    by (cases "waitpid (\<lambda>_. True) (kill_children s)")
  have t: "tree_ok (table s1)" using tree_waitpid [OF tree_kill_children [OF 1(3)], of "\<lambda>_. True"] w by simp
  have eq: "reap_browser s = (case r of
       Inr _ \<Rightarrow> reap_browser s1
     | Inl e \<Rightarrow> if e = InterruptedError then reap_browser s1
               else if e = ChildProcessError then (Inr (), s1) else (Inl e, s1))"
    by (subst reap_browser.simps) (simp add: w)
  from waitpid_zombie [OF kill_children_zombie [OF 1(3)] w] show ?case
  proof (elim disjE exE conjE)
    fix p assume "r = Inr p"
    with 1(2) [OF w [symmetric]] t show ?thesis by (simp add: eq)
  next
    assume "r = Inl InterruptedError"
    with 1(1) [OF w [symmetric]] t show ?thesis by (simp add: eq)
  qed (simp add: eq)
qed

end
