(* ===== verification/Ci_Mirror.thy ===== *)
theory Ci_Mirror
  imports Py_Files
begin

text \<open>
  \<^verbatim>\<open>scripts/ci_ubuntu_mirror.py\<close>: the rewriting of a deb822 sources file.  Only whole words of a \<open>URIs\<close>
  field that are one of the runner's mirrors change; suites, keys and every other line are kept.
\<close>

section \<open>Words\<close>

definition azure :: pystr where "azure = lit ''http://azure.archive.ubuntu.com/ubuntu''"
definition mirror_list :: pystr where "mirror_list = lit ''mirror+file:/etc/apt/apt-mirrors.txt''"
definition canonical_uri :: pystr where "canonical_uri = lit ''https://archive.ubuntu.com/ubuntu''"

definition runner_uri :: "pystr \<Rightarrow> bool" where
  "runner_uri w \<longleftrightarrow> w = azure \<or> w = azure @ [47] \<or> w = mirror_list"

definition rewrite_word :: "pystr \<Rightarrow> pystr" where
  "rewrite_word w = (if runner_uri w then canonical_uri else w)"

text \<open>
  \<open>RUNNER_URI.sub\<close>: a match begins after a blank or at the start and ends before a blank or at the end,
  so it is a whole word.  \<open>word\<close> is the word so far, reversed.
\<close>

fun rewrite_value :: "pystr \<Rightarrow> pystr \<Rightarrow> pystr" where
  "rewrite_value word [] = rewrite_word (rev word)"
| "rewrite_value word (c # s) =
     (if is_space c then rewrite_word (rev word) @ c # rewrite_value [] s else rewrite_value (c # word) s)"

section \<open>Fields\<close>

definition is_blank :: "nat \<Rightarrow> bool" where
  "is_blank c \<longleftrightarrow> c = 32 \<or> c = 9"

text \<open>\<open>URIs:\<close> without regard to case; the pattern's rules also match the dotted I, the dotless i and the long s.\<close>

definition field_name :: "nat list list" where
  "field_name = [[85, 117], [82, 114], [73, 105, 304, 305], [83, 115, 383], [58]]"

definition is_field_name :: "pystr \<Rightarrow> bool" where
  "is_field_name s \<longleftrightarrow> list_all2 (\<lambda>c cs. c \<in> set cs) s field_name"

definition rewrite_line :: "pystr \<Rightarrow> pystr" where
  "rewrite_line line =
     (let blanks = takeWhile is_blank line; r = dropWhile is_blank line in
      if is_field_name (take 5 r) then
        (let b = takeWhile is_blank (drop 5 r); v = dropWhile is_blank (drop 5 r)
         in blanks @ take 5 r @ b @ rewrite_value [] (takeWhile (\<lambda>c. c \<noteq> 13) v) @ dropWhile (\<lambda>c. c \<noteq> 13) v)
      else line)"

definition canonical_archive :: "pystr \<Rightarrow> pystr" where
  "canonical_archive source = join 10 (map rewrite_line (split 10 source))"

section \<open>The script\<close>

text \<open>\<open>path.write_bytes\<close>: the file is emptied, then written.\<close>

definition sys_truncate :: "nat \<Rightarrow> ('a posix_scheme, unit) prog" where
  "sys_truncate i =
     syscall (\<lambda>f. if has_inode f i
                  then Inr ((), set_inode i ((inode f i)\<lparr>content := [], changed := Suc (changed (inode f i))\<rparr>) f)
                  else Inl (OSError ''EBADF''))"

datatype selected_archive = Absent | Unrecognized | Selected

definition is_file :: "nat \<Rightarrow> pystr \<Rightarrow> ('a posix_scheme, bool) prog" where
  "is_file d n =
     try_except (ebind (sys_stat d n) (\<lambda>info. ret (st_kind info = Reg)))
       (\<lambda>e. if e = FileNotFoundError then ret False else raise e)"

text \<open>The sources file is a name in a directory; it is not a symbolic link.\<close>

definition mirror_main :: "nat \<Rightarrow> pystr \<Rightarrow> ('a posix_scheme, selected_archive) prog" where
  "mirror_main d n =
     ebind (is_file d n) (\<lambda>there.
     if \<not> there then ret Absent
     else
     ebind (sys_open d n) (\<lambda>fd.
     ebind (sys_read_all fd) (\<lambda>b.
     ebind (lift (case utf8_decode b of None \<Rightarrow> Inl UnicodeError | Some s \<Rightarrow> Inr s)) (\<lambda>original.
     let updated = canonical_archive original in
     if updated = original then ret Unrecognized
     else
     ebind (lift (case utf8_encode updated of None \<Rightarrow> Inl UnicodeError | Some e \<Rightarrow> Inr e)) (\<lambda>e.
     ebind (sys_open d n) (\<lambda>fd.
     ebind (sys_truncate fd) (\<lambda>_.
     ebind (sys_write fd e) (\<lambda>_. ret Selected))))))))"

end
