(* ===== verification/Transcribe.thy ===== *)
theory Transcribe
  imports Py_Text Complex_Main
begin

text \<open>
  \<^verbatim>\<open>scripts/transcribe.py\<close>: which segments of a transcription are printed.  The speech model is an argument;
  a probability is the rational value of its binary fraction.
\<close>

record segment =
  no_speech_prob :: rat
  segment_text :: pystr

text \<open>The binary fraction nearest to 0.6\<close>

definition no_speech_limit :: rat where
  "no_speech_limit = 5404319552844595 / 9007199254740992"

definition strip_text :: "pystr \<Rightarrow> pystr" where
  "strip_text s = rev (dropWhile is_space (rev (dropWhile is_space s)))"

definition spoken_text :: "segment list \<Rightarrow> pystr" where
  "spoken_text segments =
     strip_text (join 32 (map (\<lambda>s. strip_text (segment_text s))
       (filter (\<lambda>s. no_speech_prob s < no_speech_limit) segments)))"

text \<open>The printed text, when there is one, and the exit status; \<open>transcribed\<close> takes the file and the model's size.\<close>

definition transcribe_main :: "(pystr \<Rightarrow> pystr \<Rightarrow> segment list) \<Rightarrow> pystr list \<Rightarrow> pystr option \<times> nat" where
  "transcribe_main transcribed args =
     (if length args < 2 then (None, 2)
      else
      let text = spoken_text (transcribed (args ! 1) (if 2 < length args then args ! 2 else lit ''base''))
      in (Some text, if text \<noteq> [] then 0 else 1))"

end
