(* ===== verification/Py_Trace.thy ===== *)
theory Py_Trace
  imports Py_Outside
begin

text \<open>
  What a program may do to the world, as relations that every step keeps.  \<open>files_only\<close>: it touches the
  files and nothing else.  \<open>only A\<close>: every outside call it makes satisfies \<open>A\<close>.  \<open>talks\<close>: it makes outside
  calls and leaves every file as it is.  The rules in \<open>kept\<close> decide them by the shape of a program.
\<close>

named_theorems kept \<open>programs that keep an effect relation\<close>

section \<open>Programs on files\<close>

definition files_only :: "'a posix_scheme \<Rightarrow> 'a posix_scheme \<Rightarrow> bool" where
  "files_only w w' \<longleftrightarrow> pid w' = pid w \<and> uid w' = uid w \<and> posix.more w' = posix.more w"

interpretation files: effect_relation files_only
  by unfold_locales (auto simp: files_only_def)

lemma files_syscall_partial [kept]: "files.keeps (syscall_partial f p)"
  by (rule files.keepsI)
    (auto simp: files_only_def syscall_partial_def next_step_def split: list.splits prod.splits sum.splits outcome.splits)

lemma files_syscall [kept]: "files.keeps (syscall f)"
  unfolding syscall_def by (rule files_syscall_partial)

lemma files_calls [kept]:
  "files.keeps (sys_stat d n)" "files.keeps (sys_fstat i)" "files.keeps (sys_open d n)"
  "files.keeps (sys_opendir d n)" "files.keeps (sys_open_path p)" "files.keeps (sys_read i k)"
  "files.keeps (sys_fchmod i m)" "files.keeps (sys_fsync i)" "files.keeps (sys_link d n n')"
  "files.keeps (sys_unlink d n)" "files.keeps (sys_scandir d)" "files.keeps (sys_write i b)"
  "files.keeps (sys_replace d n n')" "files.keeps (sys_exists d n)" "files.keeps (sys_read_all i)"
  by (simp_all only: sys_stat_def sys_fstat_def sys_open_def sys_opendir_def sys_open_path_def sys_read_def
      sys_fchmod_def sys_fsync_def sys_link_def sys_unlink_def sys_scandir_def sys_write_def sys_replace_def
      sys_exists_def sys_read_all_def files_syscall files_syscall_partial)

lemma files_step: "files_only w (snd (syscall_partial f p w))" "files_only w (snd (syscall f w))"
  by (rule files_syscall_partial [unfolded files.keeps_def, rule_format]
      files_syscall [unfolded files.keeps_def, rule_format])+

lemma files_world_calls [kept]:
  "files.keeps (sys_create d n m)" "files.keeps (sys_mkdir d n m)" "files.keeps (sys_open_create d n m)"
  "files.keeps (sys_flock i)" "files.keeps (draw k)"
  by (simp_all add: files.keeps_def sys_create_def sys_mkdir_def sys_open_create_def sys_flock_def draw_def files_step)
    (simp add: files_only_def)

lemma files_release [kept]: "files.keeps (release_lock i)"
  by (auto simp: files.keeps_def release_lock_def files_only_def)

section \<open>Programs that make calls\<close>

definition only :: "(outside_call \<Rightarrow> bool) \<Rightarrow> 'a outside_scheme \<Rightarrow> 'a outside_scheme \<Rightarrow> bool" where
  "only A w w' \<longleftrightarrow> (\<exists>new. calls w' = calls w @ new \<and> (\<forall>c\<in>set new. A (asked c)))"

interpretation traced: effect_relation "only A" for A
proof
  show "only A w w" for w :: "'a outside_scheme" by (simp add: only_def)
  show "only A u v \<Longrightarrow> only A v w \<Longrightarrow> only A u w" for u v w :: "'a outside_scheme"
    unfolding only_def by (metis append_assoc Un_iff set_append)
qed

lemma only_did: "only A w w' \<Longrightarrow> did w w'"
  by (auto simp: only_def did_def)

lemma only_news: "only A w w' \<Longrightarrow> c \<in> set (news w w') \<Longrightarrow> A (asked c)"
  by (auto simp: only_def news_def)

lemma only_weaken: "only A w w' \<Longrightarrow> (\<And>c. A c \<Longrightarrow> B c) \<Longrightarrow> only B w w'"
  unfolding only_def by blast

lemma traced_weaken: "traced.keeps A m \<Longrightarrow> (\<And>c. A c \<Longrightarrow> B c) \<Longrightarrow> traced.keeps B m"
  unfolding traced.keeps_def by (blast intro: only_weaken)

lemma only_same: "calls w' = calls w \<Longrightarrow> only A w w'"
  by (simp add: only_def)

lemma more_calls: "posix.more w' = posix.more w \<Longrightarrow> calls w' = calls w"
  by (cases w; cases w') simp

lemma traced_files: "files.keeps m \<Longrightarrow> traced.keeps A m"
  unfolding files.keeps_def traced.keeps_def files_only_def by (blast intro: only_same more_calls)

text \<open>A program on files keeps the rules of the shared file system when it does so from a fair world.\<close>

lemma shared_fair:
  assumes "files.keeps m" "\<And>w. fair P S w \<Longrightarrow> wp m (\<lambda>r w'. evolves P S w w') w"
  shows "shared.keeps P S m"
proof (rule shared.keepsI)
  fix w r w' assume run: "m w = (r, w')"
  have "files_only w w'" using assms(1) run by (rule files.keepsD)
  moreover have "fair P S w \<Longrightarrow> evolves P S w w'" using wpD [OF assms(2) run] .
  ultimately show "evolves P S w w'" by (auto simp: evolves_def files_only_def)
qed

lemma traced_consult: "A c \<Longrightarrow> traced.keeps A (consult c)"
  by (rule traced.keepsI) (auto simp: only_def consult_simps)

lemma traced_modify: "(\<And>w. calls (g w) = calls w) \<Longrightarrow> traced.keeps A (modify g)"
  by (rule traced.keeps_modify) (simp add: only_same)

section \<open>Programs that leave the files alone\<close>

definition talks :: "(outside_call \<Rightarrow> bool) \<Rightarrow> 'a outside_scheme \<Rightarrow> 'a outside_scheme \<Rightarrow> bool" where
  "talks A w w' \<longleftrightarrow>
     fs w' = fs w \<and> pid w' = pid w \<and> uid w' = uid w \<and> script w' = script w
     \<and> (\<exists>new. calls w' = calls w @ new \<and> (\<forall>c\<in>set new. A (asked c) \<and> files_then c = fs w))"

interpretation talking: effect_relation "talks A" for A
proof
  show "talks A w w" for w :: "'a outside_scheme" by (simp add: talks_def)
  show "talks A u v \<Longrightarrow> talks A v w \<Longrightarrow> talks A u w" for u v w :: "'a outside_scheme"
    unfolding talks_def
    by (elim conjE exE) (auto intro!: exI [of _ "a @ b" for a b])
qed

lemma talks_only: "talks A w w' \<Longrightarrow> only A w w'"
  unfolding talks_def only_def by blast

lemma traced_talking: "talking.keeps A m \<Longrightarrow> traced.keeps A m"
  unfolding talking.keeps_def traced.keeps_def by (blast intro: talks_only)

lemma talking_consult: "A c \<Longrightarrow> talking.keeps A (consult c)"
  by (rule talking.keepsI) (auto simp: talks_def consult_simps)

lemma talking_modify:
  "(\<And>w. calls (g w) = calls w \<and> fs (g w) = fs w \<and> pid (g w) = pid w \<and> uid (g w) = uid w \<and> script (g w) = script w) \<Longrightarrow>
     talking.keeps A (modify g)"
  by (rule talking.keeps_modify) (simp add: talks_def)

lemma talking_weaken: "talking.keeps A m \<Longrightarrow> (\<And>c. A c \<Longrightarrow> B c) \<Longrightarrow> talking.keeps B m"
  unfolding talking.keeps_def talks_def by blast

section \<open>The shapes of programs\<close>

context effect_relation
begin

lemma keeps_case_sum:
  "(\<And>x. keeps (f x)) \<Longrightarrow> (\<And>x. keeps (g x)) \<Longrightarrow> keeps (case v of Inl x \<Rightarrow> f x | Inr x \<Rightarrow> g x)"
  by (cases v) auto

lemma keeps_case_list:
  "keeps m \<Longrightarrow> (\<And>x xs. keeps (f x xs)) \<Longrightarrow> keeps (case v of [] \<Rightarrow> m | x # xs \<Rightarrow> f x xs)"
  by (cases v) auto

lemma keeps_let: "(\<And>x. keeps (f x)) \<Longrightarrow> keeps (let x = a in f x)"
  by (simp add: Let_def)

end

lemmas [kept] =
  files.keeps_pure files.keeps_ebind files.keeps_try_except files.keeps_try_finally files.keeps_on_error
  files.keeps_if files.keeps_case_option files.keeps_case_prod files.keeps_efor files.keeps_case_sum
  files.keeps_case_list files.keeps_let
  traced.keeps_pure traced.keeps_ebind traced.keeps_try_except traced.keeps_try_finally traced.keeps_on_error
  traced.keeps_if traced.keeps_case_option traced.keeps_case_prod traced.keeps_efor traced.keeps_case_sum
  traced.keeps_case_list traced.keeps_let
  talking.keeps_pure talking.keeps_ebind talking.keeps_try_except talking.keeps_try_finally talking.keeps_on_error
  talking.keeps_if talking.keeps_case_option talking.keeps_case_prod talking.keeps_efor talking.keeps_case_sum
  talking.keeps_case_list talking.keeps_let

lemma talking_asks:
  assumes "A c"
  shows "talking.keeps A (consult c)" "talking.keeps A (ask_str c)" "talking.keeps A (ask_int c)"
    "talking.keeps A (ask_nat c)" "talking.keeps A (ask_bool c)" "talking.keeps A (ask_bytes c)"
  using assms unfolding ask_str_def ask_int_def ask_nat_def ask_bool_def ask_bytes_def
  by (intro kept talking_consult; assumption)+

lemmas traced_asks = talking_asks [THEN traced_talking]

section \<open>Programs that return\<close>

lemma ebind_InrE:
  assumes "ebind m f w = (Inr y, w')"
  obtains x w1 where "m w = (Inr x, w1)" "f x w1 = (Inr y, w')"
  using assms by (cases "m w") (auto simp: ebind_def split: sum.splits)

lemma lift_InrE: "lift r w = (Inr y, w') \<Longrightarrow> r = Inr y \<and> w' = w"
  by simp

lemma ebind_assoc: "ebind (ebind m f) g = ebind m (\<lambda>x. ebind (f x) g)"
  by (rule ext) (simp add: ebind_def split: prod.splits sum.splits)

lemma ebind_ret: "ebind (ret x) f = f x"
  by (rule ext) (simp add: ebind_def)

end
