(* ===== verification/Worker_Loops.thy ===== *)
theory Worker_Loops
  imports Py_Trace Worker_Unit
begin

text \<open>
  The event loop of \<open>wait_stopped\<close>, for any relation that signals and turns of the loop keep: then the
  loop keeps it when the callback does.
\<close>

locale loop_relation = effect_relation R
  for R :: "'a unit_bus_scheme \<Rightarrow> 'a unit_bus_scheme \<Rightarrow> bool" +
  assumes R_signal: "R w (signal e w)"
    and R_turn: "R w (w\<lparr>replies := rest,
          calls := calls w @ [\<lparr>asked = RunLoop, answered = Inr PNone, files_then = fs w\<rparr>]\<rparr>)"
begin

lemma R_dispatch:
  assumes "keeps tick" "dispatch tick e (v, q, w) = (v', q', w')"
  shows "R w w'"
proof (cases "e = Tick")
  case True
  with assms show ?thesis
    by (auto simp: R_refl split: if_splits prod.splits sum.splits dest: keepsD)
next
  case False
  with assms(2) have "w' = w \<or> w' = signal e w" by (cases e) (auto split: if_splits)
  then show ?thesis using R_refl R_signal by metis
qed

lemma R_dispatches:
  assumes "keeps tick" "fold (dispatch tick) es (v, q, w) = (v', q', w')"
  shows "R w w'"
  using assms(2)
proof (induction es arbitrary: v q w)
  case (Cons e es)
  obtain v1 q1 w1 where d: "dispatch tick e (v, q, w) = (v1, q1, w1)" by (cases "dispatch tick e (v, q, w)") auto
  with Cons.prems have "fold (dispatch tick) es (v1, q1, w1) = (v', q', w')" by simp
  from R_trans [OF R_dispatch [OF assms(1) d] Cons.IH [OF this]] show ?case .
qed (simp add: R_refl)

lemma keeps_run_loop:
  assumes "keeps tick"
  shows "keeps (run_loop n tick v)"
proof (induction n arbitrary: v)
  case (Suc n)
  show ?case
  proof (rule keepsI)
    fix w r w' assume run: "run_loop (Suc n) tick v w = (r, w')"
    show "R w w'"
    proof (cases "replies w")
      case (Cons a rest)
      obtain events x where a: "a = (events, x)" by (cases a)
      let ?w = "w\<lparr>replies := rest, calls := calls w @ [\<lparr>asked = RunLoop, answered = Inr PNone, files_then = fs w\<rparr>]\<rparr>"
      obtain v1 q1 w1 where f: "fold (dispatch tick) events (v, False, ?w) = (v1, q1, w1)"
        by (cases "fold (dispatch tick) events (v, False, ?w)") auto
      have "R w w1" using R_turn R_dispatches [OF assms f] by (rule R_trans)
      moreover have "R w1 w'" using run Cons a f Suc
        by (auto simp: R_refl split: if_splits dest: keepsD)
      ultimately show ?thesis by (rule R_trans)
    qed (use run in \<open>simp add: R_refl\<close>)
  qed
qed (simp add: keeps_def R_refl)

lemma keeps_wait_stopped:
  assumes tick: "\<And>t. tick = Some t \<Longrightarrow> keeps t"
    and parts: "\<And>h. keeps (snapshot h)" "\<And>u s cg. keeps (looks_stopped u s cg)"
      "\<And>h s. keeps (final_observation h s)" "keeps (ask_int Monotonic)"
  shows "keeps (wait_stopped fuel h limit tick)"
proof -
  have t: "keeps (case tick of None \<Rightarrow> ret () | Some t \<Rightarrow> t)"
    using tick by (cases tick) simp_all
  have "keeps (wait_loop n (case tick of None \<Rightarrow> ret () | Some t \<Rightarrow> t) h deadline v)" for n deadline v
  proof (induction n arbitrary: v)
    case (Suc n)
    show ?case unfolding wait_loop.simps
      by (intro keeps_intros keeps_pure keeps_case_option keeps_run_loop parts t Suc)
  qed simp
  then show ?thesis unfolding wait_stopped_def
    by (intro keeps_intros keeps_pure parts t)
qed

end

end
