(* ===== verification/Worker_Effects.thy ===== *)
theory Worker_Effects
  imports Worker_Loops Worker_Driver
begin

text \<open>
  Which effects the components have.  Programs on the journal, the tickets and the runtime only touch
  files; frames, the transport, the lease and the observer only make outside calls; and of these calls
  two matter for safety: starting a unit, and writing the line that lets a guard execute its task.
\<close>

section \<open>Programs that only touch files\<close>

lemma files_uuid [kept]: "files.keeps uuid4_hex" "files.keeps uuid4" "files.keeps (token_urlsafe k)"
  unfolding uuid4_def uuid4_hex_def token_urlsafe_def by (intro kept)+

lemma files_check_regular [kept]: "files.keeps (check_regular info)"
  unfolding check_regular_def by (intro kept)

lemma files_state_directory [kept]: "files.keeps (state_directory path)"
  unfolding state_directory_def by (intro kept)

lemma files_load_ticket [kept]: "files.keeps (load_ticket d n)" "files.keeps (load path)"
  unfolding load_def load_ticket_def by (intro kept)+

lemma files_write_staged [kept]: "files.keeps (write_staged d n b)"
  unfolding write_staged_def by (intro kept)

lemma files_prepare [kept]: "files.keeps (prepare path wv rv)"
  unfolding prepare_def prepare_at_def publish_ticket_def by (intro kept)

lemma files_mkdtemp [kept]: "files.keeps (mkdtemp d p)"
proof -
  have "files.keeps (mkdtemp_tries k d p)" for k
    by (induction k) (unfold mkdtemp_tries.simps, (intro kept; assumption?)+)
  then show ?thesis unfolding mkdtemp_def by blast
qed

lemma files_rmtree [kept]: "files.keeps (sys_rmtree d n)"
  unfolding sys_rmtree_def by (intro kept)

lemma files_verify [kept]: "files.keeps (verify resolve unzip d)"
  unfolding verify_def sys_open_file_def by (intro kept)

lemma files_argv [kept]: "files.keeps (argv resolve unzip d m h)" "files.keeps (supervisor_argv resolve unzip f s h)"
  unfolding argv_def supervisor_argv_def by (intro kept)+

lemma files_read_phase [kept]: "files.keeps (read_phase d p)"
  unfolding read_phase_def read_present_def by (intro kept)

lemma files_chain [kept]: "files.keeps (chain_at d)" "files.keeps (load_journal folder)"
  unfolding load_journal_def chain_at_def read_into_def by (intro kept)+

lemma files_publish [kept]: "files.keeps (publish d p v)"
  unfolding publish_def publish_new_def link_phase_def by (intro kept)

lemma files_unit_name [kept]: "files.keeps unit_name"
  unfolding unit_name_def by (intro kept)

lemma files_prepare_launch [kept]: "files.keeps (prepare_launch folder t e f c s)"
  unfolding prepare_launch_def prepare_launch_at_def by (intro kept)

lemma files_advance [kept]:
  "files.keeps (advance folder p v)" "files.keeps (admit folder h)" "files.keeps (stopped folder s x)"
  "files.keeps (acknowledge folder out r)"
  unfolding admit_def stopped_def acknowledge_def advance_def advance_at_def by (intro kept)+

lemma files_unresolved [kept]: "files.keeps (unresolved folder worker)"
  unfolding unresolved_def inspect_run_def by (intro kept)

lemma files_child_directory [kept]: "files.keeps (child_directory folder n)"
  unfolding child_directory_def by (intro kept)

lemma files_lexists [kept]: "files.keeps (path_lexists folder n)"
  unfolding path_lexists_def by (intro kept)

section \<open>Calls that matter\<close>

text \<open>The line that lets a guard execute its task, and the start of a unit.\<close>

fun is_go :: "outside_call \<Rightarrow> bool" where
  "is_go (PipeWrite n b) = (b = go_line)"
| "is_go c = False"

fun is_start :: "outside_call \<Rightarrow> bool" where
  "is_start (StartTransientUnit n p) = True"
| "is_start c = False"

definition harmless :: "outside_call \<Rightarrow> bool" where
  "harmless c \<longleftrightarrow> \<not> is_go c \<and> \<not> is_start c"

lemma harmless_calls [kept]:
  "harmless GetNameOwner" "harmless GetOwnerPid" "harmless GetOwnerUid" "harmless GetControlGroup" "harmless GetBusId"
  "harmless Subscribe" "harmless IsConnected" "harmless CloseBus" "harmless (RefUnit n)" "harmless (UnrefUnit n)"
  "harmless (StopUnit n)" "harmless (GetUnit n)" "harmless (GetAll v s)" "harmless RunLoop" "harmless (ReadText p)"
  "harmless (PathExists p)" "harmless Monotonic" "harmless WallClock" "harmless MakePipe" "harmless (PipeReady i)"
  "harmless (PipeRead i k)" "harmless (PipeClose i)" "harmless (Spawn a)" "harmless (ProcessPoll i)"
  "harmless (ProcessKill i)" "harmless (ProcessWait i t)"
  by (simp_all add: harmless_def)

lemmas talking_harmless [kept] = talking_asks [of harmless]

section \<open>Frames\<close>

text \<open>Every JSON line ends with a brace and a line feed, so no part of it is the line \<open>GO\<close>.\<close>

definition safe_line :: "bytes \<Rightarrow> bool" where
  "safe_line b \<longleftrightarrow> (\<exists>a. b = a @ [125, newline])"

lemma safe_slice: "safe_line b \<Longrightarrow> take PIPE_CHUNK (drop k b) \<noteq> go_line"
proof
  assume "safe_line b" and t: "take PIPE_CHUNK (drop k b) = go_line"
  then obtain a where b: "b = a @ [125, newline]" by (auto simp: safe_line_def)
  have "length (take PIPE_CHUNK (drop k b)) = 3" using t by (simp add: go_line_def)
  then have "length (drop k b) = 3" by (auto simp: PIPE_CHUNK_def min_def split: if_splits)
  with t have d: "drop k b = go_line" by (simp add: PIPE_CHUNK_def)
  have "b = take k b @ [71, 79, 10]" using append_take_drop_id [of k b] by (simp add: d go_line_def)
  then have "last (butlast b) = 79" by (metis append_Cons append_Nil append_assoc butlast_snoc last_snoc)
  moreover have "last (butlast b) = 125" by (simp add: b butlast_append)
  ultimately show False by simp
qed

lemma render_items_end: "render_items f d \<noteq> [] \<and> last (render_items f d) = 125"
  by (induction d) auto

lemma render_dict_end: "\<exists>s. render f (PDict d) = s @ [125]"
proof -
  have "render f (PDict d) \<noteq> [] \<and> last (render f (PDict d)) = 125"
    using render_items_end [of f] by (cases d) (auto simp: lit_simps)
  then show ?thesis by (metis append_butlast_last_id)
qed

lemma dumps_dict_end: "\<exists>a. dumps_bytes f (PDict d) = a @ [125]"
  using render_dict_end [of f d] by (auto simp: dumps_bytes_def byte_def)

lemma safe_dumps: "safe_line (dumps_bytes f (PDict d) @ [newline])"
  using dumps_dict_end [of f d] by (auto simp: safe_line_def)

lemma safe_json_line: "json_line (PDict d) = Inr b \<Longrightarrow> safe_line b"
  using safe_dumps [of fmt_compact d] by (auto simp: json_line_def dumps_finite_def split: if_splits)

lemma is_dict_safe: "is_dict v \<Longrightarrow> json_line v = Inr b \<Longrightarrow> safe_line b"
  by (cases v) (auto intro: safe_json_line)

lemma talking_frame_ready [kept]:
  "talking.keeps harmless tick \<Longrightarrow> talking.keeps harmless (frame_ready tick fd deadline)"
  unfolding frame_ready_def by (intro kept)

lemma talking_write_slice: "(\<And>n. A (PipeWrite n part)) \<Longrightarrow> talking.keeps A (write_slice fd part)"
  unfolding write_slice_def by (intro kept talking_asks)

lemma talking_write_loop:
  assumes "talking.keeps harmless tick" "safe_line b"
  shows "talking.keeps harmless (write_loop fuel tick fd b k deadline)"
proof (induction fuel arbitrary: k)
  case (Suc fuel)
  have "talking.keeps harmless (write_slice fd (take PIPE_CHUNK (drop k b)))"
    using safe_slice [OF assms(2), of k] by (intro talking_write_slice) (simp add: harmless_def)
  with assms(1) Suc show ?case unfolding write_loop.simps by (intro kept; assumption?)
qed (simp add: talking.keeps_pure)

lemma talking_frame_write:
  "talking.keeps harmless tick \<Longrightarrow> safe_line b \<Longrightarrow> talking.keeps harmless (frame_write fuel tick fr b deadline)"
  unfolding frame_write_def by (intro kept talking_write_loop)

lemma talking_read_chunk [kept]: "talking.keeps harmless (read_chunk fd n)"
  unfolding read_chunk_def by (intro kept)

lemma talking_read_loop:
  "talking.keeps harmless tick \<Longrightarrow> talking.keeps harmless (read_loop fuel tick fr deadline)"
  by (induction fuel arbitrary: fr) (unfold read_loop.simps, (intro kept; assumption?)+)

lemma talking_frame_read [kept]:
  "talking.keeps harmless tick \<Longrightarrow> talking.keeps harmless (frame_read fuel tick fr deadline)"
  unfolding frame_read_def by (rule talking_read_loop)

lemma talking_close [kept]: "talking.keeps harmless (close_end fd)" "talking.keeps harmless (frames_close fr)"
  unfolding frames_close_def close_end_def by (intro kept)+

section \<open>The observer\<close>

lemma talking_unit_modify [kept]:
  "talking.keeps A (modify (references_update f))" "talking.keeps A (modify (confirmed_update f))"
  "talking.keeps A (modify (launched_update f))" "talking.keeps A (modify (bus_owner_update g))"
  "talking.keeps A (modify (manager_pid_update h))" "talking.keeps A (modify (manager_root_update k))"
  "talking.keeps A (modify (manager_identity_update l))" "talking.keeps A (modify (fresh_bus p))"
  by (simp_all add: talking_modify fresh_bus_def)

lemma talking_check [kept]: "talking.keeps harmless check"
  unfolding check_def verify_cgroup_view_def by (intro kept)

lemma talking_UnitBus [kept]: "talking.keeps harmless (UnitBus sci)"
  unfolding UnitBus_def by (intro kept)

lemma talking_properties [kept]: "talking.keeps harmless (unit_properties_of n)"
  unfolding unit_properties_of_def by (intro kept)

lemma talking_snapshot [kept]: "talking.keeps harmless (snapshot h)"
  unfolding snapshot_def boot_id_def by (intro kept)

lemma talking_retain [kept]: "talking.keeps harmless (retain h)"
  unfolding retain_def by (intro kept)

lemma talking_bounds [kept]: "talking.keeps harmless (other_bounds cg p)"
  unfolding other_bounds_def bound_file_def exact_file_def eany.simps by (intro kept)

lemma talking_capture [kept]: "talking.keeps harmless (capture n)"
  unfolding capture_def boot_id_def by (intro kept)

lemma talking_stop [kept]: "talking.keeps harmless (stop h)" "talking.keeps harmless (abort_launch n)"
  unfolding stop_def abort_launch_def by (intro kept)+

lemma talking_cgroup_empty [kept]: "talking.keeps harmless (cgroup_empty cg)"
  unfolding cgroup_empty_def by (intro kept)

lemma talks_step: "talking.keeps A m \<Longrightarrow> m w = (r, w') \<Longrightarrow> talks A w w'"
  by (rule talking.keepsD)

interpretation talking_loop: loop_relation "talks harmless"
  by unfold_locales (simp_all add: talks_def harmless_calls)

lemma talking_final [kept]: "talking.keeps harmless (final_observation h s)"
  unfolding final_observation_def by (intro kept)

lemma talking_looks_stopped [kept]: "talking.keeps harmless (looks_stopped u s cg)"
  unfolding looks_stopped_def by (intro kept)

lemma talking_wait_stopped:
  assumes "\<And>t. tick = Some t \<Longrightarrow> talking.keeps harmless t"
  shows "talking.keeps harmless (wait_stopped fuel h limit tick)"
  by (rule talking_loop.keeps_wait_stopped) (erule assms, (intro kept)+)

lemma talking_release [kept]: "talking.keeps harmless (release fuel h)"
  unfolding release_def by (intro kept talking_wait_stopped) simp

lemma talking_close_bus [kept]: "talking.keeps harmless close_bus"
  unfolding close_bus_def by (intro kept)

section \<open>The transport\<close>

lemma talking_terminate [kept]: "talking.keeps harmless (terminate t)"
  unfolding terminate_def join_process_def by (intro kept)

lemma talking_exchange:
  assumes "is_dict v"
  shows "talking.keeps harmless (exchange_frames fuel fr v deadline)"
proof (rule talking.keepsI)
  fix w :: "'a outside_scheme" and r w' assume run: "exchange_frames fuel fr v deadline w = (r, w')"
  show "talks harmless w w'"
  proof (cases "json_line v")
    case (Inr b)
    with assms have "safe_line b" by (rule is_dict_safe)
    then have "talking.keeps harmless
      (ebind (frame_write fuel (ret ()) fr b deadline) (\<lambda>_.
       ebind (frame_read fuel (ret ()) fr deadline) (\<lambda>(response, fr').
       ebind (lift (closed response [''ok'', ''value''])) (\<lambda>_.
       if field response ''ok'' \<noteq> PBool True
       then raise (OSError ''Worker MCP request failed; outcome may be ambiguous'')
       else ret (field response ''value'', fr')))))"
      by (intro kept talking_frame_write)
    with run Inr show ?thesis by (auto simp: exchange_frames_def ebind_def dest: talking.keepsD)
  qed (use run in \<open>simp add: exchange_frames_def ebind_def talking.R_refl\<close>)
qed

lemma talks_fail_request:
  assumes "talking.keeps harmless onf" "fail_request onf t e w = (r, t', w')"
  shows "talks harmless w w'"
proof -
  obtain r1 w1 where 1: "onf w = (r1, w1)" by (cases "onf w")
  obtain r2 w2 where 2: "terminate t w1 = (r2, w2)" by (cases "terminate t w1")
  have "w' = w2" using assms(2) 1 2 by (auto simp: fail_request_def split: sum.splits)
  with talking.keepsD [OF assms(1) 1] talking.keepsD [OF talking_terminate 2] show ?thesis
    by (blast intro: talking.R_trans)
qed

lemma talks_request:
  assumes "talking.keeps harmless onf" "is_dict v" "transport_request fuel onf t v w = (r, t', w')"
  shows "talks harmless w w'"
proof (cases "t_frames t")
  case (Some fr)
  obtain r1 w1 where 1: "ask_int Monotonic w = (r1, w1)" by (cases "ask_int Monotonic w")
  have k1: "talks harmless w w1" using 1 by (rule talks_step [OF talking_harmless(3), OF harmless_calls(17)])
  show ?thesis
  proof (cases r1)
    case (Inr now)
    obtain r2 w2 where 2: "exchange_frames fuel fr v (now + t_timeout t * second_ns) w1 = (r2, w2)"
      by (cases "exchange_frames fuel fr v (now + t_timeout t * second_ns) w1")
    have k2: "talks harmless w1 w2" using 2 by (rule talks_step [OF talking_exchange [OF assms(2)]])
    have "talks harmless w2 w'"
    proof (cases r2)
      case (Inl e)
      with assms(3) Some 1 Inr 2 have "fail_request onf t e w2 = (r, t', w')" by (simp add: transport_request_def)
      with assms(1) show ?thesis by (rule talks_fail_request)
    qed (use assms(3) Some 1 Inr 2 in \<open>auto simp: transport_request_def talking.R_refl split: prod.splits\<close>)
    with k1 k2 show ?thesis by (blast intro: talking.R_trans)
  qed (use assms(3) Some 1 k1 in \<open>simp add: transport_request_def\<close>)
qed (use assms(3) in \<open>simp add: transport_request_def talking.R_refl\<close>)

lemma talks_call:
  assumes "talking.keeps harmless onf" "transport_call fuel onf t n a w = (r, t', w')"
  shows "talks harmless w w'"
  using assms talks_request [OF assms(1), of "call_message n a"]
  by (auto simp: transport_call_def call_message_def talking.R_refl split: if_splits)

lemma talking_start_helper [kept]: "talking.keeps harmless (start_helper a)"
  unfolding start_helper_def ask_pipe_def by (intro kept)

lemma talks_enter:
  assumes "talking.keeps harmless onf" "transport_enter fuel a onf t w = (r, t', w')"
  shows "talks harmless w w'"
proof (cases "t_process t")
  case None
  obtain r1 w1 where 1: "start_helper a w = (r1, w1)" by (cases "start_helper a w")
  have k1: "talks harmless w w1" using 1 by (rule talks_step [OF talking_start_helper])
  show ?thesis
  proof (cases r1)
    case (Inr x)
    obtain p fr where x: "x = (p, fr)" by (cases x)
    let ?t = "t\<lparr>t_process := Some p, t_frames := Some fr\<rparr>"
    obtain r2 t2 w2 where 2: "transport_request fuel onf ?t (open_message ?t) w1 = (r2, t2, w2)"
      by (cases "transport_request fuel onf ?t (open_message ?t) w1") auto
    have "talks harmless w1 w2" using talks_request [OF assms(1) _ 2] by (simp add: open_message_def)
    moreover have "w' = w2" using assms(2) None 1 Inr x 2
      by (auto simp: transport_enter_def Let_def open_message_def split: sum.splits prod.splits)
    ultimately show ?thesis using k1 by (blast intro: talking.R_trans)
  qed (use assms(2) None 1 k1 in \<open>simp add: transport_enter_def\<close>)
qed (use assms(2) in \<open>simp add: transport_enter_def talking.R_refl\<close>)

lemma talks_exit:
  assumes "talking.keeps harmless onf" "transport_exit fuel onf t w = (r, t', w')"
  shows "talks harmless w w'"
proof -
  obtain r1 t1 w1 where 1: "(if t_frames t = None then (Inr PNone, t, w)
      else transport_request fuel onf t close_message w) = (r1, t1, w1)" by (metis prod_cases3)
  have k1: "talks harmless w w1"
    using 1 talks_request [OF assms(1), of close_message fuel t w r1 t1 w1]
    by (auto simp: talking.R_refl close_message_def split: if_splits)
  obtain r2 w2 where 2: "terminate t1 w1 = (r2, w2)" by (cases "terminate t1 w1")
  have "w' = w2" using assms(2) 1 2 by (auto simp: transport_exit_def Let_def split: sum.splits)
  with k1 talking.keepsD [OF talking_terminate 2] show ?thesis by (blast intro: talking.R_trans)
qed

section \<open>The controller's parts\<close>

lemma talking_with_link:
  assumes "\<And>t w r t' w'. f t w = (r, t', w') \<Longrightarrow> talks A w w'"
  shows "talking.keeps A (with_link f)"
proof (rule talking.keepsI)
  fix w :: "'a controller_scheme" and r w' assume run: "with_link f w = (r, w')"
  obtain x t w1 where f: "f (client w) w = (x, t, w1)" by (cases "f (client w) w") auto
  from assms [OF f] run f show "talks A w w'" by (auto simp: with_link_def talks_def)
qed

lemma talking_client_call [kept]:
  "talking.keeps harmless onf \<Longrightarrow> talking.keeps harmless (client_call c onf n a)"
  unfolding client_call_def by (rule talking_with_link) (erule talks_call)

lemma talking_controller_modify [kept]:
  "talking.keeps A (modify (client_update f1))" "talking.keeps A (modify (beat_update f2))"
  "talking.keeps A (modify (pipe_update f3))" "talking.keeps A (modify (observing_update f4))"
  "talking.keeps A (modify (held_update f5))" "talking.keeps A (modify (intent_made_update f6))"
  "talking.keeps A (modify (publication_attempted_update f7))" "talking.keeps A (modify (used_update f8))"
  by (simp_all add: talking_modify)

lemma talking_request_stop [kept]: "talking.keeps harmless request_stop"
  unfolding request_stop_def abort_started_def by (intro kept)

lemma talking_no_callback [kept]: "talking.keeps harmless no_callback"
  unfolding no_callback_def by (intro kept)

lemma talking_lease [kept]:
  "talking.keeps harmless onf \<Longrightarrow> talking.keeps harmless (lease_status c onf)"
  "talking.keeps harmless onf \<Longrightarrow> talking.keeps harmless (lease_tick c onf force)"
  unfolding lease_tick_def lease_status_def require_live_def by (intro kept; assumption)+

lemma talking_pipe [kept]:
  "talking.keeps harmless tick \<Longrightarrow> safe_line b \<Longrightarrow> talking.keeps harmless (pipe_write c tick b deadline)"
  "talking.keeps harmless tick \<Longrightarrow> talking.keeps harmless (pipe_read c tick deadline)"
  "talking.keeps harmless close_pipe"
  unfolding pipe_write_def pipe_read_def close_pipe_def the_pipe_def by (intro kept talking_frame_write; assumption?)+

lemma talking_input_call: "talking.keeps harmless onf \<Longrightarrow> talking.keeps harmless (input_call c onf n a)"
  unfolding input_call_def by (intro kept)

lemma talks_fetch_loop:
  fixes ask :: "('a outside_scheme) mcp_call"
  shows "(\<And>n a. talking.keeps A (ask n a)) \<Longrightarrow> fetch_loop ask r d chunks k w = (x, w') \<Longrightarrow> talks A w w'"
proof (induction ask r d chunks k w arbitrary: x w' rule: fetch_loop.induct)
  case (1 ask r d chunks k w)
  obtain y w1 where c: "ask ''simmis_worker-input'' (input_request r k) w = (y, w1)"
    by (cases "ask ''simmis_worker-input'' (input_request r k) w")
  have t: "talks A w w1" using 1(2) c by (rule talks_step)
  show ?case
  proof (cases y)
    case (Inr part)
    show ?thesis
    proof (cases "check_part d k part")
      case (Inr z)
      obtain i data where z: "z = (i, data)" by (cases z)
      show ?thesis
      proof (cases "k + int (length data) = descriptor_size i")
        case False
        then have "fetch_loop ask r (Some i) (chunks @ [data]) (k + int (length data)) w1 = (x, w')"
          using 1(3) c \<open>y = Inr part\<close> Inr z by (subst (asm) fetch_loop.simps) simp
        from 1(1) [OF c [symmetric] \<open>y = Inr part\<close> Inr z [symmetric] False 1(2) this] t
        show ?thesis by (blast intro: talking.R_trans)
      qed (use 1(3) c \<open>y = Inr part\<close> Inr z t in \<open>subst (asm) fetch_loop.simps, simp\<close>)
    qed (use 1(3) c Inr t in \<open>subst (asm) fetch_loop.simps, simp\<close>)
  qed (use 1(3) c t in \<open>subst (asm) fetch_loop.simps, simp\<close>)
qed

lemma talking_fetch:
  fixes ask :: "('a outside_scheme) mcp_call"
  assumes "\<And>n a. talking.keeps A (ask n a)"
  shows "talking.keeps A (fetch ask r config)"
proof -
  have "talking.keeps A (fetch_loop ask k d chunks n)" for k d chunks n
    using talks_fetch_loop [OF assms] by (intro talking.keepsI)
  then show ?thesis unfolding fetch_def by (intro kept)
qed

section \<open>Whole operations\<close>

lemmas traced_from_files [kept] =
  files_calls [THEN traced_files] files_world_calls [THEN traced_files] files_release [THEN traced_files]
  files_check_regular [THEN traced_files] files_state_directory [THEN traced_files]
  files_load_ticket [THEN traced_files] files_prepare [THEN traced_files] files_verify [THEN traced_files]
  files_argv [THEN traced_files] files_chain [THEN traced_files] files_prepare_launch [THEN traced_files]
  files_advance [THEN traced_files] files_unresolved [THEN traced_files]
  files_child_directory [THEN traced_files] files_lexists [THEN traced_files]

lemmas traced_from_talking [kept] =
  talking_harmless [THEN traced_talking] talking_UnitBus [THEN traced_talking] talking_retain [THEN traced_talking]
  talking_capture [THEN traced_talking] talking_stop [THEN traced_talking] talking_release [THEN traced_talking]
  talking_close_bus [THEN traced_talking] talking_client_call [THEN traced_talking]
  talking_controller_modify [THEN traced_talking] talking_unit_modify [THEN traced_talking]
  talking_request_stop talking_no_callback talking_lease [THEN traced_talking] talking_pipe [THEN traced_talking]
  talking_close [THEN traced_talking] talking_check [THEN traced_talking]

lemma traced_lock:
  "traced.keeps A body \<Longrightarrow> traced.keeps A (controller_lock folder worker body)"
  unfolding controller_lock_def lock_body_def by (intro kept; assumption?)

lemma traced_with_client:
  assumes "talking.keeps harmless onf" "traced.keeps A body" "\<And>x. harmless x \<Longrightarrow> A x"
  shows "traced.keeps A (with_client c onf token proof body)"
proof -
  have "talking.keeps harmless (with_link (transport_enter k a onf))" for k a
    using talks_enter [OF assms(1)] by (rule talking_with_link)
  then have 1: "traced.keeps A (with_link (transport_enter k a onf))" for k a
    by (intro traced_weaken [OF traced_talking] assms(3))
  have "talking.keeps harmless (with_link (transport_exit k onf))" for k
    using talks_exit [OF assms(1)] by (rule talking_with_link)
  then have 2: "traced.keeps A (with_link (transport_exit k onf))" for k
    by (intro traced_weaken [OF traced_talking] assms(3))
  have 3: "traced.keeps A (modify (client_update f))" for f
    by (rule traced_talking) (rule talking_controller_modify)
  show ?thesis unfolding with_client_def by (intro 1 2 3 kept assms(2))
qed

lemma traced_seal [kept]: 
  assumes "\<And>t. tick = Some t \<Longrightarrow> talking.keeps harmless t"
  shows "traced.keeps harmless (seal c folder output tick)"
proof -
  have "traced.keeps harmless (wait_stopped fuel h limit tick)" for fuel h limit
    by (rule traced_talking) (rule talking_wait_stopped [OF assms])
  then show ?thesis unfolding seal_def by (intro kept)
qed

lemma traced_abort_started [kept]: "traced.keeps harmless abort_started"
  unfolding abort_started_def by (intro kept)

lemma traced_stop_held [kept]: "traced.keeps harmless (stop_held c folder h)"
  unfolding stop_held_def by (intro kept) simp

lemma traced_abort_run [kept]: "traced.keeps harmless (abort_run c folder)"
  unfolding abort_run_def by (intro kept)

lemma traced_publish_output [kept]: "traced.keeps harmless (publish_output c folder r x)"
  unfolding publish_output_def by (intro kept)

lemma traced_take_use [kept]: "traced.keeps harmless take_use"
  unfolding take_use_def by (intro kept)

lemma traced_settle [kept]: "traced.keeps harmless (settle c folder r s st)"
  unfolding settle_def by (intro kept)

lemma traced_stop_again [kept]: "traced.keeps harmless (stop_again c folder l h)"
  unfolding stop_again_def by (intro kept) simp

lemma traced_reconcile_chain [kept]: "traced.keeps harmless (reconcile_chain c folder t r records l)"
proof -
  have m: "traced.keeps harmless (modify (\<lambda>w. w\<lparr>intent_made := a, held := b\<rparr>))" for a b
    by (rule traced_modify) simp
  show ?thesis unfolding reconcile_chain_def by (intro m kept traced_with_client) 
qed

lemma traced_reconcile: "traced.keeps harmless (reconcile c r)"
  unfolding reconcile_def reconcile_locked_def by (intro kept traced_lock)

end
