(* ===== verification/Worker_Durable.thy ===== *)
theory Worker_Durable
  imports Worker_Effects
begin

text \<open>
  The durability of the Run journal, under any interleaving with other processes that keep the rules of
  the shared directories and with any call failing: a record that \<open>publish\<close> returned is on disk under its
  permanent name, a chain that was read is on disk and linked, and both survive a crash.
\<close>

section \<open>Records as bytes\<close>

lemma encode_Inr:
  "encode v = Inr b \<longleftrightarrow> utf8_encode (render fmt_canonical (sort_keys v)) = Some b"
  by (simp add: encode_def split: option.splits)

lemma parse_record_canonical: "parse_record b = Inr v \<longleftrightarrow> parse_canonical b = Inr v"
  by (auto simp: parse_record_def split: sum.splits if_splits)

lemma parse_record_encode: "parse_record b = Inr v \<Longrightarrow> encode v = Inr b \<and> is_dict v"
  unfolding parse_record_canonical
  by (auto simp: parse_canonical_def rbind_def split: sum.splits if_splits)

lemma parse_encoded:
  assumes "json_ok False v" "is_dict v" "encode v = Inr b"
  shows "parse_record b = Inr (sort_keys v)"
proof -
  have "json_ok (ensure_ascii fmt_canonical) (sort_keys v)"
    using assms(1) by (simp add: fmt_canonical_def json_ok_sort_keys)
  from strict_loads_render [OF fmt_ok_formats(3) this] assms(3)
  have "strict_loads b = Inr (sort_keys v)" by (simp add: encode_Inr)
  moreover have "encode (sort_keys v) = Inr b"
    using assms(3) sort_keys_idem [OF json_ok_wf [OF assms(1)]] by (simp add: encode_Inr)
  ultimately show ?thesis
    using assms(2) by (simp add: parse_record_canonical parse_canonical_def)
qed

lemma digest_sort_keys: "wf_py v \<Longrightarrow> digest (sort_keys v) = digest v"
  by (simp add: digest_def encode_def sort_keys_idem)

lemma parse_record_Nil: "parse_record [] \<noteq> Inr v"
proof -
  have "strict_loads [] \<noteq> Inr v" for v
    by (simp add: strict_loads_def json_loads_def skip_ws_def scan_atom_def)
  then show ?thesis by (auto simp: parse_record_canonical parse_canonical_def rbind_def split: sum.splits)
qed

lemma encode_nonempty: "is_dict v \<Longrightarrow> encode v \<noteq> Inr []"
proof
  assume "is_dict v" "encode v = Inr []"
  then obtain d where "utf8_encode (render fmt_canonical (PDict d)) = Some []" by (cases v) (auto simp: encode_Inr)
  from utf8_roundtrip [OF this] have "render fmt_canonical (PDict d) = []" by (subst (asm) utf8_decode.simps) simp
  with render_dict_end [of fmt_canonical d] show False by simp
qed

section \<open>Reading a record\<close>

text \<open>The record that is under a permanent name, and the same with its bytes on disk.\<close>

definition record_file :: "'a posix_scheme \<Rightarrow> nat \<Rightarrow> string \<Rightarrow> pyval \<Rightarrow> bool" where
  "record_file w d ph v \<longleftrightarrow>
     (\<exists>i. holds_file w d (record_name ph) i \<and> length (content (inode (fs w) i)) \<le> MAX_RECORD_BYTES
        \<and> encode v = Inr (content (inode (fs w) i)) \<and> is_dict v)"

definition record_saved :: "'a posix_scheme \<Rightarrow> nat \<Rightarrow> string \<Rightarrow> pyval \<Rightarrow> bool" where
  "record_saved w d ph v \<longleftrightarrow>
     (\<exists>b. on_disk w d (record_name ph) b \<and> length b \<le> MAX_RECORD_BYTES \<and> encode v = Inr b \<and> is_dict v)"

lemma record_file_acts:
  assumes "record_file w d ph v" "acts P S (fs w) (fs w')" "uid w' = uid w" "S d" "published (record_name ph)"
  shows "record_file w' d ph v"
  using assms(1) holds_file_acts [OF _ assms(2-5)] unfolding record_file_def by metis

lemma record_saved_acts:
  assumes "record_saved w d ph v" "acts P S (fs w) (fs w')" "uid w' = uid w" "S d" "published (record_name ph)"
  shows "record_saved w' d ph v"
  using assms(1) on_disk_acts [OF _ assms(2-5)] unfolding record_saved_def by blast

lemma record_saved_file: "record_saved w d ph v \<Longrightarrow> record_file w d ph v"
  by (auto simp: record_saved_def record_file_def on_disk_def)

lemma record_file_evolves:
  assumes "record_file w d ph v" "evolves P S w w'" "fair P S w" "S d" "published (record_name ph)"
  shows "record_file w' d ph v"
  using record_file_acts [OF assms(1) evolvesD(2) [OF assms(2,3)] evolvesD(4) [OF assms(2,3)] assms(4,5)] .

lemma record_saved_evolves:
  assumes "record_saved w d ph v" "evolves P S w w'" "fair P S w" "S d" "published (record_name ph)"
  shows "record_saved w' d ph v"
  using record_saved_acts [OF assms(1) evolvesD(2) [OF assms(2,3)] evolvesD(4) [OF assms(2,3)] assms(4,5)] .

lemma phase_published: "ph \<in> set PHASES \<Longrightarrow> published (record_name ph)"
  by (auto simp: PHASES_def published_def starts_with_def record_name_def lit_simps)

lemma wp_keeps_fsync: "wp (sys_fsync i) (\<lambda>r w'. evolves P S w w') w"
  by (rule wp_keeps) (rule keeps_fsync)

lemma wp_lift_bind: "wp (ebind (lift r) f) Q w \<longleftrightarrow> (case r of Inl e \<Rightarrow> Q (Inl e) w | Inr x \<Rightarrow> wp (f x) Q w)"
  by simp

lemma wp_read_present:
  assumes "fair P S w" "S d" "published n" "holds_file w d n i" "info = info_of (fs w) i"
  shows "wp (read_present d n info) (\<lambda>r w'. evolves P S w w' \<and> (\<forall>v. r = Inr v \<longrightarrow>
     holds_file w' d n i \<and> length (content (inode (fs w') i)) \<le> MAX_RECORD_BYTES
     \<and> parse_record (content (inode (fs w') i)) = Inr v)) w" (is "wp _ ?Q w")
proof -
  have "wp (ebind (sys_open d n) (\<lambda>fd. ebind (sys_fstat fd) (\<lambda>current. ebind (check_regular current) (\<lambda>_.
      if st_ino current \<noteq> st_ino info then raise (ValueError ''Private journal record changed during open'')
      else ebind (sys_read fd (MAX_RECORD_BYTES + 1)) (\<lambda>encoded.
        if MAX_RECORD_BYTES < length encoded then raise bound_error
        else ebind (lift (parse_record encoded)) (\<lambda>value. ebind (sys_fsync fd) (\<lambda>_. ret value))))))) ?Q w"
  proof (rule wp_ebindI [OF wp_open [OF assms(1)]], goal_cases)
    case (2 j w2)
    then have o2: "others P S w w2" by simp
    note h2 = holds_others [OF assms(4) o2 assms(2,3)]
    with 2 have j: "j = i" by (simp add: holds_file_def)
    show ?case
    proof (rule wp_ebindI [OF wp_fstat [OF othersD(1) [OF o2]]], goal_cases)
      case (2 current w3)
      then have o3: "others P S w2 w3" by simp
      note h3 = holds_others [OF h2(1) o3 assms(2,3)]
      have o: "others P S w w3" using o2 o3 by (blast intro: others_trans)
      have "wp (ebind (sys_read j (MAX_RECORD_BYTES + 1)) (\<lambda>encoded.
        if MAX_RECORD_BYTES < length encoded then raise bound_error
        else ebind (lift (parse_record encoded)) (\<lambda>value. ebind (sys_fsync j) (\<lambda>_. ret value)))) ?Q w3"
      proof (rule wp_ebindI [OF wp_read [OF othersD(1) [OF o3]]], goal_cases)
        case (2 b w4)
        then have o4: "others P S w3 w4" and b: "b = take (MAX_RECORD_BYTES + 1) (content (inode (fs w4) i))"
          by (simp_all add: j)
        note h4 = holds_others [OF h3(1) o4 assms(2,3)]
        have o5: "others P S w w4" using o o4 by (rule others_trans)
        note f4 = othersD(1) [OF o5]
        have "wp (ebind (sys_fsync j) (\<lambda>_. ret v)) ?Q w4"
          if "length b \<le> MAX_RECORD_BYTES" "parse_record b = Inr v" for v
        proof (rule wp_ebindI [OF wp_keeps_fsync [where P = P and S = S]], goal_cases)
          case (2 x w5)
          then have e: "evolves P S w4 w5" .
          note h5 = holds_file_acts [OF h4(1) evolvesD(2) [OF e f4] evolvesD(4) [OF e f4] assms(2,3)]
          have "b = content (inode (fs w4) i)" using b that(1) by (simp add: min_def split: if_splits)
          with h5 that evolves_others [OF o5] e show ?case by (auto intro: shared.R_trans)
        qed (use evolves_others [OF o5] in \<open>auto intro: shared.R_trans\<close>)
        then show ?case using evolves_others [OF o5]
          by (cases "parse_record b") (auto simp del: wp_ebind simp: wp_lift_bind)
      qed (use o in \<open>auto intro: evolves_others others_trans\<close>)
      with o show ?case by (auto intro: evolves_others)
    qed (use o2 in \<open>auto intro: evolves_others others_trans\<close>)
  qed (auto intro: evolves_others)
  then show ?thesis using assms(1) unfolding read_present_def by (auto simp: shared.R_refl)
qed

lemma wp_read_phase:
  assumes "fair P S w" "S d" "published (record_name ph)"
  shows "wp (read_phase d ph) (\<lambda>r w'. evolves P S w w' \<and>
     (\<forall>v. r = Inr (Some v) \<longrightarrow> record_file w' d ph v)) w" (is "wp _ ?Q w")
  unfolding read_phase_def
proof (rule wp_ebindI [where R = "\<lambda>r w'. others P S w w' \<and>
    (\<forall>info. r = Inr (Some info) \<longrightarrow> (\<exists>i. lookup (fs w') d (record_name ph) = Some i \<and> info = info_of (fs w') i))"],
    goal_cases)
  case 1
  show ?case
    by (rule wp_try_exceptI [where R = "\<lambda>r w'. others P S w w' \<and>
          (\<forall>info. r = Inr (Some info) \<longrightarrow> (\<exists>i. lookup (fs w') d (record_name ph) = Some i \<and> info = info_of (fs w') i))"],
        rule wp_ebindI [OF wp_stat [OF assms(1)]]) auto
next
  case (3 inspected w1)
  then have o1: "others P S w w1" by simp
  note f1 = othersD(1) [OF o1] and e1 = evolves_others [OF o1]
  show ?case
  proof (cases inspected)
    case (Some info)
    with 3 obtain i where i: "lookup (fs w1) d (record_name ph) = Some i" "info = info_of (fs w1) i" by auto
    have "wp (read_present d (record_name ph) info) (\<lambda>r w'. evolves P S w w' \<and>
        (\<forall>v. r = Inr v \<longrightarrow> record_file w' d ph v)) w1"
    proof (cases "st_kind info = Reg \<and> st_uid info = uid w1 \<and> st_mode info = 384")
      case True
      then have h: "holds_file w1 d (record_name ph) i" using i f1 by (auto intro: regular_holds_file)
      show ?thesis
        by (rule wp_mono [OF wp_read_present [OF f1 assms(2,3) h i(2)]])
          (use e1 in \<open>auto simp: record_file_def dest: parse_record_encode intro: shared.R_trans\<close>)
    next
      case False
      then show ?thesis using e1 by (auto simp: read_present_def)
    qed
    then show ?thesis unfolding Some option.case by (rule wp_ebindI) auto
  qed (use e1 in simp)
qed (auto intro: evolves_others)

text \<open>Reading keeps the rules whatever the directory is.\<close>

lemma keeps_check_regular [simp]: "shared.keeps P S (check_regular info)"
  unfolding check_regular_def by (intro shared.keeps_intros shared.keeps_pure)

lemma keeps_read_phase [simp]: "shared.keeps P S (read_phase d ph)"
  unfolding read_phase_def read_present_def by (intro shared.keeps_intros shared.keeps_pure keeps_check_regular
    keeps_calls keeps_fsync)

section \<open>Chains\<close>

lemma keeps_chain [simp]: "shared.keeps P S (chain_at d)"
  unfolding chain_at_def read_into_def
  by (intro shared.keeps_intros shared.keeps_pure keeps_read_phase keeps_fsync shared.keeps_efor)

text \<open>A list of records that are in their files.\<close>

definition chain_files :: "'a posix_scheme \<Rightarrow> nat \<Rightarrow> chain \<Rightarrow> bool" where
  "chain_files w d records \<longleftrightarrow> (\<forall>(ph, v) \<in> set records. ph \<in> set PHASES \<and> record_file w d ph v)"

definition chain_saved :: "'a posix_scheme \<Rightarrow> nat \<Rightarrow> chain \<Rightarrow> bool" where
  "chain_saved w d records \<longleftrightarrow> (\<forall>(ph, v) \<in> set records. ph \<in> set PHASES \<and> record_saved w d ph v)"

lemma chain_files_evolves:
  "chain_files w d c \<Longrightarrow> evolves P S w w' \<Longrightarrow> fair P S w \<Longrightarrow> S d \<Longrightarrow> chain_files w' d c"
  unfolding chain_files_def using record_file_evolves phase_published by blast

lemma wp_read_into:
  assumes "fair P S w" "S d" "ph \<in> set PHASES" "chain_files w d c"
  shows "wp (read_into d ph c) (\<lambda>r w'. evolves P S w w' \<and> (\<forall>c'. r = Inr c' \<longrightarrow> chain_files w' d c')) w"
  unfolding read_into_def
proof (rule wp_ebindI [OF wp_read_phase [OF assms(1,2) phase_published [OF assms(3)]]], goal_cases)
  case (2 found w')
  with chain_files_evolves [OF assms(4) _ assms(1,2), of w'] assms(3) show ?case
    by (auto simp: chain_files_def split: option.splits)
qed simp

lemma wp_read_all:
  assumes "fair P S w" "S d" "set phs \<subseteq> set PHASES" "chain_files w d c"
  shows "wp (efor (read_into d) phs c) (\<lambda>r w'. evolves P S w w' \<and> (\<forall>c'. r = Inr c' \<longrightarrow> chain_files w' d c')) w"
  using assms
proof (induction phs arbitrary: w c)
  case (Cons ph phs)
  have "ph \<in> set PHASES" using Cons.prems(3) by simp
  then show ?case unfolding efor.simps
  proof (rule wp_ebindI [OF wp_read_into [OF Cons.prems(1,2) _ Cons.prems(4)]], goal_cases)
    case (2 c1 w1)
    then have e: "evolves P S w w1" and c: "chain_files w1 d c1" by auto
    have sub: "set phs \<subseteq> set PHASES" using Cons.prems(3) by simp
    show ?case
      by (rule wp_mono [OF Cons.IH [OF evolvesD(1) [OF e Cons.prems(1)] Cons.prems(2) sub c]])
        (use e in \<open>auto intro: shared.R_trans\<close>)
  qed simp
qed (simp add: shared.R_refl)

text \<open>The directory's \<open>fsync\<close> puts every record that is under its name on disk.\<close>

lemma record_synced:
  assumes "record_file w d ph v" "fair P S w" "S d" "published (record_name ph)"
  shows "wp (sys_fsync d) (\<lambda>r w'. r = Inr () \<longrightarrow> record_saved w' d ph v) w"
proof -
  obtain i where i: "holds_file w d (record_name ph) i" "length (content (inode (fs w) i)) \<le> MAX_RECORD_BYTES"
    "encode v = Inr (content (inode (fs w) i))" "is_dict v" using assms(1) by (auto simp: record_file_def)
  have ne: "content (inode (fs w) i) \<noteq> []" using encode_nonempty [OF i(4)] i(3) by metis
  show ?thesis
  proof (rule wp_mono [OF wp_fsync_dir [OF assms(2) i(1) assms(3,4)]], goal_cases)
    case (1 r w')
    then have "settled S (fs w')" using evolvesD(1) [OF _ assms(2)] by (auto simp: fair_def)
    then have "durable (inode (fs w') i) = Some (content (inode (fs w') i))"
      using 1 ne assms(3,4) unfolding settled_def holds_file_def by metis
    with 1 i show ?case unfolding record_saved_def on_disk_def by auto
  qed
qed

lemma chain_synced:
  assumes "chain_files w d c" "fair P S w" "S d"
  shows "wp (sys_fsync d) (\<lambda>r w'. evolves P S w w' \<and> (r = Inr () \<longrightarrow> chain_saved w' d c)) w"
proof -
  have e: "wp (sys_fsync d) (\<lambda>r w'. evolves P S w w') w" by (rule wp_keeps_fsync)
  have "wp (sys_fsync d) (\<lambda>r w'. r = Inr () \<longrightarrow> record_saved w' d ph v) w" if "(ph, v) \<in> set c" for ph v
    using that assms(1) unfolding chain_files_def
    by (intro record_synced [OF _ assms(2,3)] phase_published) auto
  with e assms(1) show ?thesis
    by (cases "sys_fsync d w") (fastforce simp: wp_def chain_saved_def chain_files_def)
qed

text \<open>A chain that was read is on disk, and its records are those the validation accepts.\<close>

lemma wp_chain_at:
  assumes "fair P S w" "S d"
  shows "wp (chain_at d) (\<lambda>r w'. evolves P S w w' \<and> (\<forall>c. r = Inr c \<longrightarrow>
     chain_saved w' d c \<and> check_phases c PHASES PNone = Inr ())) w"
  unfolding chain_at_def
proof (rule wp_ebindI [OF wp_read_all [OF assms order_refl]], goal_cases)
  case 1
  show ?case by (simp add: chain_files_def)
next
  case (3 c w1)
  then have e: "evolves P S w w1" and c: "chain_files w1 d c" by auto
  show ?case
  proof (cases "check_phases c PHASES PNone")
    case (Inr u)
    have "wp (ebind (sys_fsync d) (\<lambda>_. ret c)) (\<lambda>r w'. evolves P S w w' \<and> (\<forall>c. r = Inr c \<longrightarrow>
        chain_saved w' d c \<and> check_phases c PHASES PNone = Inr ())) w1"
      by (rule wp_ebindI [OF chain_synced [OF c evolvesD(1) [OF e assms(1)] assms(2)]])
        (use e Inr in \<open>auto intro: shared.R_trans\<close>)
    with Inr show ?thesis by simp
  qed (use e in simp)
qed simp

section \<open>Publication\<close>

text \<open>
  The rules are kept in every directory; in a shared state directory the record is where it belongs.
\<close>

lemma wp_read_phase_any:
  assumes "fair P S w" "published (record_name ph)"
  shows "wp (read_phase d ph) (\<lambda>r w'. evolves P S w w' \<and>
     (S d \<longrightarrow> (\<forall>v. r = Inr (Some v) \<longrightarrow> record_file w' d ph v))) w"
proof (cases "S d")
  case True
  then show ?thesis using wp_read_phase [OF assms(1) True assms(2)] by simp
next
  case False
  then show ?thesis using wp_keeps [OF keeps_read_phase [where P = P and S = S]] by simp
qed

definition bytes_there :: "'a posix_scheme \<Rightarrow> nat \<Rightarrow> string \<Rightarrow> bytes \<Rightarrow> bool" where
  "bytes_there w d ph b \<longleftrightarrow> (\<exists>i. holds_file w d (record_name ph) i \<and> content (inode (fs w) i) = b)"

lemma bytes_there_evolves:
  assumes "bytes_there w d ph b" "evolves P S w w'" "fair P S w" "S d" "published (record_name ph)"
  shows "bytes_there w' d ph b"
  using assms(1) holds_file_acts [OF _ evolvesD(2) [OF assms(2,3)] evolvesD(4) [OF assms(2,3)] assms(4,5)]
  unfolding bytes_there_def by metis

lemma check_same_bytes:
  "check_same x b = Inr u \<Longrightarrow> x = Some v \<Longrightarrow> record_file w d ph v \<Longrightarrow> bytes_there w d ph b"
  by (auto simp: check_same_def record_file_def bytes_there_def split: if_splits)

lemma wp_link_phase:
  assumes "fair P S w" "staged_file w i d n b" "published (record_name ph)"
  shows "wp (link_phase d ph n) (\<lambda>r w'. evolves P S w w' \<and> (S d \<longrightarrow>
     (r = Inr None \<longrightarrow> bytes_there w' d ph b) \<and> (\<forall>v. r = Inr (Some v) \<longrightarrow> record_file w' d ph v))) w"
    (is "wp _ ?Q w")
  unfolding link_phase_def
proof (rule wp_try_exceptI [where R = ?Q], goal_cases)
  case 1
  show ?case
    by (rule wp_ebindI [OF wp_link [OF assms(1,2)]]) (auto simp: bytes_there_def)
next
  case (2 e w1)
  then have e: "evolves P S w w1" by simp
  have "wp (ebind (read_phase d ph) (\<lambda>existing.
      if existing = None then raise (ValueError ''Published private journal phase disappeared'') else ret existing))
      ?Q w1"
    by (rule wp_ebindI [OF wp_read_phase_any [OF evolvesD(1) [OF e assms(1)] assms(3)]])
      (use e in \<open>auto intro: shared.R_trans\<close>)
  with e show ?case by simp
qed simp

lemma phase_staging_not_published: "\<not> published (phase_staging @ h)"
  by (simp add: published_def starts_with_def phase_staging_def lit_simps)

lemma wp_publish_new:
  assumes f0: "fair P S w" and total: "\<And>q. q \<noteq> pid w \<Longrightarrow> P q" and pub: "published (record_name ph)"
  shows "wp (publish_new d ph b) (\<lambda>r w'. evolves P S w w' \<and> (S d \<longrightarrow> r = Inr () \<longrightarrow> bytes_there w' d ph b)) w"
    (is "wp _ ?Q w")
  unfolding publish_new_def
proof (rule wp_ebindI [OF wp_keeps [OF keeps_uuid(1) [where P = P and S = S]]], goal_cases)
  case (2 h w1)
  then have e1: "evolves P S w w1" .
  let ?s = "phase_staging @ h"
  note np = phase_staging_not_published [of h]
  have unlink: "wp (sys_unlink d ?s) (\<lambda>r w'. evolves P S w1 w') w1" if "evolves P S w w1" for w1
    using that total by (intro wp_unlink [OF evolvesD(1) [OF that f0] np]) (simp add: evolves_def)
  show ?case unfolding Let_def
  proof (rule wp_on_errorI [where R = ?Q], goal_cases)
    case 1
    show ?case
    proof (rule wp_ebindI [OF wp_write_staged [OF evolvesD(1) [OF e1 f0] np]], goal_cases)
      case (2 i w2)
      then have e2: "evolves P S w w2" and st: "staged_file w2 i d ?s b" using e1 by (auto intro: shared.R_trans)
      show ?case
      proof (rule wp_ebindI [OF wp_link_phase [OF evolvesD(1) [OF e2 f0] st pub]], goal_cases)
        case (2 existing w3)
        then have e3: "evolves P S w w3" using e2 by (auto intro: shared.R_trans)
        note f3 = evolvesD(1) [OF e3 f0]
        have there: "bytes_there w3 d ph b" if "S d" "check_same existing b = Inr u" for u
          using 2 that check_same_bytes by (cases existing) auto
        have "wp (sys_unlink d ?s) ?Q w3" if "check_same existing b = Inr u" for u
          by (rule wp_mono [OF unlink [OF e3]])
            (use that e3 bytes_there_evolves [OF there _ f3 _ pub] in \<open>auto intro: shared.R_trans\<close>)
        with e3 show ?case by (cases "check_same existing b") (simp_all del: wp_ebind add: wp_lift_bind)
      qed (use e2 in \<open>auto intro: shared.R_trans\<close>)
    qed (use e1 in \<open>auto intro: shared.R_trans\<close>)
  next
    case (3 e w')
    then have ev: "evolves P S w w'" by simp
    show ?case
      by (rule wp_mono [OF unlink [OF ev]]) (use ev in \<open>auto split: sum.splits intro: shared.R_trans\<close>)
  qed simp
qed simp

text \<open>What \<open>publish\<close> returned is on disk under its permanent name.\<close>

lemma wp_publish:
  assumes f0: "fair P S w" and total: "\<And>q. q \<noteq> pid w \<Longrightarrow> P q" and pub: "published (record_name ph)"
    and dict: "is_dict v"
  shows "wp (publish d ph v) (\<lambda>r w'. evolves P S w w' \<and>
     (S d \<longrightarrow> (\<forall>x. r = Inr x \<longrightarrow> record_saved w' d ph v))) w" (is "wp _ ?Q w")
proof (cases "encode v")
  case (Inr b)
  have "wp (ebind (read_phase d ph) (\<lambda>existing.
      ebind (case existing of None \<Rightarrow> publish_new d ph b | Some _ \<Rightarrow> lift (check_same existing b)) (\<lambda>_.
      ebind (sys_fsync d) (\<lambda>_. lift (loads_bytes b))))) ?Q w" if small: "length b \<le> MAX_RECORD_BYTES"
  proof (rule wp_ebindI [OF wp_read_phase_any [OF f0 pub]], goal_cases)
    case (2 existing w1)
    then have e1: "evolves P S w w1" by simp
    note f1 = evolvesD(1) [OF e1 f0]
    have new: "wp (publish_new d ph b) (\<lambda>r w'. evolves P S w1 w' \<and> (S d \<longrightarrow> r = Inr () \<longrightarrow> bytes_there w' d ph b)) w1"
      using e1 total by (intro wp_publish_new [OF f1 _ pub]) (simp add: evolves_def)
    have "wp (case existing of None \<Rightarrow> publish_new d ph b | Some _ \<Rightarrow> lift (check_same existing b))
        (\<lambda>r w'. evolves P S w1 w' \<and> (S d \<longrightarrow> r = Inr () \<longrightarrow> bytes_there w' d ph b)) w1"
      using 2 new check_same_bytes [of existing b "()"] by (cases existing) (auto simp: shared.R_refl)
    then show ?case
    proof (rule wp_ebindI, goal_cases)
      case (2 x w2)
      then have e2: "evolves P S w w2" and there: "S d \<Longrightarrow> bytes_there w2 d ph b"
        using e1 by (auto intro: shared.R_trans)
      note f2 = evolvesD(1) [OF e2 f0]
      have "wp (sys_fsync d) (\<lambda>r w'. evolves P S w2 w' \<and> (S d \<longrightarrow> r = Inr () \<longrightarrow> record_saved w' d ph v)) w2"
      proof (cases "S d")
        case True
        with there small Inr dict have "record_file w2 d ph v" by (auto simp: record_file_def bytes_there_def)
        from wp_conj [OF wp_keeps_fsync [where P = P and S = S] record_synced [OF this f2 True pub]] show ?thesis
          by (rule wp_mono) simp
      next
        case False
        then show ?thesis using wp_keeps_fsync [where P = P and S = S] by (auto elim: wp_mono)
      qed
      then show ?case by (rule wp_ebindI) (use e2 in \<open>auto intro: shared.R_trans\<close>)
    qed (use e1 in \<open>auto intro: shared.R_trans\<close>)
  qed simp
  with Inr show ?thesis unfolding publish_def by (simp del: wp_ebind add: wp_lift_bind shared.R_refl)
qed (simp add: publish_def shared.R_refl)

text \<open>The programs of the journal keep the rules in every directory.\<close>

lemma keeps_publish [simp]:
  assumes "published (record_name ph)" "is_dict v"
  shows "shared.keeps (\<lambda>q. q \<noteq> p) S (publish d ph v)"
proof (rule shared_fair [OF files_publish])
  fix w :: "'a posix_scheme" assume f: "fair (\<lambda>q. q \<noteq> p) S w"
  then have total: "\<And>q. q \<noteq> pid w \<Longrightarrow> q \<noteq> p" by (simp add: fair_def)
  show "wp (publish d ph v) (\<lambda>r w'. evolves (\<lambda>q. q \<noteq> p) S w w') w"
    by (rule wp_mono [OF wp_publish [OF f total assms]]) (assumption, erule conjunct1)
qed

section \<open>A new phase\<close>

text \<open>A new phase and the one before it are both on disk, and the new one names the digest of the other.\<close>

lemma wp_advance_at:
  assumes f0: "fair P S w" and total: "\<And>q. q \<noteq> pid w \<Longrightarrow> P q" and sd: "S d" and ph: "ph \<in> set PHASES"
  shows "wp (advance_at d ph values) (\<lambda>r w'. evolves P S w w' \<and> (\<forall>x. r = Inr x \<longrightarrow>
     (\<exists>prior link. record_saved w' d (previous_phase ph) prior \<and> digest prior = Inr link
        \<and> record_saved w' d ph (phase_record ph link values)))) w" (is "wp _ ?Q w")
  unfolding advance_at_def
proof (rule wp_ebindI [OF wp_chain_at [OF f0 sd]], goal_cases)
  case (2 c w1)
  then have e1: "evolves P S w w1" and c: "chain_saved w1 d c" by auto
  note f1 = evolvesD(1) [OF e1 f0]
  show ?case
  proof (cases "map_of c (previous_phase ph)")
    case (Some prior)
    then have prior: "record_saved w1 d (previous_phase ph) prior" "published (record_name (previous_phase ph))"
      using c by (auto simp: chain_saved_def dest!: map_of_SomeD intro: phase_published)
    show ?thesis
    proof (cases "digest prior")
      case (Inr link)
      let ?v = "phase_record ph link values"
      have "is_dict ?v" by (simp add: phase_record_def)
      from e1 total this have "wp (publish d ph ?v) (\<lambda>r w'. evolves P S w1 w' \<and>
          (S d \<longrightarrow> (\<forall>x. r = Inr x \<longrightarrow> record_saved w' d ph ?v))) w1"
        by (intro wp_publish [OF f1 _ phase_published [OF ph]]) (simp_all add: evolves_def)
      then have "wp (publish d ph ?v) ?Q w1"
        by (rule wp_mono)
          (use record_saved_evolves [OF prior(1) _ f1 sd prior(2)] Inr sd e1 in \<open>auto intro: shared.R_trans\<close>)
      with Some Inr e1 show ?thesis
        by (cases "validate_phase c ph ?v prior") (simp_all del: wp_ebind add: wp_lift_bind Let_def)
    qed (use Some e1 in simp)
  qed (use e1 in simp)
qed simp

section \<open>Reading back\<close>

lemma read_phase_quiet:
  assumes "script w = []" "holds_file w d (record_name ph) i" "length (content (inode (fs w) i)) \<le> MAX_RECORD_BYTES"
  shows "read_phase d ph w = (case parse_record (content (inode (fs w) i)) of
     Inl e \<Rightarrow> (Inl e, w) | Inr v \<Rightarrow> (Inr (Some v), w\<lparr>fs := sync i (fs w)\<rparr>))"
  using assms
  by (cases "parse_record (content (inode (fs w) i))")
    (simp_all add: read_phase_def read_present_def ebind_def try_except_def sys_stat_def sys_open_def sys_fstat_def
      sys_read_def sys_fsync_def syscall_def syscall_partial_def next_step_def find_entry_def open_entry_def
      holds_file_def check_regular_def regular_info_def)

section \<open>Links\<close>

lemma common_previous:
  "common v ph p ks n = Inr () \<Longrightarrow> \<exists>l. link_of p = Inr l \<and> py_eq (field v ''previous'') l"
  by (auto simp: common_def rbind_def split: sum.splits if_splits)

lemma common_linked:
  assumes "common v ph (Some p) ks n = Inr ()"
  shows "\<exists>l. digest p = Inr l \<and> field v ''previous'' = PStr l"
  using common_previous [OF assms] by (auto simp: link_of_def rbind_def split: sum.splits)

lemma validated_link:
  assumes "validate_phase c ph v p = Inr ()" "ph \<in> {''admitted'', ''stopped'', ''acknowledged''}"
  shows "\<exists>l. digest p = Inr l \<and> field v ''previous'' = PStr l"
  using assms
  by (auto simp: validate_phase_def validate_admitted_def validate_stopped_def validate_acknowledged_def rbind_def
      Let_def split: sum.splits dest!: common_linked)

text \<open>The check of a chain, phase by phase.\<close>

lemma check_phases_absent: "\<forall>x \<in> set later. map_of c x = None \<Longrightarrow> check_phases c later p = Inr ()"
  by (cases later) (auto simp: list_ex_iff)

lemma check_phases_present:
  "map_of c ph = Some p \<Longrightarrow> check_phases c (ph # later) prior = Inr () \<longleftrightarrow>
     validate_phase c ph p prior = Inr () \<and> check_phases c later p = Inr ()"
  by (auto simp: rbind_def split: sum.splits)

lemma check_phases_missing:
  "map_of c ph = None \<Longrightarrow> check_phases c (ph # later) prior = Inr () \<longleftrightarrow> (\<forall>x \<in> set later. map_of c x = None)"
  by (auto simp: list_ex_iff)

declare check_phases.simps [simp del]

text \<open>Every phase has the one before it, and names the digest of its bytes.\<close>

definition linked :: "chain \<Rightarrow> bool" where
  "linked c \<longleftrightarrow>
     (\<forall>ph \<in> {''admitted'', ''stopped'', ''acknowledged''}. \<forall>v. map_of c ph = Some v \<longrightarrow>
        (\<exists>p l. map_of c (previous_phase ph) = Some p \<and> digest p = Inr l \<and> field v ''previous'' = PStr l))"

lemma check_phases_pair:
  assumes "check_phases c (a # b # later) prior = Inr ()" "b \<in> {''admitted'', ''stopped'', ''acknowledged''}"
  shows "(\<exists>p. check_phases c (b # later) p = Inr ())
    \<and> (\<forall>v. map_of c b = Some v \<longrightarrow>
          (\<exists>p l. map_of c a = Some p \<and> digest p = Inr l \<and> field v ''previous'' = PStr l))"
proof (cases "map_of c a")
  case None
  with assms have "\<forall>x \<in> set (b # later). map_of c x = None" by (simp only: check_phases_missing)
  moreover from this have "check_phases c (b # later) PNone = Inr ()" by (rule check_phases_absent)
  ultimately show ?thesis by auto
next
  case (Some p)
  with assms have b: "check_phases c (b # later) p = Inr ()" by (simp only: check_phases_present)
  moreover have "\<exists>l. digest p = Inr l \<and> field v ''previous'' = PStr l" if "map_of c b = Some v" for v
    using b that validated_link [OF _ assms(2)] by (simp only: check_phases_present) blast
  ultimately show ?thesis using Some by blast
qed

lemma check_phases_linked: "check_phases c PHASES PNone = Inr () \<Longrightarrow> linked c"
proof -
  assume "check_phases c PHASES PNone = Inr ()"
  then have "check_phases c [''launch'', ''admitted'', ''stopped'', ''acknowledged''] PNone = Inr ()"
    by (simp only: PHASES_def)
  note 1 = check_phases_pair [OF this, simplified]
  then obtain p where "check_phases c [''admitted'', ''stopped'', ''acknowledged''] p = Inr ()" by blast
  note 2 = check_phases_pair [OF this, simplified]
  then obtain q where "check_phases c [''stopped'', ''acknowledged''] q = Inr ()" by blast
  note 3 = check_phases_pair [OF this, simplified]
  from 1 2 3 show ?thesis by (simp add: linked_def previous_phase_def)
qed

text \<open>A phase that \<open>advance\<close> adds keeps the chain valid.\<close>

lemma check_phases_snoc:
  assumes "check_phases c (phs @ ph # later) p0 = Inr ()" "distinct (phs @ ph # later)"
    and "\<And>x. x \<in> set phs \<Longrightarrow> map_of c x \<noteq> None" "\<And>x. x \<in> set (ph # later) \<Longrightarrow> map_of c x = None"
    and "map_of c ''launch'' \<noteq> None"
    and "validate_phase c ph v (if phs = [] then p0 else the (map_of c (last phs))) = Inr ()"
  shows "check_phases (c @ [(ph, v)]) (phs @ ph # later) p0 = Inr ()"
  using assms
proof (induction phs arbitrary: p0)
  case Nil
  let ?c = "c @ [(ph, v)]"
  have l: "map_of ?c ''launch'' = map_of c ''launch''" using Nil(5) by (auto simp: map_add_def)
  then have "validate_phase ?c ph v p0 = validate_phase c ph v p0" by (simp add: validate_phase_def)
  moreover have "check_phases ?c later v = Inr ()"
    using Nil(2,4) by (intro check_phases_absent) (auto simp: map_add_def)
  moreover have "map_of ?c ph = Some v" using Nil(4) by (simp add: map_add_def)
  ultimately show ?case using Nil(6) by (simp add: check_phases_present)
next
  case (Cons a phs)
  let ?c = "c @ [(ph, v)]"
  obtain q where q: "map_of c a = Some q" using Cons.prems(3) by auto
  have l: "map_of ?c ''launch'' = map_of c ''launch''" using Cons.prems(5) by (auto simp: map_add_def)
  then have "validate_phase ?c a q p0 = validate_phase c a q p0" by (simp add: validate_phase_def)
  moreover have "check_phases ?c (phs @ ph # later) q = Inr ()"
    using Cons.prems q by (intro Cons.IH) (auto simp: check_phases_present split: if_splits)
  moreover have "map_of ?c a = Some q" using q by (simp add: map_add_def)
  ultimately show ?case using Cons.prems(1) q by (simp add: check_phases_present)
qed

lemma check_phases_advance:
  assumes "check_phases c PHASES PNone = Inr ()" "ph \<in> {''admitted'', ''stopped'', ''acknowledged''}"
    and "map_of c (previous_phase ph) = Some p" "map_of c ph = None" "validate_phase c ph v p = Inr ()"
  shows "check_phases (c @ [(ph, v)]) PHASES PNone = Inr ()"
proof -
  have "linked c" using assms(1) by (rule check_phases_linked)
  then have present: "map_of c ''stopped'' \<noteq> None \<longrightarrow> map_of c ''admitted'' \<noteq> None"
    "map_of c ''admitted'' \<noteq> None \<longrightarrow> map_of c ''launch'' \<noteq> None"
    "map_of c ''acknowledged'' \<noteq> None \<longrightarrow> map_of c ''stopped'' \<noteq> None"
    by (auto simp: linked_def previous_phase_def)
  note snoc = check_phases_snoc [where c = c and ph = ph and v = v and ?p0.0 = PNone]
  from assms(2) consider "ph = ''admitted''" | "ph = ''stopped''" | "ph = ''acknowledged''" by blast
  then show ?thesis
  proof cases
    case 1
    with snoc [of "[''launch'']" "[''stopped'', ''acknowledged'']"] assms present show ?thesis
      by (auto simp: PHASES_def previous_phase_def)
  next
    case 2
    with snoc [of "[''launch'', ''admitted'']" "[''acknowledged'']"] assms present show ?thesis
      by (auto simp: PHASES_def previous_phase_def)
  next
    case 3
    with snoc [of "[''launch'', ''admitted'', ''stopped'']" "[]"] assms present show ?thesis
      by (auto simp: PHASES_def previous_phase_def)
  qed
qed

section \<open>Programs that keep the rules\<close>

text \<open>
  With every other process in the environment, the programs of a controller on its state directories keep
  the rules, whatever the directories are.
\<close>

named_theorems ruled \<open>programs that keep the rules of the shared directories\<close>

lemmas [ruled] =
  shared.keeps_pure shared.keeps_ebind shared.keeps_try_except shared.keeps_try_finally shared.keeps_on_error
  shared.keeps_if shared.keeps_case_option shared.keeps_case_prod shared.keeps_efor shared.keeps_let
  keeps_calls keeps_fsync keeps_create keeps_mkdir keeps_open_create keeps_flock keeps_release keeps_draw keeps_uuid
  keeps_exists keeps_read_all keeps_check_regular keeps_read_phase keeps_chain

lemma ruled_link_unlink:
  assumes "\<not> published n"
  shows "shared.keeps (\<lambda>q. q \<noteq> p) S (sys_unlink d n)"
proof (rule shared_fair [OF files_calls(10)])
  fix w :: "'a posix_scheme" assume f: "fair (\<lambda>q. q \<noteq> p) S w"
  then have total: "\<And>q. q \<noteq> pid w \<Longrightarrow> q \<noteq> p" by (simp add: fair_def)
  show "wp (sys_unlink d n) (\<lambda>r w'. evolves (\<lambda>q. q \<noteq> p) S w w') w"
    using assms total by (rule wp_unlink [OF f])
qed

lemma ruled_load_ticket [ruled]: "shared.keeps P S (load_ticket d n)"
  unfolding load_ticket_def by (intro ruled)

lemma ruled_state_directory [ruled]: "shared.keeps P S (state_directory path)"
  unfolding state_directory_def by (intro ruled)

lemma ruled_load [ruled]: "shared.keeps P S (load path)" "shared.keeps P S (load_journal path)"
  unfolding load_def load_journal_def by (intro ruled)+

lemma files_publish_ticket: "files.keeps (publish_ticket d n wk rn)"
  unfolding publish_ticket_def by (intro kept)

lemma ruled_publish_ticket [ruled]: "shared.keeps (\<lambda>q. q \<noteq> p) S (publish_ticket d n wk rn)"
proof (rule shared_fair [OF files_publish_ticket])
  fix w :: "'a posix_scheme" assume f0: "fair (\<lambda>q. q \<noteq> p) S w"
  let ?P = "\<lambda>q. q \<noteq> p" and ?Q = "\<lambda>r w'. evolves (\<lambda>q. q \<noteq> p) S w w'"
  show "wp (publish_ticket d n wk rn) ?Q w"
    unfolding publish_ticket_def
  proof (rule wp_ebindI [OF wp_keeps [OF keeps_uuid(2) [where P = ?P and S = S]]], goal_cases)
    case (2 nonce w1)
    show ?case
    proof (rule wp_ebindI [OF wp_keeps [OF keeps_uuid(3) [where P = ?P and S = S]]], goal_cases)
      case (2 secret w2)
      show ?case
      proof (rule wp_ebindI [OF wp_keeps [OF keeps_uuid(1) [where P = ?P and S = S]]], goal_cases)
        case (2 h w3)
        then have e3: "evolves ?P S w w3" using \<open>evolves ?P S w w1\<close> \<open>evolves ?P S w1 w2\<close> by (blast intro: shared.R_trans)
        note np = staging_not_published [of h]
        have unlink: "shared.keeps ?P S (sys_unlink d (claim_staging @ h))" by (rule ruled_link_unlink [OF np])
        have after: "wp m ?Q w'" if "evolves ?P S w w'" "shared.keeps ?P S m" for m :: "('a posix_scheme, 'c) prog" and w'
          by (rule wp_mono [OF wp_keeps [OF that(2)]]) (rule shared.R_trans [OF that(1)])
        show ?case unfolding Let_def
        proof (rule wp_on_errorI [where R = ?Q], goal_cases)
          case 1
          show ?case
          proof (rule wp_ebindI [OF wp_write_staged [OF evolvesD(1) [OF e3 f0] np]], goal_cases)
            case (2 i w4)
            then have e4: "evolves ?P S w w4" and st: "staged_file w4 i d (claim_staging @ h) (encode_ticket (new_ticket wk rn nonce secret))"
              using e3 by (auto intro: shared.R_trans)
            note f4 = evolvesD(1) [OF e4 f0]
            show ?case
            proof (rule wp_ebindI [where R = ?Q], goal_cases)
              case 1
              show ?case
              proof (rule wp_try_exceptI [where R = ?Q], goal_cases)
                case 1
                show ?case by (rule wp_ebindI [OF wp_link [OF f4 st]]) (use e4 in \<open>auto intro: shared.R_trans\<close>)
              next
                case (2 e w5)
                then show ?case by (rule after) (intro ruled)
              qed simp
            next
              case (3 t w5)
              then show ?case by (rule after) (intro ruled unlink)
            qed simp
          qed (use e3 in \<open>auto intro: shared.R_trans\<close>)
        next
          case (3 e w')
          then have "wp (sys_unlink d (claim_staging @ h)) ?Q w'" using unlink by (rule after)
          then show ?case by (rule wp_mono) (auto split: sum.splits)
        qed simp
      qed (use \<open>evolves ?P S w w1\<close> \<open>evolves ?P S w1 w2\<close> in \<open>auto intro: shared.R_trans\<close>)
    qed (use \<open>evolves ?P S w w1\<close> in \<open>auto intro: shared.R_trans\<close>)
  qed simp
qed

lemma ruled_prepare [ruled]: "shared.keeps (\<lambda>q. q \<noteq> p) S (prepare path wv rv)"
  unfolding prepare_def prepare_at_def by (intro ruled)

lemma phase_record_dict: "is_dict (phase_record ph link values)"
  by (simp add: phase_record_def)

lemma ruled_advance: "ph \<in> set PHASES \<Longrightarrow> shared.keeps (\<lambda>q. q \<noteq> p) S (advance path ph values)"
  unfolding advance_def advance_at_def Let_def by (intro ruled keeps_publish phase_published phase_record_dict)

lemma ruled_phases [ruled]:
  "shared.keeps (\<lambda>q. q \<noteq> p) S (admit path h)" "shared.keeps (\<lambda>q. q \<noteq> p) S (stopped path ob out)"
  "shared.keeps (\<lambda>q. q \<noteq> p) S (acknowledge path outcome receipt)"
  unfolding admit_def stopped_def acknowledge_def
  by (intro ruled ruled_advance; simp add: PHASES_def)+

lemma ruled_prepare_launch [ruled]: "shared.keeps (\<lambda>q. q \<noteq> p) S (prepare_launch path t e f c s)"
proof -
  have "is_dict (launch_record a e u f s)" for a u by (simp add: launch_record_def)
  moreover have "published (record_name ''launch'')" by (rule phase_published) (simp add: PHASES_def)
  ultimately show ?thesis
    unfolding prepare_launch_def prepare_launch_at_def unit_name_def Let_def by (intro ruled keeps_publish)
qed

lemma ruled_folder [ruled]: "shared.keeps P S (child_directory path n)" "shared.keeps P S (path_lexists path n)"
  unfolding child_directory_def path_lexists_def by (intro ruled)+

lemma ruled_unresolved [ruled]: "shared.keeps P S (unresolved path worker)"
  unfolding unresolved_def inspect_run_def by (intro ruled)

lemma ruled_verify [ruled]: "shared.keeps P S (verify resolve unzip d)"
  unfolding verify_def sys_open_file_def by (intro ruled)

lemma ruled_argv [ruled]: "shared.keeps P S (supervisor_argv resolve unzip f s h)"
  unfolding supervisor_argv_def by (intro ruled)

section \<open>A sample record\<close>

definition sample_record :: pyval where
  "sample_record = PDict [(lit ''b'', PInt 1), (lit ''a'', PStr (lit ''x''))]"

definition sample_bytes :: bytes where
  "sample_bytes = [123, 34, 97, 34, 58, 34, 120, 34, 44, 34, 98, 34, 58, 49, 125]"

lemma sample_encode: "encode sample_record = Inr sample_bytes"
  by (simp add: encode_def sample_record_def sample_bytes_def lit_simps fmt_canonical_def quote_def escape_def
      escape_char_def dec_int_def dec_nat.simps utf8_char_def byte_def)

lemma sample_record_ok: "json_ok a sample_record" "is_dict sample_record"
  by (simp_all add: sample_record_def str_ok_def lit_simps list_all_iff is_surrogate_def)

lemma dict_of_distinct: "distinct (map fst d) \<Longrightarrow> dict_of d = d"
proof (induction d rule: rev_induct)
  case (snoc kv d)
  obtain k v where kv: "kv = (k, v)" by (cases kv)
  have "dict_set e k v = e @ [(k, v)]" if "k \<notin> fst ` set e" for e
    using that by (induction e) auto
  with snoc kv show ?case by (simp add: dict_of_append)
qed (simp add: dict_of_def)

lemma default_hook_ok: "hook_ok default_hooks"
  by (simp add: hook_ok_def default_hooks_def dict_of_distinct)

lemma sample_decoded: "decode_json_bytes sample_bytes = Some (render fmt_canonical (sort_keys sample_record))"
  by (simp add: decode_json_bytes_def detect_encoding_def sample_bytes_def decode_pass.simps first_pass_def
      sample_record_def lit_simps fmt_canonical_def quote_def escape_def escape_char_def dec_int_def
      dec_nat.simps)

lemma sample_loads_bytes: "loads_bytes sample_bytes = Inr (sort_keys sample_record)"
proof -
  have "json_ok (ensure_ascii fmt_canonical) (sort_keys sample_record)"
    by (intro json_ok_sort_keys sample_record_ok)
  from json_roundtrip [OF fmt_ok_formats(3) default_hook_ok this] show ?thesis
    by (simp add: loads_bytes_def sample_decoded)
qed

lemma sample_bytes_length: "length sample_bytes = 15"
  by (simp add: sample_bytes_def)

lemma staging_not_phase: "record_name ''launch'' \<noteq> phase_staging @ h"
  using phase_staging_not_published [of h] phase_published [of "''launch''"] by (auto simp: PHASES_def)

lemma host_publish: "\<exists>x w'. publish 0 ''launch'' sample_record (host empty_root p) = (Inr x, w')"
  using staging_not_phase
  by (simp add: publish_def sample_encode sample_loads_bytes publish_new_def link_phase_def read_phase_def
      write_staged_def uuid4_hex_def draw_def quiet_calls host_def empty_root_def check_regular_def regular_info_def
      Let_def check_same_def MAX_RECORD_BYTES_def MAX_REQUEST_BYTES_def sample_bytes_length)

lemma record_saved_there:
  assumes "record_saved w d ph v" "acts P S (fs w) F" "S d" "published (record_name ph)"
  shows "\<exists>i. lookup F d (record_name ph) = Some i \<and> encode v = Inr (content (inode F i))"
  using assms(1) actsD(9,10) [OF assms(2-4)]
  by (fastforce simp: record_saved_def on_disk_def holds_file_def kept_def)

end
