(* ===== verification/Worker_Samples.thy ===== *)
theory Worker_Samples
  imports Worker_Durable
begin

text \<open>
  A concrete Run: records and identities that satisfy the validators, on which the properties are
  evaluated.
\<close>

section \<open>Writing always succeeds without surrogates\<close>

definition valid_char :: "nat \<Rightarrow> bool" where
  "valid_char c \<longleftrightarrow> \<not> is_surrogate c \<and> c < 1114112"

lemma valid_ascii: "c < 128 \<Longrightarrow> valid_char c"
  by (simp add: valid_char_def is_surrogate_def)

lemma valid_all_ascii: "(\<And>c. c \<in> set s \<Longrightarrow> c < 128) \<Longrightarrow> list_all valid_char s"
  by (auto simp: list_all_iff valid_ascii)

lemma valid_escape_char: "valid_char c \<Longrightarrow> list_all valid_char (escape_char a c)"
  using valid_all_ascii [of "u_escape c", OF u_escape_ascii] u_escape_ascii
  by (auto simp: escape_char_def Let_def valid_ascii intro!: valid_all_ascii)

lemma valid_quote: "str_ok True s \<Longrightarrow> list_all valid_char (quote a s)"
proof -
  have "list_all valid_char s \<Longrightarrow> list_all valid_char (quote a s)"
    by (induction s) (simp_all add: quote_def escape_def valid_ascii valid_escape_char)
  then show "str_ok True s \<Longrightarrow> list_all valid_char (quote a s)"
    by (simp add: str_ok_def valid_char_def [abs_def])
qed

lemma valid_dec_int: "list_all valid_char (dec_int i)"
  by (rule valid_all_ascii) (rule dec_int_ascii)

lemma render_valid:
  "fmt_ok f \<Longrightarrow> json_ok True v \<Longrightarrow> list_all valid_char (render f v)"
  "fmt_ok f \<Longrightarrow> list_all (json_ok True) xs \<Longrightarrow> list_all valid_char (render_elems f xs)"
  "fmt_ok f \<Longrightarrow> list_all (\<lambda>(k, v). str_ok True k \<and> json_ok True v) d \<Longrightarrow> list_all valid_char (render_items f d)"
  by (induction f v and f xs and f d rule: render_render_elems_render_items.induct)
    (auto simp: fmt_ok_def lit_simps valid_quote valid_dec_int valid_ascii split: list.splits)

lemma encode_total:
  assumes "json_ok True v"
  obtains b where "encode v = Inr b"
proof -
  have "list_all valid_char (render fmt_canonical (sort_keys v))"
    by (intro render_valid(1) fmt_ok_formats json_ok_sort_keys assms)
  then have "utf8_encode (render fmt_canonical (sort_keys v)) \<noteq> None"
    unfolding utf8_encode_None_iff by (auto simp: list_all_iff valid_char_def)
  then show ?thesis using that by (auto simp: encode_Inr)
qed

lemma same_encoding_refl: "json_ok True v \<Longrightarrow> same_encoding v v = Inr True"
  by (elim encode_total) (simp add: same_encoding_def)

section \<open>A launch\<close>

definition sample_url :: pystr where "sample_url = lit ''https://h/mcp''"

lemma sample_url_split:
  "urlsplit sample_url =
     Inr \<lparr>scheme = lit ''https'', netloc = lit ''h'', url_path = lit ''/mcp'', query = [], fragment = []\<rparr>"
  by (simp add: urlsplit_def sample_url_def lit_simps clean_url_def split_scheme_def partition_at_def split_netloc_def
      netloc_ok_def unsafe_netloc_chars_def starts_with_def lower_def lower_char_def is_ascii_alpha_def
      is_scheme_char_def is_netloc_delim_def)

lemma sample_origin: "origin_text (lit ''https://h'') = Inr (lit ''https://h'')"
  by (simp add: origin_text_def urlsplit_def lit_simps clean_url_def split_scheme_def partition_at_def split_netloc_def
      netloc_ok_def unsafe_netloc_chars_def starts_with_def lower_def lower_char_def is_ascii_alpha_def
      is_scheme_char_def is_netloc_delim_def hostname_def userinfo_def rpartition_at_def urlunsplit_def origin_part_def
      uses_netloc_def)

lemma sample_unsplit:
  "urlunsplit \<lparr>scheme = lit ''https'', netloc = lit ''h'', url_path = lit ''/mcp'', query = [], fragment = []\<rparr> = sample_url"
  "urlunsplit \<lparr>scheme = lit ''https'', netloc = lit ''h'', url_path = [], query = [], fragment = []\<rparr> = lit ''https://h''"
  by (simp_all add: urlunsplit_def sample_url_def lit_simps uses_netloc_def starts_with_def)

lemma sample_MCP: "\<exists>m. MCP (PStr sample_url) [] None 30 = Inr m"
proof -
  have "plain_url sample_url" by (simp add: plain_url_def sample_url_def lit_simps)
  then show ?thesis
    by (simp add: MCP_def sample_url_split sample_unsplit sample_origin origin_part_def)
qed

definition sample_unit :: pystr where
  "sample_unit = lit ''simmis-worker-0123456789abcdef0123456789abcdef.service''"

lemma sample_unit_ok: "unit_name_ok sample_unit"
  by (simp add: unit_name_ok_def sample_unit_def lit_simps unit_prefix_def unit_suffix_def starts_with_def
      ends_with_def full_hex_def is_lower_hex_def)

definition sample_owner :: pyval where
  "sample_owner = PDict (map (\<lambda>k. (lit k, PStr sample_uuid)) owner_fields)"

definition sample_launch :: pyval where
  "sample_launch = launch_record sample_owner (PStr sample_url) (PStr sample_unit) sample_input None"

lemma policies_json: "json_ok a namespace_policy" "json_ok a unit_policy"
  by (simp_all add: namespace_policy_def unit_policy_def policy_items_def str_ok_def list_all_iff lit_simps
      is_surrogate_def)

lemma sample_launch_fields:
  "field sample_launch ''version'' = PInt 1" "field sample_launch ''phase'' = PStr (lit ''launch'')"
  "field sample_launch ''previous'' = PNone" "field sample_launch ''owner'' = sample_owner"
  "field sample_launch ''endpoint'' = PStr sample_url" "field sample_launch ''unit'' = PStr sample_unit"
  "field sample_launch ''frozen'' = sample_input" "field sample_launch ''namespace-policy'' = namespace_policy"
  "field sample_launch ''unit-policy'' = unit_policy" "is_dict sample_launch"
  "key_set_is sample_launch ([''version'', ''phase'', ''previous''] @ launch_fields False)"
  by (simp_all add: sample_launch_def launch_record_def key_set_is_iff launch_fields_def)

lemma sample_owner_fields:
  "is_dict sample_owner" "key_set_is sample_owner owner_fields"
  "k \<in> set owner_fields \<Longrightarrow> field sample_owner k = PStr sample_uuid"
  by (auto simp: sample_owner_def owner_fields_def key_set_is_iff)

lemma sample_owner_checked:
  "for_each (\<lambda>k _. rbind (canonical_uuid (field sample_owner k)) (\<lambda>_. Inr ())) owner_fields () = Inr ()"
  using sample_uuid_ok sample_owner_fields(3)
  by (simp add: owner_fields_def canonical_uuid_def)

lemma sample_endpoint: "canonical_endpoint (PStr sample_url) = Inr True"
proof -
  have "1 \<le> length sample_url" "length sample_url \<le> 2048" "\<not> list_ex (\<lambda>c. c < 32 \<or> c = 127) sample_url"
    by (simp_all add: sample_url_def lit_simps)
  then show ?thesis by (simp add: canonical_endpoint_def sample_url_split sample_unsplit)
qed

lemma sample_launch_valid: "validate_launch sample_launch = Inr ()"
proof -
  obtain m where m: "MCP (PStr sample_url) [] None 30 = Inr m" using sample_MCP by blast
  have sci: "\<not> is_sci sample_launch" by (simp add: is_sci_def sample_launch_fields)
  have "validate sample_input sample_config = Inr sample_input" by (simp add: validate_Inr_iff sample_frozen)
  moreover have "item sample_input ''config'' = Inr sample_config" by (simp add: sample_input_def)
  moreover have "policies_agree False sample_launch = Inr True"
    by (simp add: policies_agree_def sample_launch_fields same_encoding_refl policies_json)
  moreover have "common sample_launch ''launch'' None (launch_fields False) 1 = Inr ()"
    using sample_launch_fields(11) by (simp add: common_def closed_record_def sample_launch_fields link_of_def)
  ultimately show ?thesis
    using sci m sample_owner_fields(1,2)
    by (simp add: validate_launch_def Let_def sample_launch_fields closed_record_def sample_owner_checked
        sample_endpoint validate_name_def sample_unit_ok)
qed

lemma sample_launch_json: "json_ok True sample_launch"
  using policies_json [of True] sample_input_ok [of True]
  by (simp add: sample_launch_def launch_record_def sample_owner_def owner_fields_def str_ok_def list_all_iff
      lit_simps is_surrogate_def sample_unit_def sample_url_def sample_uuid_def)

section \<open>A retained unit\<close>

definition sample_cgroup :: pystr where
  "sample_cgroup = lit ''/user.slice/user-7.slice/user@7.service/'' @ sample_unit"

definition sample_hex :: pystr where
  "sample_hex = lit ''0123456789abcdef0123456789abcdef''"

definition sample_manager :: pyval where
  "sample_manager =
     PDict [(lit ''uid'', PInt 7), (lit ''root'', PStr (lit ''/user.slice/user-7.slice/user@7.service'')),
            (lit ''bus-id'', PStr sample_hex), (lit ''owner'', PStr (lit '':1.5''))]"

definition sample_identity :: pyval where
  "sample_identity =
     PDict [(lit ''version'', PInt 1), (lit ''unit'', PStr sample_unit), (lit ''boot-id'', PStr sample_uuid),
            (lit ''invocation-id'', PStr sample_hex), (lit ''cgroup'', PStr sample_cgroup),
            (lit ''manager'', sample_manager)]"

lemma sample_hex_ok: "full_hex 32 sample_hex" "sample_hex \<noteq> replicate 32 48"
proof -
  show "full_hex 32 sample_hex" by (simp add: full_hex_def is_lower_hex_def sample_hex_def lit_simps)
  have "49 \<in> set sample_hex" by (simp add: sample_hex_def lit_simps)
  moreover have "(49 :: nat) \<notin> set (replicate 32 48)" by simp
  ultimately show "sample_hex \<noteq> replicate 32 48" by metis
qed

lemma sample_group: "group_ok sample_cgroup sample_unit"
  by (simp add: group_ok_def sample_cgroup_def sample_unit_def lit_simps user_slice_def starts_with_def pure_str_def
      pure_parts_def path_root_def path_names_def split_def)

lemma sample_manager_ok: "manager_ok sample_manager sample_cgroup"
  by (simp add: manager_ok_def sample_manager_def key_set_is_iff sample_hex_ok bus_owner_ok_def partition_at_def
      manager_root_of_def sample_cgroup_def sample_unit_def unit_suffix_def starts_with_def lit_simps dec_int_def
      dec_nat.simps is_digit_def slash_def)

lemma sample_identity_ok: "validate_identity sample_identity = Inr sample_identity"
  using sample_hex_ok sample_group sample_manager_ok sample_uuid_ok sample_unit_ok
  by (simp add: validate_identity_def sample_identity_def key_set_is_iff identity_fields_def validate_name_def)

definition sample_platform :: platform where
  "sample_platform =
     \<lparr>resolve_path = Inr, open_zip = (\<lambda>_. Inr []), script_folder = lit ''/s'', host_folder = (\<lambda>_. True)\<rparr>"

section \<open>A chain of two phases\<close>

definition sample_digest :: pystr where
  "sample_digest = (case digest sample_launch of Inl e \<Rightarrow> [] | Inr d \<Rightarrow> d)"

definition sample_admitted :: pyval where
  "sample_admitted = phase_record ''admitted'' sample_digest [(lit ''identity'', sample_identity)]"

lemma sample_digested: "digest sample_launch = Inr sample_digest"
proof -
  obtain b where "encode sample_launch = Inr b" using sample_launch_json by (rule encode_total)
  then show ?thesis by (simp add: sample_digest_def digest_def)
qed

lemma sample_admitted_valid: "validate_admitted sample_admitted sample_launch = Inr ()"
proof -
  have f: "field sample_admitted ''version'' = PInt 1" "field sample_admitted ''phase'' = PStr (lit ''admitted'')"
    "field sample_admitted ''previous'' = PStr sample_digest" "field sample_admitted ''identity'' = sample_identity"
    "is_dict sample_admitted" "key_set_is sample_admitted ([''version'', ''phase'', ''previous''] @ [''identity''])"
    by (simp_all add: sample_admitted_def phase_record_def key_set_is_iff)
  then have "common sample_admitted ''admitted'' (Some sample_launch) [''identity''] 1 = Inr ()"
    by (simp add: common_def closed_record_def link_of_def sample_digested)
  moreover have "field sample_identity ''unit'' = PStr sample_unit" by (simp add: sample_identity_def)
  ultimately show ?thesis by (simp add: validate_admitted_def f sample_identity_ok sample_launch_fields)
qed

lemma sample_chain_valid: "check_phases [(''launch'', sample_launch)] PHASES PNone = Inr ()"
  by (simp add: PHASES_def check_phases_present check_phases_missing validate_phase_def sample_launch_valid)

end
