(* ===== verification/Journal_Properties.thy ===== *)
theory Journal_Properties
  imports Worker_Samples
begin

text \<open>
  What the Run journal promises: records are read back as they were written, a published phase is
  permanent and the same for everyone, and a chain that validates is linked and stays so.
\<close>

section \<open>Properties\<close>

text \<open>
  C7. A record written by \<open>encode\<close> is read back as the same value with sorted keys, which equals it, has
  the same digest, and has no other bytes: the digest of a record is that of its file.
\<close>

theorem journal_roundtrip:
  assumes "json_ok False v" and "is_dict v" and "encode v = Inr b"
  shows "parse_record b = Inr (sort_keys v) \<and> py_eq (sort_keys v) v \<and> digest v = Inr (sha256_hex b)
    \<and> digest (sort_keys v) = digest v \<and> (\<forall>b'. parse_record b' = Inr (sort_keys v) \<longrightarrow> b' = b)"
proof -
  note wf = json_ok_wf [OF assms(1)]
  have "encode (sort_keys v) = Inr b" using assms(3) sort_keys_idem [OF wf] by (simp add: encode_def)
  then have "b' = b" if "parse_record b' = Inr (sort_keys v)" for b'
    using parse_record_encode [OF that] by simp
  moreover have "digest v = Inr (sha256_hex b)" by (simp add: digest_def assms(3))
  ultimately show ?thesis
    using parse_encoded [OF assms] py_eq_sort_keys [OF wf] digest_sort_keys [OF wf] by blast
qed

theorem journal_roundtrip_witness:
  "parse_record sample_bytes = Inr (sort_keys sample_record) \<and> digest sample_record = Inr (sha256_hex sample_bytes)"
  using journal_roundtrip [OF sample_record_ok sample_encode] by blast

text \<open>
  C9. A published record is permanent: after \<open>publish\<close> has returned, any later activity of processes that
  keep the rules and a crash at any moment leave a file that is read back as the same record.
\<close>

theorem publish_survives_crash:
  assumes "fair (\<lambda>q. q \<noteq> pid w) S w" and "S d" and "ph \<in> set PHASES" and "json_ok False v" and "is_dict v"
    and "publish d ph v w = (Inr x, w')"
    and "acts (\<lambda>_. True) S (fs w') F" and "crashed F (fs u)" and "uid u = uid w" and "script u = []"
  shows "fst (read_phase d ph u) = Inr (Some (sort_keys v))"
proof -
  note pub = phase_published [OF assms(3)]
  have s: "record_saved w' d ph v" and e: "evolves (\<lambda>q. q \<noteq> pid w) S w w'"
    using wpD [OF wp_publish [OF assms(1) _ pub assms(5)] assms(6)] assms(2) by auto
  have u: "uid w' = uid w" using e by (simp add: evolves_def)
  have "record_saved (w'\<lparr>fs := F\<rparr>) d ph v"
    using s _ _ assms(2) pub by (rule record_saved_acts [where P = "\<lambda>_. True"]) (simp_all add: assms(7))
  then obtain b where b: "on_disk (w'\<lparr>fs := F\<rparr>) d (record_name ph) b" "length b \<le> MAX_RECORD_BYTES" "encode v = Inr b"
    by (auto simp: record_saved_def)
  obtain i where "holds_file u d (record_name ph) i" "content (inode (fs u) i) = b"
    using on_disk_crashed [OF b(1), of u] assms(8,9) u by auto
  with read_phase_quiet [OF assms(10)] b(2) parse_encoded [OF assms(4,5) b(3)] show ?thesis by auto
qed

theorem publish_survives_crash_witness:
  "\<exists>x w'. publish 0 ''launch'' sample_record (host empty_root 7) = (Inr x, w') \<and>
     fst (read_phase 0 ''launch'' (host (restart (fs w')) 8)) = Inr (Some (sort_keys sample_record))"
proof -
  obtain x w' where p: "publish 0 ''launch'' sample_record (host empty_root 7) = (Inr x, w')"
    using host_publish by blast
  have f: "fair (\<lambda>q. q \<noteq> pid (host empty_root 7)) (\<lambda>_. True) (host empty_root 7)"
    by (simp add: host_fair empty_root_ok)
  have ph: "''launch'' \<in> set PHASES" by (simp add: PHASES_def)
  have "crashed (fs w') (fs (host (restart (fs w')) 8))" by (simp add: crashed_restart)
  from publish_survives_crash [OF f TrueI ph sample_record_ok p acts_refl this] p show ?thesis by auto
qed

text \<open>
  C10. A phase is published once: two processes that publish the same phase of a Run under any
  interleaving and both return had the same bytes.
\<close>

theorem publish_agreement:
  assumes "fair (\<lambda>q. q \<noteq> pid w1) S w1" and "fair (\<lambda>q. q \<noteq> pid w2) S w2" and "S d" and "ph \<in> set PHASES"
    and "is_dict v1" and "is_dict v2"
    and "publish d ph v1 w1 = (Inr x1, w1')" and "publish d ph v2 w2 = (Inr x2, w2')"
    and "acts (\<lambda>_. True) S (fs w1') F" and "acts (\<lambda>_. True) S (fs w2') F"
  shows "encode v1 = encode v2"
proof -
  note pub = phase_published [OF assms(4)]
  have "record_saved w1' d ph v1"
    using wpD [OF wp_publish [OF assms(1) _ pub assms(5)] assms(7)] assms(3) by auto
  moreover have "record_saved w2' d ph v2"
    using wpD [OF wp_publish [OF assms(2) _ pub assms(6)] assms(8)] assms(3) by auto
  ultimately show ?thesis
    using record_saved_there [OF _ assms(9,3) pub] record_saved_there [OF _ assms(10,3) pub] by fastforce
qed

text \<open>Another process publishes the sample record that is there already.\<close>

lemma host_publish_again:
  assumes "record_saved (host f q) 0 ''launch'' sample_record"
  shows "\<exists>x w. publish 0 ''launch'' sample_record (host f q) = (Inr x, w)"
proof -
  obtain i where i: "holds_file (host f q) 0 (record_name ''launch'') i" "content (inode f i) = sample_bytes"
    using assms by (auto simp: record_saved_def on_disk_def sample_encode)
  have len: "length (content (inode (fs (host f q)) i)) \<le> MAX_RECORD_BYTES"
    by (simp add: i sample_bytes_length MAX_RECORD_BYTES_def MAX_REQUEST_BYTES_def)
  have p: "parse_record sample_bytes = Inr (sort_keys sample_record)"
    by (rule parse_encoded [OF sample_record_ok sample_encode])
  have "read_phase 0 ''launch'' (host f q) = (Inr (Some (sort_keys sample_record)), (host f q)\<lparr>fs := sync i f\<rparr>)"
    using read_phase_quiet [OF _ i(1) len] i(2) p by simp
  moreover have "encode (sort_keys sample_record) = Inr sample_bytes" using parse_record_encode [OF p] by simp
  moreover have "has_inode f 0" using i(1) by (auto simp: holds_file_def dest: lookup_has_inode)
  ultimately show ?thesis
    by (simp add: publish_def ebind_def check_same_def sample_encode sample_loads_bytes sample_bytes_length
        MAX_RECORD_BYTES_def MAX_REQUEST_BYTES_def sys_fsync_def syscall_def syscall_partial_def next_step_def sync_def)
qed

theorem publish_agreement_witness:
  "\<exists>x v y w. publish 0 ''launch'' sample_record (host empty_root 7) = (Inr x, v) \<and>
     publish 0 ''launch'' sample_record (host (fs v) 8) = (Inr y, w) \<and> encode sample_record = encode sample_record"
proof -
  obtain x v where p: "publish 0 ''launch'' sample_record (host empty_root 7) = (Inr x, v)"
    using host_publish by blast
  have ph: "''launch'' \<in> set PHASES" by (simp add: PHASES_def)
  have f: "fair (\<lambda>q. q \<noteq> pid (host empty_root 7)) (\<lambda>_. True) (host empty_root 7)"
    by (simp add: host_fair empty_root_ok)
  have v: "record_saved v 0 ''launch'' sample_record" "evolves (\<lambda>q. q \<noteq> pid (host empty_root 7)) (\<lambda>_. True) (host empty_root 7) v"
    using wpD [OF wp_publish [OF f _ phase_published [OF ph] sample_record_ok(2)] p] by auto
  have fv: "fair (\<lambda>q. q \<noteq> pid (host (fs v) 8)) (\<lambda>_. True) (host (fs v) 8)"
    using evolvesD(1) [OF v(2) f] by (simp add: fair_def)
  have "record_saved (host (fs v) 8) 0 ''launch'' sample_record"
    using v(1,2) phase_published [OF ph]
    by (rule_tac record_saved_acts [where S = "\<lambda>_. True"]) (auto simp: evolves_def)
  then obtain y w where q: "publish 0 ''launch'' sample_record (host (fs v) 8) = (Inr y, w)"
    using host_publish_again by blast
  have "acts (\<lambda>_. True) (\<lambda>_. True) (fs v) (fs w)"
    using wpD [OF wp_publish [OF fv _ phase_published [OF ph] sample_record_ok(2)] q]
      fv by (auto simp: evolves_def intro: acts_mono)
  from publish_agreement [OF f fv TrueI ph sample_record_ok(2) sample_record_ok(2) p q this acts_refl] p q
  show ?thesis by blast
qed

text \<open>
  C11. The phases of a chain that validates are linked: every phase has the one before it, and its
  \<open>previous\<close> is the digest of that record; so a record cannot be exchanged without every later one.
\<close>

theorem chain_linked:
  assumes "check_phases c PHASES PNone = Inr ()"
    and "ph \<in> {''admitted'', ''stopped'', ''acknowledged''}" and "map_of c ph = Some v"
  shows "\<exists>p b. map_of c (previous_phase ph) = Some p \<and> encode p = Inr b
    \<and> field v ''previous'' = PStr (sha256_hex b)"
proof -
  obtain p l where p: "map_of c (previous_phase ph) = Some p" "digest p = Inr l" "field v ''previous'' = PStr l"
    using check_phases_linked [OF assms(1)] assms(2,3) unfolding linked_def by blast
  then show ?thesis by (cases "encode p") (auto simp: digest_def)
qed



lemma sample_chain_admitted:
  "check_phases [(''launch'', sample_launch), (''admitted'', sample_admitted)] PHASES PNone = Inr ()"
  using check_phases_advance [OF sample_chain_valid, of "''admitted''" sample_launch sample_admitted]
  by (simp add: previous_phase_def validate_phase_def sample_admitted_valid)

theorem chain_linked_witness:
  "\<exists>b. encode sample_launch = Inr b \<and> field sample_admitted ''previous'' = PStr (sha256_hex b)"
  using chain_linked [OF sample_chain_admitted, of "''admitted''" sample_admitted]
  by (simp add: previous_phase_def)

end
