(* ===== verification/Worker_Release.thy ===== *)
theory Worker_Release
  imports Worker_Samples
begin

text \<open>
  When a task may execute: the line \<open>GO\<close> is written only while the admission of the unit that was
  captured is on disk.  \<open>releases p S folder w w'\<close> is the relation every part of a Run keeps; only the part
  from the capture to the GO needs a proof of its own.
\<close>

section \<open>A process among others, with calls\<close>

text \<open>As \<open>evolves\<close>, for worlds whose other parts change too.\<close>

definition lives :: "(nat \<Rightarrow> bool) \<Rightarrow> (nat \<Rightarrow> bool) \<Rightarrow> 'a posix_scheme \<Rightarrow> 'a posix_scheme \<Rightarrow> bool" where
  "lives P S w w' \<longleftrightarrow>
     (fair P S w \<longrightarrow> fair P S w' \<and> acts (\<lambda>q. P q \<or> q = pid w) S (fs w) (fs w'))
     \<and> pid w' = pid w \<and> uid w' = uid w"

lemma lives_refl: "lives P S w w"
  by (simp add: lives_def)

lemma lives_trans: "lives P S u v \<Longrightarrow> lives P S v w \<Longrightarrow> lives P S u w"
  unfolding lives_def by (auto intro: acts_trans)

lemma evolves_lives: "evolves P S w w' \<Longrightarrow> lives P S w w'"
  by (simp add: evolves_def lives_def)

lemma talks_lives: "talks A w w' \<Longrightarrow> lives P S w w'"
  by (auto simp: talks_def lives_def fair_def)

section \<open>Releasing\<close>

text \<open>The admission of the unit \<open>h\<close>, linked to its launch, is on disk in the directory \<open>d\<close>.\<close>

definition admission_saved :: "'a posix_scheme \<Rightarrow> nat \<Rightarrow> pyval \<Rightarrow> bool" where
  "admission_saved w d h \<longleftrightarrow>
     (\<exists>l link. record_saved w d ''launch'' l \<and> digest l = Inr link
        \<and> record_saved w d ''admitted'' (phase_record ''admitted'' link [(lit ''identity'', h)]))"

text \<open>
  Before the call, \<open>capture\<close> returned an identity, \<open>folder\<close> led to a directory, and, if that is one of the
  state directories, the admission of this identity is on disk there at the moment of the call.
\<close>

definition justified ::
  "(nat \<Rightarrow> bool) \<Rightarrow> (nat \<Rightarrow> bool) \<Rightarrow> pystr list \<Rightarrow> 'a controller_scheme \<Rightarrow> made_call \<Rightarrow> bool" where
  "justified P S folder w c \<longleftrightarrow>
     (\<exists>n x h y u d v. lives P S w x \<and> capture n x = (Inr h, y)
        \<and> lives P S w u \<and> state_directory folder u = (Inr d, v) \<and> acts (\<lambda>_. True) S (fs v) (files_then c)
        \<and> (S d \<longrightarrow> admission_saved (w\<lparr>fs := files_then c\<rparr>) d h))"

definition releases ::
  "(nat \<Rightarrow> bool) \<Rightarrow> (nat \<Rightarrow> bool) \<Rightarrow> pystr list \<Rightarrow> 'a controller_scheme \<Rightarrow> 'a controller_scheme \<Rightarrow> bool" where
  "releases P S folder w w' \<longleftrightarrow>
     lives P S w w'
     \<and> (\<exists>new. calls w' = calls w @ new
          \<and> (fair P S w \<longrightarrow> (\<forall>c \<in> set new. is_go (asked c) \<longrightarrow> justified P S folder w c)))"

lemma record_saved_cong: "fs w = fs w' \<Longrightarrow> uid w = uid w' \<Longrightarrow> record_saved w d ph v = record_saved w' d ph v"
  for w :: "'a posix_scheme" and w' :: "'b posix_scheme"
  by (simp add: record_saved_def on_disk_def holds_file_def)

lemma admission_saved_cong: "fs w = fs w' \<Longrightarrow> uid w = uid w' \<Longrightarrow> admission_saved w d h = admission_saved w' d h"
  for w :: "'a posix_scheme" and w' :: "'b posix_scheme"
  using record_saved_cong [of w w'] by (simp add: admission_saved_def)

lemma justified_before:
  assumes "justified P S folder w1 c" "lives P S w w1"
  shows "justified P S folder w c"
proof -
  have u: "uid w1 = uid w" using assms(2) by (simp add: lives_def)
  have "admission_saved (w1\<lparr>fs := files_then c\<rparr>) d h = admission_saved (w\<lparr>fs := files_then c\<rparr>) d h" for d h
    by (rule admission_saved_cong) (simp_all add: u)
  with assms(1) lives_trans [OF assms(2)] show ?thesis unfolding justified_def by (metis (no_types, lifting))
qed

interpretation releasing: effect_relation "releases P S folder" for P S folder
proof
  show "releases P S folder w w" for w :: "'a controller_scheme" by (simp add: releases_def lives_refl)
next
  fix u v w :: "'a controller_scheme" assume 1: "releases P S folder u v" and 2: "releases P S folder v w"
  obtain a where a: "calls v = calls u @ a"
    "fair P S u \<longrightarrow> (\<forall>c \<in> set a. is_go (asked c) \<longrightarrow> justified P S folder u c)"
    using 1 by (auto simp: releases_def)
  obtain b where b: "calls w = calls v @ b"
    "fair P S v \<longrightarrow> (\<forall>c \<in> set b. is_go (asked c) \<longrightarrow> justified P S folder v c)"
    using 2 by (auto simp: releases_def)
  have l: "lives P S u v" "lives P S v w" using 1 2 by (simp_all add: releases_def)
  have "fair P S u \<longrightarrow> (\<forall>c \<in> set (a @ b). is_go (asked c) \<longrightarrow> justified P S folder u c)"
    using a(2) b(2) l(1) justified_before [OF _ l(1)] by (auto simp: lives_def)
  with a(1) b(1) lives_trans [OF l] show "releases P S folder u w" unfolding releases_def by auto
qed

text \<open>Programs on files, programs that only talk, and programs that do both without a GO.\<close>

definition quiet_call :: "outside_call \<Rightarrow> bool" where
  "quiet_call c \<longleftrightarrow> \<not> is_go c"

lemma harmless_quiet: "harmless c \<Longrightarrow> quiet_call c"
  by (simp add: harmless_def quiet_call_def)

lemma releasing_files: "files.keeps m \<Longrightarrow> shared.keeps P S m \<Longrightarrow> releasing.keeps P S folder m"
proof (rule releasing.keepsI)
  fix w :: "'a controller_scheme" and r w'
  assume f: "files.keeps m" and s: "shared.keeps P S m" and run: "m w = (r, w')"
  have "calls w' = calls w" using files.keepsD [OF f run] by (auto simp: files_only_def dest: more_calls)
  moreover have "lives P S w w'" using shared.keepsD [OF s run] by (rule evolves_lives)
  ultimately show "releases P S folder w w'" by (simp add: releases_def)
qed

lemma releasing_talking:
  assumes "talking.keeps A m" "\<And>c. A c \<Longrightarrow> quiet_call c"
  shows "releasing.keeps P S folder m"
proof (rule releasing.keepsI)
  fix w :: "'a controller_scheme" and r w' assume "m w = (r, w')"
  with assms(1) have t: "talks A w w'" by (rule talking.keepsD)
  with assms(2) talks_lives [OF t] show "releases P S folder w w'"
    by (auto simp: releases_def talks_def quiet_call_def)
qed

lemmas releasing_harmless = releasing_talking [OF _ harmless_quiet]

named_theorems released \<open>programs that keep \<open>releases\<close>\<close>

lemmas [released] =
  releasing.keeps_pure releasing.keeps_ebind releasing.keeps_try_except releasing.keeps_try_finally
  releasing.keeps_on_error releasing.keeps_if releasing.keeps_case_option releasing.keeps_case_prod
  releasing.keeps_efor releasing.keeps_case_sum releasing.keeps_case_list releasing.keeps_let

lemmas released_files [released] =
  releasing_files [OF files_state_directory ruled_state_directory]
  releasing_files [OF files_chain(2) ruled_load(2)]
  releasing_files [OF files_load_ticket(2) ruled_load(1)]
  releasing_files [OF files_prepare ruled_prepare]
  releasing_files [OF files_verify ruled_verify]
  releasing_files [OF files_argv(2) ruled_argv]
  releasing_files [OF files_prepare_launch ruled_prepare_launch]
  releasing_files [OF files_advance(2) ruled_phases(1)]
  releasing_files [OF files_advance(3) ruled_phases(2)]
  releasing_files [OF files_advance(4) ruled_phases(3)]
  releasing_files [OF files_unresolved ruled_unresolved]
  releasing_files [OF files_child_directory ruled_folder(1)]
  releasing_files [OF files_lexists ruled_folder(2)]


lemmas released_talking [released] =
  talking_UnitBus [THEN releasing_harmless]
  talking_retain [THEN releasing_harmless]
  talking_capture [THEN releasing_harmless] talking_stop [THEN releasing_harmless]
  talking_release [THEN releasing_harmless] talking_check [THEN releasing_harmless]
  talking_close_bus [THEN releasing_harmless] talking_client_call [THEN releasing_harmless]
  talking_controller_modify [THEN releasing_harmless] talking_unit_modify [THEN releasing_harmless]
  talking_request_stop [THEN releasing_harmless] talking_lease [THEN releasing_harmless]
  talking_pipe [THEN releasing_harmless] talking_close [THEN releasing_harmless]

lemma released_lock [released]:
  assumes "releasing.keeps (\<lambda>q. q \<noteq> p) S folder body"
  shows "releasing.keeps (\<lambda>q. q \<noteq> p) S folder (controller_lock path worker body)"
proof -
  have calls: "releasing.keeps (\<lambda>q. q \<noteq> p) S folder (sys_stat d n)" "releasing.keeps (\<lambda>q. q \<noteq> p) S folder (check_regular i)"
    "releasing.keeps (\<lambda>q. q \<noteq> p) S folder (sys_open_create d n m)" "releasing.keeps (\<lambda>q. q \<noteq> p) S folder (sys_fstat j)"
    "releasing.keeps (\<lambda>q. q \<noteq> p) S folder (sys_flock j)" "releasing.keeps (\<lambda>q. q \<noteq> p) S folder (release_lock j)"
    for d n i m j
    by (intro releasing_files kept ruled)+
  show ?thesis unfolding controller_lock_def lock_body_def by (intro released calls assms)
qed

lemma released_with_client [released]:
  assumes "talking.keeps harmless onf" "releasing.keeps P S folder body"
  shows "releasing.keeps P S folder (with_client c onf token proof body)"
proof -
  have "talking.keeps harmless (with_link (transport_enter k a onf))" for k a
    using talks_enter [OF assms(1)] by (rule talking_with_link)
  moreover have "talking.keeps harmless (with_link (transport_exit k onf))" for k
    using talks_exit [OF assms(1)] by (rule talking_with_link)
  moreover have "talking.keeps harmless (modify (client_update f))" for f
    by (rule talking_controller_modify)
  ultimately show ?thesis
    unfolding with_client_def by (intro released assms(2) releasing_harmless)
qed

lemma released_seal [released]:
  assumes "\<And>t. tick = Some t \<Longrightarrow> talking.keeps harmless t"
  shows "releasing.keeps (\<lambda>q. q \<noteq> p) S folder (seal c path out tick)"
proof -
  have "releasing.keeps (\<lambda>q. q \<noteq> p) S folder (wait_stopped fuel h limit tick)" for fuel h limit
    by (rule releasing_harmless) (rule talking_wait_stopped [OF assms])
  then show ?thesis unfolding seal_def by (intro released)
qed

lemma released_abort [released]: "releasing.keeps (\<lambda>q. q \<noteq> p) S folder (abort_run c path)"
proof -
  have 1: "releasing.keeps (\<lambda>q. q \<noteq> p) S folder abort_started"
    unfolding abort_started_def by (intro released)
  have "releasing.keeps (\<lambda>q. q \<noteq> p) S folder (stop_held c path h)" for h
    unfolding stop_held_def by (intro released) simp_all
  with 1 show ?thesis unfolding abort_run_def by (intro released talking_request_stop)
qed

section \<open>From the capture to the GO\<close>











section \<open>Whole operations\<close>

lemma released_pipe_ends [released]: "releasing.keeps P S folder ask_pipe"
proof -
  have "talking.keeps harmless (ask_pipe :: ('a controller_scheme, nat \<times> nat) prog)"
    unfolding ask_pipe_def by (intro kept)
  then show ?thesis by (rule releasing_harmless)
qed

lemma released_launch [released]: "releasing.keeps P S folder (launch plat n fds t sci)"
proof -
  have "talking.keeps quiet_call (consult (StartTransientUnit u v))" for u v
    by (rule talking_consult) (simp add: quiet_call_def)
  from releasing_talking [OF this] have "releasing.keeps P S folder (consult (StartTransientUnit u v))" for u v
    by simp
  then show ?thesis unfolding launch_def launch_command_def by (intro released; assumption?)
qed

lemma released_start [released]: "releasing.keeps (\<lambda>q. q \<noteq> p) S folder (start_unit c path ticket frozen sci)"
  unfolding start_unit_def by (intro released)


lemma released_publish [released]: "releasing.keeps (\<lambda>q. q \<noteq> p) S folder (publish_output c path r out)"
  unfolding publish_output_def by (intro released talking_request_stop)





lemma released_use [released]: "releasing.keeps P S folder take_use"
  unfolding take_use_def by (intro released)

lemma released_check_sci [released]: "releasing.keeps P S folder (check_sci c command sci)"
  unfolding check_sci_def Let_def by (intro released)


section \<open>A sample controller\<close>






section \<open>Property\<close>




text \<open>
  C3. A restarted controller only cleans up.  Whatever it finds and whatever it is answered, \<open>reconcile\<close>
  neither starts a unit nor writes a GO.
\<close>

theorem reconcile_never_executes:
  "list_all (\<lambda>made. \<not> is_start (asked made) \<and> \<not> is_go (asked made)) (news w (snd (reconcile c r w)))"
proof -
  obtain result w' where run: "reconcile c r w = (result, w')" by fastforce
  have "only harmless w w'" using traced_reconcile run by (rule traced.keepsD)
  then show ?thesis by (auto simp: run list_all_iff harmless_def dest: only_news)
qed

end
