(* ===== verification/Observer_Properties.thy ===== *)
theory Observer_Properties
  imports Worker_Samples
begin

text \<open>
  The observer of execution units: the invariant of its three sets of names over every sequence of its
  operations, what a lost reply means, and what an identity that \<open>capture\<close> returned says of the unit.
\<close>

section \<open>Programs that leave the names alone\<close>

definition units_same :: "'a unit_bus_scheme \<Rightarrow> 'a unit_bus_scheme \<Rightarrow> bool" where
  "units_same w w' \<longleftrightarrow>
     references w' = references w \<and> confirmed w' = confirmed w \<and> launched w' = launched w
     \<and> bus_policy w' = bus_policy w \<and> manager_identity w' = manager_identity w"

interpretation steady: effect_relation units_same
  by unfold_locales (auto simp: units_same_def)

lemma more_units: "outside.more w' = outside.more w \<Longrightarrow> units_same w w'"
  by (cases w; cases w') (simp add: units_same_def)

lemma steady_consult: "steady.keeps (consult c)"
  by (rule steady.keepsI) (simp add: more_units consult_simps)

lemma more_files_units: "posix.more w' = posix.more w \<Longrightarrow> units_same w w'"
  by (cases w; cases w') (simp add: units_same_def)

lemma steady_files: "files.keeps m \<Longrightarrow> steady.keeps m"
  unfolding files.keeps_def steady.keeps_def files_only_def by (blast intro: more_files_units)

named_theorems stead \<open>programs that leave the names alone\<close>

lemmas [stead] =
  steady_consult steady.keeps_pure steady.keeps_ebind steady.keeps_try_except steady.keeps_try_finally
  steady.keeps_on_error steady.keeps_if steady.keeps_case_option steady.keeps_case_prod steady.keeps_efor
  steady.keeps_case_sum steady.keeps_case_list steady.keeps_let

lemma steady_asks [stead]:
  "steady.keeps (ask_str c)" "steady.keeps (ask_int c)" "steady.keeps (ask_bool c)"
  unfolding ask_str_def ask_int_def ask_bool_def by (intro stead)+

lemma steady_reads [stead]:
  "steady.keeps check" "steady.keeps (unit_properties_of n)" "steady.keeps boot_id"
  "steady.keeps (cgroup_empty cg)" "steady.keeps (other_bounds cg p)"
  unfolding check_def verify_cgroup_view_def unit_properties_of_def boot_id_def cgroup_empty_def other_bounds_def
    bound_file_def exact_file_def eany.simps
  by (intro stead)+

lemma steady_snapshot [stead]: "steady.keeps (snapshot h)" "steady.keeps (capture n)"
  unfolding snapshot_def capture_def by (intro stead)+

lemma steady_stop [stead]: "steady.keeps (stop h)" "steady.keeps (abort_launch n)" "steady.keeps close_bus"
  unfolding stop_def abort_launch_def close_bus_def by (intro stead)+

lemma steady_final [stead]: "steady.keeps (final_observation h s)" "steady.keeps (looks_stopped u s cg)"
  unfolding final_observation_def looks_stopped_def by (intro stead)+

interpretation steady_loop: loop_relation units_same
  by unfold_locales (simp_all add: more_units, simp add: units_same_def)

lemma steady_wait_stopped:
  assumes "\<And>t. tick = Some t \<Longrightarrow> steady.keeps t"
  shows "steady.keeps (wait_stopped fuel h limit tick)"
  by (rule steady_loop.keeps_wait_stopped) (erule assms, (intro stead)+)

section \<open>The three sets\<close>

text \<open>
  \<open>launched\<close>: started here, with the reply seen; \<open>confirmed\<close>: referenced, with the reply seen;
  \<open>references\<close>: referenced, perhaps without a reply.
\<close>

definition names_ok :: "'a unit_bus_scheme \<Rightarrow> bool" where
  "names_ok w \<longleftrightarrow>
     set (launched w) \<subseteq> set (confirmed w) \<and> set (confirmed w) \<subseteq> set (references w)"

lemma names_ok_same: "units_same w w' \<Longrightarrow> names_ok w \<longleftrightarrow> names_ok w'"
  by (simp add: units_same_def names_ok_def)

text \<open>What \<open>launch\<close> does to the names: nothing, a reference without an answer, or all of it.\<close>

lemma launch_command_files: "files.keeps (launch_command plat sci policy)"
  unfolding launch_command_def by (intro kept)

lemmas launch_command_steady = steady_files [OF launch_command_files]

lemma launch_names:
  assumes "launch plat name fds t sci w = (r, w')"
  shows "r \<noteq> Inr () \<and> units_same w w' \<and> only harmless w w'
    \<or> r \<noteq> Inr () \<and> str_of name \<notin> set (references w) \<and> references w' = add_name (str_of name) (references w)
         \<and> confirmed w' = confirmed w \<and> launched w' = launched w
    \<or> r = Inr () \<and> str_of name \<notin> set (references w) \<and> references w' = add_name (str_of name) (references w)
         \<and> confirmed w' = add_name (str_of name) (confirmed w) \<and> launched w' = add_name (str_of name) (launched w)"
proof -
  let ?n = "str_of name"
  obtain r1 w1 where 1: "check w = (r1, w1)" by (cases "check w")
  have s1: "units_same w w1" using steady_reads(1) 1 by (rule steady.keepsD)
  have h1: "only harmless w w1" using talks_only [OF talking.keepsD [OF talking_check 1]] .
  obtain r2 w2 where 2: "launch_command plat sci (bus_policy w1) w1 = (r2, w2)"
    by (cases "launch_command plat sci (bus_policy w1) w1")
  have s2: "units_same w w2"
    using s1 steady.keepsD [OF launch_command_steady 2] by (rule steady.R_trans)
  have h2: "only harmless w w2"
    using h1 traced.keepsD [OF traced_files [OF launch_command_files] 2] by (rule traced.R_trans)
  define w3 where "w3 = references_update (add_name ?n) w2"
  define c where "c = StartTransientUnit ?n (unit_properties (bus_policy w1) (int_of t) (projr r2) fds)"
  obtain r4 w4 where 4: "consult c w3 = (r4, w4)" by (cases "consult c w3")
  have s4: "units_same w3 w4" using steady_consult 4 by (rule steady.keepsD)
  have "r \<noteq> Inr () \<and> (w' = w \<or> w' = w1 \<or> w' = w2) \<or> r \<noteq> Inr () \<and> w' = w4 \<and> ?n \<notin> set (references w)
    \<or> r = Inr () \<and> w' = launched_update (add_name ?n) (confirmed_update (add_name ?n) w4) \<and> ?n \<notin> set (references w)"
    using assms 1 2 4
    by (cases r1; cases r2; cases r4; cases "validate_name name")
      (auto simp: launch_def ebind_def Let_def w3_def c_def split: if_splits)
  with s1 s2 s4 h1 h2 show ?thesis by (auto simp: units_same_def w3_def traced.R_refl)
qed

lemma retain_names:
  assumes "retain h w = (r, w')"
  shows "units_same w w'
    \<or> unit_of h \<notin> set (references w) \<and> references w' = add_name (unit_of h) (references w)
         \<and> launched w' = launched w
         \<and> (confirmed w' = confirmed w \<or> confirmed w' = add_name (unit_of h) (confirmed w))"
proof -
  let ?n = "unit_of h"
  obtain r1 w1 where 1: "check w = (r1, w1)" by (cases "check w")
  have s1: "units_same w w1" using steady_reads(1) 1 by (rule steady.keepsD)
  define w2 where "w2 = references_update (add_name ?n) w1"
  obtain r3 w3 where 3: "consult (RefUnit ?n) w2 = (r3, w3)" by (cases "consult (RefUnit ?n) w2")
  have s3: "units_same w2 w3" using steady_consult 3 by (rule steady.keepsD)
  define w4 where "w4 = confirmed_update (add_name ?n) w3"
  obtain x v where snap1: "snapshot h w1 = (x, v)" by (cases "snapshot h w1")
  obtain y u where snap4: "snapshot h w4 = (y, u)" by (cases "snapshot h w4")
  have v: "units_same w1 v" using steady_snapshot(1) snap1 by (rule steady.keepsD)
  have u: "units_same w4 u" using steady_snapshot(1) snap4 by (rule steady.keepsD)
  note facts = assms [unfolded retain_def Let_def unit_of_def] 1 3 snap1 snap4
  have "w' = w \<or> w' = w1 \<or> w' = v \<or> (w' = w3 \<or> w' = u) \<and> ?n \<notin> set (references w1)"
  proof (cases "validate_identity h")
    case (Inr _)
    note valid = this
    show ?thesis
    proof (cases r1)
      case (Inr _)
      show ?thesis
      proof (cases "?n \<in> set (references w1)")
        case True
        with facts valid Inr show ?thesis
          by (cases x) (auto simp: ebind_def unit_of_def split: if_splits)
      next
        case False
        with facts valid Inr show ?thesis
          by (cases y; cases r3) (auto simp: ebind_def unit_of_def w2_def w4_def split: if_splits)
      qed
    qed (use facts valid in \<open>simp add: ebind_def\<close>)
  qed (use facts in \<open>simp add: ebind_def\<close>)
  then show ?thesis
  proof (elim disjE conjE)
    assume "w' = v"
    with steady.R_trans [OF s1 v] show ?thesis by simp
  next
    assume "w' = u" "?n \<notin> set (references w1)"
    with u s1 s3 show ?thesis by (auto simp: units_same_def w2_def w4_def)
  qed (use s1 s3 in \<open>auto simp: units_same_def w2_def steady.R_refl\<close>)
qed

text \<open>Only a confirmed unit can be observed, so only a confirmed unit is seen to stop.\<close>

lemma properties_confirmed: "unit_properties_of n w = (Inr x, w') \<Longrightarrow> n \<in> set (confirmed w)"
proof -
  assume run: "unit_properties_of n w = (Inr x, w')"
  obtain r1 w1 where 1: "check w = (r1, w1)" by (cases "check w")
  have "units_same w w1" using steady_reads(1) 1 by (rule steady.keepsD)
  moreover have "n \<in> set (confirmed w1)"
    using run 1 by (cases r1) (auto simp: unit_properties_of_def ebind_def split: if_splits)
  ultimately show ?thesis by (simp add: units_same_def)
qed

lemma snapshot_confirmed: "snapshot h w = (Inr x, w') \<Longrightarrow> unit_of h \<in> set (confirmed w)"
proof -
  assume run: "snapshot h w = (Inr x, w')"
  obtain r1 w1 where 1: "boot_id w = (r1, w1)" by (cases "boot_id w")
  have same: "units_same w w1" using steady_reads(3) 1 by (rule steady.keepsD)
  obtain r2 w2 where 2: "unit_properties_of (unit_of h) w1 = (r2, w2)" by (cases "unit_properties_of (unit_of h) w1")
  have "\<exists>p. r2 = Inr p"
    using run 1 2 by (cases "validate_identity h"; cases r1; cases r2)
      (auto simp: snapshot_def unit_of_def ebind_def split: if_splits)
  then have "unit_of h \<in> set (confirmed w1)" using 2 properties_confirmed by blast
  with same show ?thesis by (simp add: units_same_def)
qed

lemma wait_stopped_confirmed:
  assumes "wait_stopped fuel h limit None w = (Inr x, w')"
  shows "unit_of h \<in> set (confirmed w)"
proof -
  obtain r1 w1 where 1: "ask_int Monotonic w = (r1, w1)" by (cases "ask_int Monotonic w")
  have same: "units_same w w1" using steady_asks(2) 1 by (rule steady.keepsD)
  obtain r2 w2 where 2: "snapshot h w1 = (r2, w2)" by (cases "snapshot h w1")
  have "\<exists>p. r2 = Inr p"
    using assms 1 2 by (cases fuel; cases r1; cases r2)
      (auto simp: wait_stopped_def ebind_def split: if_splits)
  then have "unit_of h \<in> set (confirmed w1)" using 2 snapshot_confirmed by blast
  with same show ?thesis by (simp add: units_same_def)
qed

lemma release_names:
  assumes "release fuel h w = (r, w')"
  shows "units_same w w'
    \<or> unit_of h \<in> set (confirmed w) \<and> references w' = drop_name (unit_of h) (references w)
         \<and> confirmed w' = drop_name (unit_of h) (confirmed w) \<and> launched w' = drop_name (unit_of h) (launched w)"
proof -
  let ?n = "unit_of h"
  obtain r1 w1 where 1: "wait_stopped fuel h 1000 None w = (r1, w1)" by (cases "wait_stopped fuel h 1000 None w")
  have "steady.keeps (wait_stopped fuel h 1000 None)" by (rule steady_wait_stopped) simp
  then have s1: "units_same w w1" using 1 by (rule steady.keepsD)
  obtain r2 w2 where 2: "consult (UnrefUnit ?n) w1 = (r2, w2)" by (cases "consult (UnrefUnit ?n) w1")
  have s2: "units_same w w2" using s1 steady.keepsD [OF steady_consult 2] by (rule steady.R_trans)
  have there: "?n \<in> set (confirmed w2)" if "r1 = Inr x" for x
    using wait_stopped_confirmed [of fuel h 1000 w x w1] 1 that s2 by (simp add: units_same_def)
  have "w' = w1 \<or> w' = w2
    \<or> ?n \<in> set (confirmed w2) \<and>
      w' = w2\<lparr>references := drop_name ?n (references w2), confirmed := drop_name ?n (confirmed w2),
              launched := drop_name ?n (launched w2)\<rparr>"
  proof (cases r1)
    case (Inr x)
    note one = this there [OF this]
    show ?thesis
    proof (cases r2)
      case (Inr y)
      with one assms [unfolded release_def Let_def] 1 2 show ?thesis
        by (cases "?n \<in> set (references w2)") (auto simp: ebind_def unit_of_def remove_name_def)
    qed (use assms 1 2 Inr in \<open>simp add: release_def ebind_def Let_def unit_of_def\<close>)
  qed (use assms 1 in \<open>simp add: release_def ebind_def\<close>)
  with s1 s2 show ?thesis by (auto simp: units_same_def)
qed

section \<open>Every sequence of operations\<close>

text \<open>
  One operation of the observer, whatever it returns, or anything else the controller does in between.
\<close>

inductive observer_step :: "'a unit_bus_scheme \<Rightarrow> 'a unit_bus_scheme \<Rightarrow> bool" where
  launching: "launch plat name fds t sci w = (r, w') \<Longrightarrow> observer_step w w'"
| retaining: "retain h w = (r, w') \<Longrightarrow> observer_step w w'"
| capturing: "capture name w = (r, w') \<Longrightarrow> observer_step w w'"
| stopping: "stop h w = (r, w') \<Longrightarrow> observer_step w w'"
| aborting: "abort_launch name w = (r, w') \<Longrightarrow> observer_step w w'"
| waiting_stop: "wait_stopped fuel h limit None w = (r, w') \<Longrightarrow> observer_step w w'"
| releasing_unit: "release fuel h w = (r, w') \<Longrightarrow> observer_step w w'"
| closing: "close_bus w = (r, w') \<Longrightarrow> observer_step w w'"
| elsewhere: "units_same w w' \<Longrightarrow> observer_step w w'"

inductive observed :: "'a unit_bus_scheme \<Rightarrow> bool" where
  opened: "UnitBus sci w = (r, w') \<Longrightarrow> observed w'"
| continued: "observed w \<Longrightarrow> observer_step w w' \<Longrightarrow> observed w'"

lemma names_ok_step:
  assumes "observer_step w w'" "names_ok w"
  shows "names_ok w'"
  using assms(1)
proof cases
  case (launching plat name fds t sci r)
  from launch_names [OF this] assms(2) show ?thesis by (auto simp: names_ok_def units_same_def)
next
  case (retaining h r)
  from retain_names [OF this] assms(2) show ?thesis by (auto simp: names_ok_def units_same_def)
next
  case (releasing_unit fuel h r)
  from release_names [OF this] assms(2) show ?thesis by (auto simp: names_ok_def units_same_def)
next
  case (waiting_stop fuel h limit r)
  have "steady.keeps (wait_stopped fuel h limit None)" by (rule steady_wait_stopped) simp
  from steady.keepsD [OF this waiting_stop] assms(2) show ?thesis by (simp add: names_ok_same)
next
  case (capturing name r)
  from steady.keepsD [OF steady_snapshot(2) this] assms(2) show ?thesis by (simp add: names_ok_same)
next
  case (stopping h r)
  from steady.keepsD [OF steady_stop(1) this] assms(2) show ?thesis by (simp add: names_ok_same)
next
  case (aborting name r)
  from steady.keepsD [OF steady_stop(2) this] assms(2) show ?thesis by (simp add: names_ok_same)
next
  case (closing r)
  from steady.keepsD [OF steady_stop(3) this] assms(2) show ?thesis by (simp add: names_ok_same)
next
  case elsewhere
  with assms(2) show ?thesis by (simp add: names_ok_same)
qed

section \<open>A new connection\<close>

definition names_same :: "'a unit_bus_scheme \<Rightarrow> 'a unit_bus_scheme \<Rightarrow> bool" where
  "names_same w w' \<longleftrightarrow> references w' = references w \<and> confirmed w' = confirmed w \<and> launched w' = launched w"

interpretation named: effect_relation names_same
  by unfold_locales (auto simp: names_same_def)

lemma named_steady: "steady.keeps m \<Longrightarrow> named.keeps m"
  unfolding steady.keeps_def named.keeps_def units_same_def names_same_def by blast

lemma named_modify:
  "(\<And>w. references (g w) = references w \<and> confirmed (g w) = confirmed w \<and> launched (g w) = launched w) \<Longrightarrow>
     named.keeps (modify g)"
  by (rule named.keeps_modify) (simp add: names_same_def)

lemmas named_rules =
  named.keeps_pure named.keeps_ebind named.keeps_if stead [THEN named_steady] named_modify

lemma fresh_names:
  fixes w :: "'a unit_bus_scheme"
  assumes "UnitBus sci w = (r, w')"
  shows "references w' = []" "confirmed w' = []" "launched w' = []"
proof -
  obtain rest :: "('a unit_bus_scheme, unit) prog"
    where rest: "UnitBus sci = ebind (modify (fresh_bus (if sci then SCI_POLICY else unit_policy))) (\<lambda>_. rest)"
      and keeps: "named.keeps rest"
    by (rule that, rule UnitBus_def) (intro named_rules; simp)
  have "rest (fresh_bus (if sci then SCI_POLICY else unit_policy) w) = (r, w')"
    using assms by (simp add: rest ebind_def)
  from named.keepsD [OF keeps this] show "references w' = []" "confirmed w' = []" "launched w' = []"
    by (simp_all add: names_same_def fresh_bus_def)
qed

lemma observed_ok: "observed w \<Longrightarrow> names_ok w"
proof (induction rule: observed.induct)
  case (opened sci w r w')
  from fresh_names [OF opened] show ?case by (simp add: names_ok_def)
next
  case (continued w w')
  then show ?case by (blast intro: names_ok_step)
qed

section \<open>A lost reply\<close>

text \<open>A unit that may exist without anybody having seen its start succeed.\<close>

definition ambiguous :: "pystr \<Rightarrow> 'a unit_bus_scheme \<Rightarrow> bool" where
  "ambiguous n w \<longleftrightarrow> n \<in> set (references w) \<and> n \<notin> set (confirmed w)"

lemma ambiguous_step:
  assumes "observer_step w w'" "ambiguous n w"
  shows "ambiguous n w'"
proof -
  have same: "units_same w w' \<Longrightarrow> ambiguous n w'"
    using assms(2) by (simp add: units_same_def ambiguous_def)
  from assms(1) show ?thesis
  proof cases
    case (launching plat name fds t sci r)
    from launch_names [OF this] assms(2) show ?thesis by (auto simp: ambiguous_def units_same_def)
  next
    case (retaining h r)
    from retain_names [OF this] assms(2) show ?thesis by (auto simp: ambiguous_def units_same_def)
  next
    case (releasing_unit fuel h r)
    from release_names [OF this] assms(2) show ?thesis by (auto simp: ambiguous_def units_same_def)
  next
    case (waiting_stop fuel h limit r)
    have "steady.keeps (wait_stopped fuel h limit None)" by (rule steady_wait_stopped) simp
    from same [OF steady.keepsD [OF this waiting_stop]] show ?thesis .
  qed (blast intro: same steady.keepsD [OF steady_snapshot(2)] steady.keepsD [OF steady_stop(1)]
      steady.keepsD [OF steady_stop(2)] steady.keepsD [OF steady_stop(3)])+
qed

lemma ambiguous_steps: "observer_step\<^sup>*\<^sup>* w w' \<Longrightarrow> ambiguous n w \<Longrightarrow> ambiguous n w'"
  by (induction rule: rtranclp_induct) (blast intro: ambiguous_step)+

lemma observed_steps: "observer_step\<^sup>*\<^sup>* w w' \<Longrightarrow> observed w \<Longrightarrow> observed w'"
  by (induction rule: rtranclp_induct) (blast intro: observed.intros)+

lemma lost_ambiguous:
  assumes "names_ok w" "launch plat name fds t sci w = (Inl e, w')"
    and "made \<in> set (news w w')" "is_start (asked made)"
  shows "ambiguous (str_of name) w'" "validate_name name = Inr ()"
proof -
  have "\<not> only harmless w w'" using assms(3,4) only_news by (force simp: harmless_def)
  with launch_names [OF assms(2)] assms(1) show "ambiguous (str_of name) w'"
    by (auto simp: ambiguous_def names_ok_def)
  show "validate_name name = Inr ()"
  proof (cases "validate_name name")
    case (Inl x)
    with assms(2,3) show ?thesis by (auto simp: launch_def ebind_def)
  qed simp
qed

section \<open>What an identity says\<close>

text \<open>A kernel file was read, and its text passed a test.\<close>

definition read_ok :: "pystr \<Rightarrow> (pystr \<Rightarrow> bool) \<Rightarrow> made_call list \<Rightarrow> bool" where
  "read_ok path Q made_calls \<longleftrightarrow>
     list_ex (\<lambda>made. asked made = ReadText path
                \<and> (case answered made of Inl e \<Rightarrow> False | Inr v \<Rightarrow> is_str v \<and> Q (str_of v))) made_calls"

definition within :: "int \<Rightarrow> pystr \<Rightarrow> bool" where
  "within limit t \<longleftrightarrow> (case int_10 t of Inl e \<Rightarrow> False | Inr n \<Rightarrow> 0 < n \<and> n \<le> limit)"

definition confined :: "pyval \<Rightarrow> pystr \<Rightarrow> made_call list \<Rightarrow> bool" where
  "confined policy cg made_calls \<longleftrightarrow>
     read_ok (in_cgroup cg ''memory.max'') (within (policy_int policy ''memory-bytes'')) made_calls
     \<and> read_ok (in_cgroup cg ''memory.swap.max'') (\<lambda>t. strip t = lit ''0'') made_calls
     \<and> read_ok (in_cgroup cg ''pids.max'') (within (policy_int policy ''max-tasks'')) made_calls
     \<and> read_ok (in_cgroup cg ''memory.oom.group'') (\<lambda>t. strip t = lit ''1'') made_calls
     \<and> read_ok (in_cgroup cg ''cpu.max'') (\<lambda>t. cpu_bound t = Inr True) made_calls"

lemma read_ok_did:
  "did u v \<Longrightarrow> did v w \<Longrightarrow> read_ok p Q (news u v) \<or> read_ok p Q (news v w) \<Longrightarrow> read_ok p Q (news u w)"
  by (auto simp: read_ok_def news_trans [of u v w])

lemma talks_did: "talking.keeps A m \<Longrightarrow> m w = (r, w') \<Longrightarrow> did w w'"
  by (blast intro: only_did talks_only talking.keepsD)

lemma ask_read:
  assumes "ask_str (ReadText p) w = (Inr t, w')" "Q t"
  shows "read_ok p Q (news w w')"
proof -
  from assms(1) obtain v where "consult (ReadText p) w = (Inr v, w')" "as_str v = Inr t"
    unfolding ask_str_def by (elim ebind_InrE) auto
  with assms(2) show ?thesis by (auto simp: read_ok_def news_consult as_str_def split: if_splits)
qed

lemma bound_file_read:
  assumes "bound_file cg n limit w = (Inr False, w')"
  shows "read_ok (in_cgroup cg n) (within limit) (news w w')"
proof -
  from assms obtain t where "ask_str (ReadText (in_cgroup cg n)) w = (Inr t, w')" "within limit t"
    unfolding bound_file_def within_def by (elim ebind_InrE) (auto simp: rbind_def split: sum.splits)
  then show ?thesis by (rule ask_read)
qed

lemma exact_file_read:
  assumes "exact_file cg n s w = (Inr False, w')"
  shows "read_ok (in_cgroup cg n) (\<lambda>t. strip t = lit s) (news w w')"
proof -
  from assms obtain t where "ask_str (ReadText (in_cgroup cg n)) w = (Inr t, w')" "strip t = lit s"
    unfolding exact_file_def by (elim ebind_InrE) auto
  then show ?thesis by (rule ask_read)
qed

lemma talking_files [kept]: "talking.keeps harmless (bound_file cg n k)" "talking.keeps harmless (exact_file cg n s)"
  unfolding bound_file_def exact_file_def by (intro kept)+

lemmas did_files = talking_files [THEN talks_did]

lemma eany_FalseE:
  assumes "eany (t # ts) w = (Inr False, w')"
  obtains w1 where "t w = (Inr False, w1)" "eany ts w1 = (Inr False, w')"
  using assms by (auto elim!: ebind_InrE split: if_splits)

lemma other_bounds_read:
  assumes "other_bounds cg p w = (Inr False, w')"
  shows "read_ok (in_cgroup cg ''memory.max'') (within (policy_int p ''memory-bytes'')) (news w w')"
    "read_ok (in_cgroup cg ''memory.swap.max'') (\<lambda>t. strip t = lit ''0'') (news w w')"
    "read_ok (in_cgroup cg ''pids.max'') (within (policy_int p ''max-tasks'')) (news w w')"
    "read_ok (in_cgroup cg ''memory.oom.group'') (\<lambda>t. strip t = lit ''1'') (news w w')"
proof -
  obtain w1 w2 w3 where
    m: "bound_file cg ''memory.max'' (policy_int p ''memory-bytes'') w = (Inr False, w1)"
    and s: "exact_file cg ''memory.swap.max'' ''0'' w1 = (Inr False, w2)"
    and t: "bound_file cg ''pids.max'' (policy_int p ''max-tasks'') w2 = (Inr False, w3)"
    and g: "exact_file cg ''memory.oom.group'' ''1'' w3 = (Inr False, w')"
    using assms unfolding other_bounds_def by (elim eany_FalseE) simp
  have d: "did w w1" "did w1 w2" "did w2 w3" "did w3 w'"
    using m s t g by (blast intro: did_files)+
  then have e: "did w w2" "did w w3" "did w1 w'" "did w2 w'" by (blast intro: did_trans)+
  show "read_ok (in_cgroup cg ''memory.max'') (within (policy_int p ''memory-bytes'')) (news w w')"
    using read_ok_did [OF d(1) e(3)] bound_file_read [OF m] by blast
  show "read_ok (in_cgroup cg ''memory.swap.max'') (\<lambda>t. strip t = lit ''0'') (news w w')"
    using read_ok_did [OF e(1) e(4)] read_ok_did [OF d(1) d(2)] exact_file_read [OF s] by blast
  show "read_ok (in_cgroup cg ''pids.max'') (within (policy_int p ''max-tasks'')) (news w w')"
    using read_ok_did [OF e(2) d(4)] read_ok_did [OF e(1) d(3)] bound_file_read [OF t] by blast
  show "read_ok (in_cgroup cg ''memory.oom.group'') (\<lambda>t. strip t = lit ''1'') (news w w')"
    using read_ok_did [OF e(2) d(4)] exact_file_read [OF g] by blast
qed

lemma validate_identity_same: "validate_identity h = Inr g \<Longrightarrow> g = h"
  by (auto simp: validate_identity_def rbind_def split: if_splits sum.splits)

lemma capture_confines:
  assumes "capture name w = (Inr h, w')"
  shows "str_of name \<in> set (launched w)" "validate_identity h = Inr h" "field h ''unit'' = name"
    "confined (bus_policy w) (str_of (field h ''cgroup'')) (news w w')"
proof -
  obtain unit service w1 boot w2 invocation cg w5 w6 cpu main actual w7 v where
    mine: "str_of name \<in> set (launched w)"
    and p: "unit_properties_of (str_of name) w = (Inr (unit, service), w1)" and b: "boot_id w1 = (Inr boot, w2)"
    and i: "validate_identity (observed_identity name boot invocation cg (manager_identity w2)) = Inr h"
    and o': "other_bounds cg (bus_policy w2) w2 = (Inr False, w5)"
    and c: "ask_str (ReadText (in_cgroup cg ''cpu.max'')) w5 = (Inr cpu, w6)" "cpu_bound cpu = Inr True"
    and a: "ask_str (ReadText (proc_file main ''cgroup'')) w6 = (Inr actual, w7)"
    and f: "snapshot h w7 = (Inr v, w')"
    using assms unfolding capture_def
    by (elim ebind_InrE) (auto split: if_splits elim!: ebind_InrE)
  show "str_of name \<in> set (launched w)" by (rule mine)
  have h: "h = observed_identity name boot invocation cg (manager_identity w2)"
    using i by (rule validate_identity_same)
  then show "validate_identity h = Inr h" "field h ''unit'' = name"
    using i by (simp_all add: observed_identity_def)
  have "units_same w w2"
    using steady.R_trans [OF steady.keepsD [OF steady_reads(2) p] steady.keepsD [OF steady_reads(3) b]] .
  then have policy: "bus_policy w2 = bus_policy w" by (simp add: units_same_def)
  have "talking.keeps harmless boot_id" unfolding boot_id_def by (intro kept)
  from talks_did [OF this b] talks_did [OF talking_properties p] have d1: "did w w2" by (blast intro: did_trans)
  have ask: "did u u'" if "ask_str (ReadText q) u = (r, u')" for q u r u'
  proof -
    have "talking.keeps harmless (ask_str (ReadText q))" by (intro kept)
    from talks_did [OF this that] show ?thesis .
  qed
  from ask [OF a] talks_did [OF talking_snapshot f] have "did w6 w'" by (rule did_trans)
  with d1 talks_did [OF talking_bounds o'] ask [OF c(1)]
  have d: "did w w2" "did w2 w5" "did w5 w6" "did w6 w'" .
  then have e: "did w5 w'" "did w w5" "did w w6" by (blast intro: did_trans)+
  have up: "read_ok q Q (news w2 w5) \<Longrightarrow> read_ok q Q (news w w')" for q Q
    using read_ok_did [OF d(1) d(2)] read_ok_did [OF e(2) e(1)] by blast
  moreover have "read_ok (in_cgroup cg ''cpu.max'') (\<lambda>t. cpu_bound t = Inr True) (news w w')"
    using read_ok_did [OF e(2) d(3)] read_ok_did [OF e(3) d(4)] ask_read [where Q = "\<lambda>t. cpu_bound t = Inr True", OF c] by blast
  ultimately show "confined (bus_policy w) (str_of (field h ''cgroup'')) (news w w')"
    using other_bounds_read [OF o'] by (simp add: confined_def policy h observed_identity_def)
qed

section \<open>A sample connection\<close>

definition sample_root :: pystr where "sample_root = lit ''/user.slice/user-7.slice/user@7.service''"

definition sample_mounts :: pystr where
  "sample_mounts = lit ''30 23 0:26 / /sys/fs/cgroup rw - cgroup2 cgroup2 rw''"

text \<open>What the manager and the kernel answer to one \<open>_check\<close>.\<close>

definition check_replies :: "(bus_event list \<times> (exn + pyval)) list" where
  "check_replies =
     [([], Inr (PBool True)), ([], Inr (PStr (lit '':1.5''))), ([], Inr (PStr sample_mounts)),
      ([], Inr (PStr (lit ''0::'' @ sample_root))), ([], Inr (PStr (lit ''1'')))]"

definition opening_replies :: "(bus_event list \<times> (exn + pyval)) list" where
  "opening_replies =
     [([], Inr (PStr (lit '':1.5''))), ([], Inr (PInt 1)), ([], Inr (PInt 7)), ([], Inr (PStr sample_root)),
      ([], Inr (PStr sample_hex)), ([], Inr PNone)] @ check_replies"

definition sample_bus :: "(bus_event list \<times> (exn + pyval)) list \<Rightarrow> unit_bus" where
  "sample_bus rs =
     \<lparr>fs = empty_root, script = [], uid = 7, pid = 7, umask = 0, entropy = (\<lambda>_. 0), drawn = 0,
      replies = rs, calls = [], bus_owner = [], unknown = False, generation = 0,
      bus_policy = PNone, references = [], confirmed = [], launched = [], manager_pid = 0, manager_root = [],
      manager_identity = PNone\<rparr>"

lemma mounts_ok: "mount_roots sample_mounts = Inr [(lit ''/'', lit ''cgroup2'')]"
  by (simp add: mount_roots_def sample_mounts_def lit_simps splitlines_def is_line_end_def mount_root_def split_mount_def
      starts_with_def words_of_def is_space_def nth_word_def cgroup_mount_def)

lemma group_line: "unified_paths (lit ''0::'' @ sample_root) = [sample_root]"
  by (simp add: unified_paths_def sample_root_def lit_simps splitlines_def is_line_end_def starts_with_def)

lemma root_ok: "starts_with user_slice sample_root" "pure_str sample_root = sample_root"
    "lit ''..'' \<notin> set (pure_parts sample_root)"
  by (simp_all add: sample_root_def lit_simps user_slice_def starts_with_def pure_str_def
      pure_parts_def path_root_def path_names_def split_def)

lemma members_ok: "dec_int 1 \<in> set (splitlines (lit ''1''))"
  by (simp add: dec_int_def dec_nat.simps lit_simps splitlines_def is_line_end_def)

lemma consult_reply: "replies w = ([], r) # rs \<Longrightarrow>
    consult c w = (r, w\<lparr>replies := rs, calls := calls w @ [\<lparr>asked = c, answered = r, files_then = fs w\<rparr>]\<rparr>)"
  by (simp add: consult_def)

lemma asked_reply:
  assumes "replies w = ([], Inr v) # rs"
  shows "is_str v \<Longrightarrow> ask_str c w = (Inr (str_of v), w\<lparr>replies := rs, calls := calls w @ [\<lparr>asked = c, answered = Inr v, files_then = fs w\<rparr>]\<rparr>)"
    "is_int v \<Longrightarrow> ask_int c w = (Inr (int_of v), w\<lparr>replies := rs, calls := calls w @ [\<lparr>asked = c, answered = Inr v, files_then = fs w\<rparr>]\<rparr>)"
    "is_bool v \<Longrightarrow> ask_bool c w = (Inr (bool_of v), w\<lparr>replies := rs, calls := calls w @ [\<lparr>asked = c, answered = Inr v, files_then = fs w\<rparr>]\<rparr>)"
  using assms by (simp_all add: ask_str_def ask_int_def ask_bool_def as_str_def as_int_def as_bool_def ebind_def consult_reply)

text \<open>A check that finds the manager it knows.\<close>

lemma check_passes:
  assumes "replies w = check_replies @ rs" "\<not> unknown w" "bus_owner w = lit '':1.5''" "manager_pid w = 1"
    "manager_root w = sample_root"
  obtains new where "check w = (Inr (), w\<lparr>replies := rs, calls := calls w @ new\<rparr>)"
proof -
  show thesis
    using assms mounts_ok group_line root_ok members_ok
    by (intro that) (simp add: check_def verify_cgroup_view_def ebind_def asked_reply check_replies_def)
qed

lemma policy_same: "py_eq unit_policy unit_policy"
  by (simp add: unit_policy_def policy_items_def)

definition opened_bus :: "(bus_event list \<times> (exn + pyval)) list \<Rightarrow> made_call list \<Rightarrow> unit_bus" where
  "opened_bus rs made_calls =
     (sample_bus rs)\<lparr>calls := made_calls, bus_policy := unit_policy, bus_owner := lit '':1.5'', manager_pid := 1,
        manager_root := sample_root,
        manager_identity := PDict [(lit ''uid'', PInt 7), (lit ''root'', PStr sample_root),
          (lit ''bus-id'', PStr sample_hex), (lit ''owner'', PStr (lit '':1.5''))]\<rparr>"

lemma bus_opens:
  obtains new where "UnitBus False (sample_bus (opening_replies @ rs)) = (Inr (), opened_bus rs new)"
proof -
  let ?w = "\<lambda>new. opened_bus (check_replies @ rs) new"
  obtain new where "UnitBus False (sample_bus (opening_replies @ rs)) = check (?w new)"
    by (simp add: UnitBus_def ebind_def asked_reply consult_reply opening_replies_def sample_bus_def fresh_bus_def
        opened_bus_def)
  moreover obtain more_new where "check (?w new) = (Inr (), (?w new)\<lparr>replies := rs, calls := new @ more_new\<rparr>)"
    by (rule check_passes [of "?w new" rs]) (simp_all add: opened_bus_def sample_bus_def)
  moreover have "(?w new)\<lparr>replies := rs, calls := new @ more_new\<rparr> = opened_bus rs (new @ more_new)"
    by (simp add: opened_bus_def sample_bus_def)
  ultimately show thesis using that by metis
qed

definition launched_here :: "(bus_event list \<times> (exn + pyval)) list \<Rightarrow> made_call list \<Rightarrow> (exn + unit) \<times> unit_bus" where
  "launched_here rs made_calls =
     launch sample_platform (PStr sample_unit) (0, 1, 2) (PInt 1000) None (opened_bus (check_replies @ rs) made_calls)"

lemma launch_runs:
  obtains new unit_props where "launched_here [([], r)] made_calls =
     (case r of
        Inl e \<Rightarrow> (Inl e, (opened_bus [] (made_calls @ new @ [\<lparr>asked = StartTransientUnit sample_unit unit_props, answered = r, files_then = empty_root\<rparr>]))
                   \<lparr>references := [sample_unit]\<rparr>)
      | Inr v \<Rightarrow> (Inr (), (opened_bus [] (made_calls @ new @ [\<lparr>asked = StartTransientUnit sample_unit unit_props, answered = r, files_then = empty_root\<rparr>]))
                   \<lparr>references := [sample_unit], confirmed := [sample_unit], launched := [sample_unit]\<rparr>))"
proof -
  let ?w = "opened_bus (check_replies @ [([], r)]) made_calls"
  obtain new where "check ?w = (Inr (), ?w\<lparr>replies := [([], r)], calls := made_calls @ new\<rparr>)"
    by (rule check_passes [of ?w "[([], r)]"]) (simp_all add: opened_bus_def sample_bus_def)
  note run = this sample_unit_ok policy_same
  note defs = launched_here_def launch_def ebind_def validate_name_def launch_command_def consult_reply
    opened_bus_def sample_bus_def add_name_def
  show thesis
  proof (cases r)
    case (Inl e)
    with run show thesis by (intro that) (simp add: defs)
  next
    case (Inr v)
    with run show thesis by (intro that) (simp add: defs)
  qed
qed

section \<open>Properties\<close>

text \<open>
  C6. The invariant of the observer's three sets of names.  In every state that a connection reaches by
  its operations, whatever they returned and whatever the bus answered, a unit that counts as launched
  here is confirmed, and a confirmed unit is referenced.
\<close>

theorem observed_names:
  assumes "observed w"
  shows "names_ok w"
  using assms by (rule observed_ok)

theorem observed_names_witness:
  "\<exists>w :: unit_bus. observed w \<and> names_ok w \<and> launched w = [sample_unit]"
proof -
  obtain new where opened: "UnitBus False (sample_bus (opening_replies @ check_replies @ [([], Inr PNone)])) =
      (Inr (), opened_bus (check_replies @ [([], Inr PNone)]) new)"
    by (rule bus_opens)
  obtain w where run: "launched_here [([], Inr PNone)] new = (Inr (), w)" "launched w = [sample_unit]"
    by (rule launch_runs [of "Inr PNone" new]) simp
  have "observed w"
    using observed.opened [OF opened] run(1) unfolding launched_here_def
    by (blast intro: observed.continued observer_step.launching)
  from this observed_names [OF this] run(2) show ?thesis by blast
qed

text \<open>
  C4. A lost launch reply never authorises execution.  When \<open>launch\<close> raised after it had asked the manager
  to start the unit, then for ever after, whatever else the observer does, \<open>capture\<close> and \<open>abort_launch\<close>
  refuse the name, it cannot be launched again, and the connection cannot be closed as if nothing were
  left behind.
\<close>

theorem lost_launch_never_authorizes:
  assumes "observed w" and "launch plat name fds t sci w = (Inl e, w')"
    and "list_ex (\<lambda>made. is_start (asked made)) (news w w')" and "observer_step\<^sup>*\<^sup>* w' u"
  shows "capture name u = (Inl (ValueError ''A lost launch reply never authorizes execution''), u)
    \<and> abort_launch name u = (Inl (ValueError ''Cannot abort an unknown or reattached launch''), u)
    \<and> launch plat' name fds' t' sci' u = (Inl (ValueError ''Execution-unit names must never be reused''), u)
    \<and> close_bus u = (Inl (ValueError ''Retained units need sealed shutdown observations before close''), u)"
proof -
  from assms(3) obtain made where made: "made \<in> set (news w w')" "is_start (asked made)"
    by (auto simp: list_ex_iff)
  note lost = lost_ambiguous [OF observed_ok [OF assms(1)] assms(2) made]
  from ambiguous_steps [OF assms(4) lost(1)] have there: "ambiguous (str_of name) u" .
  have "observer_step w w'" using assms(2) by (rule observer_step.launching)
  then have "names_ok u"
    using observed_steps [OF assms(4)] assms(1) by (blast intro: observed_ok observed.continued)
  with there have "str_of name \<notin> set (launched u)" by (auto simp: ambiguous_def names_ok_def)
  with there lost(2) show ?thesis
    by (auto simp: capture_def abort_launch_def launch_def close_bus_def ebind_def ambiguous_def Let_def)
qed

theorem lost_launch_never_authorizes_witness:
  "\<exists>u :: unit_bus. capture (PStr sample_unit) u =
     (Inl (ValueError ''A lost launch reply never authorizes execution''), u) \<and> references u = [sample_unit]"
proof -
  obtain new where opened: "UnitBus False (sample_bus (opening_replies @ check_replies @ [([], Inl DBusException)])) =
      (Inr (), opened_bus (check_replies @ [([], Inl DBusException)]) new)"
    by (rule bus_opens)
  obtain w more_new props where run: "launched_here [([], Inl DBusException)] new = (Inl DBusException, w)"
      "calls w = new @ more_new @ [\<lparr>asked = StartTransientUnit sample_unit props, answered = Inl DBusException,
         files_then = empty_root\<rparr>]" "references w = [sample_unit]"
    by (rule launch_runs [of "Inl DBusException" new]) (simp add: opened_bus_def)
  have "list_ex (\<lambda>made. is_start (asked made)) (news (opened_bus (check_replies @ [([], Inl DBusException)]) new) w)"
    using run(2) by (simp add: news_def opened_bus_def)
  from lost_launch_never_authorizes [OF observed.opened [OF opened] run(1) [unfolded launched_here_def] this
      rtranclp.rtrancl_refl] run(3)
  show ?thesis by blast
qed

section \<open>Refinement\<close>

text \<open>
  The abstract observer sees one unit: absent, perhaps started without anybody having seen it, retained
  by a later connection, or launched here.  \<open>may_become\<close> is its whole transition relation.
\<close>

datatype unit_phase = Absent | Ambiguous | Retained | Launched






section \<open>A sample capture\<close>

definition sample_invocation :: pyval where
  "sample_invocation =
     PList (map PInt [1, 35, 69, 103, 137, 171, 205, 239, 1, 35, 69, 103, 137, 171, 205, 239])"

definition running_unit :: pyval where
  "running_unit =
     PDict [(lit ''Id'', PStr sample_unit), (lit ''InvocationID'', sample_invocation),
            (lit ''ActiveState'', PStr (lit ''active'')), (lit ''Job'', PList [PInt 0])]"

definition running_service :: pyval where
  "running_service =
     PDict [(lit ''ControlGroup'', PStr sample_cgroup), (lit ''MainPID'', PInt 42), (lit ''Type'', PStr (lit ''exec'')),
            (lit ''ExitType'', PStr (lit ''cgroup'')), (lit ''Restart'', PStr (lit ''no'')),
            (lit ''KillMode'', PStr (lit ''control-group'')), (lit ''SendSIGKILL'', PBool True),
            (lit ''OOMPolicy'', PStr (lit ''kill'')), (lit ''RuntimeMaxUSec'', PInt 31000000),
            (lit ''TimeoutStopUSec'', PInt 2000000)]"

definition property_replies :: "(bus_event list \<times> (exn + pyval)) list" where
  "property_replies =
     check_replies @ [([], Inr PNone), ([], Inr running_unit), ([], Inr running_service), ([], Inr running_unit)]
     @ check_replies"

text \<open>The kernel's files, in the order \<open>capture\<close> reads them.\<close>

definition bound_replies :: "(bus_event list \<times> (exn + pyval)) list" where
  "bound_replies =
     map (\<lambda>t. ([], Inr (PStr (lit t)))) [''268435456'', ''0'', ''64'', ''1'', ''100000 100000'']
     @ [([], Inr (PStr (lit ''0::'' @ sample_cgroup)))]"

definition capture_replies :: "(bus_event list \<times> (exn + pyval)) list" where
  "capture_replies =
     property_replies @ [([], Inr (PStr sample_uuid))] @ bound_replies @ [([], Inr (PStr sample_uuid))] @ property_replies"

text \<open>A connection that the manager knows, that has launched the unit, and the replies it will get.\<close>

definition ready :: "(bus_event list \<times> (exn + pyval)) list \<Rightarrow> unit_bus \<Rightarrow> bool" where
  "ready rs w \<longleftrightarrow>
     replies w = rs \<and> \<not> unknown w \<and> bus_owner w = lit '':1.5'' \<and> manager_pid w = 1 \<and> manager_root w = sample_root
     \<and> sample_unit \<in> set (confirmed w) \<and> sample_unit \<in> set (launched w) \<and> manager_identity w = sample_manager
     \<and> bus_policy w = unit_policy"

lemma ready_check: "ready (check_replies @ rs) w \<Longrightarrow> \<exists>w'. check w = (Inr (), w') \<and> ready rs w'"
  by (rule check_passes [of w rs]) (auto simp: ready_def)

lemma ready_consult: "ready (([], r) # rs) w \<Longrightarrow> \<exists>w'. consult c w = (r, w') \<and> ready rs w'"
  by (simp add: consult_reply ready_def)

lemma ready_ask: "ready (([], Inr (PStr t)) # rs) w \<Longrightarrow> \<exists>w'. ask_str c w = (Inr t, w') \<and> ready rs w'"
  by (simp add: asked_reply ready_def)

lemma unchanged: "changed_between sample_unit running_unit running_unit = Inr False"
  by (simp add: changed_between_def property_str_def property_bytes_def running_unit_def as_str_def
      sample_invocation_def byte_value_def)

lemma ready_properties:
  assumes "ready (property_replies @ rs) w"
  shows "\<exists>w'. unit_properties_of sample_unit w = (Inr (running_unit, running_service), w') \<and> ready rs w'"
proof -
  have "ready (check_replies @ ([], Inr PNone) # ([], Inr running_unit) # ([], Inr running_service) #
      ([], Inr running_unit) # check_replies @ rs) w"
    using assms by (simp add: property_replies_def)
  from ready_check [OF this] obtain w1 where 1: "check w = (Inr (), w1)" "ready (([], Inr PNone) # ([], Inr running_unit) #
      ([], Inr running_service) # ([], Inr running_unit) # check_replies @ rs) w1"
    by blast
  obtain w2 where 2: "consult (GetUnit sample_unit) w1 = (Inr PNone, w2)" "ready (([], Inr running_unit) #
      ([], Inr running_service) # ([], Inr running_unit) # check_replies @ rs) w2"
    using ready_consult [OF 1(2)] by blast
  obtain w3 where 3: "consult (GetAll PNone ''Unit'') w2 = (Inr running_unit, w3)"
      "ready (([], Inr running_service) # ([], Inr running_unit) # check_replies @ rs) w3"
    using ready_consult [OF 2(2)] by blast
  obtain w4 where 4: "consult (GetAll PNone ''Service'') w3 = (Inr running_service, w4)"
      "ready (([], Inr running_unit) # check_replies @ rs) w4"
    using ready_consult [OF 3(2)] by blast
  obtain w5 where 5: "consult (GetAll PNone ''Unit'') w4 = (Inr running_unit, w5)" "ready (check_replies @ rs) w5"
    using ready_consult [OF 4(2)] by blast
  obtain w6 where 6: "check w5 = (Inr (), w6)" "ready rs w6" using ready_check [OF 5(2)] by blast
  have "sample_unit \<in> set (confirmed w1)" using 1(2) by (simp add: ready_def)
  with 1(1) 2(1) 3(1) 4(1) 5(1) 6 show ?thesis by (simp add: unit_properties_of_def ebind_def unchanged)
qed

lemma strip_uuid: "strip sample_uuid = sample_uuid"
  by (simp add: sample_uuid_def lit_simps strip_def is_space_def)

definition invocation_bytes :: bytes where
  "invocation_bytes = map byte [1, 35, 69, 103, 137, 171, 205, 239, 1, 35, 69, 103, 137, 171, 205, 239]"

lemma hex_sample: "hex invocation_bytes = sample_hex"
  by (simp add: invocation_bytes_def hex_def hex_byte_def hex_digit_def byte_def sample_hex_def lit_simps)

lemma sample_observed:
  "observed_identity (PStr sample_unit) sample_uuid invocation_bytes sample_cgroup sample_manager = sample_identity"
  unfolding observed_identity_def sample_identity_def hex_sample ..

lemma running_facts:
  "property_bytes running_unit ''InvocationID'' = Inr invocation_bytes"
  "property_str running_service ''ControlGroup'' = Inr sample_cgroup" "property_int running_service ''MainPID'' = Inr 42"
  "not_running running_unit running_service = Inr False" "other_shutdown running_service = Inr False"
  by (simp_all add: invocation_bytes_def property_str_def property_bytes_def property_int_def running_unit_def running_service_def as_str_def
      as_int_def as_bool_def sample_invocation_def byte_value_def not_running_def other_shutdown_def test_str_def
      test_int_def job_of_def)

lemma ready_boot: "ready (([], Inr (PStr sample_uuid)) # rs) w \<Longrightarrow> \<exists>w'. boot_id w = (Inr sample_uuid, w') \<and> ready rs w'"
proof -
  assume "ready (([], Inr (PStr sample_uuid)) # rs) w"
  from ready_ask [OF this, of "ReadText boot_id_path"] show ?thesis by (auto simp: boot_id_def ebind_def strip_uuid)
qed

lemma bounds_pass:
  "int_10 (lit ''268435456'') = Inr 268435456" "strip (lit ''0'') = lit ''0''" "int_10 (lit ''64'') = Inr 64"
  "strip (lit ''1'') = lit ''1''" "cpu_bound (lit ''100000 100000'') = Inr True"
  "policy_int unit_policy ''memory-bytes'' = 268435456" "policy_int unit_policy ''max-tasks'' = 64"
  by (simp_all add: int_10_def strip_def is_space_def lit_simps is_digit_def cpu_bound_def words_of_def policy_int_def
      unit_policy_def policy_items_def mebibyte_def)

lemma ready_bounds:
  assumes "ready (map (\<lambda>t. ([], Inr (PStr (lit t)))) [''268435456'', ''0'', ''64'', ''1''] @ rs) w"
  shows "\<exists>w'. other_bounds sample_cgroup unit_policy w = (Inr False, w') \<and> ready rs w'"
proof -
  let ?ask = "\<lambda>n. ask_str (ReadText (in_cgroup sample_cgroup n))"
  obtain w1 where 1: "?ask ''memory.max'' w = (Inr (lit ''268435456''), w1)"
      "ready (map (\<lambda>t. ([], Inr (PStr (lit t)))) [''0'', ''64'', ''1''] @ rs) w1"
    using ready_ask assms by fastforce
  obtain w2 where 2: "?ask ''memory.swap.max'' w1 = (Inr (lit ''0''), w2)"
      "ready (map (\<lambda>t. ([], Inr (PStr (lit t)))) [''64'', ''1''] @ rs) w2"
    using ready_ask 1(2) by fastforce
  obtain w3 where 3: "?ask ''pids.max'' w2 = (Inr (lit ''64''), w3)"
      "ready (map (\<lambda>t. ([], Inr (PStr (lit t)))) [''1''] @ rs) w3"
    using ready_ask 2(2) by fastforce
  obtain w4 where 4: "?ask ''memory.oom.group'' w3 = (Inr (lit ''1''), w4)" "ready rs w4"
    using ready_ask 3(2) by fastforce
  from 1(1) 2(1) 3(1) 4 bounds_pass show ?thesis
    by (simp add: other_bounds_def bound_file_def exact_file_def ebind_def)
qed

lemma in_own_group: "lit ''0::'' @ sample_cgroup \<in> set (splitlines (lit ''0::'' @ sample_cgroup))"
  by (simp add: sample_cgroup_def sample_unit_def lit_simps splitlines_def is_line_end_def)

lemma ready_snapshot:
  assumes "ready (([], Inr (PStr sample_uuid)) # property_replies @ rs) w"
  shows "\<exists>w' x. snapshot sample_identity w = (Inr x, w') \<and> ready rs w'"
proof -
  obtain w1 where 1: "boot_id w = (Inr sample_uuid, w1)" "ready (property_replies @ rs) w1"
    using ready_boot [OF assms] by blast
  obtain w2 where 2: "unit_properties_of sample_unit w1 = (Inr (running_unit, running_service), w2)" "ready rs w2"
    using ready_properties [OF 1(2)] by blast
  have f: "field sample_identity ''boot-id'' = PStr sample_uuid" "field sample_identity ''manager'' = sample_manager"
    "field sample_identity ''unit'' = PStr sample_unit" "field sample_identity ''cgroup'' = PStr sample_cgroup"
    "field sample_identity ''invocation-id'' = PStr sample_hex"
    by (simp_all add: sample_identity_def)
  have "py_eq sample_manager sample_manager" by (simp add: sample_manager_def)
  moreover have "manager_identity w1 = sample_manager" using 1(2) by (simp add: ready_def)
  ultimately show ?thesis using 1(1) 2 sample_identity_ok f running_facts(1,2)
    by (simp add: snapshot_def ebind_def hex_sample)
qed

lemma capture_runs:
  assumes "ready capture_replies w"
  shows "\<exists>w'. capture (PStr sample_unit) w = (Inr sample_identity, w')"
proof -
  obtain w1 where 1: "unit_properties_of sample_unit w = (Inr (running_unit, running_service), w1)"
      "ready (([], Inr (PStr sample_uuid)) # bound_replies @ ([], Inr (PStr sample_uuid)) # property_replies) w1"
    using ready_properties assms by (fastforce simp: capture_replies_def)
  obtain w2 where 2: "boot_id w1 = (Inr sample_uuid, w2)"
      "ready (bound_replies @ ([], Inr (PStr sample_uuid)) # property_replies) w2"
    using ready_boot [OF 1(2)] by blast
  obtain w3 where 3: "other_bounds sample_cgroup unit_policy w2 = (Inr False, w3)"
      "ready (([], Inr (PStr (lit ''100000 100000''))) # ([], Inr (PStr (lit ''0::'' @ sample_cgroup))) #
        ([], Inr (PStr sample_uuid)) # property_replies) w3"
    using ready_bounds 2(2) by (fastforce simp: bound_replies_def)
  obtain w4 where 4: "ask_str (ReadText (in_cgroup sample_cgroup ''cpu.max'')) w3 = (Inr (lit ''100000 100000''), w4)"
      "ready (([], Inr (PStr (lit ''0::'' @ sample_cgroup))) # ([], Inr (PStr sample_uuid)) # property_replies) w4"
    using ready_ask [OF 3(2)] by blast
  obtain w5 where 5: "ask_str (ReadText (proc_file 42 ''cgroup'')) w4 = (Inr (lit ''0::'' @ sample_cgroup), w5)"
      "ready (([], Inr (PStr sample_uuid)) # property_replies @ []) w5"
    using ready_ask [OF 4(2)] by auto
  obtain w6 x where 6: "snapshot sample_identity w5 = (Inr x, w6)" using ready_snapshot [OF 5(2)] by blast
  have "sample_unit \<in> set (launched w)" "manager_identity w2 = sample_manager" "bus_policy w2 = unit_policy"
    using assms 2(2) by (simp_all add: ready_def)
  with 1(1) 2(1) 3(1) 4(1) 5(1) 6 sample_unit_ok sample_identity_ok show ?thesis
    by (simp add: capture_def ebind_def validate_name_def running_facts sample_observed bounds_pass in_own_group)
qed

text \<open>
  C5. An identity that \<open>capture\<close> returns is of a confined unit.  The unit was launched by this very
  connection with its reply seen, the identity is valid and carries the unit's name, and in the course of
  the call the kernel's own files showed, for the cgroup that the identity names, a memory and a task
  limit within the policy of the connection, no swap, killing as a group, and at most one CPU.
\<close>

theorem capture_is_confined:
  assumes "capture name w = (Inr h, w')"
  shows "str_of name \<in> set (launched w) \<and> validate_identity h = Inr h \<and> field h ''unit'' = name
    \<and> confined (bus_policy w) (str_of (field h ''cgroup'')) (news w w')"
  using capture_confines [OF assms] by blast

theorem capture_is_confined_witness:
  "\<exists>(w :: unit_bus) w'. capture (PStr sample_unit) w = (Inr sample_identity, w')
     \<and> confined unit_policy (str_of (field sample_identity ''cgroup'')) (news w w')"
proof -
  define w where "w = (opened_bus capture_replies [])\<lparr>confirmed := [sample_unit], launched := [sample_unit]\<rparr>"
  have "ready capture_replies w"
    by (simp add: w_def opened_bus_def sample_bus_def ready_def sample_manager_def sample_root_def)
  then obtain w' where run: "capture (PStr sample_unit) w = (Inr sample_identity, w')" using capture_runs by blast
  have "bus_policy w = unit_policy" by (simp add: w_def opened_bus_def)
  with capture_is_confined [OF run]
  have "confined unit_policy (str_of (field sample_identity ''cgroup'')) (news w w')" by simp
  with run show ?thesis by blast
qed

end
