(* ===== verification/Guard_Properties.thy ===== *)
theory Guard_Properties
  imports Browser_Guard Worker_Samples
begin

text \<open>
  The two processes that own a tree of tasks: the guard of a task namespace, which executes only after
  \<open>GO\<close> and reports only when everything is reaped, and the supervisor of a test browser, whose receipt
  means that no process is left.
\<close>

section \<open>The table after reaping\<close>

lemma reap_tasks_ended:
  "\<exists>n s1. reap_tasks child s = (Inr n, s1) \<and> table s1 = []
     \<and> length (table (kill_namespace_tasks s))
         = n + (if list_ex (\<lambda>x. proc_id x = child) (table (kill_namespace_tasks s)) then 1 else 0)"
proof -
  let ?k = "kill_namespace_tasks s"
  obtain r s1 where w: "wait_child child ?k = (r, s1)" by (cases "wait_child child ?k")
  note e = wait_child_ended [OF ended_kill, of child s, unfolded w]
  from e obtain u where "r = Inr u" by (cases r) auto
  with w have "reap_tasks child s = reap_loop 0 s1" by (simp add: reap_tasks_def)
  with reap_loop_ended [of s1 0] e show ?thesis by (cases "reap_loop 0 s1") auto
qed

lemma reap_ended:
  assumes "reap child w = (r, w')"
  shows "table (task_state w') = []" "\<exists>n. r = Inr n"
proof -
  obtain n s1 where "reap_tasks child (task_state w) = (Inr n, s1)" "table s1 = []"
    using reap_tasks_ended [of child "task_state w"] by blast
  with assms show "table (task_state w') = []" "\<exists>n. r = Inr n" by (auto simp: reap_def)
qed

section \<open>A task that was started\<close>

definition exit_code_ok :: "exn + int \<times> nat \<Rightarrow> bool" where
  "exit_code_ok r = (case r of Inl e \<Rightarrow> True | Inr (code, n) \<Rightarrow> 0 \<le> code \<and> code \<le> 255)"

lemma run_task_reaps:
  assumes "task_runner.start kern command w = (Inr child, w1)" and "run_task kern command limit w = (r, w')"
  shows "table (task_state w') = []" "exit_code_ok r"
proof -
  let ?m = "try_except (ebind (await kern child limit) (\<lambda>code. ret (exit_status code)))
      (\<lambda>e. if e = TimeoutExpired then ret 124 else raise e)"
  obtain outcome w2 where a: "?m w1 = (outcome, w2)" by (cases "?m w1")
  obtain r3 w3 where p: "reap child w2 = (r3, w3)" by (cases "reap child w2")
  obtain n where n: "r3 = Inr n" using reap_ended(2) [OF p] by blast
  have run: "r = rbind outcome (\<lambda>code. Inr (code, n))" "w' = w3"
    using assms a p n by (simp_all add: run_task_def ebind_def attempt_def)
  from run(2) reap_ended(1) [OF p] show "table (task_state w') = []" by simp
  have "outcome = Inr code \<Longrightarrow> 0 \<le> code \<and> code \<le> 255" for code
    using a by (auto simp: try_except_def ebind_def exit_status_def split: prod.splits sum.splits if_splits)
  with run(1) show "exit_code_ok r" by (cases outcome) (auto simp: exit_code_ok_def)
qed

section \<open>Before the GO\<close>

definition idle :: "guard \<Rightarrow> guard \<Rightarrow> bool" where
  "idle w w' \<longleftrightarrow> task_state w' = task_state w"

interpretation idling: effect_relation idle
  by unfold_locales (auto simp: idle_def)

definition inputs_same :: "guard \<Rightarrow> guard \<Rightarrow> bool" where
  "inputs_same w w' \<longleftrightarrow> task_state w' = task_state w \<and> input_pipe w' = input_pipe w"

interpretation piped: effect_relation inputs_same
  by unfold_locales (auto simp: inputs_same_def)

lemma piped_files: "files.keeps m \<Longrightarrow> piped.keeps m"
  unfolding files.keeps_def piped.keeps_def files_only_def inputs_same_def by (metis guard.select_convs guard.surjective posix.select_convs(8))

lemma idle_piped: "piped.keeps m \<Longrightarrow> idling.keeps m"
  unfolding piped.keeps_def idling.keeps_def inputs_same_def idle_def by blast

lemma piped_materialize: "piped.keeps (materialize frozen config d)"
proof (rule piped_files)
  have "files.keeps (write_input root pf u)" for root pf u
    unfolding write_input_def enter_directory_def by (intro kept)
  then show "files.keeps (materialize frozen config d)" unfolding materialize_def by (intro kept)
qed

lemma piped_mkdirs: "piped.keeps (efor (\<lambda>folder _. sys_mkdir d (lit folder) 448) folders ())"
  by (rule piped_files) (intro kept)

lemma piped_emit: "piped.keeps (emit v)"
proof -
  have "piped.keeps (modify (\<lambda>w. w\<lparr>output_pipe := output_pipe w @ [b]\<rparr>))" for b
    by (rule piped.keeps_modify) (simp add: inputs_same_def)
  then show ?thesis unfolding emit_def Let_def by (intro piped.keeps_if piped.keeps_pure)
qed

lemma idling_receive: "idling.keeps receive_request" "idling.keeps (receive_line n)"
  by (auto simp: idling.keeps_def idle_def receive_request_def receive_line_def split: prod.splits)

text \<open>\<open>inside\<close> up to the line that would be \<open>GO\<close>.\<close>

definition up_to_go :: "(guard, pyval \<times> pystr \<times> bytes) prog" where
  "up_to_go =
     ebind (gets kernel) (\<lambda>k.
     ebind (lift (protect_guard k)) (\<lambda>_.
     ebind (modify (\<lambda>w. w\<lparr>umask := 63\<rparr>)) (\<lambda>_.
     ebind receive_request (\<lambda>req.
     ebind (gets work) (\<lambda>parent_dir.
     ebind (materialize (field req ''frozen'') (field req ''config'') parent_dir) (\<lambda>root.
     ebind (gets runtime) (\<lambda>d.
     ebind (efor (\<lambda>folder _. sys_mkdir d (lit folder) 448) [''home'', ''tmp'', ''cache''] ()) (\<lambda>_.
     ebind (emit (ready_message (field req ''frozen''))) (\<lambda>_.
     ebind (receive_line 4) (\<lambda>line. ret (req, root, line)))))))))))"

lemma inside_split:
  "inside kern = ebind up_to_go (\<lambda>(req, root, line). if line \<noteq> go_line then ret () else execute kern req root)"
  by (simp only: inside_def up_to_go_def ebind_assoc ebind_ret prod.case)

lemma idling_up_to_go: "idling.keeps up_to_go"
proof -
  have "idling.keeps (modify (\<lambda>w. w\<lparr>umask := 63\<rparr>))"
    by (rule idling.keeps_modify) (simp add: idle_def)
  then show ?thesis unfolding up_to_go_def
    by (intro idling.keeps_ebind idling.keeps_pure idling_receive idle_piped [OF piped_materialize]
        idle_piped [OF piped_mkdirs] idle_piped [OF piped_emit])
qed

text \<open>The bytes after the line of the request, and the line that answers \<open>ready\<close>.\<close>

definition after_request :: "bytes \<Rightarrow> bytes" where
  "after_request stream = snd (readline (MAX_REQUEST_BYTES + 1) stream)"

definition answer_line :: "bytes \<Rightarrow> bytes" where
  "answer_line stream = fst (readline 4 (after_request stream))"

lemma up_to_go_line:
  assumes "up_to_go w = (Inr (req, root, line), w')"
  shows "line = answer_line (input_pipe w)"
proof -
  from assms obtain w1 w2 w3 w4 parent_dir d where
    1: "receive_request (w\<lparr>umask := 63\<rparr>) = (Inr req, w1)"
    and 2: "materialize (field req ''frozen'') (field req ''config'') parent_dir w1 = (Inr root, w2)"
    and 3: "efor (\<lambda>folder _. sys_mkdir d (lit folder) 448) [''home'', ''tmp'', ''cache''] () w2 = (Inr (), w3)"
    and 4: "emit (ready_message (field req ''frozen'')) w3 = (Inr (), w4)"
    and 5: "receive_line 4 w4 = (Inr line, w')"
    unfolding up_to_go_def by (elim ebind_InrE) auto
  have "input_pipe w4 = input_pipe w1"
    using piped.keepsD [OF piped_materialize 2] piped.keepsD [OF piped_mkdirs 3] piped.keepsD [OF piped_emit 4]
    by (simp add: inputs_same_def)
  moreover have "input_pipe w1 = after_request (input_pipe w)"
    using 1 by (auto simp: receive_request_def read_request_def after_request_def split: prod.splits)
  ultimately show ?thesis using 5 by (auto simp: receive_line_def answer_line_def split: prod.splits)
qed

section \<open>The browser\<close>




section \<open>Properties\<close>


text \<open>
  C24. A task that was started is reaped on every path.  When \<open>Popen\<close> returned a child, then whether the
  task ends by itself, runs into its time limit or is cancelled by a signal, no process of the namespace is
  left when \<open>run_task\<close> is over, and an exit code that is reported is between 0 and 255.
\<close>

theorem started_task_is_reaped:
  assumes "task_runner.start kern command w = (Inr child, w1)" and "run_task kern command limit w = (r, w')"
  shows "table (task_state w') = [] \<and> exit_code_ok r"
  using run_task_reaps [OF assms] by blast

text \<open>A kernel that forks a descendant which nobody waits for, and whose task is cancelled.\<close>

definition sample_kernel :: task_runner where
  "sample_kernel =
     \<lparr>task_runner.start = (\<lambda>_ w. (Inr 2, w\<lparr>task_state := \<lparr>table = [\<lparr>proc_id = 2, parent = 1, alive = True\<rparr>],
                                              schedule = [([Fork 2 3, Exit 2], True), ([Fork 3 4], False)]\<rparr>\<rparr>)),
      await = (\<lambda>_ _. raise (ValueError ''Cancelled''))\<rparr>"

definition sample_guard :: "bytes \<Rightarrow> guard" where
  "sample_guard stream =
     \<lparr>fs = empty_root, script = [], uid = 0, pid = 1, umask = 0, entropy = (\<lambda>_. 0), drawn = 0,
      input_pipe = stream, output_pipe = [], task_state = \<lparr>table = [], schedule = []\<rparr>, work = 0, runtime = 0,
      kernel = \<lparr>guard_pid = 1, set_dumpable = 0, get_dumpable = 0, status_text = [], volume_bytes = (\<lambda>_. 0),
                surface = (\<lambda>_. False)\<rparr>\<rparr>"

theorem started_task_is_reaped_witness:
  "table (task_state (snd (run_task sample_kernel [] 1000 (sample_guard [])))) = []"
proof -
  obtain w1 where "task_runner.start sample_kernel [] (sample_guard []) = (Inr 2, w1)"
    by (simp add: sample_kernel_def)
  moreover obtain r w' where "run_task sample_kernel [] 1000 (sample_guard []) = (r, w')" by fastforce
  ultimately show ?thesis using started_task_is_reaped [of sample_kernel "[]" "sample_guard []" 2 w1 1000 r w'] by simp
qed

text \<open>
  C23. Nothing executes before \<open>GO\<close>.  When the line after the request is not \<open>GO\<close> (an end of file or
  anything else), the guard behaves the same for every task and every kernel, and starts no process.
\<close>

theorem no_task_before_go:
  assumes "answer_line (input_pipe w) \<noteq> go_line"
  shows "inside kern w = inside kern' w \<and> task_state (snd (inside kern w)) = task_state w"
proof -
  obtain r w' where run: "up_to_go w = (r, w')" by (cases "up_to_go w")
  have "idle w w'" using idling_up_to_go run by (rule idling.keepsD)
  then have "task_state w' = task_state w" by (simp add: idle_def)
  with assms up_to_go_line run show ?thesis
    by (cases r) (auto simp: inside_split ebind_def split: prod.splits)
qed

lemma readline_end: "readline n [] = ([], [])"
  by (cases n) simp_all

theorem no_task_before_go_witness:
  "inside sample_kernel (sample_guard []) =
     inside (sample_kernel\<lparr>task_runner.start := (\<lambda>_. raise (OSError ''ENOENT''))\<rparr>) (sample_guard [])"
proof -
  have "answer_line (input_pipe (sample_guard [])) \<noteq> go_line"
    by (simp add: answer_line_def after_request_def sample_guard_def readline_end go_line_def)
  then show ?thesis by (rule no_task_before_go [THEN conjunct1])
qed



end
