(* ===== verification/Trust_Properties.thy ===== *)
theory Trust_Properties
  imports Worker_Driver Worker_Effects
begin

text \<open>
  Where credentials can go: every HTTP request of the client, of the operator's program, of the snapshot
  download and of the worker's helper names, as \<open>urlsplit\<close> reads it, an HTTPS host or the loopback host,
  without user information, and one of the four routes of the server.  The statement is that
  no run depends on what the rest of the network answers: nothing is ever asked of it.
\<close>

section \<open>Destinations as a URL parser reads them\<close>

definition trusted_site :: "url \<Rightarrow> bool" where
  "trusted_site u \<longleftrightarrow>
     hostname u \<noteq> [] \<and> userinfo u = ([], [])
     \<and> (scheme u = lit ''https'' \<or> (scheme u = lit ''http'' \<and> loopback (hostname u)))"

definition routes :: "string list" where
  "routes = [''/mcp'', ''/auth/login'', ''/auth/mcp-token'', ''/auth/refresh'']"

definition trusted_target :: "pystr \<Rightarrow> bool" where
  "trusted_target t \<longleftrightarrow>
     (case urlsplit t of
        Inl e \<Rightarrow> False
      | Inr u \<Rightarrow> trusted_site u \<and> list_ex (\<lambda>r. url_path u = lit r) routes \<and> query u = [] \<and> fragment u = [])"

text \<open>A network in which every other destination is somebody else's.\<close>

definition diverted :: "'w transport \<Rightarrow> 'w transport \<Rightarrow> 'w transport" where
  "diverted net other req = (if trusted_target (target req) then net req else other req)"

lemma open_diverted: "trusted_target (target req) \<Longrightarrow> open_url (diverted net other) req = open_url net req"
  by (simp add: open_url_def diverted_def)

section \<open>The origin of a URL is read back\<close>

text \<open>What \<open>urlsplit\<close> leaves in a scheme and a network location.\<close>

definition plain_char :: "nat \<Rightarrow> bool" where
  "plain_char c \<longleftrightarrow> c \<noteq> 9 \<and> c \<noteq> 13 \<and> c \<noteq> 10"

definition split_url :: "url \<Rightarrow> bool" where
  "split_url u \<longleftrightarrow>
     (scheme u \<noteq> [] \<longrightarrow> is_ascii_alpha (hd (scheme u)))
     \<and> list_all is_scheme_char (scheme u) \<and> lower (scheme u) = scheme u
     \<and> list_all (\<lambda>c. plain_char c \<and> \<not> is_netloc_delim c) (netloc u) \<and> netloc_ok (netloc u)"

lemma lower_scheme:
  assumes "list_all is_scheme_char a"
  shows "list_all is_scheme_char (lower a)" "lower (lower a) = lower a"
    "a \<noteq> [] \<Longrightarrow> is_ascii_alpha (hd a) \<Longrightarrow> lower a \<noteq> [] \<and> is_ascii_alpha (hd (lower a))"
proof -
  have one: "\<exists>d. lower_char c = [d] \<and> is_scheme_char d \<and> lower_char d = [d] \<and> (is_ascii_alpha c \<longrightarrow> is_ascii_alpha d)"
    if "is_scheme_char c" for c
    using that by (auto simp: lower_char_def is_scheme_char_def is_ascii_alpha_def is_digit_def)
  show "list_all is_scheme_char (lower a)" "lower (lower a) = lower a"
    using assms by (induction a) (use one in \<open>fastforce simp: lower_def\<close>)+
  show "a \<noteq> [] \<Longrightarrow> is_ascii_alpha (hd a) \<Longrightarrow> lower a \<noteq> [] \<and> is_ascii_alpha (hd (lower a))"
    using assms one by (cases a) (fastforce simp: lower_def)+
qed

lemma urlsplit_split:
  assumes "urlsplit s = Inr u"
  shows "split_url u"
proof -
  obtain sch u1 where 1: "split_scheme (clean_url s) = (sch, u1)" by (cases "split_scheme (clean_url s)")
  obtain loc u2 where 2: "split_netloc u1 = (loc, u2)" by (cases "split_netloc u1")
  have u: "scheme u = sch" "netloc u = loc" "netloc_ok loc"
    using assms 1 2 by (auto simp: urlsplit_def split: prod.splits if_splits)
  obtain a f r where p: "partition_at 58 (clean_url s) = (a, f, r)" by (cases "partition_at 58 (clean_url s)") auto
  have cut: "set r \<subseteq> set (clean_url s)"
  proof (cases f)
    case True
    with partition_at_found [OF p] have "clean_url s = a @ 58 # r" by simp
    then show ?thesis by auto
  qed (use p in \<open>auto simp: partition_at_def Let_def split: if_splits\<close>)
  have clean: "list_all plain_char (clean_url s)" by (auto simp: clean_url_def plain_char_def list_all_iff)
  have sch: "sch = [] \<or> (\<exists>a. a \<noteq> [] \<and> is_ascii_alpha (hd a) \<and> list_all is_scheme_char a \<and> sch = lower a)"
    and rest: "set u1 \<subseteq> set (clean_url s)"
    using 1 p cut by (auto simp: split_scheme_def split: if_splits)
  have "set loc \<subseteq> {c \<in> set u1. \<not> is_netloc_delim c}"
    using 2 by (auto simp: split_netloc_def split: if_splits dest!: set_takeWhileD in_set_dropD)
  with rest clean have "list_all (\<lambda>c. plain_char c \<and> \<not> is_netloc_delim c) loc" by (auto simp: list_all_iff)
  moreover from sch lower_scheme have "(sch \<noteq> [] \<longrightarrow> is_ascii_alpha (hd sch)) \<and> list_all is_scheme_char sch \<and> lower sch = sch"
    by (auto simp: lower_def)
  ultimately show ?thesis using u by (simp add: split_url_def)
qed

definition clean_path :: "pystr \<Rightarrow> bool" where
  "clean_path p \<longleftrightarrow> p = [] \<or> (\<exists>c r. p = 47 # c # r \<and> c \<noteq> 47) \<and> list_all (\<lambda>c. plain_char c \<and> c \<noteq> 35 \<and> c \<noteq> 63) p"

lemma clean_url_id: "list_all plain_char t \<Longrightarrow> t = [] \<or> 32 < hd t \<Longrightarrow> clean_url t = t"
  by (cases t) (auto simp: clean_url_def plain_char_def list_all_iff intro: filter_True)

lemma split_netloc_slash:
  assumes "list_all (\<lambda>c. plain_char c \<and> \<not> is_netloc_delim c) n" "clean_path p"
  shows "split_netloc (47 # 47 # n @ p) = (n, p)" "split_netloc p = ([], p)"
proof -
  have "takeWhile (\<lambda>c. \<not> is_netloc_delim c) (n @ p) = n \<and> dropWhile (\<lambda>c. \<not> is_netloc_delim c) (n @ p) = p"
    using assms by (induction n) (auto simp: clean_path_def is_netloc_delim_def)
  then show "split_netloc (47 # 47 # n @ p) = (n, p)" by (simp add: split_netloc_def lit_simps starts_with_def)
  show "split_netloc p = ([], p)"
    using assms(2) by (auto simp: split_netloc_def clean_path_def lit_simps starts_with_def)
qed

lemma split_scheme_none: "t = [] \<or> \<not> is_ascii_alpha (hd t) \<Longrightarrow> split_scheme t = ([], t)"
  by (cases t) (auto simp: split_scheme_def partition_at_def Let_def)

lemma split_scheme_some:
  assumes "a \<noteq> []" "is_ascii_alpha (hd a)" "list_all is_scheme_char a" "lower a = a"
  shows "split_scheme (a @ 58 # r) = (a, r)"
proof -
  have "58 \<notin> set a" using assms(3) by (auto simp: list_all_iff is_scheme_char_def is_ascii_alpha_def is_digit_def)
  from partition_at_append [OF this, of r] show ?thesis using assms by (simp add: split_scheme_def)
qed

text \<open>The network location of the origin, with what may follow it.\<close>

lemma origin_location:
  assumes "list_all (\<lambda>c. plain_char c \<and> \<not> is_netloc_delim c) n" "clean_path p" "x = (if b \<or> n \<noteq> [] then 47 # 47 # n @ p else p)"
  shows "split_netloc x = (n, p)" "list_all plain_char x" "x = [] \<or> 32 < hd x \<and> \<not> is_ascii_alpha (hd x)"
proof -
  show "split_netloc x = (n, p)" using split_netloc_slash [OF assms(1,2)] assms(3) by auto
  have "list_all plain_char n" using assms(1) by (simp add: list_all_iff)
  moreover have "list_all plain_char p" using assms(2) by (auto simp: clean_path_def list_all_iff)
  moreover have "plain_char 47" by (simp add: plain_char_def)
  ultimately show "list_all plain_char x" unfolding assms(3) by simp
  show "x = [] \<or> 32 < hd x \<and> \<not> is_ascii_alpha (hd x)"
    using assms(2,3) by (auto simp: clean_path_def is_ascii_alpha_def)
qed

lemma origin_read_back:
  assumes "split_url u" "clean_path p"
  shows "urlsplit (urlunsplit (origin_part u) @ p)
    = Inr \<lparr>scheme = scheme u, netloc = netloc u, url_path = p, query = [], fragment = []\<rparr>"
proof -
  let ?b = "scheme u \<noteq> [] \<and> list_ex (\<lambda>s. lit s = scheme u) uses_netloc"
  define x where "x = (if ?b \<or> netloc u \<noteq> [] then 47 # 47 # netloc u @ p else p)"
  let ?t = "urlunsplit (origin_part u) @ p"
  have t: "?t = (if scheme u \<noteq> [] then scheme u @ 58 # x else x)"
    unfolding x_def by (auto simp: urlunsplit_def origin_part_def Let_def lit_simps starts_with_def)
  have n: "list_all (\<lambda>c. plain_char c \<and> \<not> is_netloc_delim c) (netloc u)" using assms(1) by (simp add: split_url_def)
  note loc = origin_location [OF n assms(2) x_def]
  have sc: "list_all is_scheme_char (scheme u)" "lower (scheme u) = scheme u"
      "scheme u \<noteq> [] \<Longrightarrow> is_ascii_alpha (hd (scheme u))" "netloc_ok (netloc u)"
    using assms(1) by (simp_all add: split_url_def)
  have "list_all plain_char (scheme u)"
    using sc(1) by (auto simp: list_all_iff plain_char_def is_scheme_char_def is_ascii_alpha_def is_digit_def)
  moreover have "?t = [] \<or> 32 < hd ?t"
    unfolding t using loc(3) sc(3) by (auto simp: is_ascii_alpha_def)
  ultimately have "clean_url ?t = ?t" using loc(2) by (intro clean_url_id) (simp_all add: t plain_char_def)
  moreover have "split_scheme ?t = (scheme u, x)"
  proof (cases "scheme u = []")
    case True
    with loc(3) split_scheme_none [of x] show ?thesis by (auto simp only: t if_False not_True_eq_False simp_thms)
  next
    case False
    from split_scheme_some [OF False sc(3) [OF False] sc(1,2), of x] False show ?thesis by (simp only: t if_True not_False_eq_True)
  qed
  moreover have "partition_at 35 p = (p, False, [])" "partition_at 63 p = (p, False, [])"
    using assms(2) by (auto simp: clean_path_def list_all_iff intro!: partition_at_absent)
  ultimately show ?thesis using loc(1) sc(4) by (simp add: urlsplit_def)
qed

section \<open>Accepted destinations are trusted\<close>

lemma site_parts: "scheme u = scheme v \<Longrightarrow> netloc u = netloc v \<Longrightarrow> trusted_site u = trusted_site v"
  by (simp add: trusted_site_def hostname_def userinfo_def)

lemma origin_text_site:
  assumes "origin_text s = Inr site"
  obtains u where "urlsplit s = Inr u" "trusted_site u" "site = urlunsplit (origin_part u)"
  using assms by (auto simp: origin_text_def trusted_site_def rbind_def prod_eq_iff split: sum.splits if_splits)

lemma routes_clean: "r \<in> set routes \<Longrightarrow> clean_path (lit r)"
  by (auto simp: routes_def clean_path_def lit_simps plain_char_def)

text \<open>A route behind an accepted origin\<close>

lemma origin_trusted:
  assumes "origin_text s = Inr site" "r \<in> set routes"
  shows "trusted_target (site @ lit r)"
proof -
  from assms(1) obtain u where u: "urlsplit s = Inr u" "trusted_site u" "site = urlunsplit (origin_part u)"
    by (rule origin_text_site)
  from origin_read_back [OF urlsplit_split [OF u(1)] routes_clean [OF assms(2)]] u(2,3) assms(2)
  show ?thesis
    by (auto simp: trusted_target_def list_ex_iff trusted_site_def hostname_def userinfo_def)
qed

text \<open>An endpoint that is its own canonical text with an accepted origin\<close>

lemma endpoint_trusted:
  assumes "urlsplit s = Inr u" "origin_text (urlunsplit (origin_part u)) = Inr site"
    "url_path u = lit ''/mcp''" "query u = []" "fragment u = []"
  shows "trusted_target s"
proof -
  from assms(2) obtain v where v: "urlsplit (urlunsplit (origin_part u)) = Inr v" "trusted_site v"
    by (rule origin_text_site)
  have "clean_path []" by (simp add: clean_path_def)
  from origin_read_back [OF urlsplit_split [OF assms(1)] this] v(1)
  have "scheme u = scheme v" "netloc u = netloc v" by auto
  from site_parts [OF this] v(2) assms show ?thesis by (auto simp: trusted_target_def routes_def)
qed

lemma MCP_trusted: "MCP v token p n = Inr m \<Longrightarrow> trusted_target (mcp_url m)"
  by (auto simp: MCP_def rbind_def split: sum.splits if_splits intro: endpoint_trusted)

section \<open>The client\<close>

lemma post_diverted: "route \<in> set routes \<Longrightarrow> post (diverted net other) base route message token = post net base route message token"
  by (rule ext) (simp add: post_def ebind_def open_diverted origin_trusted split: sum.split)

lemma route_cases [simp]:
  "''/mcp'' \<in> set routes" "''/auth/login'' \<in> set routes" "''/auth/mcp-token'' \<in> set routes" "''/auth/refresh'' \<in> set routes"
  by (simp_all add: routes_def)

lemma client_diverted:
  "credential (diverted net other) = credential net" "renew (diverted net other) = renew net"
  by (intro ext; simp add: credential_def renew_def post_diverted)+

lemma exchange_diverted: "exchange (diverted net other) = exchange net"
  by (intro ext) (simp only: exchange_def client_diverted)

lemma mains_diverted:
  "session_credential (diverted net other) = session_credential net"
  "login (diverted net other) = login net" "print_headers (diverted net other) = print_headers net"
  "stored_token (diverted net other) = stored_token net"
  by (intro ext;
    simp only: session_credential_def login_def print_headers_def stored_token_def post_diverted client_diverted
      exchange_diverted route_cases)+

section \<open>The MCP session\<close>

lemma request_diverted:
  "trusted_target (mcp_url m) \<Longrightarrow> request (diverted net other) m method params w = request net m method params w"
  by (simp add: request_def Let_def open_diverted)

lemma request_url: "request net m method params w = (r, m', w') \<Longrightarrow> mcp_url m' = mcp_url m"
  by (auto simp: request_def Let_def split: prod.splits sum.splits)

lemma enter_diverted: "trusted_target (mcp_url m) \<Longrightarrow> enter (diverted net other) m w = enter net m w"
  by (auto simp: enter_def request_diverted split: prod.split sum.split) (simp_all add: request_diverted request_url)

lemma enter_url: "enter net m w = (r, m', w') \<Longrightarrow> mcp_url m' = mcp_url m"
  by (auto simp: enter_def split: prod.splits sum.splits dest!: request_url)

lemma call_diverted: "trusted_target (mcp_url m) \<Longrightarrow> call (diverted net other) m name arguments w = call net m name arguments w"
  by (simp add: call_def request_diverted)

lemma call_url: "call net m name arguments w = (r, m', w') \<Longrightarrow> mcp_url m' = mcp_url m"
  by (auto simp: call_def split: prod.splits dest!: request_url)

lemma close_diverted: "trusted_target (mcp_url m) \<Longrightarrow> close (diverted net other) m w = close net m w"
  by (simp add: close_def Let_def open_diverted)

lemma close_url: "close net m w = (r, m', w') \<Longrightarrow> mcp_url m' = mcp_url m"
  by (auto simp: close_def Let_def split: prod.splits sum.splits if_splits)

lemmas mcp_diverted = enter_diverted call_diverted close_diverted
lemmas mcp_kept = enter_url call_url close_url

section \<open>The operator's program\<close>

lemma single_call_diverted:
  assumes "trusted_target (mcp_url m)"
  shows "single_call (diverted net other) m name arguments w = single_call net m name arguments w"
proof -
  obtain r m1 w1 where 1: "enter net m w = (r, m1, w1)" by (metis prod_cases3)
  obtain r2 m2 w2 where 2: "call net m1 name arguments w1 = (r2, m2, w2)" by (metis prod_cases3)
  have "trusted_target (mcp_url m1)" "trusted_target (mcp_url m2)"
    using assms mcp_kept(1) [OF 1] mcp_kept(2) [OF 2] by simp_all
  then show ?thesis using assms 1 2 by (simp add: single_call_def mcp_diverted split: sum.split)
qed

lemma human_call_diverted: "human_call (diverted net other) = human_call net"
proof (intro ext)
  fix s server name arguments and w :: "'a posix_scheme"
  have "single_call (diverted net other) m name arguments w = single_call net m name arguments w"
    if "MCP server token None 30 = Inr m" for m token w
    using single_call_diverted [OF MCP_trusted [OF that]] .
  then show "human_call (diverted net other) s server name arguments w = human_call net s server name arguments w"
    by (auto simp: human_call_def mains_diverted ebind_def split: prod.split sum.split)
qed

lemma driver_diverted:
  "enroll (diverted net other) = enroll net" "operate (diverted net other) = operate net"
  by (intro ext; simp only: enroll_def operate_def human_call_diverted)+

lemma dispatch_diverted: "dispatch_command (diverted net other) c folder s cmd = dispatch_command net c folder s cmd"
  by (cases cmd) (simp_all add: driver_diverted)

section \<open>The worker's helper\<close>

lemma serve_diverted:
  "trusted_target (mcp_url m) \<Longrightarrow> serve (diverted net other) m stream out w = serve net m stream out w
     \<and> mcp_url (fst (snd (serve net m stream out w))) = mcp_url m"
proof (induction net m stream out w rule: serve.induct)
  case (1 net m stream out w)
  have ih: "serve (diverted net other) m1 rest (out @ [l]) w1 = serve net m1 rest (out @ [l]) w1
      \<and> mcp_url (fst (snd (serve net m1 rest (out @ [l]) w1))) = mcp_url m"
    if "helper_read stream = (Inr (Some req), rest)" "field req ''op'' \<noteq> PStr (lit ''close'')"
      "helper_tool req = Inr tool" "call net m tool (field req ''arguments'') w = (Inr v, m1, w1)" "emit_line True v = Inr l"
    for req rest tool v m1 w1 l
    using 1 that call_url [OF that(4)] by simp
  obtain r0 rest where 0: "helper_read stream = (r0, rest)" by (cases "helper_read stream")
  show ?case
  proof (cases "\<exists>req. r0 = Inr (Some req)")
    case False
    with 0 show ?thesis by (subst (1 2 3) serve.simps) (auto split: sum.split option.split)
  next
    case True
    then obtain req where req: "helper_read stream = (Inr (Some req), rest)" using 0 by auto
    show ?thesis
    proof (cases "field req ''op'' = PStr (lit ''close'')")
      case True
      obtain rc mc wc where c: "close net m w = (rc, mc, wc)" by (metis prod_cases3)
      show ?thesis
        using req True c close_diverted [OF 1(2), of net other w] close_url [OF c]
        by (subst (1 2 3) serve.simps) (simp split: sum.split)
    next
      case False
      show ?thesis
      proof (cases "helper_tool req")
        case (Inl e)
        with req False show ?thesis by (subst (1 2 3) serve.simps) simp
      next
        case (Inr tool)
        obtain rc mc wc where c: "call net m tool (field req ''arguments'') w = (rc, mc, wc)" by (metis prod_cases3)
        note step = req False Inr c call_diverted [OF 1(2), of net other tool "field req ''arguments''" w]
        show ?thesis
        proof (cases "\<exists>v l. rc = Inr v \<and> emit_line True v = Inr l")
          case True
          then obtain v l where v: "rc = Inr v" "emit_line True v = Inr l" by blast
          with step have "serve (diverted net other) m stream out w = serve (diverted net other) mc rest (out @ [l]) wc"
            "serve net m stream out w = serve net mc rest (out @ [l]) wc"
            by (subst serve.simps, simp)+
          with ih [OF req False Inr c [unfolded v(1)] v(2)] show ?thesis by simp
        next
          case False
          with step call_url [OF c] show ?thesis
            by (subst (1 2 3) serve.simps) (auto split: sum.split)
        qed
      qed
    qed
  qed
qed

lemma helper_diverted: "helper (diverted net other) adopted stream w = helper net adopted stream w"
proof -
  obtain r0 rest where 0: "helper_read stream = (r0, rest)" by (cases "helper_read stream")
  show ?thesis
  proof (cases "\<exists>first m. adopted \<and> r0 = Inr first \<and> check_opening first = Inr m")
    case False
    with 0 show ?thesis by (cases r0) (auto simp: helper_def split: sum.split)
  next
    case True
    then obtain first m where o: "adopted" "r0 = Inr first" "check_opening first = Inr m" by blast
    then have m: "trusted_target (mcp_url m)"
      by (auto simp: check_opening_def rbind_def split: option.splits sum.splits if_splits dest: MCP_trusted)
    obtain r1 m1 w1 where 1: "enter net m w = (r1, m1, w1)" by (metis prod_cases3)
    have m1: "trusted_target (mcp_url m1)" using m enter_url [OF 1] by simp
    obtain r2 m2 out w2 where 2: "(case emit_line True PNone of Inl e \<Rightarrow> (Inl e, m1, [], w1)
        | Inr l \<Rightarrow> serve net m1 rest [l] w1) = (r2, m2, out, w2)" by (metis prod_cases4)
    have "(case emit_line True PNone of Inl e \<Rightarrow> (Inl e, m1, [], w1)
        | Inr l \<Rightarrow> serve (diverted net other) m1 rest [l] w1) = (r2, m2, out, w2)"
      using 2 serve_diverted [OF m1, of net other rest _ w1] by (cases "emit_line True PNone"; force)
    moreover have "mcp_url m2 = mcp_url m1"
    proof (cases "emit_line True PNone")
      case (Inr l)
      with 2 have "serve net m1 rest [l] w1 = (r2, m2, out, w2)" by simp
      with serve_diverted [OF m1, of net other rest "[l]" w1] show ?thesis by simp
    qed (use 2 in simp)
    moreover from this m1 have "trusted_target (mcp_url m2)" by simp
    ultimately show ?thesis using 0 o m 1 2 by (simp add: helper_def mcp_diverted split: sum.split)
  qed
qed

section \<open>The snapshot download\<close>

definition wired :: "'a workspace_scheme \<Rightarrow> bool" where
  "wired w \<longleftrightarrow> trusted_target (mcp_url (connection w))"

text \<open>Two programs that do the same while the connection is trusted, and leave it trusted.\<close>

definition alike :: "('a workspace_scheme, 'b) prog \<Rightarrow> ('a workspace_scheme, 'b) prog \<Rightarrow> bool" where
  "alike m m' \<longleftrightarrow> (\<forall>w. wired w \<longrightarrow> m' w = m w \<and> wired (snd (m w)))"

lemma alikeD: "alike m m' \<Longrightarrow> wired w \<Longrightarrow> m w = (r, w1) \<Longrightarrow> m' w = (r, w1) \<and> wired w1"
  by (force simp: alike_def)

lemma alike_files: "files.keeps m \<Longrightarrow> alike m m"
  unfolding alike_def files.keeps_def files_only_def wired_def
  by (metis workspace.select_convs(1) workspace.surjective posix.select_convs(8))

lemma alike_ebind:
  assumes "alike m m'" "\<And>x. alike (f x) (f' x)"
  shows "alike (ebind m f) (ebind m' f')"
  unfolding alike_def
proof (intro allI impI)
  fix w :: "'a workspace_scheme" assume w: "wired w"
  obtain r w1 where 1: "m w = (r, w1)" by (cases "m w")
  from alikeD [OF assms(1) w 1] assms(2) show "ebind m' f' w = ebind m f w \<and> wired (snd (ebind m f w))"
    by (cases r) (simp_all add: ebind_def 1 alike_def)
qed

lemma alike_try_finally:
  assumes "alike m m'" "alike f f'"
  shows "alike (try_finally m f) (try_finally m' f')"
  unfolding alike_def
proof (intro allI impI)
  fix w :: "'a workspace_scheme" assume w: "wired w"
  obtain r w1 where 1: "m w = (r, w1)" by (cases "m w")
  obtain r2 w2 where 2: "f w1 = (r2, w2)" by (cases "f w1")
  from alikeD [OF assms(1) w 1] alikeD [OF assms(2) _ 2]
  show "try_finally m' f' w = try_finally m f w \<and> wired (snd (try_finally m f w))"
    by (simp add: try_finally_def 1 2 split: sum.split)
qed

lemmas alike_kept = alike_ebind alike_try_finally

lemma alike_tool: "alike (call_tool net name arguments) (call_tool (diverted net other) name arguments)"
  unfolding alike_def
proof (intro allI impI)
  fix w :: "'a workspace_scheme" assume w: "wired w"
  obtain r m w1 where 1: "call net (connection w) name arguments w = (r, m, w1)" by (metis prod_cases3)
  with w call_url [OF 1] show "call_tool (diverted net other) name arguments w = call_tool net name arguments w
      \<and> wired (snd (call_tool net name arguments w))"
    by (simp add: call_tool_def mcp_diverted wired_def)
qed

lemma alike_save_chunk:
  "alike (save_chunk (call_tool net) fd room descriptor nbytes snap offset)
     (save_chunk (call_tool (diverted net other)) fd room descriptor nbytes snap offset)"
  unfolding save_chunk_def by (intro alike_kept alike_tool alike_files kept)

lemma alike_download_loop:
  "alike (\<lambda>w. download_loop (call_tool net) fd room descriptor nbytes snap chunks offset w)
     (\<lambda>w. download_loop (call_tool (diverted net other)) fd room descriptor nbytes snap chunks offset w)"
proof -
  have "wired w \<Longrightarrow> ask = call_tool net \<Longrightarrow>
      download_loop (call_tool (diverted net other)) fd room descriptor nbytes snap chunks offset w
        = download_loop ask fd room descriptor nbytes snap chunks offset w
      \<and> wired (snd (download_loop ask fd room descriptor nbytes snap chunks offset w))"
    for ask and w :: "'a workspace_scheme"
  proof (induction ask fd room descriptor nbytes snap chunks offset w rule: download_loop.induct)
    case (1 ask fd room descriptor nbytes snap chunks offset w)
    obtain r w1 where s: "save_chunk ask fd room descriptor nbytes snap offset w = (r, w1)"
      by (cases "save_chunk ask fd room descriptor nbytes snap offset w")
    have s': "save_chunk (call_tool (diverted net other)) fd room descriptor nbytes snap offset w = (r, w1) \<and> wired w1"
      using alikeD [OF alike_save_chunk 1(2)] s 1(3) by blast
    show ?case
    proof (cases "offset < nbytes \<and> (\<exists>data. r = Inr data)")
      case True
      then obtain data where r: "r = Inr data" by blast
      from 1(1) [OF True [THEN conjunct1] s [symmetric] r _ 1(3)] s' True s r show ?thesis
        by (subst (1 2 3) download_loop.simps) simp
    next
      case False
      with s s' 1(2) show ?thesis by (subst (1 2 3) download_loop.simps) (auto split: sum.split)
    qed
  qed
  then show ?thesis by (simp add: alike_def)
qed

lemma files_mkstemp [kept]: "files.keeps (mkstemp d p)"
proof -
  have "files.keeps (mkstemp_tries k d p)" for k
  proof (induction k)
    case 0
    show ?case unfolding mkstemp_tries.simps by (intro kept)
  next
    case (Suc k)
    show ?case unfolding mkstemp_tries.simps Let_def by (intro kept Suc)
  qed
  then show ?thesis by (simp add: mkstemp_def)
qed

lemma alike_download:
  "alike (download (call_tool net) room d n) (download (call_tool (diverted net other)) room d n)"
  unfolding download_def case_prod_unfold
  by (intro alike_kept alike_tool alike_download_loop alike_files kept)

lemma workspace_diverted:
  "workspace_main (diverted net other) login_file url room output = workspace_main net login_file url room output"
proof
  fix w :: "'a workspace_scheme"
  have "with_mcp (diverted net other) m (download (call_tool (diverted net other)) r d n) v = with_mcp net m (download (call_tool net) r d n) v"
    if m: "trusted_target (mcp_url m)" for m r d n and v :: "'a workspace_scheme"
  proof -
    obtain r1 m1 v1 where 1: "enter net m v = (r1, m1, v1)" by (metis prod_cases3)
    have "alike (\<lambda>w. case close net (connection w) w of (r, m2, w2) \<Rightarrow> (r, w2\<lparr>connection := m2\<rparr>))
        (\<lambda>w. case close (diverted net other) (connection w) w of (r, m2, w2) \<Rightarrow> (r, w2\<lparr>connection := m2\<rparr>))"
      unfolding alike_def wired_def by (auto simp: mcp_diverted split: prod.splits dest!: close_url)
    from alike_try_finally [OF alike_download this] m 1 enter_url [OF 1] show ?thesis
      by (auto simp: with_mcp_def mcp_diverted alike_def wired_def split: sum.split)
  qed
  then show "workspace_main (diverted net other) login_file url room output w = workspace_main net login_file url room output w"
    by (auto simp: workspace_main_def mains_diverted ebind_def dest!: MCP_trusted split: prod.split sum.split)
qed

section \<open>Property\<close>

text \<open>
  C8. Credentials go to trusted hosts only.  No run of a network program depends on what hosts
  other than the trusted ones answer: whatever transport is put in the place of the network for every
  request whose target is not, as \<open>urlsplit\<close> reads it, one of the server's four routes on an HTTPS host or
  on the loopback host without user information, the login, the printed headers, the download of a snapshot,
  every command of the operator's program and the worker's helper return the same and leave the same world.
  As an arbitrary transport also changes the world it is called in, they never send it a request.
\<close>

theorem credentials_only_to_trusted_hosts:
  "login (diverted net other) ask d n args w = login net ask d n args w
    \<and> print_headers (diverted net other) d n w = print_headers net d n w
    \<and> workspace_main (diverted net1 other1) login_file url room output w1
        = workspace_main net1 login_file url room output w1
    \<and> driver_main (diverted net2 other2) c resolve path s cmd w2 = driver_main net2 c resolve path s cmd w2
    \<and> helper_main (diverted net3 other3) adopted stream w3 = helper_main net3 adopted stream w3"
proof -
  have "driver_main (diverted net2 other2) c resolve path s cmd w2 = driver_main net2 c resolve path s cmd w2"
    by (simp only: driver_main_def dispatch_diverted)
  moreover have "helper_main (diverted net3 other3) adopted stream w3 = helper_main net3 adopted stream w3"
    by (simp only: helper_main_def helper_diverted)
  ultimately show ?thesis by (simp only: mains_diverted workspace_diverted simp_thms)
qed

end
