(* ===== verification/Frame_Properties.thy ===== *)
theory Frame_Properties
  imports Worker_Samples
begin

text \<open>
  Frames over a pipe: what a completed write has sent, what a completed read has consumed, and that the
  two are inverse to each other.
\<close>

section \<open>Bytes on a pipe\<close>

text \<open>
  The bytes of one call.  \<open>os.write\<close> answers how many bytes of its argument it took, \<open>os.read\<close> answers the
  bytes themselves.
\<close>

fun wrote :: "nat \<Rightarrow> made_call \<Rightarrow> bytes" where
  "wrote fd made =
     (case (asked made, answered made) of
        (PipeWrite n part, Inr v) \<Rightarrow> if n = fd then take (nat (int_of v)) part else []
      | _ \<Rightarrow> [])"

fun got :: "nat \<Rightarrow> made_call \<Rightarrow> bytes" where
  "got fd made =
     (case (asked made, answered made) of
        (PipeRead n k, Inr v) \<Rightarrow> if n = fd then map byte (str_of v) else []
      | _ \<Rightarrow> [])"

definition sent :: "nat \<Rightarrow> made_call list \<Rightarrow> bytes" where
  "sent fd made_calls = concat (map (wrote fd) made_calls)"

definition received :: "nat \<Rightarrow> made_call list \<Rightarrow> bytes" where
  "received fd made_calls = concat (map (got fd) made_calls)"

text \<open>What the kernel promises of \<open>write\<close>: it never takes more than it was given.\<close>

definition honest_write :: "made_call \<Rightarrow> bool" where
  "honest_write made \<longleftrightarrow>
     (case (asked made, answered made) of
        (PipeWrite n part, Inr v) \<Rightarrow> 0 \<le> int_of v \<and> int_of v \<le> int (length part)
      | _ \<Rightarrow> True)"

lemma sent_simps [simp]: "sent fd [] = []" "sent fd (a @ b) = sent fd a @ sent fd b"
  by (simp_all add: sent_def)

lemma received_simps [simp]: "received fd [] = []" "received fd (a @ b) = received fd a @ received fd b"
  by (simp_all add: received_def)

text \<open>A callback that keeps its hands off the pipe.\<close>

definition apart :: "nat \<Rightarrow> outside_call \<Rightarrow> bool" where
  "apart fd c \<longleftrightarrow> (\<forall>b. c \<noteq> PipeWrite fd b) \<and> (\<forall>k. c \<noteq> PipeRead fd k)"

lemma apart_nothing: "apart fd (asked made) \<Longrightarrow> wrote fd made = [] \<and> got fd made = []"
  by (auto simp: apart_def split: outside_call.splits sum.splits)

lemma only_apart:
  assumes "only (apart fd) w w'"
  shows "did w w'" "sent fd (news w w') = []" "received fd (news w w') = []"
proof -
  show "did w w'" using assms by (rule only_did)
  have "\<forall>made \<in> set (news w w'). wrote fd made = [] \<and> got fd made = []"
    using assms apart_nothing by (blast dest: only_news)
  then show "sent fd (news w w') = []" "received fd (news w w') = []"
    unfolding sent_def received_def by (induction "news w w'") auto
qed

lemma apart_clock: "apart fd Monotonic" "apart fd (PipeReady n)"
  by (simp_all add: apart_def)

lemma frame_ready_apart: "traced.keeps (apart fd) tick \<Longrightarrow> traced.keeps (apart fd) (frame_ready tick e deadline)"
  unfolding frame_ready_def by (intro kept traced_asks; (assumption | simp add: apart_clock))

section \<open>Writing\<close>

lemma write_slice_sends:
  assumes "write_slice (Some fd) part w = (r, w')" and "list_all honest_write (news w w')"
  shows "did w w'" "r = Inr n \<Longrightarrow> sent fd (news w w') = take n part \<and> n \<le> length part"
    "r = Inl e \<Longrightarrow> \<exists>n. sent fd (news w w') = take n part"
proof -
  obtain a w1 where c: "consult (PipeWrite fd part) w = (a, w1)" by (cases "consult (PipeWrite fd part) w")
  have eq: "w' = w1" "r = (case a of Inl e \<Rightarrow> if e = BlockingIOError then Inr 0 else Inl e
      | Inr v \<Rightarrow> (case as_nat v of Inl e \<Rightarrow> Inl e | Inr n \<Rightarrow> Inr n))"
    using assms(1) c
    by (auto simp: write_slice_def end_of_def ask_nat_def ebind_def try_except_def as_nat_def split: sum.splits if_splits)
  note new = news_consult [OF c, folded eq(1)]
  show "did w w'" using consult_simps(1) [OF c] eq(1) by (simp add: did_def)
  show "r = Inr n \<Longrightarrow> sent fd (news w w') = take n part \<and> n \<le> length part"
    using assms(2) eq(2) new
    by (auto simp: sent_def honest_write_def as_nat_def split: sum.splits if_splits)
  show "r = Inl e \<Longrightarrow> \<exists>n. sent fd (news w w') = take n part"
    using new by (cases a) (auto simp: sent_def intro: exI [of _ 0])
qed

text \<open>One turn of the loop: wait until the pipe is ready, then offer it one slice.\<close>

definition write_turn :: "('a outside_scheme, unit) prog \<Rightarrow> nat \<Rightarrow> bytes \<Rightarrow> int \<Rightarrow> ('a outside_scheme, nat) prog" where
  "write_turn tick fd part deadline =
     ebind (frame_ready tick (Some fd) deadline) (\<lambda>ready. if ready then write_slice (Some fd) part else ret 0)"

lemma write_loop_turn:
  "write_loop (Suc fuel) tick (Some fd) encoded k deadline =
     (if length encoded \<le> k then ret ()
      else ebind (write_turn tick fd (take PIPE_CHUNK (drop k encoded)) deadline)
             (\<lambda>n. write_loop fuel tick (Some fd) encoded (k + n) deadline))"
  by (simp add: write_turn_def ebind_assoc)

lemma write_slice_any: "traced.keeps (\<lambda>_. True) (write_slice fd part)"
  unfolding write_slice_def by (intro kept traced_asks; simp)

lemma write_turn_sends:
  assumes "traced.keeps (apart fd) tick" and "write_turn tick fd part deadline w = (r, w')"
  shows "did w w'"
    and "list_all honest_write (news w w') \<Longrightarrow> \<exists>n. sent fd (news w w') = take n part \<and> n \<le> length part \<and> (r = Inr m \<longrightarrow> n = m)"
proof -
  obtain r1 w1 where 1: "frame_ready tick (Some fd) deadline w = (r1, w1)"
    by (cases "frame_ready tick (Some fd) deadline w")
  note quiet = only_apart [OF traced.keepsD [OF frame_ready_apart [OF assms(1)] 1]]
  consider "r1 = Inr True" | "w' = w1" "\<forall>m. r = Inr m \<longrightarrow> m = 0"
    using assms(2) 1 by (cases r1) (auto simp: write_turn_def ebind_def split: if_splits)
  then have "did w w' \<and> (list_all honest_write (news w w') \<longrightarrow>
      (\<exists>n. sent fd (news w w') = take n part \<and> n \<le> length part \<and> (r = Inr m \<longrightarrow> n = m)))"
  proof cases
    case 1
    with assms(2) \<open>frame_ready tick (Some fd) deadline w = (r1, w1)\<close>
    have 2: "write_slice (Some fd) part w1 = (r, w')" by (simp add: write_turn_def ebind_def)
    have d: "did w1 w'" using traced.keepsD [OF write_slice_any 2] by (rule only_did)
    have "\<exists>n. sent fd (news w1 w') = take n part \<and> n \<le> length part \<and> (r = Inr m \<longrightarrow> n = m)"
      if "list_all honest_write (news w1 w')"
    proof (cases r)
      case (Inl e)
      from write_slice_sends(3) [OF 2 that Inl] obtain n where "sent fd (news w1 w') = take n part" ..
      then show ?thesis using Inl by (intro exI [of _ "min n (length part)"]) (simp add: min_def)
    next
      case (Inr n)
      from write_slice_sends(2) [OF 2 that Inr] Inr show ?thesis by (intro exI [of _ n]) simp
    qed
    with quiet(2) d show ?thesis using did_trans [OF quiet(1) d] by (simp add: news_trans [OF quiet(1) d])
  qed (use quiet in \<open>auto intro: exI [of _ 0]\<close>)
  then show "did w w'"
    and "list_all honest_write (news w w') \<Longrightarrow>
      \<exists>n. sent fd (news w w') = take n part \<and> n \<le> length part \<and> (r = Inr m \<longrightarrow> n = m)"
    by blast+
qed

definition wrote_part :: "bytes \<Rightarrow> exn + unit \<Rightarrow> bytes \<Rightarrow> bool" where
  "wrote_part b r out \<longleftrightarrow> (\<exists>rest. b = out @ rest \<and> (case r of Inl e \<Rightarrow> True | Inr _ \<Rightarrow> rest = []))"

lemma wrote_part_more: "wrote_part b r out \<Longrightarrow> wrote_part (a @ b) r (a @ out)"
  by (auto simp: wrote_part_def)

lemma write_loop_sends:
  assumes "traced.keeps (apart fd) tick"
  shows "write_loop fuel tick (Some fd) encoded k deadline w = (r, w') \<Longrightarrow>
     did w w' \<and> (list_all honest_write (news w w') \<longrightarrow> wrote_part (drop k encoded) r (sent fd (news w w')))"
proof (induction fuel arbitrary: k w)
  case 0
  then show ?case by (auto simp: wrote_part_def)
next
  case (Suc fuel)
  let ?part = "take PIPE_CHUNK (drop k encoded)"
  show ?case
  proof (cases "length encoded \<le> k")
    case True
    with Suc.prems show ?thesis by (auto simp: wrote_part_def)
  next
    case False
    obtain r1 w1 where 1: "write_turn tick fd ?part deadline w = (r1, w1)"
      by (cases "write_turn tick fd ?part deadline w")
    note turn = write_turn_sends [OF assms 1]
    have start: "drop k encoded = take n ?part @ drop (k + n) encoded" if "n \<le> length ?part" for n
    proof -
      have "n \<le> PIPE_CHUNK" using that by simp
      then have "take n ?part = take n (drop k encoded)" by (simp add: min_def)
      moreover have "drop (k + n) encoded = drop n (drop k encoded)" by (simp add: add.commute)
      ultimately show ?thesis by (metis append_take_drop_id)
    qed
    show ?thesis
    proof (cases r1)
      case (Inl e)
      with Suc.prems False 1 have "r = Inl e" "w' = w1" by (simp_all add: write_loop_turn ebind_def del: write_loop.simps)
      moreover have "wrote_part (drop k encoded) (Inl e) (sent fd (news w w1))" if "list_all honest_write (news w w1)"
      proof -
        from turn(2) [OF that, of 0] obtain n where "sent fd (news w w1) = take n ?part" by blast
        then have "drop k encoded = sent fd (news w w1) @ drop (min n PIPE_CHUNK) (drop k encoded)"
          by (simp only: take_take append_take_drop_id)
        then show ?thesis by (auto simp: wrote_part_def)
      qed
      ultimately show ?thesis using turn(1) by simp
    next
      case (Inr n)
      with Suc.prems False 1 have rest: "write_loop fuel tick (Some fd) encoded (k + n) deadline w1 = (r, w')"
        by (simp add: write_loop_turn ebind_def del: write_loop.simps)
      note ih = Suc.IH [OF rest]
      show ?thesis
      proof (intro conjI impI)
        show "did w w'" using turn(1) ih by (blast intro: did_trans)
        assume h: "list_all honest_write (news w w')"
        have n: "news w w' = news w w1 @ news w1 w'" using turn(1) ih by (blast intro: news_trans)
        with h ih have "wrote_part (drop (k + n) encoded) r (sent fd (news w1 w'))" by simp
        moreover have "sent fd (news w w1) = take n ?part" "n \<le> length ?part"
          using turn(2) [of n] h n Inr by auto
        ultimately have "wrote_part (take n ?part @ drop (k + n) encoded) r (sent fd (news w w'))"
          using n by (simp add: wrote_part_more)
        then show "wrote_part (drop k encoded) r (sent fd (news w w'))"
          using start [OF \<open>n \<le> length ?part\<close>] by simp
      qed
    qed
  qed
qed

section \<open>Reading\<close>

definition honest_read :: "made_call \<Rightarrow> bool" where
  "honest_read made \<longleftrightarrow>
     (case (asked made, answered made) of
        (PipeRead n k, Inr v) \<Rightarrow> length (str_of v) \<le> k
      | _ \<Rightarrow> True)"

definition read_turn ::
  "('a outside_scheme, unit) prog \<Rightarrow> nat \<Rightarrow> nat \<Rightarrow> int \<Rightarrow> ('a outside_scheme, bytes option) prog" where
  "read_turn tick fd k deadline =
     ebind (frame_ready tick (Some fd) deadline) (\<lambda>ready. if ready then read_chunk (Some fd) k else ret None)"

definition taken_bytes :: "bytes option \<Rightarrow> bytes" where
  "taken_bytes c = (case c of None \<Rightarrow> [] | Some b \<Rightarrow> b)"

lemma read_chunk_any: "traced.keeps (\<lambda>_. True) (read_chunk fd k)"
  unfolding read_chunk_def by (intro kept traced_asks; simp)

lemma read_chunk_gets:
  assumes "read_chunk (Some fd) k w = (Inr c, w')"
  shows "received fd (news w w') = taken_bytes c"
    and "list_all honest_read (news w w') \<Longrightarrow> length (taken_bytes c) \<le> k"
proof -
  obtain a w1 where a: "consult (PipeRead fd k) w = (a, w1)" by (cases "consult (PipeRead fd k) w")
  have "w' = w1" and "a = Inl BlockingIOError \<and> c = None \<or> (\<exists>v. a = Inr v \<and> c = Some (map byte (str_of v)))"
    using assms a
    by (auto simp: read_chunk_def end_of_def ask_bytes_def ebind_def try_except_def as_bytes_def
        split: sum.splits if_splits)
  with news_consult [OF a] show "received fd (news w w') = taken_bytes c"
    and "list_all honest_read (news w w') \<Longrightarrow> length (taken_bytes c) \<le> k"
    by (auto simp: received_def taken_bytes_def honest_read_def)
qed

lemma read_turn_gets:
  assumes "traced.keeps (apart fd) tick" and "read_turn tick fd k deadline w = (r, w')"
  shows "did w w'"
    and "r = Inr c \<Longrightarrow> received fd (news w w') = taken_bytes c"
    and "r = Inr c \<Longrightarrow> list_all honest_read (news w w') \<Longrightarrow> length (taken_bytes c) \<le> k"
proof -
  obtain r1 w1 where 1: "frame_ready tick (Some fd) deadline w = (r1, w1)"
    by (cases "frame_ready tick (Some fd) deadline w")
  note quiet = only_apart [OF traced.keepsD [OF frame_ready_apart [OF assms(1)] 1]]
  consider (chunk) "read_chunk (Some fd) k w1 = (r, w')" | (none) "w' = w1" "\<forall>c. r = Inr c \<longrightarrow> c = None"
    using assms(2) 1 by (cases r1) (auto simp: read_turn_def ebind_def split: if_splits)
  then have "did w w' \<and> (r = Inr c \<longrightarrow> received fd (news w w') = taken_bytes c
      \<and> (list_all honest_read (news w w') \<longrightarrow> length (taken_bytes c) \<le> k))"
  proof cases
    case chunk
    have d: "did w1 w'" using traced.keepsD [OF read_chunk_any chunk] by (rule only_did)
    note n = news_trans [OF quiet(1) d]
    show ?thesis
      using did_trans [OF quiet(1) d] quiet(3) read_chunk_gets [of fd k w1 c w'] chunk by (auto simp: n)
  next
    case none
    have "received fd (news w w') = []" "did w w'" using quiet(1,3) none(1) by simp_all
    moreover have "taken_bytes c = []" if "r = Inr c" using none(2) that by (simp add: taken_bytes_def)
    ultimately show ?thesis by simp
  qed
  then show "did w w'"
    and "r = Inr c \<Longrightarrow> received fd (news w w') = taken_bytes c"
    and "r = Inr c \<Longrightarrow> list_all honest_read (news w w') \<Longrightarrow> length (taken_bytes c) \<le> k"
    by blast+
qed

text \<open>Whatever a turn ends with, it never takes more than it asked for.\<close>

lemma read_chunk_takes:
  assumes "read_chunk (Some fd) k w = (r, w')" and "list_all honest_read (news w w')"
  shows "length (received fd (news w w')) \<le> k"
proof -
  obtain a w1 where a: "consult (PipeRead fd k) w = (a, w1)" by (cases "consult (PipeRead fd k) w")
  have "w' = w1"
    using assms(1) a
    by (auto simp: read_chunk_def end_of_def ask_bytes_def ebind_def try_except_def as_bytes_def
        split: sum.splits if_splits)
  with news_consult [OF a] assms(2) show ?thesis
    by (auto simp: received_def honest_read_def split: sum.splits)
qed

lemma read_turn_takes:
  assumes "traced.keeps (apart fd) tick" and "read_turn tick fd k deadline w = (r, w')"
    and "list_all honest_read (news w w')"
  shows "length (received fd (news w w')) \<le> k"
proof -
  obtain r1 w1 where 1: "frame_ready tick (Some fd) deadline w = (r1, w1)"
    by (cases "frame_ready tick (Some fd) deadline w")
  note quiet = only_apart [OF traced.keepsD [OF frame_ready_apart [OF assms(1)] 1]]
  consider (chunk) "read_chunk (Some fd) k w1 = (r, w')" | (none) "w' = w1"
    using assms(2) 1 by (cases r1) (auto simp: read_turn_def ebind_def split: if_splits)
  then show ?thesis
  proof cases
    case chunk
    have d: "did w1 w'" using traced.keepsD [OF read_chunk_any chunk] by (rule only_did)
    from read_chunk_takes [OF chunk] assms(3) quiet(3) show ?thesis by (simp add: news_trans [OF quiet(1) d])
  next
    case none
    with quiet(3) show ?thesis by simp
  qed
qed

text \<open>The turn of the clock before the buffer is looked at.\<close>

definition read_gate :: "('a outside_scheme, unit) prog \<Rightarrow> int \<Rightarrow> ('a outside_scheme, unit) prog" where
  "read_gate tick deadline =
     ebind tick (\<lambda>_. ebind (ask_int Monotonic) (\<lambda>now. if deadline \<le> now then raise deadline_error else ret ()))"

lemma read_gate_apart: "traced.keeps (apart fd) tick \<Longrightarrow> traced.keeps (apart fd) (read_gate tick deadline)"
  unfolding read_gate_def by (intro kept traced_asks; (assumption | simp add: apart_clock))

lemma ebind_if: "ebind (if b then m else n) f = (if b then ebind m f else ebind n f)"
  by simp

lemma ebind_raise: "ebind (raise e) f = raise e"
  by (rule ext) (simp add: ebind_def)

definition read_step :: "('a outside_scheme, unit) prog \<Rightarrow> frames \<Rightarrow> nat \<Rightarrow> int \<Rightarrow> ('a outside_scheme, (pyval \<times> frames) + frames) prog" where
  "read_step tick fr fd deadline =
     ebind (read_gate tick deadline) (\<lambda>_.
     case first_line (pending fr) of
        Some (line, rest) \<Rightarrow> ebind (lift (parse_frame line)) (\<lambda>value. ret (Inl (value, fr\<lparr>pending := rest\<rparr>)))
      | None \<Rightarrow>
          if MAX_FRAME_BYTES \<le> length (pending fr)
          then raise (ValueError ''Worker pipe frame exceeds its bound'')
          else
          ebind (read_turn tick fd (min PIPE_CHUNK (MAX_FRAME_BYTES - length (pending fr))) deadline) (\<lambda>chunk.
          if chunk = Some [] then raise (EOFError ''Worker pipe exited without its complete bounded frame'')
          else ret (Inr (fr\<lparr>pending := pending fr @ taken_bytes chunk\<rparr>))))"

lemma read_loop_step:
  assumes "reader fr = Some fd"
  shows "read_loop (Suc fuel) tick fr deadline w =
    (case read_step tick fr fd deadline w of
       (Inl e, w1) \<Rightarrow> (Inl e, w1)
     | (Inr (Inl result), w1) \<Rightarrow> (Inr result, w1)
     | (Inr (Inr fr'), w1) \<Rightarrow> read_loop fuel tick fr' deadline w1)"
proof (cases "read_gate tick deadline w")
  case (Pair r1 w1)
  then have gate: "ebind tick (\<lambda>_. ebind (ask_int Monotonic) (\<lambda>now. if deadline \<le> now then raise deadline_error else m)) w
      = (case r1 of Inl e \<Rightarrow> (Inl e, w1) | Inr _ \<Rightarrow> m w1)" for m :: "('a outside_scheme, 'b) prog"
    by (auto simp: read_gate_def ebind_def split: prod.splits sum.splits if_splits)
  have step: "read_step tick fr fd deadline w = (case r1 of Inl e \<Rightarrow> (Inl e, w1) | Inr _ \<Rightarrow>
      (case first_line (pending fr) of
        Some (line, rest) \<Rightarrow> ebind (lift (parse_frame line)) (\<lambda>value. ret (Inl (value, fr\<lparr>pending := rest\<rparr>)))
      | None \<Rightarrow>
          if MAX_FRAME_BYTES \<le> length (pending fr)
          then raise (ValueError ''Worker pipe frame exceeds its bound'')
          else
          ebind (read_turn tick fd (min PIPE_CHUNK (MAX_FRAME_BYTES - length (pending fr))) deadline) (\<lambda>chunk.
          if chunk = Some [] then raise (EOFError ''Worker pipe exited without its complete bounded frame'')
          else ret (Inr (fr\<lparr>pending := pending fr @ taken_bytes chunk\<rparr>)))) w1)"
    by (simp add: read_step_def ebind_def Pair split: sum.split)
  note loop = read_loop.simps(2) [of fuel tick fr deadline, THEN fun_cong, of w, unfolded gate]
  show ?thesis
  proof (cases r1)
    case (Inr u)
    show ?thesis
    proof (cases "first_line (pending fr)")
      case None
      let ?k = "min PIPE_CHUNK (MAX_FRAME_BYTES - length (pending fr))"
      obtain r2 w2 where 2: "frame_ready tick (Some fd) deadline w1 = (r2, w2)"
        by (cases "frame_ready tick (Some fd) deadline w1")
      obtain r3 w3 where 3: "read_chunk (Some fd) ?k w2 = (r3, w3)" by (cases "read_chunk (Some fd) ?k w2")
      show ?thesis
        using 2 3 by (cases r2; cases r3)
          (auto simp: loop step Inr None assms ebind_def read_turn_def taken_bytes_def
            simp del: read_loop.simps split: option.splits list.splits)
    next
      case (Some p)
      show ?thesis by (cases p) (simp add: loop step Inr Some ebind_def split: sum.split del: read_loop.simps)
    qed
  qed (simp add: loop step del: read_loop.simps)
qed

lemma newline_inside: "newline \<in> set b \<Longrightarrow> length (takeWhile (\<lambda>c. c \<noteq> newline) b) < length b"
  by (induction b) auto

lemma first_line_append:
  assumes "first_line b = Some (b, [])"
  shows "first_line (b @ c) = Some (b, c)"
proof -
  let ?n = "length (takeWhile (\<lambda>x. x \<noteq> newline) b)"
  have there: "newline \<in> set b" and le: "length b \<le> ?n + 1"
    using assms by (auto simp: first_line_def Let_def split: if_splits)
  from newline_inside [OF there] le have "?n + 1 = length b" by simp
  with there show ?thesis by (simp add: first_line_def Let_def takeWhile_append1)
qed

lemma first_line_line:
  assumes "newline \<notin> set a"
  shows "first_line (a @ newline # c) = Some (a @ [newline], c)"
proof -
  have "takeWhile (\<lambda>x. x \<noteq> newline) (a @ newline # c) = a" using assms by (induction a) auto
  then show ?thesis by (simp add: first_line_def Let_def)
qed

lemma first_line_split:
  assumes "first_line b = Some (line, rest)"
  shows "b = line @ rest" "first_line line = Some (line, [])"
proof -
  let ?n = "length (takeWhile (\<lambda>c. c \<noteq> newline) b)"
  have there: "newline \<in> set b" and eq: "line = take (?n + 1) b" "rest = drop (?n + 1) b"
    using assms by (auto simp: first_line_def Let_def split: if_splits)
  then show "b = line @ rest" by simp
  from newline_inside [OF there] have lt: "?n < length b" .
  have nl: "b ! ?n = newline" using nth_length_takeWhile [OF lt] by simp
  have "line = takeWhile (\<lambda>c. c \<noteq> newline) b @ [newline]"
    unfolding eq using lt nl by (simp add: take_Suc_conv_app_nth takeWhile_eq_take [symmetric])
  then show "first_line line = Some (line, [])"
    by (simp add: first_line_def Let_def takeWhile_append)
qed

definition read_frame :: "frames \<Rightarrow> bytes \<Rightarrow> pyval \<Rightarrow> frames \<Rightarrow> bool" where
  "read_frame fr incoming value fr' \<longleftrightarrow>
     (\<exists>line. first_line (pending fr @ incoming) = Some (line, pending fr') \<and> parse_frame line = Inr value
        \<and> fr' = fr\<lparr>pending := pending fr'\<rparr>)"

lemma read_step_gets:
  assumes "traced.keeps (apart fd) tick" and "read_step tick fr fd deadline w = (r, w')"
  shows "did w w'"
    and "r = Inr (Inl (value, fr')) \<Longrightarrow> received fd (news w w') = [] \<and> read_frame fr [] value fr'"
    and "r = Inr (Inr fr') \<Longrightarrow> fr' = fr\<lparr>pending := pending fr @ received fd (news w w')\<rparr>
      \<and> (list_all honest_read (news w w') \<longrightarrow> length (pending fr') \<le> MAX_FRAME_BYTES)"
proof -
  obtain r1 w1 where 1: "read_gate tick deadline w = (r1, w1)" by (cases "read_gate tick deadline w")
  note quiet = only_apart [OF traced.keepsD [OF read_gate_apart [OF assms(1)] 1]]
  let ?k = "min PIPE_CHUNK (MAX_FRAME_BYTES - length (pending fr))"
  obtain r2 w2 where 2: "read_turn tick fd ?k deadline w1 = (r2, w2)" by (cases "read_turn tick fd ?k deadline w1")
  note turn = read_turn_gets [OF assms(1) 2]
  note d2 = did_trans [OF quiet(1) turn(1)]
  consider (early) "w' = w1" "\<forall>s. r = Inr s \<longrightarrow> (\<exists>v line rest. s = Inl (v, fr\<lparr>pending := rest\<rparr>)
        \<and> first_line (pending fr) = Some (line, rest) \<and> parse_frame line = Inr v)"
    | (late) "w' = w2" "\<forall>s. r = Inr s \<longrightarrow> (\<exists>c. r2 = Inr c \<and> s = Inr (fr\<lparr>pending := pending fr @ taken_bytes c\<rparr>))"
        "\<not> MAX_FRAME_BYTES \<le> length (pending fr)"
    using assms(2) 1 2
    by (cases r1; cases r2; cases "first_line (pending fr)")
      (auto simp: read_step_def ebind_def split: if_splits sum.splits)
  then have "did w w'
    \<and> (r = Inr (Inl (value, fr')) \<longrightarrow> received fd (news w w') = [] \<and> read_frame fr [] value fr')
    \<and> (r = Inr (Inr fr') \<longrightarrow> fr' = fr\<lparr>pending := pending fr @ received fd (news w w')\<rparr>
      \<and> (list_all honest_read (news w w') \<longrightarrow> length (pending fr') \<le> MAX_FRAME_BYTES))"
  proof cases
    case early
    with quiet show ?thesis by (auto simp: read_frame_def)
  next
    case late
    note n = news_trans [OF quiet(1) turn(1)]
    show ?thesis
    proof (cases "r = Inr (Inr fr')")
      case True
      with late(2) obtain c where c: "r2 = Inr c" "fr' = fr\<lparr>pending := pending fr @ taken_bytes c\<rparr>" by auto
      with turn(2) [OF c(1)] turn(3) [OF c(1)] late(1,3) quiet(3) d2 True show ?thesis by (auto simp: n)
    next
      case False
      with late(1,2) d2 show ?thesis by auto
    qed
  qed
  then show "did w w'"
    and "r = Inr (Inl (value, fr')) \<Longrightarrow> received fd (news w w') = [] \<and> read_frame fr [] value fr'"
    and "r = Inr (Inr fr') \<Longrightarrow> fr' = fr\<lparr>pending := pending fr @ received fd (news w w')\<rparr>
      \<and> (list_all honest_read (news w w') \<longrightarrow> length (pending fr') \<le> MAX_FRAME_BYTES)"
    by blast+
qed

lemma read_loop_gets:
  assumes "traced.keeps (apart fd) tick"
  shows "read_loop fuel tick fr deadline w = (r, w') \<Longrightarrow> reader fr = Some fd \<Longrightarrow>
     did w w'
     \<and> (\<forall>value fr'. r = Inr (value, fr') \<longrightarrow> read_frame fr (received fd (news w w')) value fr')"
proof (induction fuel arbitrary: fr w)
  case (Suc fuel)
  obtain r1 w1 where 1: "read_step tick fr fd deadline w = (r1, w1)" by (cases "read_step tick fr fd deadline w")
  note step = read_step_gets [OF assms 1]
  note eq = read_loop_step [OF Suc.prems(2), of fuel tick deadline w, unfolded Suc.prems(1) 1]
  show ?case
  proof (cases r1)
    case (Inl e)
    with eq step(1) show ?thesis by simp
  next
    case (Inr s)
    show ?thesis
    proof (cases s)
      case (Inl p)
      with eq Inr step(1) step(2) [of "fst p" "snd p"] show ?thesis by (auto simp: read_frame_def)
    next
      case (Inr fr1)
      note fr1 = step(3) [of fr1, unfolded \<open>r1 = Inr s\<close> Inr, OF refl, THEN conjunct1]
      from eq \<open>r1 = Inr s\<close> Inr have "read_loop fuel tick fr1 deadline w1 = (r, w')" by simp
      from Suc.IH [OF this] fr1 Suc.prems(2) have ih: "did w1 w'"
        "\<And>value fr'. r = Inr (value, fr') \<Longrightarrow> read_frame fr1 (received fd (news w1 w')) value fr'"
        by auto
      with step(1) fr1 show ?thesis
        by (auto simp: read_frame_def news_trans [OF step(1) ih(1)] intro: did_trans)
    qed
  qed
qed auto

lemma read_step_takes:
  assumes "traced.keeps (apart fd) tick" and "read_step tick fr fd deadline w = (r, w')"
    and "list_all honest_read (news w w')" and "length (pending fr) \<le> MAX_FRAME_BYTES"
  shows "length (pending fr) + length (received fd (news w w')) \<le> MAX_FRAME_BYTES"
proof -
  let ?k = "min PIPE_CHUNK (MAX_FRAME_BYTES - length (pending fr))"
  obtain r1 w1 where 1: "read_gate tick deadline w = (r1, w1)" by (cases "read_gate tick deadline w")
  note quiet = only_apart [OF traced.keepsD [OF read_gate_apart [OF assms(1)] 1]]
  obtain r2 w2 where 2: "read_turn tick fd ?k deadline w1 = (r2, w2)" by (cases "read_turn tick fd ?k deadline w1")
  note d2 = read_turn_gets(1) [OF assms(1) 2]
  consider (early) "w' = w1" | (late) "w' = w2"
    using assms(2) 1 2 by (cases r1; cases r2; cases "first_line (pending fr)")
      (auto simp: read_step_def ebind_def split: if_splits sum.splits)
  then show ?thesis
  proof cases
    case early
    with quiet(3) assms(4) show ?thesis by simp
  next
    case late
    note n = news_trans [OF quiet(1) d2]
    have "length (received fd (news w1 w2)) \<le> ?k"
      using read_turn_takes [OF assms(1) 2] assms(3) by (simp add: late n)
    with quiet(3) assms(4) show ?thesis by (auto simp: late n)
  qed
qed

lemma read_loop_takes:
  assumes "traced.keeps (apart fd) tick"
  shows "read_loop fuel tick fr deadline w = (r, w') \<Longrightarrow> reader fr = Some fd \<Longrightarrow>
     list_all honest_read (news w w') \<Longrightarrow> length (pending fr) \<le> MAX_FRAME_BYTES \<Longrightarrow>
     length (pending fr) + length (received fd (news w w')) \<le> MAX_FRAME_BYTES"
proof (induction fuel arbitrary: fr w)
  case (Suc fuel)
  obtain r1 w1 where 1: "read_step tick fr fd deadline w = (r1, w1)" by (cases "read_step tick fr fd deadline w")
  note step = read_step_gets [OF assms 1]
  note takes = read_step_takes [OF assms 1 _ Suc.prems(4)]
  note eq = read_loop_step [OF Suc.prems(2), of fuel tick deadline w, unfolded Suc.prems(1) 1]
  show ?case
  proof (cases "\<exists>fr1. r1 = Inr (Inr fr1)")
    case True
    then obtain fr1 where r1: "r1 = Inr (Inr fr1)" ..
    note fr1 = step(3) [of fr1, OF r1, THEN conjunct1]
    from eq r1 have loop: "read_loop fuel tick fr1 deadline w1 = (r, w')" by simp
    have rd: "reader fr1 = Some fd" using fr1 Suc.prems(2) by simp
    have d: "did w1 w'" using read_loop_gets [OF assms loop rd] by blast
    note n = news_trans [OF step(1) d]
    have "length (pending fr1) \<le> MAX_FRAME_BYTES" using takes Suc.prems(3) by (simp add: fr1 n)
    from Suc.IH [OF loop rd _ this] Suc.prems(3) show ?thesis by (simp add: fr1 n)
  next
    case False
    with eq have "w' = w1" by (auto split: sum.splits)
    with takes Suc.prems(3) show ?thesis by simp
  qed
qed simp

section \<open>One JSON line\<close>

definition line_char :: "nat \<Rightarrow> bool" where
  "line_char c \<longleftrightarrow> c \<noteq> 10"

lemma line_hex: "hex_digit n \<noteq> 10"
  by (simp add: hex_digit_def)

lemma line_escape_char: "list_all line_char (escape_char True c)"
  by (auto simp: escape_char_def Let_def u_escape_def line_hex lit_simps line_char_def)

lemma line_quote: "list_all line_char (quote True s)"
proof -
  have "list_all line_char (escape True s)" by (induction s) (simp_all add: escape_def line_escape_char)
  then show ?thesis by (simp add: quote_def line_char_def)
qed

lemma line_dec_int: "list_all line_char (dec_int i)"
  by (auto simp: dec_int_def is_digit_def line_char_def list_all_iff dest!: dec_nat_digits split: if_splits)

lemma render_line:
  "fmt_ok f \<Longrightarrow> ensure_ascii f \<Longrightarrow> json_ok a v \<Longrightarrow> list_all line_char (render f v)"
  "fmt_ok f \<Longrightarrow> ensure_ascii f \<Longrightarrow> list_all (json_ok a) xs \<Longrightarrow> list_all line_char (render_elems f xs)"
  "fmt_ok f \<Longrightarrow> ensure_ascii f \<Longrightarrow> list_all (\<lambda>(k, v). str_ok a k \<and> json_ok a v) d \<Longrightarrow> list_all line_char (render_items f d)"
  by (induction f v and f xs and f d rule: render_render_elems_render_items.induct)
    (auto simp: fmt_ok_def lit_simps line_quote line_dec_int line_char_def split: list.splits)

lemma json_roundtrip_line:
  assumes "fmt_ok f" and "hook_ok h" and "json_ok (ensure_ascii f) v"
  shows "json_loads h (render f v @ [10]) = Inr v"
proof -
  have "parse_value h (Suc (2 * length (render f v @ [10]))) (render f v @ [10]) = Inr (v, [10])"
    using assms by (intro parse_render(1)) (simp_all add: num_end_def is_digit_def)
  moreover have "skip_ws (render f v @ [10]) = render f v @ [10]"
    using skip_ws_render [OF assms(3), of f "[10]"] .
  moreover have "skip_ws [10] = []" by (simp add: skip_ws_def is_json_space_def)
  ultimately show ?thesis by (simp add: json_loads_def del: parse_value.simps)
qed

text \<open>The line of a dictionary is read back as that dictionary, by \<open>Frames.read\<close> and by the helper alike.\<close>

lemma json_line_parses:
  assumes "json_ok True v" "is_dict v" "json_line v = Inr b"
  shows "b = dumps_bytes fmt_compact v @ [newline]" "newline \<notin> set (dumps_bytes fmt_compact v)"
    "strict_loads b = Inr v" "parse_frame b = Inr v"
proof -
  show b: "b = dumps_bytes fmt_compact v @ [newline]"
    using assms(3) by (auto simp: json_line_def dumps_finite_def rbind_def split: if_splits)
  have ok: "fmt_ok fmt_compact" "ensure_ascii fmt_compact" by (rule fmt_ok_formats) (simp add: fmt_compact_def)
  have "c \<noteq> 10 \<and> c < 128" if "c \<in> set (render fmt_compact v)" for c
    using render_line(1) [OF ok assms(1)] render_ascii(1) [OF ok assms(1) that] that
    by (auto simp: list_all_iff line_char_def)
  then have "byte c \<noteq> newline" if "c \<in> set (render fmt_compact v)" for c
    using that unat_byte [of c] unat_byte [of 10] by (fastforce simp: newline_def byte_def)
  then show "newline \<notin> set (dumps_bytes fmt_compact v)" unfolding dumps_bytes_def by force
  have "utf8_encode (render fmt_compact v @ [10]) = Some (map byte (render fmt_compact v @ [10]))"
    by (rule utf8_encode_ascii) (use render_ascii(1) [OF ok assms(1)] in auto)
  then have "utf8_decode b = Some (render fmt_compact v @ [10])"
    using utf8_roundtrip by (fastforce simp: b dumps_bytes_def newline_def byte_def)
  then show parse: "strict_loads b = Inr v"
    using json_roundtrip_line [OF ok(1) strict_hook_ok] assms(1) ok(2) by (simp add: strict_loads_def)
  show "parse_frame b = Inr v" using parse assms(2) by (simp add: parse_frame_def)
qed

section \<open>Properties\<close>

text \<open>
  C28. A frame is sent exactly once and in order.  Whatever the pipe accepts at a time, a write that
  returns has sent exactly the bytes of the frame, and a write that fails has sent a beginning of them.
  The kernel is relied on never to take more bytes than it was offered, and the callback not to use the
  pipe.
\<close>

theorem frame_write_sends:
  assumes "traced.keeps (apart fd) tick" and "writer fr = Some fd"
    and "frame_write fuel tick fr encoded deadline w = (r, w')" and "list_all honest_write (news w w')"
  shows "wrote_part encoded r (sent fd (news w w'))"
proof (cases "MAX_FRAME_BYTES < length encoded")
  case True
  with assms(3) have "r = Inl (ValueError ''Worker pipe request exceeds its bound'')" "w' = w"
    by (simp_all add: frame_write_def)
  then show ?thesis by (simp add: wrote_part_def)
next
  case False
  with assms(2,3) have "write_loop fuel tick (Some fd) encoded 0 deadline w = (r, w')" by (simp add: frame_write_def)
  from write_loop_sends [OF assms(1) this] assms(4) show ?thesis by simp
qed

text \<open>
  C29. A frame survives the pipe.  When the writer's \<open>write\<close> of the line of a dictionary has returned, a
  reader at the other end of the pipe that starts with an empty buffer and whose \<open>read\<close> returns a value
  returns that dictionary, whatever is written later and however both transfers were cut into pieces.
\<close>

theorem frame_roundtrip:
  assumes "json_ok True v" and "is_dict v" and "json_line v = Inr line"
    and "traced.keeps (apart fd) tick" and "writer out = Some fd"
    and "frame_write fuel tick out line deadline w = (Inr (), w')" and "list_all honest_write (news w w')"
    and "traced.keeps (apart fd') tick'" and "reader fr = Some fd'" and "pending fr = []"
    and "frame_read fuel' tick' fr deadline' u = (Inr (value, fr'), u')"
    and "sent fd (news w w') @ later = received fd' (news u u') @ unread"
  shows "value = v"
proof -
  note parse = json_line_parses [OF assms(1-3)]
  have "write_loop fuel tick (Some fd) line 0 deadline w = (Inr (), w')"
    using assms(5,6) by (simp add: frame_write_def split: if_splits)
  from write_loop_sends [OF assms(4) this] assms(7) have sent: "sent fd (news w w') = line"
    by (simp add: wrote_part_def)
  have "read_frame fr (received fd' (news u u')) value fr'"
    using read_loop_gets [OF assms(8) assms(11) [unfolded frame_read_def] assms(9)] by simp
  then obtain l where l: "first_line (received fd' (news u u')) = Some (l, pending fr')" "parse_frame l = Inr value"
    using assms(10) by (auto simp: read_frame_def)
  from first_line_split [OF l(1)] have split: "received fd' (news u u') = l @ pending fr'" "first_line l = Some (l, [])"
    by simp_all
  have whole: "line @ later = l @ (pending fr' @ unread)" using assms(12) sent split(1) by simp
  have "first_line line = Some (line, [])"
    using first_line_line [OF parse(2), of "[]"] by (simp add: parse(1))
  from first_line_append [OF this] first_line_append [OF split(2)]
  have f: "first_line (line @ later) = Some (line, later)"
    "first_line (l @ (pending fr' @ unread)) = Some (l, pending fr' @ unread)" .
  from f(1) [unfolded whole] f(2) have "line = l" by simp
  with l(2) parse(4) show ?thesis by simp
qed

text \<open>
  C30. A peer cannot make a reader hold more than the bound.  From a buffer within \<open>MAX_FRAME_BYTES\<close>, a
  read of a frame never has more than \<open>MAX_FRAME_BYTES\<close> bytes in its buffer, counting what was there before
  it and all it takes from the pipe, however it ends and however long the peer keeps writing; the buffer it
  leaves, with its line taken out, is a remainder of these.  The kernel is relied on never to answer
  more bytes than a call asked for.
\<close>

theorem frame_read_bounded:
  assumes "traced.keeps (apart fd) tick" and "reader fr = Some fd" and "length (pending fr) \<le> MAX_FRAME_BYTES"
    and "frame_read fuel tick fr deadline w = (r, w')" and "list_all honest_read (news w w')"
  shows "length (pending fr @ received fd (news w w')) \<le> MAX_FRAME_BYTES
    \<and> (\<forall>value fr'. r = Inr (value, fr') \<longrightarrow>
         (\<exists>line. pending fr @ received fd (news w w') = line @ pending fr' \<and> parse_frame line = Inr value))"
proof
  note run = assms(4) [unfolded frame_read_def]
  show "length (pending fr @ received fd (news w w')) \<le> MAX_FRAME_BYTES"
    using read_loop_takes [OF assms(1) run assms(2,5,3)] by simp
  show "\<forall>value fr'. r = Inr (value, fr') \<longrightarrow>
      (\<exists>line. pending fr @ received fd (news w w') = line @ pending fr' \<and> parse_frame line = Inr value)"
    using read_loop_gets [OF assms(1) run assms(2)] first_line_split(1) unfolding read_frame_def by blast
qed

section \<open>A sample pipe\<close>

definition sample_outside :: "(exn + pyval) list \<Rightarrow> outside" where
  "sample_outside rs =
     \<lparr>fs = empty_root, script = [], uid = 7, pid = 7, umask = 0, entropy = (\<lambda>_. 0), drawn = 0,
      replies = map (\<lambda>r. ([], r)) rs, calls = [], bus_owner = [], unknown = False, generation = 0\<rparr>"

text \<open>The pipe takes two bytes and then one; the reader gets them, and one of the next frame.\<close>

definition write_replies :: "(exn + pyval) list" where
  "write_replies = [Inr (PInt 0), Inr (PBool True), Inr (PInt 2), Inr (PInt 0), Inr (PBool True), Inr (PInt 1)]"

definition read_replies :: "(exn + pyval) list" where
  "read_replies =
     [Inr (PInt 0), Inr (PInt 0), Inr (PBool True), Inr (PStr [123, 125]),
      Inr (PInt 0), Inr (PInt 0), Inr (PBool True), Inr (PStr [10, 65]), Inr (PInt 0)]"

definition sample_line :: bytes where "sample_line = [123, 125, 10]"

lemma sample_line_json: "json_line (PDict []) = Inr sample_line"
  by (simp add: json_line_def dumps_finite_def dumps_bytes_def newline_def sample_line_def byte_def lit_simps)

lemma sample_write:
  "\<exists>w'. frame_write (Suc (Suc (Suc 0))) (ret ()) (new_frames 4 5) sample_line 9 (sample_outside write_replies) = (Inr (), w')
     \<and> list_all honest_write (news (sample_outside write_replies) w')
     \<and> sent 4 (news (sample_outside write_replies) w') = sample_line"
  by (simp add: frame_write_def new_frames_def MAX_FRAME_BYTES_def sample_line_def PIPE_CHUNK_def
      frame_ready_def write_slice_def end_of_def ask_int_def ask_bool_def ask_nat_def as_int_def as_bool_def as_nat_def
      consult_def ebind_def try_except_def sample_outside_def write_replies_def news_def sent_def honest_write_def)

lemma sample_line_parses: "parse_frame sample_line = Inr (PDict [])"
  by (rule json_line_parses(4)) (simp_all add: sample_line_json)

lemma sample_read:
  "\<exists>u'. frame_read (Suc (Suc (Suc 0))) (ret ()) (new_frames 4 5) 9 (sample_outside read_replies)
       = (Inr (PDict [], (new_frames 4 5)\<lparr>pending := [65]\<rparr>), u')
     \<and> received 5 (news (sample_outside read_replies) u') = sample_line @ [65]
     \<and> list_all honest_read (news (sample_outside read_replies) u')"
proof -
  have l: "first_line [] = None" "first_line [123, 125] = None" "first_line [123, 125, 10, 65] = Some (sample_line, [65])"
    by (simp_all add: first_line_def newline_def sample_line_def)
  have b: "byte 123 = 123" "byte 125 = 125" "byte 10 = 10" "byte 65 = 65" by (simp_all add: byte_def)
  show ?thesis
    using l sample_line_parses
    by (simp add: frame_read_def new_frames_def MAX_FRAME_BYTES_def PIPE_CHUNK_def
        frame_ready_def read_chunk_def end_of_def ask_int_def ask_bool_def ask_bytes_def as_int_def as_bool_def
        as_bytes_def consult_def ebind_def try_except_def sample_outside_def read_replies_def news_def received_def
        honest_read_def sample_line_def b)
qed

lemma idle_apart: "traced.keeps (apart fd) (ret ())"
  by (intro kept)

theorem frame_write_sends_witness:
  "\<exists>w'. frame_write (Suc (Suc (Suc 0))) (ret ()) (new_frames 4 5) sample_line 9 (sample_outside write_replies) = (Inr (), w')
     \<and> wrote_part sample_line (Inr ()) (sent 4 (news (sample_outside write_replies) w'))"
proof -
  obtain w' where run: "frame_write (Suc (Suc (Suc 0))) (ret ()) (new_frames 4 5) sample_line 9 (sample_outside write_replies)
      = (Inr (), w')" "list_all honest_write (news (sample_outside write_replies) w')"
    using sample_write by blast
  from frame_write_sends [OF idle_apart _ run] run(1) show ?thesis by (auto simp: new_frames_def)
qed

theorem frame_roundtrip_witness:
  "\<exists>value fr' u'. frame_read (Suc (Suc (Suc 0))) (ret ()) (new_frames 4 5) 9 (sample_outside read_replies)
       = (Inr (value, fr'), u') \<and> value = PDict [] \<and> pending fr' = [65]"
proof -
  obtain w' where w: "frame_write (Suc (Suc (Suc 0))) (ret ()) (new_frames 4 5) sample_line 9 (sample_outside write_replies)
      = (Inr (), w')" "list_all honest_write (news (sample_outside write_replies) w')"
      "sent 4 (news (sample_outside write_replies) w') = sample_line"
    using sample_write by blast
  obtain x fr' u' where u: "frame_read (Suc (Suc (Suc 0))) (ret ()) (new_frames 4 5) 9 (sample_outside read_replies)
       = (Inr (x, fr'), u')" "pending fr' = [65]" "received 5 (news (sample_outside read_replies) u') = sample_line @ [65]"
    using sample_read by fastforce
  have pipe: "sent 4 (news (sample_outside write_replies) w') @ [65] = received 5 (news (sample_outside read_replies) u') @ []"
    using w(3) u(3) by simp
  have "x = PDict []"
    by (rule frame_roundtrip [OF _ _ sample_line_json idle_apart _ w(1,2) idle_apart _ _ u(1) pipe])
      (simp_all add: new_frames_def)
  with u show ?thesis by blast
qed

theorem frame_read_bounded_witness:
  "\<exists>u'. frame_read (Suc (Suc (Suc 0))) (ret ()) (new_frames 4 5) 9 (sample_outside read_replies)
       = (Inr (PDict [], (new_frames 4 5)\<lparr>pending := [65]\<rparr>), u')
     \<and> length (received 5 (news (sample_outside read_replies) u')) \<le> MAX_FRAME_BYTES"
proof -
  obtain u' where u: "frame_read (Suc (Suc (Suc 0))) (ret ()) (new_frames 4 5) 9 (sample_outside read_replies)
       = (Inr (PDict [], (new_frames 4 5)\<lparr>pending := [65]\<rparr>), u')"
      "list_all honest_read (news (sample_outside read_replies) u')"
    using sample_read by blast
  have "length (pending (new_frames 4 5) @ received 5 (news (sample_outside read_replies) u')) \<le> MAX_FRAME_BYTES"
    by (rule frame_read_bounded [OF idle_apart _ _ u, THEN conjunct1]) (simp_all add: new_frames_def)
  with u(1) show ?thesis by (auto simp: new_frames_def)
qed

end
