(* ===== verification/Download_Properties.thy ===== *)
theory Download_Properties
  imports Worker_Samples
begin

text \<open>
  The download of a workspace snapshot: whatever the server answers and whatever other processes do that
  keep the rules, only a verified snapshot gets the name of the destination, and never in the place of
  something that is there.
\<close>

section \<open>What happens to the files\<close>

text \<open>Like \<open>evolves\<close>, for programs that also change the connection they carry.\<close>

definition moves :: "(nat \<Rightarrow> bool) \<Rightarrow> (nat \<Rightarrow> bool) \<Rightarrow> 'a posix_scheme \<Rightarrow> 'a posix_scheme \<Rightarrow> bool" where
  "moves P S w w' \<longleftrightarrow>
     (fair P S w \<longrightarrow> fair P S w' \<and> acts (\<lambda>q. P q \<or> q = pid w) S (fs w) (fs w')) \<and> pid w' = pid w \<and> uid w' = uid w"

interpretation moving: effect_relation "moves P S" for P S
proof
  show "moves P S w w" for w :: "'a posix_scheme" by (simp add: moves_def)
  show "moves P S u v \<Longrightarrow> moves P S v w \<Longrightarrow> moves P S u w" for u v w :: "'a posix_scheme"
    by (auto simp: moves_def intro: acts_trans)
qed

lemma evolves_moves: "evolves P S w w' \<Longrightarrow> moves P S w w'"
  by (simp add: evolves_def moves_def)

text \<open>A tool call reaches the server and leaves the files to the other processes.\<close>

definition remote_tool :: "(nat \<Rightarrow> bool) \<Rightarrow> (nat \<Rightarrow> bool) \<Rightarrow> ('a posix_scheme) tool \<Rightarrow> bool" where
  "remote_tool P S ask \<longleftrightarrow>
     (\<forall>name arguments w. fair P S w \<longrightarrow>
        fair P S (snd (ask name arguments w)) \<and> acts P S (fs w) (fs (snd (ask name arguments w)))
        \<and> pid (snd (ask name arguments w)) = pid w \<and> uid (snd (ask name arguments w)) = uid w)"

text \<open>The staging file between two calls: only this process knows it, and these are its bytes.\<close>

definition drafted :: "(nat \<Rightarrow> bool) \<Rightarrow> (nat \<Rightarrow> bool) \<Rightarrow> 'a posix_scheme \<Rightarrow> 'a posix_scheme \<Rightarrow> nat \<Rightarrow> nat \<Rightarrow> pystr \<Rightarrow> bytes \<Rightarrow> bool"
where
  "drafted P S w0 w i d s b \<longleftrightarrow>
     moves P S w0 w \<and> fair P S w \<and> unshared (fs w) (pid w) i d s \<and> owner (inode (fs w) i) = uid w
     \<and> content (inode (fs w) i) = b"

lemma drafted_moves: "drafted P S w0 w i d s b \<Longrightarrow> moves P S w w' \<Longrightarrow> moves P S w0 w'"
  unfolding drafted_def by (blast intro: moving.R_trans)

lemma wp_ask:
  assumes "remote_tool P S ask" "drafted P S w0 w i d s b"
  shows "wp (ask name arguments) (\<lambda>r w'. drafted P S w0 w' i d s b) w"
proof -
  obtain r w' where run: "ask name arguments w = (r, w')" by (cases "ask name arguments w")
  have f: "fair P S w" and u: "unshared (fs w) (pid w) i d s" using assms(2) by (simp_all add: drafted_def)
  with assms(1) have w': "fair P S w'" "acts P S (fs w) (fs w')" "pid w' = pid w" "uid w' = uid w"
    unfolding remote_tool_def by (metis run snd_conv)+
  have np: "\<not> P (pid w)" using f by (simp add: fair_def)
  have "moves P S w w'" using w' by (auto simp: moves_def intro: acts_mono)
  then have "moves P S w0 w'" using assms(2) drafted_moves by blast
  moreover have "owner (inode (fs w') i) = owner (inode (fs w) i)"
    using u actsD(4) [OF w'(2)] by (simp add: unshared_def)
  moreover have "unshared (fs w') (pid w) i d s" "kept (inode (fs w) i) (inode (fs w') i)"
    using unshared_acts [OF u w'(2) np] unshared_kept [OF u w'(2) np] .
  ultimately show ?thesis using assms(2) w' by (simp add: wp_def run drafted_def kept_def)
qed

lemma wp_save_chunk:
  assumes "remote_tool P S ask" "drafted P S w0 w i d s b" "\<not> published s"
  shows "wp (save_chunk ask i room descriptor nbytes snap offset)
    (\<lambda>r w'. moves P S w0 w' \<and> fair P S w' \<and>
       (\<forall>data. r = Inr data \<longrightarrow> drafted P S w0 w' i d s (b @ data) \<and> offset + int (length data) \<le> nbytes)) w"
    (is "wp _ ?Q w")
  unfolding save_chunk_def
proof (rule wp_ebindI [OF wp_ask [OF assms(1,2)]], goal_cases)
  case (1 e w')
  then show ?case by (simp add: drafted_def)
next
  case (2 part w1)
  show ?case
  proof (cases "check_chunk descriptor nbytes offset part")
    case (Inl e)
    with 2 show ?thesis by (simp add: drafted_def)
  next
    case (Inr data)
    have w: "wp (sys_write i data) (\<lambda>r w'. evolves P S w1 w' \<and> unshared (fs w') (pid w1) i d s
       \<and> owner (inode (fs w') i) = owner (inode (fs w1) i)
       \<and> (\<forall>v. r = Inr v \<longrightarrow> (\<exists>x. kept (inode (fs w1) i) x \<and>
            inode (fs w') i = x\<lparr>content := content x @ data, changed := Suc (changed x)\<rparr>))) w1"
      using 2 assms(3) by (intro wp_write) (simp_all add: drafted_def)
    have "wp (sys_write i data) (\<lambda>r w'. moves P S w0 w' \<and> fair P S w' \<and> (r = Inr () \<longrightarrow> drafted P S w0 w' i d s (b @ data))) w1"
    proof (rule wp_mono [OF w])
      fix r :: "exn + unit" and w' assume h: "evolves P S w1 w' \<and> unshared (fs w') (pid w1) i d s
       \<and> owner (inode (fs w') i) = owner (inode (fs w1) i)
       \<and> (\<forall>v. r = Inr v \<longrightarrow> (\<exists>x. kept (inode (fs w1) i) x \<and>
            inode (fs w') i = x\<lparr>content := content x @ data, changed := Suc (changed x)\<rparr>))"
      then have "moves P S w1 w'" by (simp add: evolves_moves)
      with 2 drafted_moves have m: "moves P S w0 w'" by blast
      from \<open>moves P S w1 w'\<close> 2 have "fair P S w'" by (simp add: moves_def drafted_def)
      with m h 2 show "moves P S w0 w' \<and> fair P S w' \<and> (r = Inr () \<longrightarrow> drafted P S w0 w' i d s (b @ data))"
        by (auto simp: drafted_def kept_def evolves_def)
    qed
    then show ?thesis
      using check_chunk_Inr(3) [OF Inr] by (simp add: Inr, elim wp_mono) (auto split: sum.split)
  qed
qed

lemma wp_download_loop:
  "remote_tool P S ask \<Longrightarrow> \<not> published s \<Longrightarrow>
   drafted P S w0 w i d s (concat chunks) \<Longrightarrow> offset = int (length (concat chunks)) \<Longrightarrow> offset \<le> nbytes \<Longrightarrow>
    wp (download_loop ask i room descriptor nbytes snap chunks offset)
      (\<lambda>r w'. moves P S w0 w' \<and> fair P S w' \<and> (\<forall>cs. r = Inr cs \<longrightarrow>
         drafted P S w0 w' i d s (concat cs) \<and> int (length (concat cs)) = nbytes)) w"
proof (induction ask i room descriptor nbytes snap chunks offset w rule: download_loop.induct)
  case (1 ask i room descriptor nbytes snap chunks offset w)
  show ?case
  proof (cases "offset < nbytes")
    case True
    obtain r1 w1 where 2: "save_chunk ask i room descriptor nbytes snap offset w = (r1, w1)"
      by (cases "save_chunk ask i room descriptor nbytes snap offset w")
    note saved = wpD [OF wp_save_chunk [OF 1(2,4,3)] 2]
    show ?thesis
    proof (cases r1)
      case (Inl e)
      have "download_loop ask i room descriptor nbytes snap chunks offset w = (Inl e, w1)"
        by (subst download_loop.simps) (simp add: True 2 Inl)
      with saved show ?thesis by (simp add: wp_def)
    next
      case (Inr data)
      have eq: "download_loop ask i room descriptor nbytes snap chunks offset w
          = download_loop ask i room descriptor nbytes snap (chunks @ [data]) (offset + int (length data)) w1"
        by (subst download_loop.simps) (simp add: True 2 Inr)
      from saved Inr have "drafted P S w0 w1 i d s (concat (chunks @ [data]))" "offset + int (length data) \<le> nbytes"
        by simp_all
      from 1(1) [OF True 2 [symmetric] Inr 1(2,3) this(1) _ this(2)] 1(5) show ?thesis
        unfolding wp_def eq by simp
    qed
  next
    case False
    have "download_loop ask i room descriptor nbytes snap chunks offset w = (Inr chunks, w)"
      by (subst download_loop.simps) (simp add: False)
    with 1(4-6) False show ?thesis by (simp add: wp_def drafted_def)
  qed
qed

section \<open>The whole download\<close>

text \<open>\<open>tempfile.mkstemp\<close> gives a new file that only this process knows.\<close>

lemma wp_mkstemp_tries:
  "fair P S w \<Longrightarrow>
     wp (mkstemp_tries k d pre) (\<lambda>r w'. evolves P S w w' \<and> (\<forall>i s. r = Inr (i, s) \<longrightarrow>
        drafted P S w w' i d s [] \<and> (\<exists>t. s = pre @ t))) w"
proof (induction k arbitrary: w)
  case 0
  then show ?case by (simp add: wp_def shared.R_refl)
next
  case (Suc k)
  obtain r1 w1 where 1: "draw 8 w = (r1, w1)" by (cases "draw 8 w")
  have e1: "evolves P S w w1" using keeps_draw 1 by (rule shared.keepsD)
  obtain b where b: "r1 = Inr b" using 1 by (auto simp: draw_def)
  have f1: "fair P S w1" using evolvesD(1) [OF e1 Suc.prems] .
  let ?n = "pre @ map tmp_char b"
  obtain r2 w2 where 2: "sys_create d ?n 384 w1 = (r2, w2)" by (cases "sys_create d ?n 384 w1")
  note made = wpD [OF wp_create [OF f1] 2]
  have e2: "evolves P S w w2" using shared.R_trans [OF e1] made by blast
  have f2: "fair P S w2" using evolvesD(1) [OF e2 Suc.prems] .
  have run: "mkstemp_tries (Suc k) d pre w = (case r2 of Inr fd \<Rightarrow> (Inr (fd, ?n), w2)
      | Inl e \<Rightarrow> if e = FileExistsError then mkstemp_tries k d pre w2 else (Inl e, w2))"
    using 1 2 b by (simp add: ebind_def try_except_def Let_def split: sum.split)
  show ?case
  proof (cases r2)
    case (Inr fd)
    have "drafted P S w w2 fd d ?n []"
      using made Inr f2 e2 evolvesD(3,4) [OF e1 Suc.prems] evolvesD(3,4) [OF e2 Suc.prems]
      by (simp add: drafted_def evolves_moves)
    with run Inr e2 show ?thesis by (simp add: wp_def)
  next
    case (Inl e)
    show ?thesis
    proof (cases "e = FileExistsError")
      case True
      obtain r3 w3 where 3: "mkstemp_tries k d pre w2 = (r3, w3)" by (cases "mkstemp_tries k d pre w2")
      note rest = wpD [OF Suc.IH [OF f2] 3]
      have "evolves P S w w3" using shared.R_trans [OF e2] rest by blast
      moreover have "drafted P S w w3 i d s []" if "drafted P S w2 w3 i d s []" for i s
        using that moving.R_trans [OF evolves_moves [OF e2]] by (simp add: drafted_def)
      ultimately show ?thesis using run Inl True 3 rest by (simp add: wp_def)
    qed (use run Inl e2 in \<open>simp add: wp_def\<close>)
  qed
qed

lemma bundle_staging_hidden: "s = bundle_staging @ t \<Longrightarrow> \<not> published s"
  by (simp add: published_def bundle_staging_def lit_simps starts_with_def)

text \<open>A name that exists stays what it is, and a link to it fails.\<close>

lemma moves_published:
  assumes "moves P S w w'" "fair P S w" "S d" "published n" "lookup (fs w) d n = Some i"
  shows "lookup (fs w') d n = Some i" "kept (inode (fs w) i) (inode (fs w') i)"
  using assms actsD(9,10) unfolding moves_def by blast+

lemma wp_link_free:
  assumes "fair P S w" "S d" "published n"
  shows "wp (sys_link d s n) (\<lambda>r w'. r = Inr () \<longrightarrow> lookup (fs w) d n = None) w"
  unfolding sys_link_def
proof (rule wp_syscall [OF assms(1)])
  fix w1 assume o: "others P S w w1"
  have "lookup (fs w) d n = None" if "lookup (fs w1) d n = None"
    using that actsD(9) [OF othersD(2) [OF o] assms(2,3)] by (metis not_None_eq option.distinct(1))
  then show "case rbind (find_entry (fs w1) d s) (\<lambda>i. if lookup (fs w1) d n \<noteq> None then Inl FileExistsError
        else Inr ((), add_entry d n i (set_inode i ((inode (fs w1) i)\<lparr>links := Suc (links (inode (fs w1) i))\<rparr>) (fs w1)))) of
      Inl e \<Rightarrow> Inl e = Inr () \<longrightarrow> lookup (fs w) d n = None
    | Inr (x, y) \<Rightarrow> (Inr x = Inr () \<longrightarrow> lookup (fs w) d n = None)
        \<and> (Inl io_error = Inr () \<longrightarrow> lookup (fs w) d n = None) \<and> (Inl io_error = Inr () \<longrightarrow> lookup (fs w) d n = None)"
    by (auto simp: rbind_def split: sum.split)
qed

text \<open>What a successful download leaves under the name of the destination.\<close>

definition snapshot_saved :: "pyval \<Rightarrow> 'a posix_scheme \<Rightarrow> nat \<Rightarrow> pystr \<Rightarrow> bool" where
  "snapshot_saved descriptor w d n \<longleftrightarrow>
     (\<exists>i b. published_file w d n i b \<and> sha256_hex b = str_of (field descriptor ''sha256'')
        \<and> int (length b) = int_of (field descriptor ''bytes''))"

lemma published_acts:
  assumes "published_file w d n i b" "acts P S (fs w) (fs w')" "uid w' = uid w" "S d" "published n"
  shows "published_file w' d n i b"
  using assms actsD(2,3,4,9,10) [OF assms(2)] by (auto simp: published_file_def kept_def)

lemma snapshot_saved_acts:
  "snapshot_saved v w d n \<Longrightarrow> acts P S (fs w) (fs w') \<Longrightarrow> uid w' = uid w \<Longrightarrow> S d \<Longrightarrow> published n \<Longrightarrow>
     snapshot_saved v w' d n"
  unfolding snapshot_saved_def by (blast intro: published_acts)

text \<open>The body of the \<open>try\<close>, from an empty staging file.\<close>

lemma wp_download_body:
  assumes "remote_tool P S ask" "\<not> published s" "drafted P S w0 w i d s []" "S d" "published n" "fair P S w0"
    and "check_descriptor descriptor = Inr (nbytes, snap)"
  shows "wp (ebind (\<lambda>w. download_loop ask i room descriptor nbytes snap [] 0 w) (\<lambda>chunks.
           if sha256_hex (concat chunks) \<noteq> str_of (field descriptor ''sha256'')
           then raise (ValueError ''Snapshot digest mismatch'')
           else ebind (sys_fsync i) (\<lambda>_. sys_link d s n)))
     (\<lambda>r w'. moves P S w0 w' \<and> fair P S w' \<and> (r = Inr () \<longrightarrow>
        snapshot_saved descriptor w' d n \<and> lookup (fs w0) d n = None)) w" (is "wp _ ?Q w")
proof -
  have size: "nbytes = int_of (field descriptor ''bytes'')" "1 \<le> nbytes"
    using assms(7) by (auto simp: check_descriptor_def Let_def rbind_def split: if_splits sum.splits)
  have loop: "wp (download_loop ask i room descriptor nbytes snap [] 0)
      (\<lambda>r w'. moves P S w0 w' \<and> fair P S w' \<and> (\<forall>cs. r = Inr cs \<longrightarrow>
         drafted P S w0 w' i d s (concat cs) \<and> int (length (concat cs)) = nbytes)) w"
    using assms(1-3) size(2) by (intro wp_download_loop) simp_all
  show ?thesis
  proof (rule wp_ebindI [OF loop], goal_cases)
    case (1 e w')
    then show ?case by simp
  next
    case (2 cs w1)
    then have dr: "drafted P S w0 w1 i d s (concat cs)" and len: "int (length (concat cs)) = nbytes" by simp_all
    have f1: "fair P S w1" and u1: "unshared (fs w1) (pid w1) i d s" using dr by (simp_all add: drafted_def)
    show ?case
    proof (cases "sha256_hex (concat cs) = str_of (field descriptor ''sha256'')")
      case False
      with 2 show ?thesis by (simp add: wp_def)
    next
      case True
      have "wp (ebind (sys_fsync i) (\<lambda>_. sys_link d s n)) ?Q w1"
      proof (rule wp_ebindI [OF wp_fsync_unshared [OF f1 u1 assms(2)]], goal_cases)
        case (1 e w2)
        then have "moves P S w1 w2" by (simp add: evolves_moves)
        then have "moves P S w0 w2" "fair P S w2" using drafted_moves [OF dr] f1 by (blast, simp add: moves_def)
        then show ?case by simp
      next
        case (2 x w2)
        then have m: "moves P S w0 w2" "evolves P S w1 w2" using dr by (auto intro: drafted_moves evolves_moves)
        have f2: "fair P S w2" using evolvesD(1) [OF m(2) f1] .
        have "staged_data w2 i d s (concat cs)"
          using 2 dr evolvesD(3,4) [OF m(2) f1] by (auto simp: staged_data_def drafted_def kept_def)
        from wp_conj [OF wp_link_data [OF f2 this, of n] wp_link_free [OF f2 assms(4,5), of s]] show ?case
        proof (rule wp_mono)
          fix r :: "exn + unit" and w3
          assume h: "(evolves P S w2 w3 \<and> (r = Inr () \<longrightarrow>
              published_file w3 d n i (concat cs) \<and> mode (inode (fs w3) i) = mode (inode (fs w2) i)))
            \<and> (r = Inr () \<longrightarrow> lookup (fs w2) d n = None)"
          then have "moves P S w0 w3" "fair P S w3"
            using moving.R_trans [OF m(1)] evolves_moves evolvesD(1) f2 by blast+
          moreover have "lookup (fs w0) d n = None" if "lookup (fs w2) d n = None"
            using that moves_published(1) [OF m(1) assms(6,4,5)] by (metis not_None_eq option.distinct(1))
          ultimately show "?Q r w3" using h True len size(1) by (auto simp: snapshot_saved_def)
        qed
      qed
      with True show ?thesis by simp
    qed
  qed
qed

text \<open>The whole program: when it ends in whatever way, and what a descriptor returned means.\<close>

lemma wp_download:
  assumes "remote_tool P S ask" "fair P S w" "S d" "published n" "\<And>q. q \<noteq> pid w \<Longrightarrow> P q"
  shows "wp (download ask room d n) (\<lambda>r w'. moves P S w w' \<and>
     (\<forall>v. r = Inr v \<longrightarrow> snapshot_saved v w' d n \<and> lookup (fs w) d n = None)) w"
proof -
  obtain r w1 where run: "ask ''simmis_workspace-bundle'' (PDict [(lit ''room'', room)]) w = (r, w1)"
    by (cases "ask ''simmis_workspace-bundle'' (PDict [(lit ''room'', room)]) w")
  with assms(1,2) have "fair P S w1" "acts P S (fs w) (fs w1)" "pid w1 = pid w" "uid w1 = uid w"
    unfolding remote_tool_def by (metis snd_conv)+
  then have asked: "wp (ask ''simmis_workspace-bundle'' (PDict [(lit ''room'', room)]))
      (\<lambda>r w1. moves P S w w1 \<and> fair P S w1 \<and> pid w1 = pid w) w"
    by (auto simp: wp_def run moves_def intro: acts_mono)
  show ?thesis
    unfolding download_def
proof (rule wp_ebindI [OF asked], goal_cases)
  case (1 e w1)
  then show ?case by simp
next
  case (2 v w1)
  then have m1: "moves P S w w1" and f1: "fair P S w1" by simp_all
  show ?case
  proof (cases "check_descriptor v")
    case (Inl e)
    with m1 show ?thesis by simp
  next
    case (Inr ns)
    obtain nbytes snap where ns: "ns = (nbytes, snap)" by (cases ns)
    have "wp (ebind (mkstemp d bundle_staging) (\<lambda>(fd, staged).
       ebind (try_finally
          (ebind (\<lambda>w. download_loop ask fd room v nbytes snap [] 0 w) (\<lambda>chunks.
           if sha256_hex (concat chunks) \<noteq> str_of (field v ''sha256'') then raise (ValueError ''Snapshot digest mismatch'')
           else ebind (sys_fsync fd) (\<lambda>_. sys_link d staged n)))
          (sys_unlink d staged)) (\<lambda>_. ret v))) (\<lambda>r w'. moves P S w w' \<and>
       (\<forall>v. r = Inr v \<longrightarrow> snapshot_saved v w' d n \<and> lookup (fs w) d n = None)) w1" (is "wp _ ?Q w1")
      unfolding mkstemp_def
    proof (rule wp_ebindI [OF wp_mkstemp_tries [OF f1]], goal_cases)
      case (1 e w2)
      with m1 show ?case by (auto intro: moving.R_trans evolves_moves)
    next
      case (2 fds w2)
      obtain i s where fds: "fds = (i, s)" by (cases fds)
      with 2 have e2: "evolves P S w1 w2" and dr: "drafted P S w1 w2 i d s []" and s: "\<not> published s"
        using bundle_staging_hidden by auto
      have p2: "pid w2 = pid w" using e2 m1 by (simp add: evolves_def moves_def)
      have dr0: "drafted P S w w2 i d s []"
        using dr moving.R_trans [OF m1] by (simp add: drafted_def)
      note body = wp_download_body [OF assms(1) s dr0 assms(3,4,2) Inr [unfolded ns]]
      show ?case
        unfolding fds prod.case
      proof (subst wp_ebind, subst wp_try_finally, rule wp_mono [OF body], goal_cases)
        case (1 r w3)
        then have m3: "moves P S w w3" and f3: "fair P S w3" by simp_all
        have pq: "P q" if "q \<noteq> pid w3" for q using that m3 assms(5) by (simp add: moves_def)
        show ?case
        proof (rule wp_mono [OF wp_unlink [OF f3 s pq]], goal_cases)
          case (1 q)
          then show ?case by simp
        next
          case (2 r' w4)
          then have m4: "moves P S w w4" using moving.R_trans [OF m3] evolves_moves by blast
          have "snapshot_saved v w4 d n" if "snapshot_saved v w3 d n"
            using snapshot_saved_acts [OF that evolvesD(2,4) [OF 2 f3] assms(3,4)] .
          with 1 m4 show ?case by (auto split: sum.split)
        qed
      qed
    qed
    with Inr ns show ?thesis by simp
  qed
qed
qed

section \<open>A small snapshot\<close>

definition small_descriptor :: pyval where
  "small_descriptor = PDict [(lit ''snapshot'', PStr sample_uuid), (lit ''bytes'', PInt 1),
     (lit ''sha256'', PStr (sha256_hex [65])), (lit ''commit'', PStr (replicate 40 97)), (lit ''files'', PInt 1),
     (lit ''history'', PBool False)]"

definition small_chunk :: pyval where
  "small_chunk = PDict [(lit ''snapshot'', PStr sample_uuid), (lit ''bytes'', PInt 1),
     (lit ''sha256'', PStr (sha256_hex [65])), (lit ''commit'', PStr (replicate 40 97)), (lit ''files'', PInt 1),
     (lit ''history'', PBool False), (lit ''offset'', PInt 0), (lit ''base64'', PStr (b64encode [65]))]"

definition small_tool :: "'a tool" where
  "small_tool name arguments = ret (if name = ''simmis_workspace-bundle'' then small_descriptor else small_chunk)"

definition bundle_name :: pystr where "bundle_name = lit ''room.bundle''"

lemma bundle_name_published [simp]: "published bundle_name"
  by (simp add: published_def starts_with_def bundle_name_def lit_simps)




lemma small_tool_remote: "remote_tool P S small_tool"
  by (simp add: remote_tool_def small_tool_def acts_refl)


section \<open>The properties\<close>



text \<open>
  C32. However \<open>download\<close> ends (with a descriptor, refused, with a digest that does not match or with an
  error of the file system), every name that the directory had keeps its file, with the same content:
  a snapshot never takes the place of a file or of a symbolic link.
\<close>

theorem download_never_replaces:
  assumes "remote_tool (\<lambda>q. q \<noteq> pid w) S ask" "fair (\<lambda>q. q \<noteq> pid w) S w" "S d" "published n" "published m"
    and "lookup (fs w) d m = Some i"
    and "download ask room d n w = (r, w')"
  shows "lookup (fs w') d m = Some i \<and> content (inode (fs w') i) = content (inode (fs w) i)"
proof -
  have m: "moves (\<lambda>q. q \<noteq> pid w) S w w'" using wpD [OF wp_download [OF assms(1-4)] assms(7)] by simp
  from moves_published [OF m assms(2,3,5,6)] show ?thesis by (simp add: kept_def)
qed

definition taken_root :: fs where
  "taken_root =
     \<lparr>inodes = [\<lparr>kind = Dir, owner = 1000, mode = 448, content = [], durable = None, entries = [(bundle_name, 1)],
                 stable = [(bundle_name, 1)], links = 1, changed = 0, creator = 0\<rparr>,
                \<lparr>kind = Reg, owner = 1000, mode = 384, content = [66], durable = Some [66], entries = [],
                 stable = [], links = 1, changed = 0, creator = 0\<rparr>], locks = []\<rparr>"

lemma taken_root_ok: "fs_ok taken_root" "settled S taken_root"
  by (auto simp: taken_root_def fs_ok_def settled_def lookup_def inode_def has_inode_def nth_Cons split: nat.splits)

theorem download_never_replaces_witness:
  "\<exists>r w'. download small_tool PNone 0 bundle_name (host taken_root 7) = (r, w') \<and>
     lookup (fs w') 0 bundle_name = Some 1 \<and> content (inode (fs w') 1) = [66]"
proof -
  obtain r w' where d: "download small_tool PNone 0 bundle_name (host taken_root 7) = (r, w')"
    by (cases "download small_tool PNone 0 bundle_name (host taken_root 7)")
  have f: "fair (\<lambda>q. q \<noteq> pid (host taken_root 7)) (\<lambda>_. True) (host taken_root 7)"
    by (simp add: host_fair taken_root_ok)
  have "lookup (fs (host taken_root 7)) 0 bundle_name = Some 1" "content (inode taken_root 1) = [66]"
    by (simp_all add: taken_root_def lookup_def inode_def has_inode_def)
  with download_never_replaces [OF small_tool_remote f TrueI bundle_name_published bundle_name_published this(1) d] d
  show ?thesis by auto
qed

end
