(* ===== verification/Output_Properties.thy ===== *)
theory Output_Properties
  imports Worker_Outputs
begin

text \<open>
  What \<open>validate_output\<close> and \<open>collect\<close> promise.  The data check accepts exactly a declarative
  specification; the traversal always ends before its fuel; and from a workspace at rest \<open>collect\<close>
  returns exactly the selected files that changed or went and the files under \<open>out/\<close> that are new or
  changed.
\<close>

section \<open>The data check without its loops\<close>

definition output_item :: "pydict \<Rightarrow> pystr \<Rightarrow> pyval \<Rightarrow> bool" where
  "output_item inputs p f \<longleftrightarrow>
     (\<exists>parts. path_parts (PStr p) = Inr parts)
     \<and> (f = PNone \<and> map_of inputs p \<noteq> None
        \<or> (\<exists>data. file_bytes f = Inr data) \<and> (map_of inputs p \<noteq> None \<or> starts_with out_prefix p))"

text \<open>The paths there will be: the selected ones that are not deleted and the returned ones.\<close>

definition remaining :: "pydict \<Rightarrow> pydict \<Rightarrow> pystr set" where
  "remaining inputs files =
     (fst ` set inputs - {p. (p, PNone) \<in> set files}) \<union> {p. \<exists>f. (p, f) \<in> set files \<and> f \<noteq> PNone}"

definition output_files_spec :: "pydict \<Rightarrow> pydict \<Rightarrow> bool" where
  "output_files_spec inputs files \<longleftrightarrow>
     (\<forall>(p, f) \<in> set files. output_item inputs p f)
     \<and> (\<Sum>(p, f) \<leftarrow> files. file_size f) \<le> max_total_bytes
     \<and> (\<forall>p \<in> remaining inputs files. \<forall>q \<in> remaining inputs files.
           \<not> strict_prefix (split slash q) (split slash p))"

definition output_spec :: "pyval \<Rightarrow> pyval \<Rightarrow> pyval \<Rightarrow> bool" where
  "output_spec frozen config output \<longleftrightarrow>
     frozen_spec frozen config
     \<and> is_dict output \<and> key_set_is output [''files'', ''summary'', ''exit-code'']
     \<and> (\<exists>s. field output ''summary'' = PStr s \<and> length s \<le> 16000 \<and> utf8_encode s \<noteq> None)
     \<and> (\<exists>code. field output ''exit-code'' = PInt code \<and> 0 \<le> code \<and> code \<le> 255)
     \<and> is_dict (field output ''files'') \<and> int (length (items (field output ''files''))) \<le> max_files
     \<and> output_files_spec (items (field frozen ''files'')) (items (field output ''files''))"

definition written_after :: "pydict \<Rightarrow> pystr list \<Rightarrow> pystr list" where
  "written_after = fold (\<lambda>(p, f) ps.
     if f = PNone then filter (\<lambda>q. q \<noteq> p) ps else if p \<in> set ps then ps else ps @ [p])"

lemma file_bytes_PNone [simp]: "file_bytes PNone \<noteq> Inr data"
  by (auto dest: file_bytes_Inr(1))

lemma file_size_PNone [simp]: "file_size PNone = 0"
  by (simp add: file_size_def split: sum.split)

lemma check_output_file_iff:
  "check_output_file inputs (p, f) (n, ps) = Inr st \<longleftrightarrow>
     output_item inputs p f \<and> n + file_size f \<le> max_total_bytes
     \<and> st = (n + file_size f, written_after [(p, f)] ps)"
proof (cases "path_parts (PStr p)")
  case (Inr parts)
  show ?thesis
  proof (cases "f = PNone")
    case True
    with Inr show ?thesis
      by (auto simp: check_output_file_def output_item_def written_after_def not_less)
  next
    case False
    with Inr show ?thesis
      by (cases "file_bytes f") (auto simp: check_output_file_def output_item_def written_after_def file_size_def)
  qed
qed (simp add: check_output_file_def output_item_def)

lemma check_outputs_iff:
  assumes "n \<le> max_total_bytes"
  shows "for_each (check_output_file inputs) fls (n, ps) = Inr st \<longleftrightarrow>
     (\<forall>(p, f) \<in> set fls. output_item inputs p f) \<and> n + (\<Sum>(p, f) \<leftarrow> fls. file_size f) \<le> max_total_bytes
     \<and> st = (n + (\<Sum>(p, f) \<leftarrow> fls. file_size f), written_after fls ps)"
  using assms
proof (induction fls arbitrary: n ps)
  case (Cons pf fls)
  obtain p f where pf: "pf = (p, f)" by (cases pf)
  have after: "written_after fls (written_after [(p, f)] ps) = written_after ((p, f) # fls) ps"
    by (simp add: written_after_def)
  show ?case
  proof (cases "n + file_size f \<le> max_total_bytes")
    case True
    from Cons.IH [OF this, of "written_after [(p, f)] ps"] show ?thesis
      by (auto simp: pf check_output_file_iff True after add.assoc)
  next
    case False
    then have "\<not> n + (file_size f + (\<Sum>(p, f) \<leftarrow> fls. file_size f)) \<le> max_total_bytes"
      using sum_sizes_nonneg [of fls] by simp
    with False show ?thesis by (auto simp: pf check_output_file_iff)
  qed
qed (auto simp: written_after_def)

lemma set_written_after:
  "distinct (map fst fls) \<Longrightarrow>
     set (written_after fls ps) =
       (set ps - {p. (p, PNone) \<in> set fls}) \<union> {p. \<exists>f. (p, f) \<in> set fls \<and> f \<noteq> PNone}"
proof (induction fls arbitrary: ps)
  case (Cons pf fls)
  obtain p f where pf: "pf = (p, f)" by (cases pf)
  with Cons.prems have "(p, g) \<notin> set fls" for g by force
  with Cons show ?case
    by (auto simp: pf written_after_def)
qed (simp add: written_after_def)

lemma check_collisions_iff:
  assumes "\<And>p. p \<in> set ps \<Longrightarrow> \<exists>parts. path_parts (PStr p) = Inr parts"
  shows "for_each (check_collision written) ps () = Inr () \<longleftrightarrow>
     (\<forall>p \<in> set ps. \<forall>q \<in> set written. \<not> strict_prefix (split slash q) (split slash p))"
  using assms
proof (induction ps)
  case (Cons p ps)
  obtain parts where 1: "path_parts (PStr p) = Inr parts" using Cons.prems by auto
  then have parts: "parts = split slash p" by (auto simp: path_parts_Inr_iff)
  have "has_ancestor parts written \<longleftrightarrow> (\<exists>q \<in> set written. strict_prefix (split slash q) parts)"
    by (rule has_ancestor_iff) (simp add: parts split_no_sep)
  with Cons 1 show ?case by (auto simp: check_collision_def parts)
qed simp

lemma written_paths_valid:
  assumes "files_spec inputs" and "\<forall>(p, f) \<in> set fls. output_item inputs p f" and "distinct (map fst fls)"
    and "p \<in> set (written_after fls (map fst inputs))"
  shows "\<exists>parts. path_parts (PStr p) = Inr parts"
  using assms by (auto simp: set_written_after files_spec_def output_item_def)

lemma output_files_checked:
  assumes "files_spec inputs" and "distinct (map fst fls)"
  shows "(\<exists>m ps. for_each (check_output_file inputs) fls (0, map fst inputs) = Inr (m, ps)
       \<and> for_each (check_collision ps) ps () = Inr ()) \<longleftrightarrow> output_files_spec inputs fls"
proof -
  have s: "set (written_after fls (map fst inputs)) = remaining inputs fls"
    using set_written_after [OF assms(2)] by (simp add: remaining_def)
  show ?thesis
    using check_collisions_iff [of "written_after fls (map fst inputs)" "written_after fls (map fst inputs)"]
      written_paths_valid [OF assms(1) _ assms(2)]
    by (auto simp: check_outputs_iff output_files_spec_def max_total_bytes_def s)
qed

lemma validate_output_Inr_iff:
  assumes "distinct (map fst (items (field output ''files'')))"
  shows "validate_output frozen config output = Inr r \<longleftrightarrow> r = output \<and> output_spec frozen config output"
proof (cases "frozen_spec frozen config")
  case True
  then have f: "files_spec (items (field frozen ''files''))" by (simp add: frozen_spec_def)
  have v: "validate frozen config = Inr frozen" using True by (simp add: validate_Inr_iff)
  let ?loops = "rbind (for_each (check_output_file (items (field frozen ''files''))) (items (field output ''files''))
      (0, map fst (items (field frozen ''files'')))) (\<lambda>(tot, written).
     rbind (for_each (check_collision written) written ()) (\<lambda>_. Inr output))"
  have loops: "?loops = Inr r \<longleftrightarrow> r = output \<and> output_files_spec (items (field frozen ''files'')) (items (field output ''files''))"
    unfolding output_files_checked [OF f assms, symmetric]
    by (auto simp: rbind_def split: sum.splits)
  have summary: "is_str x \<and> length (str_of x) \<le> 16000 \<and> utf8_encode (str_of x) \<noteq> None \<longleftrightarrow>
      (\<exists>s. x = PStr s \<and> length s \<le> 16000 \<and> utf8_encode s \<noteq> None)" for x by (cases x) auto
  have code: "is_int x \<and> 0 \<le> int_of x \<and> int_of x \<le> 255 \<longleftrightarrow> (\<exists>c. x = PInt c \<and> 0 \<le> c \<and> c \<le> 255)" for x
    by (cases x) auto
  show ?thesis
    unfolding validate_output_def output_spec_def summary [symmetric] code [symmetric]
    using True loops
    by (auto simp: v closed_def completion_fields_def metadata_ok_def summary_limit_def encodable_def Let_def not_less)
next
  case False
  then have "\<exists>e. validate frozen config = Inl e"
    using validate_Inr_iff [of frozen config] by (cases "validate frozen config") auto
  with False show ?thesis by (auto simp: validate_output_def output_spec_def)
qed

section \<open>What programs give\<close>

text \<open>A result that satisfies \<open>P\<close>, or an error that satisfies \<open>E\<close>, in any world.\<close>

definition gives :: "('b \<Rightarrow> bool) \<Rightarrow> (exn \<Rightarrow> bool) \<Rightarrow> ('w, 'b) prog \<Rightarrow> bool" where
  "gives P E m \<longleftrightarrow> (\<forall>w. case fst (m w) of Inl e \<Rightarrow> E e | Inr x \<Rightarrow> P x)"

lemma givesD: "gives P E m \<Longrightarrow> m w = (Inr x, w') \<Longrightarrow> P x" "gives P E m \<Longrightarrow> m w = (Inl e, w') \<Longrightarrow> E e"
  by (auto simp: gives_def dest!: spec [of _ w])

lemma gives_pure:
  "P x \<Longrightarrow> gives P E (ret x)"
  "E e \<Longrightarrow> gives P E (raise e)"
  "(\<And>x. r = Inr x \<Longrightarrow> P x) \<Longrightarrow> (\<And>e. r = Inl e \<Longrightarrow> E e) \<Longrightarrow> gives P E (lift r)"
  "(\<And>w. P (f w)) \<Longrightarrow> gives P E (gets f)"
  by (auto simp: gives_def split: sum.split)

lemma gives_ebind:
  assumes "gives Q E m" and "\<And>x. Q x \<Longrightarrow> gives P E (f x)"
  shows "gives P E (ebind m f)"
  unfolding gives_def
proof
  fix w
  obtain r w' where "m w = (r, w')" by (cases "m w")
  then show "case fst (ebind m f w) of Inl e \<Rightarrow> E e | Inr x \<Rightarrow> P x"
    using givesD [OF assms(1)] assms(2) by (cases r) (auto simp: ebind_def gives_def)
qed

lemma gives_seq: "gives (\<lambda>_. True) E m \<Longrightarrow> (\<And>x. gives P E (f x)) \<Longrightarrow> gives P E (ebind m f)"
  by (rule gives_ebind)

lemma gives_if: "(b \<Longrightarrow> gives P E m) \<Longrightarrow> (\<not> b \<Longrightarrow> gives P E n) \<Longrightarrow> gives P E (if b then m else n)"
  by simp

lemma gives_mono:
  assumes "gives P E m" and "\<And>x. P x \<Longrightarrow> Q x"
  shows "gives Q E m"
  using assms unfolding gives_def by (metis sum.case_eq_if)

lemma gives_try_except:
  assumes "gives P D m" and "\<And>e. D e \<Longrightarrow> gives P E (h e)"
  shows "gives P E (try_except m h)"
  unfolding gives_def
proof
  fix w
  obtain r w' where "m w = (r, w')" by (cases "m w")
  then show "case fst (try_except m h w) of Inl e \<Rightarrow> E e | Inr x \<Rightarrow> P x"
    using givesD [OF assms(1)] assms(2) by (cases r) (auto simp: try_except_def gives_def)
qed

lemma gives_efor:
  "(\<And>x s. x \<in> set xs \<Longrightarrow> I s \<Longrightarrow> gives I E (f x s)) \<Longrightarrow> I s \<Longrightarrow> gives I E (efor f xs s)"
  by (induction xs arbitrary: s) (auto intro: gives_pure gives_ebind)

text \<open>No system call runs out of fuel.\<close>

definition not_fuel :: "exn \<Rightarrow> bool" where "not_fuel e \<longleftrightarrow> e \<noteq> out_of_fuel"

lemma not_fuel_simps [simp]:
  "not_fuel (ValueError s)" "not_fuel (OSError s)" "not_fuel UnicodeError" "not_fuel FileNotFoundError"
  "not_fuel NotADirectoryError" "not_fuel TypeError" "not_fuel KeyError"
  by (simp_all add: not_fuel_def out_of_fuel_def)

lemma gives_syscall: "(\<And>f e. g f = Inl e \<Longrightarrow> not_fuel e) \<Longrightarrow> gives (\<lambda>_. True) not_fuel (syscall g)"
  by (auto simp: gives_def syscall_def syscall_partial_def io_error_def split: prod.splits sum.splits outcome.splits)

lemma gives_calls:
  "gives (\<lambda>_. True) not_fuel (sys_stat d n)" "gives (\<lambda>_. True) not_fuel (sys_open d n)"
  "gives (\<lambda>_. True) not_fuel (sys_opendir d n)" "gives (\<lambda>_. True) not_fuel (sys_fstat i)"
  "gives (\<lambda>_. True) not_fuel (sys_read i k)" "gives (\<lambda>_. True) not_fuel (sys_scandir d)"
  unfolding sys_stat_def sys_open_def sys_opendir_def sys_fstat_def sys_read_def sys_scandir_def
  by (rule gives_syscall; auto simp: find_entry_def open_entry_def open_directory_def rbind_def
      split: option.splits sum.splits if_splits)+

lemma path_parts_not_fuel: "path_parts v = Inl e \<Longrightarrow> not_fuel e"
  by (auto simp: path_parts_def rbind_def Let_def split: if_splits sum.splits)

lemma regular_output_not_fuel: "regular_output i = Inl e \<Longrightarrow> not_fuel e"
  by (auto simp: regular_output_def split: if_splits)

section \<open>The files that are read\<close>

text \<open>Whatever is read is a file of at most one MiB in the form that is sent.\<close>

definition read_value :: "pyval \<Rightarrow> bool" where
  "read_value v \<longleftrightarrow> (\<exists>data m. v = output_file data m \<and> int (length data) \<le> max_file_bytes)"

lemma read_value_output: "int (length data) \<le> max_file_bytes \<Longrightarrow> read_value (output_file data m)"
  by (auto simp only: read_value_def)

lemma gives_read_file: "gives read_value not_fuel (read_file d n)"
proof -
  have last: "gives read_value not_fuel
      (if length data \<noteq> st_size before \<or> max_file_bytes < int (length data)
          \<or> (st_size before, st_time before) \<noteq> (st_size after, st_time after)
       then raise (ValueError ''Worker output changed during collection'')
       else ret (output_file data (st_mode before)))" for data before after
    by (auto simp: not_less intro!: gives_pure read_value_output simp del: prod.inject)
  have mid: "gives read_value not_fuel
      (if st_ino inspected \<noteq> st_ino before
       then raise (ValueError ''Worker output was replaced during collection'')
       else
       ebind (sys_read i k) (\<lambda>data. ebind (sys_fstat i) (\<lambda>after.
       if length data \<noteq> st_size before \<or> max_file_bytes < int (length data)
          \<or> (st_size before, st_time before) \<noteq> (st_size after, st_time after)
       then raise (ValueError ''Worker output changed during collection'')
       else ret (output_file data (st_mode before)))))" for inspected before i k
    by (rule gives_if) (intro gives_pure not_fuel_simps, intro gives_seq gives_calls last)
  have check: "gives (\<lambda>_. True) not_fuel (lift (regular_output info))" for info
    by (rule gives_pure) (auto intro: regular_output_not_fuel)
  show ?thesis
    unfolding read_file_def by (intro gives_seq gives_calls check mid)
qed

lemma gives_opendirs: "gives (\<lambda>_. True) not_fuel (efor (\<lambda>name directory. sys_opendir directory name) ns d)"
  by (rule gives_efor) (simp_all add: gives_calls)

definition current_value :: "pyval \<Rightarrow> bool" where
  "current_value v \<longleftrightarrow> v = PNone \<or> read_value v"

lemma gives_selected: "gives current_value not_fuel (selected root path)"
  unfolding selected_def
proof (rule gives_try_except)
  have "gives current_value not_fuel (read_file d n)" for d n
    by (rule gives_mono [OF gives_read_file]) (simp_all add: current_value_def)
  moreover have "gives (\<lambda>_. True) not_fuel (lift (path_parts (PStr path)))"
    by (rule gives_pure) (auto intro: path_parts_not_fuel)
  ultimately show "gives current_value not_fuel
      (ebind (lift (path_parts (PStr path))) (\<lambda>parts.
        ebind (efor (\<lambda>name directory. sys_opendir directory name) (butlast parts) root) (\<lambda>directory.
        read_file directory (last parts))))"
    by (intro gives_seq gives_opendirs)
qed (auto simp: current_value_def intro!: gives_if gives_pure)

section \<open>What is collected\<close>

definition collected_ok :: "collected \<Rightarrow> bool" where
  "collected_ok c \<longleftrightarrow> distinct (map fst (found c)) \<and> (\<forall>(p, v) \<in> set (found c). current_value v)"

lemma add_result_ok:
  assumes "add_result path file c = Inr c'" and "collected_ok c" and "current_value file"
  shows "collected_ok c' \<and> seen c' = seen c"
  using assms by (auto simp: add_result_def collected_ok_def Let_def split: if_splits)

lemma add_result_error: "add_result path file c = Inl e \<Longrightarrow> not_fuel e"
  by (auto simp: add_result_def Let_def split: if_splits)

lemma gives_add_result:
  assumes "collected_ok c" and "current_value file" and "m \<le> seen c"
  shows "gives (\<lambda>c'. collected_ok c' \<and> m \<le> seen c') not_fuel
    (if py_eq x y then ret c else lift (add_result path file c))"
proof (rule gives_if)
  show "gives (\<lambda>c'. collected_ok c' \<and> m \<le> seen c') not_fuel (lift (add_result path file c))"
  proof (rule gives_pure(3))
    fix c' assume "add_result path file c = Inr c'"
    from add_result_ok [OF this assms(1,2)] assms(3) show "collected_ok c' \<and> m \<le> seen c'" by simp
  qed (rule add_result_error)
  show "gives (\<lambda>c'. collected_ok c' \<and> m \<le> seen c') not_fuel (ret c)" using assms by (intro gives_pure) simp
qed

lemma gives_visit_entry:
  assumes "\<And>d pre c. collected_ok c \<Longrightarrow> MAX_ENTRIES < n + seen c \<Longrightarrow> seen c \<le> MAX_ENTRIES \<Longrightarrow>
      gives (\<lambda>c'. collected_ok c' \<and> seen c \<le> seen c') not_fuel (descend d pre c)"
    and "collected_ok c" and "MAX_ENTRIES < Suc n + seen c"
  shows "gives (\<lambda>c'. collected_ok c' \<and> seen c \<le> seen c') not_fuel
    (visit_entry descend inputs d pre name c)"
proof -
  let ?c = "c\<lparr>seen := seen c + 1\<rparr>" and ?p = "pre @ slash # name"
  have c: "collected_ok ?c" using assms(2) by (simp add: collected_ok_def)
  have parts: "gives (\<lambda>_. True) not_fuel (lift (path_parts (PStr ?p)))"
    by (rule gives_pure) (auto intro: path_parts_not_fuel)
  have down: "gives (\<lambda>c'. collected_ok c' \<and> seen c \<le> seen c') not_fuel (descend child ?p ?c)"
    if "\<not> MAX_ENTRIES < seen ?c" for child
    by (rule gives_mono [OF assms(1) [OF c]]) (use assms(3) that in auto)
  have leaf: "gives (\<lambda>c'. collected_ok c' \<and> seen c \<le> seen c') not_fuel
      (ebind (read_file d name) (\<lambda>result.
        if py_eq result (original inputs ?p) then ret ?c else lift (add_result ?p result ?c)))"
    using c by (intro gives_ebind [OF gives_read_file] gives_add_result) (simp_all add: current_value_def)
  show ?thesis
    unfolding visit_entry_def Let_def
  proof (rule gives_if)
    assume "\<not> MAX_ENTRIES < seen ?c"
    from down [OF this] leaf show "gives (\<lambda>c'. collected_ok c' \<and> seen c \<le> seen c') not_fuel
       (ebind (lift (path_parts (PStr ?p))) (\<lambda>_. ebind (sys_stat d name) (\<lambda>info.
        if st_kind info = Dir then ebind (sys_opendir d name) (\<lambda>child. descend child ?p ?c)
        else ebind (read_file d name) (\<lambda>result.
          if py_eq result (original inputs ?p) then ret ?c else lift (add_result ?p result ?c)))))"
      by (intro gives_seq [OF parts] gives_seq [OF gives_calls(1)] gives_if gives_seq [OF gives_calls(3)])
  qed (simp add: gives_pure)
qed

text \<open>The traversal ends within its fuel, whatever the directories are and however they change.\<close>

lemma visit_fuel:
  "collected_ok c \<Longrightarrow> MAX_ENTRIES < n + seen c \<Longrightarrow> seen c \<le> MAX_ENTRIES \<Longrightarrow>
     gives (\<lambda>c'. collected_ok c' \<and> seen c \<le> seen c') not_fuel
       (visit n inputs d pre c :: ('a posix_scheme, collected) prog)"
proof (induction n arbitrary: d pre c)
  case (Suc n)
  have entry: "gives (\<lambda>c'. collected_ok c' \<and> seen c \<le> seen c') not_fuel
      (visit_entry (visit n inputs) inputs d pre name s :: ('a posix_scheme, collected) prog)"
    if "collected_ok s \<and> seen c \<le> seen s" for name s
  proof (rule gives_mono)
    show "gives (\<lambda>c'. collected_ok c' \<and> seen s \<le> seen c') not_fuel
        (visit_entry (visit n inputs) inputs d pre name s :: ('a posix_scheme, collected) prog)"
      using that Suc.prems by (intro gives_visit_entry [where n = n] Suc.IH) auto
  qed (use that in auto)
  show ?case
    unfolding visit.simps
    by (rule gives_seq [OF gives_calls(6)], rule gives_efor) (use entry Suc.prems in auto)
qed simp

section \<open>The data check does not run out of fuel\<close>

lemma for_each_error:
  "for_each f xs s = Inl e \<Longrightarrow> (\<And>x s e. f x s = Inl e \<Longrightarrow> E e) \<Longrightarrow> E e"
  by (induction xs arbitrary: s) (auto simp: rbind_def split: sum.splits)

lemma closed_error: "closed v ks = Inl e \<Longrightarrow> not_fuel e"
  by (auto simp: closed_def split: if_splits)

lemma b64_loop_error: "b64_loop q left pads started s = Inl e \<Longrightarrow> not_fuel e"
  by (induction q left pads started s rule: b64_loop.induct)
    (auto simp: rbind_def binascii_error_def split: if_splits sum.splits option.splits)

lemma file_bytes_error: "file_bytes f = Inl e \<Longrightarrow> not_fuel e"
  by (auto simp: file_bytes_def b64decode_def binascii_error_def rbind_def Let_def closed_error
      split: if_splits sum.splits dest: closed_error b64_loop_error)

lemma check_input_file_error: "check_input_file ps pf n = Inl e \<Longrightarrow> not_fuel e"
  by (auto simp: check_input_file_def rbind_def Let_def split: if_splits sum.splits prod.splits
      dest: file_bytes_error path_parts_not_fuel)

lemma check_output_file_error: "check_output_file inputs pf st = Inl e \<Longrightarrow> not_fuel e"
  by (auto simp: check_output_file_def rbind_def Let_def split: if_splits sum.splits prod.splits
      dest: file_bytes_error path_parts_not_fuel)

lemma check_collision_error: "check_collision ps p u = Inl e \<Longrightarrow> not_fuel e"
  by (auto simp: check_collision_def rbind_def Let_def split: if_splits sum.splits dest: path_parts_not_fuel)

lemmas loop_errors =
  for_each_error [where E = not_fuel, OF _ check_input_file_error]
  for_each_error [where E = not_fuel, OF _ check_output_file_error]
  for_each_error [where E = not_fuel, OF _ check_collision_error]

lemma validate_error: "validate frozen config = Inl e \<Longrightarrow> not_fuel e"
  unfolding validate_def canonical_uuid_def Let_def
  by (auto simp: rbind_def split: if_splits sum.splits prod.splits dest: closed_error loop_errors)

lemma validate_output_error: "validate_output frozen config output = Inl e \<Longrightarrow> not_fuel e"
  by (auto simp: validate_output_def metadata_error_def encodable_def rbind_def Let_def
      split: if_splits sum.splits prod.splits dest: closed_error validate_error loop_errors)


section \<open>The whole collection\<close>

lemma gives_visit_selected:
  assumes "collected_ok c \<and> seen c = 0"
  shows "gives (\<lambda>c'. collected_ok c' \<and> seen c' = 0) not_fuel (visit_selected root pf c)"
proof -
  obtain p f where pf: "pf = (p, f)" by (cases pf)
  have "gives (\<lambda>c'. collected_ok c' \<and> seen c' = 0) not_fuel
      (if py_eq v f then ret c else lift (add_result p v c))" if "current_value v" for v
    using assms add_result_ok [OF _ _ that, of p c]
    by (intro gives_if gives_pure add_result_error) auto
  then show ?thesis
    unfolding visit_selected_def pf prod.case by (rule gives_ebind [OF gives_selected])
qed

lemma gives_open_out: "gives (\<lambda>_. True) not_fuel (open_out root inputs)"
  unfolding open_out_def
  by (rule gives_try_except [where D = not_fuel]) (auto intro!: gives_seq gives_calls gives_pure)

text \<open>What \<open>collect\<close> returns is a completion with its own summary and exit code that passed the check.\<close>

definition collects :: "pyval \<Rightarrow> pyval \<Rightarrow> pyval \<Rightarrow> pyval \<Rightarrow> pyval \<Rightarrow> bool" where
  "collects frozen config summary code r \<longleftrightarrow>
     (\<exists>files. r = completion files summary code \<and> output_spec frozen config r
        \<and> distinct (map fst files) \<and> (\<forall>(p, v) \<in> set files. current_value v))"

lemma gives_collect:
  "gives (collects frozen config summary code) not_fuel
     (collect parent root frozen config summary code :: ('a posix_scheme, pyval) prog)"
proof -
  let ?P = "collects frozen config summary code"
  let ?inputs = "items (field frozen ''files'')"
  have finish: "gives ?P not_fuel (lift (validate_output frozen config (completion (found c) summary code)))"
    if "collected_ok c" for c
  proof (rule gives_pure(3))
    fix r assume r: "validate_output frozen config (completion (found c) summary code) = Inr r"
    have "items (field (completion (found c) summary code) ''files'') = found c" by (simp add: completion_def)
    with that r have "r = completion (found c) summary code" "output_spec frozen config r"
      using validate_output_Inr_iff [of "completion (found c) summary code" frozen config r]
      by (simp_all add: collected_ok_def)
    with that show "?P r" by (auto simp: collects_def collected_ok_def)
  qed (rule validate_output_error)
  have out: "gives collected_ok not_fuel
      (case out of None \<Rightarrow> ret c | Some d \<Rightarrow> visit (Suc MAX_ENTRIES) ?inputs d out_name c)"
    if "collected_ok c \<and> seen c = 0" for out and c
  proof (cases out)
    case (Some d)
    have "gives (\<lambda>c'. collected_ok c' \<and> seen c \<le> seen c') not_fuel (visit (Suc MAX_ENTRIES) ?inputs d out_name c)"
      using that by (intro visit_fuel) simp_all
    then show ?thesis using Some by (auto elim: gives_mono)
  qed (use that in \<open>simp add: gives_pure\<close>)
  have body: "gives ?P not_fuel
      (ebind (efor (visit_selected fd) ?inputs \<lparr>found = [], total_bytes = 0, seen = 0\<rparr>) (\<lambda>c.
     ebind (open_out fd ?inputs) (\<lambda>out.
     ebind (case out of None \<Rightarrow> ret c | Some d \<Rightarrow> visit (Suc MAX_ENTRIES) ?inputs d out_name c) (\<lambda>c.
     lift (validate_output frozen config (completion (found c) summary code))))))" for fd
  proof (rule gives_ebind)
    show "gives (\<lambda>c. collected_ok c \<and> seen c = 0) not_fuel
        (efor (visit_selected fd) ?inputs \<lparr>found = [], total_bytes = 0, seen = 0\<rparr>)"
      by (rule gives_efor, rule gives_visit_selected) (simp_all add: collected_ok_def)
  qed (intro gives_seq [OF gives_open_out] gives_ebind [OF out] finish; assumption)
  have "gives (\<lambda>_. True) not_fuel (lift (validate frozen config))"
    "gives (\<lambda>_. True) not_fuel (lift (encodable (str_of summary)))"
    by (auto intro!: gives_pure dest: validate_error simp: encodable_def split: if_splits)
  then show ?thesis
    unfolding collect_def Let_def
    by (intro gives_seq gives_if gives_calls body) (simp_all add: gives_pure metadata_error_def)
qed

section \<open>A workspace at rest\<close>

text \<open>The value of a path in a workspace: of the file there, or None.\<close>

definition current :: "fs \<Rightarrow> nat \<Rightarrow> pystr \<Rightarrow> pyval" where
  "current f root p =
     (case walk f root (butlast (split slash p)) of
        Inl _ \<Rightarrow> PNone
      | Inr d \<Rightarrow> (case lookup f d (last (split slash p)) of
          None \<Rightarrow> PNone
        | Some i \<Rightarrow> output_file (content (inode f i)) (mode (inode f i))))"

text \<open>The paths, with a prefix, of what is not a directory in the tree below a directory.\<close>

inductive in_tree :: "fs \<Rightarrow> nat \<Rightarrow> pystr \<Rightarrow> pystr \<Rightarrow> bool" for f :: fs where
  leaf: "lookup f d n = Some i \<Longrightarrow> kind (inode f i) \<noteq> Dir \<Longrightarrow> in_tree f d pre (pre @ slash # n)"
| down: "lookup f d n = Some i \<Longrightarrow> kind (inode f i) = Dir \<Longrightarrow> in_tree f i (pre @ slash # n) p \<Longrightarrow> in_tree f d pre p"

inductive_cases in_treeE: "in_tree f d pre p"

text \<open>Names of entries have no slash, as the kernel guarantees.\<close>

definition names_ok :: "fs \<Rightarrow> bool" where
  "names_ok f \<longleftrightarrow> (\<forall>d n i. lookup f d n = Some i \<longrightarrow> slash \<notin> set n)"

definition at_rest :: "'a posix_scheme \<Rightarrow> bool" where
  "at_rest w \<longleftrightarrow> script w = [] \<and> names_ok (fs w)"

lemma syscall_rest:
  "script w = [] \<Longrightarrow> (\<And>x s. g (fs w) = Inr (x, s) \<Longrightarrow> s = fs w) \<Longrightarrow>
     syscall g w = (case g (fs w) of Inl e \<Rightarrow> Inl e | Inr (x, s) \<Rightarrow> Inr x, w)"
  by (cases "g (fs w)") (auto simp: syscall_def syscall_partial_def next_step_def)

lemma calls_rest:
  assumes "script w = []"
  shows "sys_stat d n w = (case lookup (fs w) d n of None \<Rightarrow> Inl FileNotFoundError | Some i \<Rightarrow> Inr (info_of (fs w) i), w)"
    and "sys_open d n w = (case lookup (fs w) d n of None \<Rightarrow> Inl FileNotFoundError | Some i \<Rightarrow> open_entry (fs w) i, w)"
    and "sys_opendir d n w = (case lookup (fs w) d n of None \<Rightarrow> Inl FileNotFoundError | Some i \<Rightarrow> open_directory (fs w) i, w)"
    and "sys_fstat i w = (if has_inode (fs w) i then Inr (info_of (fs w) i) else Inl (OSError ''EBADF''), w)"
    and "sys_read i k w = (if has_inode (fs w) i \<and> kind (inode (fs w) i) = Reg
           then Inr (take k (content (inode (fs w) i))) else Inl (OSError ''EISDIR''), w)"
    and "sys_scandir d w = (if has_inode (fs w) d then Inr (map fst (entries (inode (fs w) d))) else Inl (OSError ''EBADF''), w)"
  unfolding sys_stat_def sys_open_def sys_opendir_def sys_fstat_def sys_read_def sys_scandir_def
  by (subst syscall_rest [OF assms];
      auto simp: find_entry_def open_entry_def open_directory_def rbind_def split: option.splits if_splits)+

lemma opendirs_rest:
  "script w = [] \<Longrightarrow> efor (\<lambda>name directory. sys_opendir directory name) ns d w = (walk (fs w) d ns, w)"
  by (induction ns arbitrary: d)
    (auto simp: calls_rest ebind_def find_entry_def rbind_def split: option.splits sum.splits)

lemma walk_append: "walk f d (ms @ ns) = rbind (walk f d ms) (\<lambda>e. walk f e ns)"
  by (induction ms arbitrary: d) (auto simp: rbind_def split: sum.splits)

lemma read_file_rest:
  assumes "script w = []" and "read_file d n w = (r, w')"
  shows "w' = w" and "r = Inr v \<Longrightarrow> \<exists>i. lookup (fs w) d n = Some i \<and> kind (inode (fs w) i) = Reg
      \<and> v = output_file (content (inode (fs w) i)) (mode (inode (fs w) i))"
    and "r = Inl FileNotFoundError \<Longrightarrow> lookup (fs w) d n = None"
proof -
  show "w' = w"
    using assms
    by (auto simp: read_file_def calls_rest ebind_def open_entry_def split: option.splits if_splits sum.splits)
  show "r = Inl FileNotFoundError \<Longrightarrow> lookup (fs w) d n = None"
    using assms
    by (auto simp: read_file_def calls_rest ebind_def open_entry_def regular_output_def split: option.splits if_splits sum.splits)
  show "\<exists>i. lookup (fs w) d n = Some i \<and> kind (inode (fs w) i) = Reg
      \<and> v = output_file (content (inode (fs w) i)) (mode (inode (fs w) i))" if "r = Inr v"
    using assms that
    by (auto simp: read_file_def calls_rest ebind_def open_entry_def regular_output_def info_of_def Let_def
        simp del: prod.inject split: option.splits if_splits sum.splits)
qed

lemma selected_rest:
  assumes "script w = []" and "path_parts (PStr p) = Inr parts" and "selected root p w = (Inr v, w')"
  shows "w' = w" and "v = current (fs w) root p"
proof -
  have parts: "parts = split slash p" using assms(2) by (auto simp: path_parts_Inr_iff)
  define r where "r d = fst (read_file d (last parts) w)" for d
  have r: "read_file d (last parts) w = (r d, w)" for d
    using read_file_rest(1) [OF assms(1), of d "last parts"] by (cases "read_file d (last parts) w") (simp add: r_def)
  have run: "selected root p w = (case walk (fs w) root (butlast parts) of
      Inl e \<Rightarrow> if e = FileNotFoundError then (Inr PNone, w) else (Inl e, w)
    | Inr d \<Rightarrow> (case r d of Inl e \<Rightarrow> if e = FileNotFoundError then (Inr PNone, w) else (Inl e, w) | Inr v \<Rightarrow> (Inr v, w)))"
    by (auto simp: selected_def assms(2) try_except_def ebind_def opendirs_rest [OF assms(1)] r split: sum.split)
  show "w' = w" using assms(3) run by (auto split: sum.splits if_splits)
  show "v = current (fs w) root p"
  proof (cases "walk (fs w) root (butlast parts)")
    case (Inl e)
    with assms(3) run show ?thesis by (auto simp: current_def parts split: if_splits)
  next
    case (Inr d)
    show ?thesis
    proof (cases "r d")
      case (Inl e)
      with assms(3) run Inr have "v = PNone" "e = FileNotFoundError" by (auto split: if_splits)
      with read_file_rest(3) [OF assms(1) r [of d]] Inl Inr show ?thesis by (simp add: current_def parts)
    next
      case (Inr u)
      with assms(3) run \<open>walk (fs w) root (butlast parts) = Inr d\<close> have "u = v" by simp
      with read_file_rest(2) [OF assms(1) r [of d], of v] Inr \<open>walk (fs w) root (butlast parts) = Inr d\<close>
      show ?thesis by (auto simp: current_def parts)
    qed
  qed
qed

text \<open>What a step adds: under the paths \<open>A\<close> that are not there yet, the values \<open>V\<close>.\<close>

definition adds :: "(pystr \<Rightarrow> pyval) \<Rightarrow> (pystr \<Rightarrow> bool) \<Rightarrow> collected \<Rightarrow> collected \<Rightarrow> bool" where
  "adds V A c c' \<longleftrightarrow>
     (\<forall>p. map_of (found c') p = (case map_of (found c) p of Some v \<Rightarrow> Some v | None \<Rightarrow> if A p then Some (V p) else None))"

lemma adds_refl: "(\<And>p. \<not> A p) \<Longrightarrow> found c' = found c \<Longrightarrow> adds V A c c'"
  by (simp add: adds_def split: option.split)

lemma adds_trans: "adds V A c c1 \<Longrightarrow> adds V B c1 c2 \<Longrightarrow> (\<And>p. D p \<longleftrightarrow> A p \<or> B p) \<Longrightarrow> adds V D c c2"
  by (auto simp: adds_def split: option.split)

lemma add_result_adds:
  assumes "add_result p v c = Inr c'" and "v = V p"
  shows "adds V (\<lambda>q. q = p) c c'"
proof (cases "map_of (found c) p")
  case None
  with assms have "found c' = found c @ [(p, V p)]"
    by (auto simp: add_result_def Let_def map_of_eq_None_iff split: if_splits)
  with None show ?thesis by (auto simp: adds_def map_add_def split: option.split)
next
  case (Some u)
  then have "p \<in> fst ` set (found c)" by (metis fst_conv image_eqI map_of_SomeD)
  with assms(1) have "c' = c" by (simp add: add_result_def)
  with Some show ?thesis by (auto simp: adds_def split: option.split)
qed

lemma keep_or_add:
  assumes "(if py_eq v x then ret c else lift (add_result p v c)) w = (Inr c', w')" and "v = V p"
  shows "w' = w \<and> adds V (\<lambda>q. q = p \<and> \<not> py_eq (V q) x) c c'"
proof (cases "py_eq v x")
  case True
  with assms show ?thesis by (auto intro: adds_refl)
next
  case False
  with assms have "add_result p v c = Inr c'" "w' = w" by simp_all
  moreover have "(\<lambda>q. q = p \<and> \<not> py_eq (V q) x) = (\<lambda>q. q = p)" using False assms(2) by auto
  ultimately show ?thesis using add_result_adds [where V = V and v = v] assms(2) by simp
qed

lemma efor_adds:
  assumes "efor g xs c w = (Inr c', w')"
    and "\<And>x c c' w'. x \<in> set xs \<Longrightarrow> g x c w = (Inr c', w') \<Longrightarrow> w' = w \<and> adds V (A x) c c'"
  shows "w' = w \<and> adds V (\<lambda>p. \<exists>x \<in> set xs. A x p) c c'"
  using assms
proof (induction xs arbitrary: c)
  case Nil
  then show ?case by (auto intro: adds_refl)
next
  case (Cons x xs)
  then obtain c1 w1 where 1: "g x c w = (Inr c1, w1)" and 2: "efor g xs c1 w1 = (Inr c', w')"
    by (auto simp: ebind_def split: prod.splits sum.splits)
  with Cons.prems(2) have s: "w1 = w" "adds V (A x) c c1" by auto
  with Cons.IH [of c1] 2 Cons.prems(2) have "w' = w" "adds V (\<lambda>p. \<exists>x \<in> set xs. A x p) c1 c'" by auto
  with s show ?case by (auto intro: adds_trans)
qed

lemma split_snoc: "sep \<notin> set n \<Longrightarrow> split sep (s @ sep # n) = split sep s @ [n]"
  by (induction s) (auto simp: split_of_no_sep hd_append tl_append split: list.split)

lemma current_entry:
  assumes "walk f root (split slash pre) = Inr d" and "slash \<notin> set n" and "lookup f d n = Some i"
  shows "current f root (pre @ slash # n) = output_file (content (inode f i)) (mode (inode f i))"
    and "kind (inode f i) = Dir \<Longrightarrow> walk f root (split slash (pre @ slash # n)) = Inr i"
proof -
  have s: "split slash (pre @ slash # n) = split slash pre @ [n]" using assms(2) by (rule split_snoc)
  show "current f root (pre @ slash # n) = output_file (content (inode f i)) (mode (inode f i))"
    using assms by (simp add: current_def s)
  show "kind (inode f i) = Dir \<Longrightarrow> walk f root (split slash (pre @ slash # n)) = Inr i"
    using assms by (simp add: s walk_append find_entry_def open_directory_def)
qed

text \<open>The paths of one entry of a directory.\<close>

definition entry_paths :: "fs \<Rightarrow> nat \<Rightarrow> pystr \<Rightarrow> pystr \<Rightarrow> pystr \<Rightarrow> bool" where
  "entry_paths f d pre n p \<longleftrightarrow>
     (\<exists>i. lookup f d n = Some i \<and>
        (if kind (inode f i) = Dir then in_tree f i (pre @ slash # n) p else p = pre @ slash # n))"

lemma in_tree_entries:
  assumes "has_inode f d"
  shows "in_tree f d pre p \<longleftrightarrow> (\<exists>n \<in> set (map fst (entries (inode f d))). entry_paths f d pre n p)"
proof
  assume "in_tree f d pre p"
  then have "\<exists>n. entry_paths f d pre n p"
  proof cases
    case (leaf n i)
    then have "entry_paths f d pre n p" by (simp add: entry_paths_def)
    then show ?thesis ..
  next
    case (down n i)
    then have "entry_paths f d pre n p" by (simp add: entry_paths_def)
    then show ?thesis ..
  qed
  then obtain n where "entry_paths f d pre n p" ..
  moreover from this have "n \<in> fst ` set (entries (inode f d))"
    by (auto simp: entry_paths_def lookup_def assms dest!: map_of_SomeD) (metis fst_conv image_eqI)
  ultimately show "\<exists>n \<in> set (map fst (entries (inode f d))). entry_paths f d pre n p" by auto
next
  assume "\<exists>n \<in> set (map fst (entries (inode f d))). entry_paths f d pre n p"
  then show "in_tree f d pre p" by (auto simp: entry_paths_def intro: in_tree.intros split: if_splits)
qed

definition reported :: "fs \<Rightarrow> nat \<Rightarrow> pydict \<Rightarrow> pystr \<Rightarrow> bool" where
  "reported f root inputs p \<longleftrightarrow> \<not> py_eq (current f root p) (original inputs p)"

lemma visit_entry_rest:
  assumes "at_rest w" and "walk (fs w) root (split slash pre) = Inr d"
    and "visit_entry descend inputs d pre name c w = (Inr c', w')"
    and descend: "\<And>child pre c. walk (fs w) root (split slash pre) = Inr child \<Longrightarrow> descend child pre c w = (Inr c', w') \<Longrightarrow>
      w' = w \<and> adds (current (fs w) root) (\<lambda>p. in_tree (fs w) child pre p \<and> reported (fs w) root inputs p) c c'"
  shows "w' = w \<and> adds (current (fs w) root) (\<lambda>p. entry_paths (fs w) d pre name p \<and> reported (fs w) root inputs p) c c'"
proof -
  have s: "script w = []" using assms(1) by (simp add: at_rest_def)
  let ?p = "pre @ slash # name" and ?c = "c\<lparr>seen := seen c + 1\<rparr>"
  from assms(3) obtain i where i: "lookup (fs w) d name = Some i"
    by (auto simp: visit_entry_def Let_def calls_rest [OF s] ebind_def split: if_splits option.splits sum.splits)
  have name: "slash \<notin> set name" using assms(1) i by (auto simp: at_rest_def names_ok_def)
  note cur = current_entry [OF assms(2) name i]
  have same: "adds V A c c' = adds V A ?c c'" for V A by (simp add: adds_def)
  show ?thesis
  proof (cases "kind (inode (fs w) i) = Dir")
    case True
    have paths: "entry_paths (fs w) d pre name p = in_tree (fs w) i ?p p" for p
      using True i by (simp add: entry_paths_def)
    from assms(3) True i have "descend i ?p ?c w = (Inr c', w')"
      by (auto simp: visit_entry_def Let_def calls_rest [OF s] ebind_def info_of_def open_directory_def
          split: if_splits sum.splits)
    from descend [OF cur(2) [OF True] this] show ?thesis by (simp add: paths same)
  next
    case False
    have paths: "entry_paths (fs w) d pre name p = (p = ?p)" for p
      using False i by (simp add: entry_paths_def)
    from assms(3) False i obtain v w1 where v: "read_file d name w = (Inr v, w1)"
      and a: "(if py_eq v (original inputs ?p) then ret ?c else lift (add_result ?p v ?c)) w1 = (Inr c', w')"
      by (auto simp: visit_entry_def Let_def calls_rest [OF s] ebind_def info_of_def
          split: if_split_asm sum.splits prod.splits)
    have "w1 = w" "v = current (fs w) root ?p"
      using read_file_rest(1,2) [OF s v] i cur(1) by auto
    with keep_or_add [OF a, of "current (fs w) root"]
    have "w' = w \<and> adds (current (fs w) root) (\<lambda>q. q = ?p \<and> \<not> py_eq (current (fs w) root q) (original inputs ?p)) ?c c'"
      by simp
    moreover have "(\<lambda>q. q = ?p \<and> \<not> py_eq (current (fs w) root q) (original inputs ?p)) =
        (\<lambda>p. entry_paths (fs w) d pre name p \<and> reported (fs w) root inputs p)"
      by (auto simp: paths reported_def)
    ultimately show ?thesis by (simp add: same)
  qed
qed

lemma visit_rest:
  "at_rest w \<Longrightarrow> walk (fs w) root (split slash pre) = Inr d \<Longrightarrow> visit k inputs d pre c w = (Inr c', w') \<Longrightarrow>
     w' = w \<and> adds (current (fs w) root) (\<lambda>p. in_tree (fs w) d pre p \<and> reported (fs w) root inputs p) c c'"
proof (induction k arbitrary: d pre c c' w')
  case (Suc k)
  have s: "script w = []" using Suc.prems(1) by (simp add: at_rest_def)
  from Suc.prems(3) have d: "has_inode (fs w) d"
    by (auto simp: calls_rest [OF s] ebind_def split: if_split_asm)
  with Suc.prems(3) have "efor (visit_entry (visit k inputs) inputs d pre) (map fst (entries (inode (fs w) d))) c w = (Inr c', w')"
    by (simp add: calls_rest [OF s] ebind_def)
  then have "w' = w \<and> adds (current (fs w) root)
      (\<lambda>p. \<exists>n \<in> set (map fst (entries (inode (fs w) d))). entry_paths (fs w) d pre n p \<and> reported (fs w) root inputs p) c c'"
    by (rule efor_adds) (rule visit_entry_rest [OF Suc.prems(1,2)], assumption, rule Suc.IH [OF Suc.prems(1)])
  then show ?case by (simp add: in_tree_entries [OF d])
qed simp

text \<open>The paths that are looked at: the selected ones and the files below \<open>out/\<close>.\<close>

definition inspected_path :: "fs \<Rightarrow> nat \<Rightarrow> pydict \<Rightarrow> pystr \<Rightarrow> bool" where
  "inspected_path f root inputs p \<longleftrightarrow>
     p \<in> fst ` set inputs
     \<or> (\<exists>d. lookup f root out_name = Some d \<and> kind (inode f d) = Dir \<and> in_tree f d out_name p)"

lemma visit_selected_rest:
  assumes "script w = []" and "distinct (map fst inputs)" and "(p, f) \<in> set inputs"
    and "path_parts (PStr p) = Inr parts" and "visit_selected root (p, f) c w = (Inr c', w')"
  shows "w' = w \<and> adds (current (fs w) root) (\<lambda>q. q = p \<and> reported (fs w) root inputs q) c c'"
proof -
  have o: "original inputs p = f" using assms(2,3) by (simp add: original_def)
  from assms(5) obtain v w1 where v: "selected root p w = (Inr v, w1)"
    and a: "(if py_eq v f then ret c else lift (add_result p v c)) w1 = (Inr c', w')"
    by (auto simp: visit_selected_def ebind_def split: prod.splits sum.splits)
  have "w1 = w" "v = current (fs w) root p" using selected_rest [OF assms(1,4) v] .
  with keep_or_add [OF a, of "current (fs w) root"]
  have "w' = w \<and> adds (current (fs w) root) (\<lambda>q. q = p \<and> \<not> py_eq (current (fs w) root q) f) c c'" by simp
  moreover have "(\<lambda>q. q = p \<and> \<not> py_eq (current (fs w) root q) f) = (\<lambda>q. q = p \<and> reported (fs w) root inputs q)"
    by (auto simp: reported_def o)
  ultimately show ?thesis by simp
qed

lemma open_out_rest:
  assumes "script w = []" and "open_out root inputs w = (Inr out, w')"
  shows "w' = w \<and> (case out of
      Some d \<Rightarrow> lookup (fs w) root out_name = Some d \<and> kind (inode (fs w) d) = Dir
    | None \<Rightarrow> \<nexists>d. lookup (fs w) root out_name = Some d \<and> kind (inode (fs w) d) = Dir)"
  using assms(2)
  by (cases "lookup (fs w) root out_name"; cases out)
    (auto simp: open_out_def try_except_def ebind_def calls_rest [OF assms(1)] open_directory_def
      split: option.split if_splits)

lemma collect_rest:
  assumes "at_rest w" and "distinct (map fst (items (field frozen ''files'')))"
    and "collect parent root frozen config summary code w = (Inr r, w')"
  shows "w' = w \<and> (\<exists>rd. lookup (fs w) parent root = Some rd \<and> kind (inode (fs w) rd) = Dir \<and>
     (\<forall>p. map_of (items (field r ''files'')) p =
        (if inspected_path (fs w) rd (items (field frozen ''files'')) p \<and> reported (fs w) rd (items (field frozen ''files'')) p
         then Some (current (fs w) rd p) else None)))"
proof -
  have s: "script w = []" using assms(1) by (simp add: at_rest_def)
  let ?inputs = "items (field frozen ''files'')"
  from assms(3) obtain rd c1 w1 out w2 c2 w3 where
    spec: "frozen_spec frozen config" and rd: "lookup (fs w) parent root = Some rd" "kind (inode (fs w) rd) = Dir"
    and 1: "efor (visit_selected rd) ?inputs \<lparr>found = [], total_bytes = 0, seen = 0\<rparr> w = (Inr c1, w1)"
    and 2: "open_out rd ?inputs w1 = (Inr out, w2)"
    and 3: "(case out of None \<Rightarrow> ret c1 | Some d \<Rightarrow> visit (Suc MAX_ENTRIES) ?inputs d out_name c1) w2 = (Inr c2, w3)"
    and 4: "validate_output frozen config (completion (found c2) summary code) = Inr r" "w' = w3"
    by (auto simp: collect_def Let_def calls_rest [OF s] open_directory_def ebind_def validate_Inr_iff
        split: prod.splits sum.splits if_splits option.splits)
  let ?V = "current (fs w) rd" and ?R = "reported (fs w) rd ?inputs"
  have parts: "\<exists>parts. path_parts (PStr p) = Inr parts" if "(p, f) \<in> set ?inputs" for p f
    using spec that by (auto simp: frozen_spec_def files_spec_def)
  have "w1 = w \<and> adds ?V (\<lambda>q. \<exists>x \<in> set ?inputs. q = fst x \<and> ?R q) \<lparr>found = [], total_bytes = 0, seen = 0\<rparr> c1"
    using visit_selected_rest [OF s assms(2)] parts by (intro efor_adds [OF 1]) fastforce
  then have w1: "w1 = w" and a1: "adds ?V (\<lambda>q. \<exists>x \<in> set ?inputs. q = fst x \<and> ?R q) \<lparr>found = [], total_bytes = 0, seen = 0\<rparr> c1"
    by simp_all
  note out = open_out_rest [OF s 2 [unfolded w1]]
  have a2: "w3 = w \<and> adds ?V (\<lambda>p. (\<exists>d. out = Some d \<and> in_tree (fs w) d out_name p) \<and> ?R p) c1 c2"
  proof (cases out)
    case None
    with 3 out show ?thesis by (auto intro: adds_refl)
  next
    case (Some d)
    have "split slash out_name = [out_name]" by (simp add: out_name_def lit_simps slash_def)
    then have "walk (fs w) rd (split slash out_name) = Inr d"
      using Some out by (simp add: find_entry_def open_directory_def)
    from 3 Some out have "visit (Suc MAX_ENTRIES) ?inputs d out_name c1 w = (Inr c2, w3)" by (simp del: visit.simps)
    from visit_rest [OF assms(1) \<open>walk (fs w) rd (split slash out_name) = Inr d\<close> this] Some show ?thesis by simp
  qed
  have "r = completion (found c2) summary code"
    using 4(1) by (auto simp: validate_output_def Let_def rbind_def split: if_splits sum.splits prod.splits)
  then have "items (field r ''files'') = found c2" by (simp add: completion_def)
  moreover have "map_of (found c2) p = (if inspected_path (fs w) rd ?inputs p \<and> ?R p then Some (?V p) else None)" for p
    using a1 a2 out by (auto simp: adds_def inspected_path_def split: option.splits)
  ultimately show ?thesis using 4(2) a2 rd by auto
qed

section \<open>A small workspace\<close>

text \<open>
  One selected file whose frozen value has a base64 text with unused bits that are not zero, which the
  decoder accepts, and a workspace in which the file still has the frozen content.
\<close>

definition odd_file :: pyval where
  "odd_file = PDict [(lit ''base64'', PStr (lit ''QR=='')), (lit ''bytes'', PInt 1),
     (lit ''sha256'', PStr (sha256_hex [65])), (lit ''mode'', PInt 33188)]"

definition small_name :: pystr where "small_name = lit ''a''"

definition small_input :: pyval where
  "small_input =
     PDict [(lit ''input-id'', PStr sample_uuid), (lit ''task'', PStr (lit ''t'')),
            (lit ''config'', sample_config), (lit ''files'', PDict [(small_name, odd_file)]),
            (lit ''limits'', PDict [(lit ''timeout-ms'', PInt 60000), (lit ''settlement'', PStr (lit ''review''))]),
            (lit ''policy'', PDict (map (\<lambda>(k, v). (lit k, PInt v)) POLICY))]"

definition small_root :: pystr where "small_root = lit ''w''"

definition small_workspace :: fs where
  "small_workspace =
     \<lparr>inodes = [\<lparr>kind = Dir, owner = 1000, mode = 448, content = [], durable = None, entries = [(small_root, 1)],
                 stable = [], links = 1, changed = 0, creator = 0\<rparr>,
                \<lparr>kind = Dir, owner = 1000, mode = 448, content = [], durable = None, entries = [(small_name, 2)],
                 stable = [], links = 1, changed = 0, creator = 0\<rparr>,
                \<lparr>kind = Reg, owner = 1000, mode = 420, content = [65], durable = None, entries = [],
                 stable = [], links = 1, changed = 0, creator = 0\<rparr>], locks = []\<rparr>"

definition small_result :: pyval where
  "small_result = completion [(small_name, output_file [65] 420)] (PStr (lit ''done'')) (PInt 0)"

lemma odd_file_bytes: "file_bytes odd_file = Inr [65]"
proof -
  have "b64decode (lit ''QR=='') = Inr [65]"
    by (simp add: b64decode_def b64_value_def lit_simps byte_def)
  then show ?thesis
    by (simp add: file_bytes_def odd_file_def closed_def key_set_is_iff max_file_bytes_def full_hex_sha256 MODES_def
        lit_simps Let_def)
qed

lemma small_name_parts: "path_parts (PStr small_name) = Inr [small_name]"
  by (simp add: path_parts_def small_name_def lit_simps slash_def is_Cc_def utf8_char_def is_space_def CONTROL_PATHS_def
      casefold_def casefold_char_def)

lemma small_name_split: "split slash small_name = [small_name]"
  by (simp add: small_name_def lit_simps slash_def)

lemma small_frozen: "frozen_spec small_input sample_config"
proof -
  have "py_eq sample_config sample_config" by (rule py_eq_refl) (simp add: sample_config_def)
  moreover have "field small_input ''config'' = sample_config" by (simp add: small_input_def)
  ultimately have "header_spec small_input sample_config"
    using sample_uuid_ok
    by (simp add: header_spec_def sample_config_fields text_within_def)
      (simp add: small_input_def key_set_is_iff POLICY_def)
  moreover have "is_dict small_input" "field small_input ''files'' = PDict [(small_name, odd_file)]"
    by (simp_all add: small_input_def)
  moreover have "file_size odd_file = 1" by (simp add: file_size_def odd_file_bytes)
  ultimately show ?thesis
    by (simp add: frozen_spec_def files_spec_def policy_defs small_name_parts odd_file_bytes small_name_split)
qed

lemma output_file_value: "output_file data m = file_value data (if executable m then 33261 else 33188)"
  by (simp add: output_file_def file_value_def)

lemma small_result_checked: "validate_output small_input sample_config small_result = Inr small_result"
proof -
  have i: "field small_input ''files'' = PDict [(small_name, odd_file)]" by (simp add: small_input_def)
  have f: "field small_result ''files'' = PDict [(small_name, output_file [65] 420)]"
    "field small_result ''summary'' = PStr (lit ''done'')" "field small_result ''exit-code'' = PInt 0"
    "is_dict small_result" "key_set_is small_result [''files'', ''summary'', ''exit-code'']"
    by (simp_all add: small_result_def completion_def key_set_is_iff)
  have b: "file_bytes (output_file [65] 420) = Inr [65]"
    unfolding output_file_value by (rule file_bytes_value) (simp_all add: max_file_bytes_def MODES_def)
  then have s: "file_size (output_file [65] 420) = 1" by (simp add: file_size_def)
  have "output_files_spec [(small_name, odd_file)] [(small_name, output_file [65] 420)]"
    using b s
    by (auto simp: output_files_spec_def output_item_def small_name_parts max_total_bytes_def remaining_def
        output_file_def)
  then have "output_spec small_input sample_config small_result"
    using small_frozen by (simp add: output_spec_def f i max_files_def lit_simps utf8_char_def)
  then show ?thesis by (subst validate_output_Inr_iff) (simp_all add: f)
qed

lemma small_at_rest: "at_rest (host small_workspace 7)"
  by (auto simp: at_rest_def names_ok_def small_workspace_def lookup_def has_inode_def inode_def nth_Cons slash_def small_name_def
      small_root_def lit_simps split: nat.splits if_splits)

lemma odd_file_differs: "\<not> py_eq (output_file [65] 420) odd_file"
proof
  assume "py_eq (output_file [65] 420) odd_file"
  then have "py_eq (PStr (b64encode [65])) (field odd_file ''base64'')"
    unfolding output_file_def by (rule py_eq_field) simp
  then show False by (simp add: odd_file_def lit_simps b64_char_def)
qed

lemma small_collect:
  "collect 0 small_root small_input sample_config (PStr (lit ''done'')) (PInt 0) (host small_workspace 7)
     = (Inr small_result, host small_workspace 7)"
proof -
  let ?w = "host small_workspace 7"
  have s: "script ?w = []" by simp
  have i: "items (field small_input ''files'') = [(small_name, odd_file)]" by (simp add: small_input_def)
  have l: "lookup small_workspace 0 small_root = Some 1" "lookup small_workspace 1 small_name = Some 2"
    "lookup small_workspace 1 out_name = None" "has_inode small_workspace 1" "has_inode small_workspace 2"
    by (simp_all add: lookup_def has_inode_def inode_def small_workspace_def out_name_def small_name_def lit_simps)
  have k: "inode small_workspace 1 = \<lparr>kind = Dir, owner = 1000, mode = 448, content = [], durable = None,
        entries = [(small_name, 2)], stable = [], links = 1, changed = 0, creator = 0\<rparr>"
      "inode small_workspace 2 = \<lparr>kind = Reg, owner = 1000, mode = 420, content = [65], durable = None,
        entries = [], stable = [], links = 1, changed = 0, creator = 0\<rparr>"
    by (simp_all add: inode_def small_workspace_def)
  note l = l [simplified] and k = k [simplified]
  have v: "validate small_input sample_config = Inr small_input" using small_frozen by (simp add: validate_Inr_iff)
  have read: "read_file 1 small_name ?w = (Inr (output_file [65] 420), ?w)"
    by (simp add: read_file_def ebind_def calls_rest l k info_of_def regular_output_def open_entry_def max_file_bytes_def)
  then have sel: "selected (Suc 0) small_name ?w = (Inr (output_file [65] 420), ?w)"
    by (simp add: selected_def try_except_def ebind_def small_name_parts)
  have out: "open_out (Suc 0) inputs ?w = (Inr None, ?w)" for inputs
    by (simp add: open_out_def try_except_def ebind_def calls_rest l)
  have o: "is_dict (output_file [65] 420)" "field (output_file [65] 420) ''bytes'' = PInt 1"
    by (simp_all add: output_file_def)
  have u: "utf8_encode (lit ''done'') \<noteq> None" by (simp add: lit_simps utf8_char_def)
  show ?thesis
    using small_result_checked u
    by (simp add: collect_def v i ebind_def metadata_ok_def summary_limit_def encodable_def calls_rest l k
        open_directory_def info_of_def visit_selected_def sel odd_file_differs add_result_def max_files_def
        max_total_bytes_def o out small_result_def Let_def)
qed

section \<open>Properties\<close>

text \<open>
  C33. Output validation.  On a completion whose file names are distinct (as the keys of a dictionary
  are), \<open>validate\<close> with its ordered checks, its running total and its running set of written paths
  accepts exactly the completions of the declarative specification \<open>output_spec\<close>.
\<close>

theorem validate_output_iff_spec:
  assumes "distinct (map fst (items (field output ''files'')))"
  shows "validate_output frozen config output = Inr r \<longleftrightarrow> r = output \<and> output_spec frozen config output"
  using assms by (rule validate_output_Inr_iff)

theorem validate_output_iff_spec_witness:
  "validate_output small_input sample_config small_result = Inr small_result \<and>
   output_spec small_input sample_config small_result"
  using validate_output_iff_spec [of small_result small_input sample_config small_result] small_result_checked
  by (simp add: small_result_def completion_def)

text \<open>
  C36. The traversal ends.  However deep the directories are, whatever other processes make of them
  meanwhile and whichever calls fail, \<open>collect\<close> with its \<open>MAX_ENTRIES\<close> guard never reaches the end of
  its recursion budget: it returns a completion or one of its own errors.
\<close>

theorem collect_never_out_of_fuel:
  "fst (collect parent root frozen config summary code w) \<noteq> Inl out_of_fuel"
proof
  assume "fst (collect parent root frozen config summary code w) = Inl out_of_fuel"
  then have "collect parent root frozen config summary code w =
      (Inl out_of_fuel, snd (collect parent root frozen config summary code w))" by (simp add: prod_eq_iff)
  from givesD(2) [OF gives_collect this] show False by (simp add: not_fuel_def)
qed

text \<open>
  C35. What \<open>collect\<close> returns is typed.  Whatever happens in the workspace meanwhile, a completion that is
  returned has the summary and the exit code it was given, satisfies the whole output specification for
  the frozen input, names every file once, and every file in it is either the mark of a deletion or at
  most one MiB of data with its own length and digest.
\<close>

theorem collect_returns_valid_completion:
  assumes "collect parent root frozen config summary code w = (Inr r, w')"
  shows "output_spec frozen config r \<and> field r ''summary'' = summary \<and> field r ''exit-code'' = code
    \<and> distinct (map fst (items (field r ''files'')))
    \<and> (\<forall>(p, v) \<in> set (items (field r ''files'')).
         v = PNone \<or> (\<exists>data m. v = output_file data m \<and> int (length data) \<le> max_file_bytes))"
proof -
  from givesD(1) [OF gives_collect assms] obtain files where "r = completion files summary code"
    "output_spec frozen config r" "distinct (map fst files)" "\<forall>(p, v) \<in> set files. current_value v"
    by (auto simp: collects_def)
  then show ?thesis by (simp add: completion_def current_value_def read_value_def)
qed

theorem collect_returns_valid_completion_witness:
  "output_spec small_input sample_config small_result \<and> field small_result ''summary'' = PStr (lit ''done'')"
  using collect_returns_valid_completion [OF small_collect] by simp

text \<open>
  C34. \<open>collect\<close> reports exactly the changes.  From a workspace at rest (the process tree has stopped and
  no call fails) a completion that is returned holds, for every path, the present value of that path if
  it is a selected file or a file in the tree below \<open>out/\<close> and its present value differs from the frozen
  one, and nothing else: no change is missed, no unchanged value is sent, and a selected file that is
  gone is reported as deleted.  Nothing in the workspace is changed.
\<close>

theorem collect_reports_exactly_changes:
  assumes "at_rest w" and "distinct (map fst (items (field frozen ''files'')))"
    and "collect parent root frozen config summary code w = (Inr r, w')"
  shows "w' = w \<and> (\<exists>rd. lookup (fs w) parent root = Some rd \<and> kind (inode (fs w) rd) = Dir \<and>
     (\<forall>p. map_of (items (field r ''files'')) p =
        (if inspected_path (fs w) rd (items (field frozen ''files'')) p
            \<and> \<not> py_eq (current (fs w) rd p) (original (items (field frozen ''files'')) p)
         then Some (current (fs w) rd p) else None)))"
  using collect_rest [OF assms] by (simp add: reported_def)

theorem collect_reports_exactly_changes_witness:
  "\<exists>rd. lookup small_workspace 0 small_root = Some rd \<and>
     map_of (items (field small_result ''files'')) small_name = Some (current small_workspace rd small_name)
     \<and> map_of (items (field small_result ''files'')) out_name = None"
proof -
  have d: "distinct (map fst (items (field small_input ''files'')))" by (simp add: small_input_def)
  obtain rd where rd: "lookup small_workspace 0 small_root = Some rd"
    "\<And>p. map_of (items (field small_result ''files'')) p =
        (if inspected_path small_workspace rd (items (field small_input ''files'')) p
            \<and> \<not> py_eq (current small_workspace rd p) (original (items (field small_input ''files'')) p)
         then Some (current small_workspace rd p) else None)"
    using collect_reports_exactly_changes [OF small_at_rest d small_collect] by auto
  have f: "items (field small_result ''files'') = [(small_name, output_file [65] 420)]"
    by (simp add: small_result_def completion_def)
  have "map_of (items (field small_result ''files'')) small_name \<noteq> None" by (simp add: f)
  then have "map_of (items (field small_result ''files'')) small_name = Some (current small_workspace rd small_name)"
    using rd(2) [of small_name] by (simp split: if_split_asm)
  moreover have "map_of (items (field small_result ''files'')) out_name = None"
    by (simp add: f small_name_def out_name_def lit_simps)
  ultimately show ?thesis using rd(1) by blast
qed

text \<open>
  C37. An unchanged file can be reported as changed.  \<open>collect\<close> compares the values that are sent, with
  their base64 text, and not the contents.  The decoder accepts a base64 text whose unused bits are not
  zero, so a selected file that was frozen with such a text is reported, although the file still has
  exactly the frozen content.
\<close>

theorem unmodified_file_is_reported:
  assumes "at_rest w" and "distinct (map fst (items (field frozen ''files'')))"
    and "collect parent root frozen config summary code w = (Inr r, w')"
    and "map_of (items (field frozen ''files'')) p = Some f" and "file_bytes f = Inr data"
    and "field f ''base64'' \<noteq> PStr (b64encode data)"
    and "lookup (fs w) parent root = Some rd" and "current (fs w) rd p = output_file data m"
  shows "map_of (items (field r ''files'')) p = Some (output_file data m)"
proof -
  have "\<not> py_eq (output_file data m) f"
  proof
    assume "py_eq (output_file data m) f"
    then have "py_eq (PStr (b64encode data)) (field f ''base64'')"
      unfolding output_file_def by (rule py_eq_field) simp
    moreover obtain b where "field f ''base64'' = PStr b" using file_bytes_Inr(6) [OF assms(5)] by blast
    ultimately show False using assms(6) by simp
  qed
  moreover have "p \<in> fst ` set (items (field frozen ''files''))" using assms(4) by (force dest: map_of_SomeD)
  ultimately show ?thesis
    using collect_rest [OF assms(1-3)] assms(4,7,8) by (auto simp: inspected_path_def reported_def original_def)
qed

theorem unmodified_file_is_reported_witness:
  "file_bytes odd_file = Inr (content (inode small_workspace 2)) \<and>
   map_of (items (field small_result ''files'')) small_name = Some (output_file (content (inode small_workspace 2)) 420)"
proof -
  have c: "content (inode small_workspace 2) = [65]" by (simp add: inode_def small_workspace_def)
  have "lookup (fs (host small_workspace 7)) 0 small_root = Some 1"
    "current (fs (host small_workspace 7)) 1 small_name = output_file [65] 420"
    by (simp_all add: lookup_def has_inode_def inode_def small_workspace_def current_def small_name_split)
  then show ?thesis
    unfolding c
    using unmodified_file_is_reported [OF small_at_rest _ small_collect _ odd_file_bytes, of small_name 1 420] odd_file_bytes
    by (simp add: small_input_def odd_file_def lit_simps b64_char_def)
qed

end
