(* ===== verification/Workspace_Properties.thy ===== *)
theory Workspace_Properties
  imports Worker_Materialize Output_Properties
begin

text \<open>
  The workspace of a task from its making to its collection.  A directory tree refines an abstract tree,
  a map from paths to folders and files; \<open>materialize\<close> makes exactly the abstract tree of the frozen
  input, and \<open>collect\<close> on that tree reports nothing.
\<close>

section \<open>Abstract trees\<close>

datatype tree_node = Folder | File bytes nat

type_synonym tree = "pystr list \<Rightarrow> tree_node option"

definition node :: "fs \<Rightarrow> nat \<Rightarrow> pystr list \<Rightarrow> nat option" where
  "node f rd ns =
     (if ns = [] then Some rd
      else case walk f rd (butlast ns) of Inl _ \<Rightarrow> None | Inr d \<Rightarrow> lookup f d (last ns))"

definition view :: "fs \<Rightarrow> nat \<Rightarrow> tree" where
  "view f rd ns =
     (case node f rd ns of
        None \<Rightarrow> None
      | Some i \<Rightarrow> Some (if kind (inode f i) = Dir then Folder else File (content (inode f i)) (mode (inode f i))))"

text \<open>The directory \<open>rd\<close> is the root of the tree \<open>T\<close>, in which every inode has one path.\<close>

definition shape :: "fs \<Rightarrow> nat \<Rightarrow> tree \<Rightarrow> bool" where
  "shape f rd T \<longleftrightarrow>
     fs_ok f \<and> has_inode f rd \<and> kind (inode f rd) = Dir \<and> view f rd = T
     \<and> (\<forall>ms ns i. node f rd ms = Some i \<longrightarrow> node f rd ns = Some i \<longrightarrow> ms = ns)"

lemma node_simps [simp]:
  "node f rd [] = Some rd"
  "node f rd (ns @ [n]) = (case walk f rd ns of Inl _ \<Rightarrow> None | Inr d \<Rightarrow> lookup f d n)"
  by (simp_all add: node_def split: sum.split)

lemma walk_snoc:
  "walk f rd (ns @ [n]) = rbind (walk f rd ns) (\<lambda>d. rbind (find_entry f d n) (open_directory f))"
  by (simp add: walk_append) (auto simp: rbind_def split: sum.splits)

lemma walk_node:
  assumes "kind (inode f rd) = Dir"
  shows "walk f rd ns = Inr d \<longleftrightarrow> node f rd ns = Some d \<and> kind (inode f d) = Dir"
proof (cases ns rule: rev_cases)
  case (snoc ms n)
  show ?thesis
    by (cases "walk f rd ms")
      (auto simp: snoc walk_snoc find_entry_def open_directory_def split: option.splits)
qed (use assms in auto)

lemma node_has_inode: "fs_ok f \<Longrightarrow> has_inode f rd \<Longrightarrow> node f rd ns = Some i \<Longrightarrow> has_inode f i"
  by (cases ns rule: rev_cases) (auto dest: fs_okD split: sum.splits)

lemma shape_walk:
  assumes "shape f rd T"
  shows "walk f rd ns = Inr d \<longleftrightarrow> node f rd ns = Some d \<and> kind (inode f d) = Dir"
    and "walk f rd ns = Inr d \<Longrightarrow> has_inode f d"
    and "node f rd ns = None \<longleftrightarrow> T ns = None"
    and "(\<exists>d. walk f rd ns = Inr d) \<longleftrightarrow> T ns = Some Folder"
proof -
  have k: "kind (inode f rd) = Dir" and v: "T = view f rd" using assms by (auto simp: shape_def)
  show w: "walk f rd ns = Inr d \<longleftrightarrow> node f rd ns = Some d \<and> kind (inode f d) = Dir" for d
    using walk_node [of f rd, OF k] .
  then show "walk f rd ns = Inr d \<Longrightarrow> has_inode f d"
    using assms node_has_inode by (auto simp: shape_def)
  show "node f rd ns = None \<longleftrightarrow> T ns = None" by (simp add: v view_def split: option.split)
  show "(\<exists>d. walk f rd ns = Inr d) \<longleftrightarrow> T ns = Some Folder"
    by (auto simp: w v view_def split: option.splits if_splits)
qed

section \<open>One new entry\<close>

definition with_entry :: "nat \<Rightarrow> pystr \<Rightarrow> inode \<Rightarrow> fs \<Rightarrow> fs" where
  "with_entry d n x f = add_entry d n (length (inodes f)) (add_inode x f)"

lemma with_entry_simps:
  assumes "has_inode f d" and "entries x = []"
  shows "lookup (with_entry d n x f) d' n' = (if d' = d \<and> n' = n then Some (length (inodes f)) else lookup f d' n')"
    and "has_inode (with_entry d n x f) j \<longleftrightarrow> has_inode f j \<or> j = length (inodes f)"
    and "has_inode f j \<Longrightarrow> kind (inode (with_entry d n x f) j) = kind (inode f j)
       \<and> content (inode (with_entry d n x f) j) = content (inode f j) \<and> mode (inode (with_entry d n x f) j) = mode (inode f j)"
    and "inode (with_entry d n x f) (length (inodes f)) = x"
proof -
  have "d \<noteq> length (inodes f)" using assms(1) by (simp add: has_inode_def)
  with assms show "inode (with_entry d n x f) (length (inodes f)) = x"
    by (simp add: with_entry_def inode_add_entry)
qed (use assms in \<open>auto simp: with_entry_def lookup_add_entry lookup_add_inode inode_add_entry\<close>)

lemma node_with_entry:
  assumes "shape f rd T" and "walk f rd ms = Inr d" and "lookup f d n = None" and "entries x = []"
  shows "node (with_entry d n x f) rd ns = (if ns = ms @ [n] then Some (length (inodes f)) else node f rd ns)"
proof (induction ns rule: rev_induct)
  case (snoc k ks)
  let ?f = "with_entry d n x f" and ?i = "length (inodes f)"
  have ok: "fs_ok f" "has_inode f rd" "kind (inode f rd) = Dir" using assms(1) by (auto simp: shape_def)
  have d: "has_inode f d" using shape_walk(2) [OF assms(1,2)] .
  note e = with_entry_simps [OF d assms(4), where n = n]
  have root: "kind (inode ?f rd) = Dir" using e(3) [OF ok(2)] ok(3) by simp
  have fresh: "lookup f ?i m = None" for m by (simp add: lookup_def has_inode_def)
  show ?case
  proof (cases "ks = ms @ [n]")
    case True
    have "node f rd (ms @ [n]) = None" using assms(2,3) by simp
    then have "walk f rd ks = Inr j \<longleftrightarrow> False" for j using shape_walk(1) [OF assms(1)] True by simp
    then have 1: "node f rd (ks @ [k]) = None" by (auto split: sum.splits)
    have "lookup ?f ?i k = None" using fresh d by (auto simp: e(1) has_inode_def)
    moreover have "walk ?f rd ks = Inr j \<Longrightarrow> j = ?i" for j
      using walk_node [OF root, of ks j] snoc.IH True by simp
    ultimately have "node ?f rd (ks @ [k]) = None" by (auto split: sum.splits)
    with 1 True show ?thesis by simp
  next
    case False
    have same: "walk ?f rd ks = Inr j \<longleftrightarrow> walk f rd ks = Inr j" for j
      using walk_node [OF root, of ks j] shape_walk(1) [OF assms(1), of ks j] snoc.IH False
        node_has_inode [OF ok(1,2), of ks j] e(3) [of j] by auto
    show ?thesis
    proof (cases "walk f rd ks")
      case (Inl a)
      then have "\<nexists>j. walk ?f rd ks = Inr j" by (simp add: same)
      then obtain b where "walk ?f rd ks = Inl b" by (cases "walk ?f rd ks") auto
      moreover have "ks \<noteq> ms" using Inl assms(2) by auto
      ultimately show ?thesis using Inl by simp
    next
      case (Inr j)
      have "j = d \<longleftrightarrow> ks = ms"
        using Inr assms(1,2) shape_walk(1) [OF assms(1)] by (auto simp: shape_def)
      with Inr same [of j] show ?thesis by (auto simp: e(1))
    qed
  qed
qed simp

lemma shape_with_entry:
  assumes "shape f rd T" and "walk f rd ms = Inr d" and "T (ms @ [n]) = None" and "entries x = []"
  shows "shape (with_entry d n x f) rd (T(ms @ [n] \<mapsto> if kind x = Dir then Folder else File (content x) (mode x)))"
    and "node (with_entry d n x f) rd (ms @ [n]) = Some (length (inodes f))"
proof -
  let ?f = "with_entry d n x f" and ?i = "length (inodes f)"
  have ok: "fs_ok f" "has_inode f rd" "kind (inode f rd) = Dir" "view f rd = T"
    and uniq: "\<And>ms ns i. node f rd ms = Some i \<Longrightarrow> node f rd ns = Some i \<Longrightarrow> ms = ns"
    using assms(1) by (auto simp: shape_def)
  have d: "has_inode f d" using shape_walk(2) [OF assms(1,2)] .
  have "node f rd (ms @ [n]) = None" using shape_walk(3) [OF assms(1), of "ms @ [n]"] assms(3) by (simp del: node_simps)
  then have l: "lookup f d n = None" using assms(2) by simp
  note e = with_entry_simps [OF d assms(4), where n = n] and nd = node_with_entry [OF assms(1,2) l assms(4)]
  show "node ?f rd (ms @ [n]) = Some ?i" unfolding nd by simp
  have old: "node f rd ns = Some j \<Longrightarrow> has_inode f j" for ns j using node_has_inode [OF ok(1,2)] .
  have "fs_ok ?f" using ok(1) by (auto simp: fs_ok_def e(1,2))
  moreover have "view ?f rd ns = (T(ms @ [n] \<mapsto> if kind x = Dir then Folder else File (content x) (mode x))) ns" for ns
    using e(4) e(3) [OF old, of ns] unfolding view_def nd ok(4) [symmetric]
    by (auto simp: view_def split: option.split)
  moreover have "ks = ns" if "node ?f rd ks = Some j" "node ?f rd ns = Some j" for ks ns j
    using that uniq [of ks j ns] old [of ks j] old [of ns j] unfolding nd
    by (auto simp: has_inode_def split: if_splits)
  ultimately show "shape ?f rd (T(ms @ [n] \<mapsto> if kind x = Dir then Folder else File (content x) (mode x)))"
    using ok(2,3) e(2) e(3) [OF ok(2)] unfolding shape_def by (auto simp: fun_eq_iff)
qed

text \<open>A file is changed.\<close>

lemma shape_set_inode:
  assumes "shape f rd T" and "node f rd ms = Some i" and "kind (inode f i) \<noteq> Dir"
    and "entries x = entries (inode f i)" and "kind x = kind (inode f i)"
  shows "shape (set_inode i x f) rd (T(ms \<mapsto> File (content x) (mode x)))"
    and "node (set_inode i x f) rd ns = node f rd ns"
proof -
  let ?f = "set_inode i x f"
  have ok: "fs_ok f" "has_inode f rd" "kind (inode f rd) = Dir" "view f rd = T"
    and uniq: "\<And>ms ns i. node f rd ms = Some i \<Longrightarrow> node f rd ns = Some i \<Longrightarrow> ms = ns"
    using assms(1) by (auto simp: shape_def)
  have i: "has_inode f i" using node_has_inode [OF ok(1,2) assms(2)] .
  have l: "lookup ?f d n = lookup f d n" for d n using i assms(4) by (rule lookup_same)
  have k: "kind (inode ?f j) = kind (inode f j)" for j using i assms(5) by simp
  have w: "walk ?f d ks = walk f d ks" for d ks
    by (induction ks arbitrary: d) (simp_all add: find_entry_def open_directory_def l k)
  show n: "node ?f rd ns = node f rd ns" for ns by (simp add: node_def w l split: sum.split)
  have "fs_ok ?f" using ok(1) by (simp add: fs_ok_def l)
  moreover have "view ?f rd ns = (T(ms \<mapsto> File (content x) (mode x))) ns" for ns
  proof (cases "ns = ms")
    case True
    then show ?thesis using i assms(2,3,5) by (simp add: view_def n)
  next
    case False
    then have "node f rd ns \<noteq> Some i" using uniq [OF assms(2)] by blast
    with False i show ?thesis unfolding ok(4) [symmetric] by (auto simp: view_def n split: option.split)
  qed
  ultimately show "shape ?f rd (T(ms \<mapsto> File (content x) (mode x)))"
    using ok(2,3) uniq k unfolding shape_def by (auto simp: fun_eq_iff n)
qed

section \<open>The calls of a quiet machine\<close>

lemma syscall_quiet:
  "script w = [] \<Longrightarrow> syscall g w = (case g (fs w) of Inl e \<Rightarrow> (Inl e, w) | Inr (x, f) \<Rightarrow> (Inr x, w\<lparr>fs := f\<rparr>))"
  "script w = [] \<Longrightarrow> syscall_partial g p w = (case g (fs w) of Inl e \<Rightarrow> (Inl e, w) | Inr (x, f) \<Rightarrow> (Inr x, w\<lparr>fs := f\<rparr>))"
  by (simp_all add: syscall_def syscall_partial_def next_step_def split: sum.split)

text \<open>A step that leaves the machine quiet and every name that was there.\<close>

definition builds :: "'a posix_scheme \<Rightarrow> 'a posix_scheme \<Rightarrow> bool" where
  "builds w w' \<longleftrightarrow> script w' = [] \<and> (\<forall>d n i. lookup (fs w) d n = Some i \<longrightarrow> lookup (fs w') d n = Some i)"

lemma builds_trans: "builds u v \<Longrightarrow> builds v w \<Longrightarrow> builds u w"
  by (simp add: builds_def)

lemma make_with_entry:
  "Py_Posix.make k who perm process d n f =
     (if \<not> has_inode f d \<or> kind (inode f d) \<noteq> Dir then Inl NotADirectoryError
      else if lookup f d n \<noteq> None then Inl FileExistsError
      else Inr (length (inodes f), with_entry d n (new_inode k who process perm) f))"
  by (simp add: Py_Posix.make_def with_entry_def Let_def)

lemma make_in_tree:
  assumes "shape f rd T" and "walk f rd ms = Inr d" and "T (ms @ [n]) = None"
  shows "Py_Posix.make k who perm process d n f = Inr (length (inodes f), with_entry d n (new_inode k who process perm) f)"
    and "shape (with_entry d n (new_inode k who process perm) f) rd (T(ms @ [n] \<mapsto> if k = Dir then Folder else File [] process))"
    and "node (with_entry d n (new_inode k who process perm) f) rd (ms @ [n]) = Some (length (inodes f))"
    and "lookup f d' n' = Some i \<Longrightarrow> lookup (with_entry d n (new_inode k who process perm) f) d' n' = Some i"
proof -
  let ?x = "new_inode k who process perm"
  have x: "entries ?x = []" "kind ?x = k" "content ?x = []" "mode ?x = process" by (simp_all add: new_inode_def)
  have d: "has_inode f d" "kind (inode f d) = Dir" using shape_walk(1,2) [OF assms(1)] assms(2) by auto
  have "node f rd (ms @ [n]) = None" using shape_walk(3) [OF assms(1), of "ms @ [n]"] assms(3) by (simp del: node_simps)
  then have l: "lookup f d n = None" using assms(2) by simp
  show "Py_Posix.make k who perm process d n f = Inr (length (inodes f), with_entry d n ?x f)"
    using d l by (simp add: make_with_entry)
  show "shape (with_entry d n ?x f) rd (T(ms @ [n] \<mapsto> if k = Dir then Folder else File [] process))"
    using shape_with_entry(1) [OF assms x(1)] by (simp only: x)
  show "node (with_entry d n ?x f) rd (ms @ [n]) = Some (length (inodes f))"
    by (rule shape_with_entry(2) [OF assms x(1)])
  show "lookup f d' n' = Some i \<Longrightarrow> lookup (with_entry d n ?x f) d' n' = Some i"
    using l by (auto simp: with_entry_simps(1) [OF d(1) x(1)])
qed

section \<open>Entering the directories of a path\<close>

lemma enter_directory_quiet:
  assumes "script w = []" and "shape (fs w) rd T" and "walk (fs w) rd ms = Inr d"
    and "T (ms @ [n]) = None \<or> T (ms @ [n]) = Some Folder"
  shows "\<exists>i w'. enter_directory n d w = (Inr i, w') \<and> builds w w'
    \<and> shape (fs w') rd (T(ms @ [n] \<mapsto> Folder)) \<and> walk (fs w') rd (ms @ [n]) = Inr i"
  using assms(4)
proof
  assume T: "T (ms @ [n]) = None"
  let ?i = "length (inodes (fs w))"
  let ?f = "with_entry d n (new_inode Dir (uid w) (masked 448 (umask w)) (pid w)) (fs w)"
  note m = make_in_tree [OF assms(2,3) T, where k = Dir and who = "uid w" and perm = "pid w" and process = "masked 448 (umask w)"]
  have s: "shape ?f rd (T(ms @ [n] \<mapsto> Folder))" using m(2) by simp
  then obtain j where j: "walk ?f rd (ms @ [n]) = Inr j" using shape_walk(4) [OF s, of "ms @ [n]"] by auto
  then have "node ?f rd (ms @ [n]) = Some j" "kind (inode ?f j) = Dir" using shape_walk(1) [OF s] by blast+
  with m(3) have i: "j = ?i" "kind (inode ?f ?i) = Dir" by auto
  have mk: "sys_mkdir d n 448 w = (Inr (), w\<lparr>fs := ?f\<rparr>)"
    using m(1) by (simp add: sys_mkdir_def syscall_quiet assms(1))
  have "lookup ?f d n = Some ?i"
    using shape_walk(2) [OF assms(2,3)] by (simp add: with_entry_simps(1) new_inode_def)
  then have "sys_opendir d n (w\<lparr>fs := ?f\<rparr>) = (Inr ?i, w\<lparr>fs := ?f\<rparr>)"
    using i(2) assms(1) by (simp add: calls_rest open_directory_def)
  with mk have "enter_directory n d w = (Inr ?i, w\<lparr>fs := ?f\<rparr>)"
    by (simp add: enter_directory_def ebind_def try_except_def)
  moreover have "builds w (w\<lparr>fs := ?f\<rparr>)" using m(4) assms(1) by (simp add: builds_def)
  ultimately show ?thesis using s j i(1) by fastforce
next
  assume T: "T (ms @ [n]) = Some Folder"
  then obtain i where i: "walk (fs w) rd (ms @ [n]) = Inr i" using shape_walk(4) [OF assms(2)] by blast
  then have l: "lookup (fs w) d n = Some i" "kind (inode (fs w) i) = Dir"
    using assms(3) by (auto simp: walk_snoc find_entry_def open_directory_def split: option.splits if_splits)
  have d: "has_inode (fs w) d" "kind (inode (fs w) d) = Dir" using shape_walk(1,2) [OF assms(2)] assms(3) by auto
  have "sys_mkdir d n 448 w = (Inl FileExistsError, w)"
    using d l by (simp add: sys_mkdir_def syscall_quiet assms(1) make_with_entry)
  then have "enter_directory n d w = (Inr i, w)"
    using l by (simp add: enter_directory_def ebind_def try_except_def calls_rest assms(1) open_directory_def)
  moreover have "T(ms @ [n] \<mapsto> Folder) = T" using T by (simp add: fun_upd_idem)
  ultimately show ?thesis using assms(1,2) i by (simp add: builds_def)
qed

text \<open>The tree with the folders on the way of a path.\<close>

definition on_way :: "pystr list \<Rightarrow> pystr list \<Rightarrow> pystr list \<Rightarrow> bool" where
  "on_way ms ns q \<longleftrightarrow> (\<exists>k. 1 \<le> k \<and> k \<le> length ns \<and> q = ms @ take k ns)"

lemma on_way_simps [simp]: "\<not> on_way ms [] q" "on_way ms (n # ns) q \<longleftrightarrow> q = ms @ [n] \<or> on_way (ms @ [n]) ns q"
proof -
  show "\<not> on_way ms [] q" by (simp add: on_way_def)
  show "on_way ms (n # ns) q \<longleftrightarrow> q = ms @ [n] \<or> on_way (ms @ [n]) ns q"
  proof
    assume "on_way ms (n # ns) q"
    then obtain k where k: "k \<le> length ns" "q = ms @ take (Suc k) (n # ns)"
      unfolding on_way_def by (metis One_nat_def Suc_le_D Suc_le_mono length_Cons)
    then show "q = ms @ [n] \<or> on_way (ms @ [n]) ns q" by (cases k) (auto simp: on_way_def)
  next
    assume "q = ms @ [n] \<or> on_way (ms @ [n]) ns q"
    then show "on_way ms (n # ns) q"
    proof
      assume "q = ms @ [n]"
      then show ?thesis by (auto simp: on_way_def intro!: exI [of _ 1])
    next
      assume "on_way (ms @ [n]) ns q"
      then obtain k where "k \<le> length ns" "q = (ms @ [n]) @ take k ns" by (auto simp: on_way_def)
      then show ?thesis by (auto simp: on_way_def intro!: exI [of _ "Suc k"])
    qed
  qed
qed

lemma on_way_prefix: "parts \<noteq> [] \<Longrightarrow> on_way [] (butlast parts) q \<longleftrightarrow> q \<noteq> [] \<and> strict_prefix q parts"
proof
  assume p: "parts \<noteq> []" and "on_way [] (butlast parts) q"
  then obtain k where k: "1 \<le> k" "k \<le> length parts - 1" "q = take k (butlast parts)" by (auto simp: on_way_def)
  then have q: "q = take k parts" by (simp add: take_butlast)
  with k p have "length q = k" by simp
  moreover have "k < length parts" using k(2) p by (cases parts) auto
  ultimately show "q \<noteq> [] \<and> strict_prefix q parts"
    using k(1) q by (auto simp: strict_prefix_def take_is_prefix)
next
  assume p: "parts \<noteq> []" and q: "q \<noteq> [] \<and> strict_prefix q parts"
  then obtain r where r: "parts = q @ r" "r \<noteq> []" by (auto simp: strict_prefix_def prefix_def)
  then have "butlast parts = q @ butlast r" by (simp add: butlast_append)
  with q show "on_way [] (butlast parts) q"
    by (auto simp: on_way_def Suc_le_eq intro!: exI [of _ "length q"])
qed

lemma enter_path_quiet:
  "script w = [] \<Longrightarrow> shape (fs w) rd T \<Longrightarrow> walk (fs w) rd ms = Inr d \<Longrightarrow>
     (\<And>q. on_way ms ns q \<Longrightarrow> T q = None \<or> T q = Some Folder) \<Longrightarrow>
     \<exists>i w'. efor enter_directory ns d w = (Inr i, w') \<and> builds w w'
       \<and> shape (fs w') rd (\<lambda>q. if on_way ms ns q then Some Folder else T q) \<and> walk (fs w') rd (ms @ ns) = Inr i"
proof (induction ns arbitrary: ms d w T)
  case Nil
  then show ?case by (simp add: builds_def)
next
  case (Cons n ns)
  have "T (ms @ [n]) = None \<or> T (ms @ [n]) = Some Folder" using Cons.prems(4) by simp
  from enter_directory_quiet [OF Cons.prems(1-3) this]
  obtain i w1 where 1: "enter_directory n d w = (Inr i, w1)" "builds w w1"
    "shape (fs w1) rd (T(ms @ [n] \<mapsto> Folder))" "walk (fs w1) rd (ms @ [n]) = Inr i" by blast
  have "script w1 = []" using 1(2) by (simp add: builds_def)
  moreover have "(T(ms @ [n] \<mapsto> Folder)) q = None \<or> (T(ms @ [n] \<mapsto> Folder)) q = Some Folder"
    if "on_way (ms @ [n]) ns q" for q using Cons.prems(4) that by simp
  ultimately obtain j w2 where 2: "efor enter_directory ns i w1 = (Inr j, w2)" "builds w1 w2"
    "shape (fs w2) rd (\<lambda>q. if on_way (ms @ [n]) ns q then Some Folder else (T(ms @ [n] \<mapsto> Folder)) q)"
    "walk (fs w2) rd ((ms @ [n]) @ ns) = Inr j"
    using Cons.IH [OF _ 1(3,4)] by blast
  have "(\<lambda>q. if on_way (ms @ [n]) ns q then Some Folder else (T(ms @ [n] \<mapsto> Folder)) q) =
      (\<lambda>q. if on_way ms (n # ns) q then Some Folder else T q)" by auto
  with 2 1(1,2) builds_trans show ?case by (simp add: ebind_def) blast
qed

section \<open>Writing one file\<close>

text \<open>A file of the tree that is open for writing.\<close>

definition open_file :: "'a posix_scheme \<Rightarrow> nat \<Rightarrow> pystr list \<Rightarrow> nat \<Rightarrow> tree \<Rightarrow> bool" where
  "open_file w rd ms i T \<longleftrightarrow>
     script w = [] \<and> shape (fs w) rd T \<and> node (fs w) rd ms = Some i \<and> kind (inode (fs w) i) \<noteq> Dir"

lemma open_fileD:
  assumes "open_file w rd ms i T"
  shows "has_inode (fs w) i" and "T ms = Some (File (content (inode (fs w) i)) (mode (inode (fs w) i)))"
  using assms node_has_inode by (auto simp: open_file_def shape_def view_def)

lemma open_file_update:
  assumes "open_file w rd ms i T" and "entries x = entries (inode (fs w) i)" and "kind x = kind (inode (fs w) i)"
  shows "open_file (w\<lparr>fs := set_inode i x (fs w)\<rparr>) rd ms i (T(ms \<mapsto> File (content x) (mode x)))"
    and "builds w (w\<lparr>fs := set_inode i x (fs w)\<rparr>)"
proof -
  have s: "script w = []" "shape (fs w) rd T" "node (fs w) rd ms = Some i" "kind (inode (fs w) i) \<noteq> Dir"
    using assms(1) by (auto simp: open_file_def)
  note i = open_fileD(1) [OF assms(1)]
  show "open_file (w\<lparr>fs := set_inode i x (fs w)\<rparr>) rd ms i (T(ms \<mapsto> File (content x) (mode x)))"
    using shape_set_inode [OF s(2-4) assms(2,3)] s i assms(3) by (simp add: open_file_def)
  show "builds w (w\<lparr>fs := set_inode i x (fs w)\<rparr>)"
    using s(1) lookup_same [OF i assms(2)] by (simp add: builds_def)
qed

lemma fill_file:
  assumes "open_file w rd ms i T" and "T ms = Some (File c m)"
  shows "\<exists>w'. sys_write i data w = (Inr (), w') \<and> builds w w' \<and> open_file w' rd ms i (T(ms \<mapsto> File (c @ data) m))"
    and "\<exists>w'. sys_fchmod i m' w = (Inr (), w') \<and> builds w w' \<and> open_file w' rd ms i (T(ms \<mapsto> File c m'))"
    and "\<exists>w'. sys_fsync i w = (Inr (), w') \<and> builds w w' \<and> open_file w' rd ms i T"
proof -
  have s: "script w = []" "has_inode (fs w) i" "content (inode (fs w) i) = c" "mode (inode (fs w) i) = m"
    using assms open_fileD [OF assms(1)] by (auto simp: open_file_def)
  show "\<exists>w'. sys_write i data w = (Inr (), w') \<and> builds w w' \<and> open_file w' rd ms i (T(ms \<mapsto> File (c @ data) m))"
    using open_file_update [OF assms(1), of "(inode (fs w) i)\<lparr>content := c @ data, changed := Suc (changed (inode (fs w) i))\<rparr>"]
    by (simp add: sys_write_def syscall_quiet s put_def)
  show "\<exists>w'. sys_fchmod i m' w = (Inr (), w') \<and> builds w w' \<and> open_file w' rd ms i (T(ms \<mapsto> File c m'))"
    using open_file_update [OF assms(1), of "(inode (fs w) i)\<lparr>mode := m'\<rparr>"]
    by (simp add: sys_fchmod_def syscall_quiet s)
  have "T(ms \<mapsto> File c m) = T" using assms(2) by (simp add: fun_upd_idem)
  then show "\<exists>w'. sys_fsync i w = (Inr (), w') \<and> builds w w' \<and> open_file w' rd ms i T"
    using open_file_update [OF assms(1), of "(inode (fs w) i)\<lparr>durable := Some (content (inode (fs w) i)),
        stable := entries (inode (fs w) i)\<rparr>"]
    by (simp add: sys_fsync_def syscall_quiet s sync_def)
qed

lemma create_file:
  assumes "script w = []" and "shape (fs w) rd T" and "walk (fs w) rd ms = Inr d" and "T (ms @ [n]) = None"
  shows "\<exists>i m w'. sys_create d n 384 w = (Inr i, w') \<and> builds w w' \<and> open_file w' rd (ms @ [n]) i (T(ms @ [n] \<mapsto> File [] m))"
proof -
  let ?x = "new_inode Reg (uid w) (masked 384 (umask w)) (pid w)"
  let ?f = "with_entry d n ?x (fs w)"
  note m = make_in_tree [OF assms(2-4), where k = Reg and who = "uid w" and perm = "pid w" and process = "masked 384 (umask w)"]
  have "inode ?f (length (inodes (fs w))) = ?x"
    by (rule with_entry_simps(4) [OF shape_walk(2) [OF assms(2,3)]]) (simp add: new_inode_def)
  then have "kind (inode ?f (length (inodes (fs w)))) \<noteq> Dir" by (simp add: new_inode_def)
  moreover have "sys_create d n 384 w = (Inr (length (inodes (fs w))), w\<lparr>fs := ?f\<rparr>)"
    using m(1) by (simp add: sys_create_def syscall_quiet assms(1))
  ultimately show ?thesis
    using m(2-4) assms(1) by (intro exI [of _ "length (inodes (fs w))"] exI [of _ "masked 384 (umask w)"] exI [of _ "w\<lparr>fs := ?f\<rparr>"])
      (simp add: open_file_def builds_def)
qed

text \<open>The tree with one more file.\<close>

definition place :: "pystr list \<Rightarrow> bytes \<Rightarrow> nat \<Rightarrow> tree \<Rightarrow> tree" where
  "place parts data m T =
     (\<lambda>q. if q = parts then Some (File data m) else if on_way [] (butlast parts) q then Some Folder else T q)"

lemma write_input_quiet:
  assumes "script w = []" and "shape (fs w) rd T"
    and "path_parts (PStr p) = Inr parts" and "file_bytes file = Inr data"
    and "\<And>q. on_way [] (butlast parts) q \<Longrightarrow> T q = None \<or> T q = Some Folder" and "T parts = None"
  shows "\<exists>w'. write_input rd (p, file) () w = (Inr (), w') \<and> builds w w'
    \<and> shape (fs w') rd (place parts data (disk_mode file) T)"
proof -
  have ne: "parts \<noteq> []" using assms(3) by (rule path_parts_nonempty)
  then have parts: "butlast parts @ [last parts] = parts" by simp
  let ?T1 = "\<lambda>q. if on_way [] (butlast parts) q then Some Folder else T q"
  obtain d w1 where 1: "efor enter_directory (butlast parts) rd w = (Inr d, w1)" "builds w w1"
    "shape (fs w1) rd ?T1" "walk (fs w1) rd (butlast parts) = Inr d"
    using enter_path_quiet [OF assms(1,2), of "[]" rd "butlast parts"] assms(5) by auto
  have "\<not> on_way [] (butlast parts) parts" using ne by (simp add: on_way_prefix)
  then have "?T1 (butlast parts @ [last parts]) = None" using assms(6) parts by simp
  from create_file [OF _ 1(3,4) this] 1(2) obtain i m w2 where
    2: "sys_create d (last parts) 384 w1 = (Inr i, w2)" "builds w1 w2" "open_file w2 rd parts i (?T1(parts \<mapsto> File [] m))"
    by (auto simp: builds_def parts)
  from fill_file(1) [OF 2(3), of "[]" m data] obtain w3 where
    3: "sys_write i data w2 = (Inr (), w3)" "builds w2 w3" "open_file w3 rd parts i (?T1(parts \<mapsto> File data m))" by auto
  from fill_file(2) [OF 3(3), of data m "disk_mode file"] obtain w4 where
    4: "sys_fchmod i (disk_mode file) w3 = (Inr (), w4)" "builds w3 w4"
      "open_file w4 rd parts i (?T1(parts \<mapsto> File data (disk_mode file)))" by auto
  from fill_file(3) [OF 4(3), of data "disk_mode file"] obtain w5 where
    5: "sys_fsync i w4 = (Inr (), w5)" "builds w4 w5" "open_file w5 rd parts i (?T1(parts \<mapsto> File data (disk_mode file)))" by auto
  have "write_input rd (p, file) () w = (Inr (), w5)"
    by (simp add: write_input_def ebind_def assms(3,4) 1(1) 2(1) 3(1) 4(1) 5(1))
  moreover have "builds w w5" using 1(2) 2(2) 3(2) 4(2) 5(2) by (blast intro: builds_trans)
  moreover have "?T1(parts \<mapsto> File data (disk_mode file)) = place parts data (disk_mode file) T"
    by (auto simp: place_def)
  ultimately show ?thesis using 5(3) by (simp add: open_file_def)
qed

section \<open>The tree of a frozen input\<close>

text \<open>A file at the path of every entry, a folder at every beginning of a path, and nothing else.\<close>

definition input_files :: "pydict \<Rightarrow> pystr list \<Rightarrow> pyval option" where
  "input_files inputs = map_of (map (\<lambda>(p, f). (split slash p, f)) inputs)"

definition file_data :: "pyval \<Rightarrow> bytes" where
  "file_data f = (case file_bytes f of Inl _ \<Rightarrow> [] | Inr data \<Rightarrow> data)"

definition input_tree :: "pydict \<Rightarrow> tree" where
  "input_tree inputs ns =
     (case input_files inputs ns of
        Some f \<Rightarrow> Some (File (file_data f) (disk_mode f))
      | None \<Rightarrow>
          if ns = [] \<or> (\<exists>p \<in> fst ` set inputs. strict_prefix ns (split slash p)) then Some Folder else None)"

lemma input_files_snoc:
  "input_files (fls @ [(p, f)]) ns = (case input_files fls ns of None \<Rightarrow> if ns = split slash p then Some f else None | Some g \<Rightarrow> Some g)"
  by (simp add: input_files_def map_add_def split: option.split)


lemma input_files_None: "input_files fls ns = None \<longleftrightarrow> (\<forall>p \<in> fst ` set fls. ns \<noteq> split slash p)"
  by (force simp: input_files_def map_of_eq_None_iff)

definition apart_paths :: "pydict \<Rightarrow> bool" where
  "apart_paths fls \<longleftrightarrow> distinct (map fst fls)
     \<and> (\<forall>p \<in> fst ` set fls. \<forall>q \<in> fst ` set fls. \<not> strict_prefix (split slash q) (split slash p))"

lemma input_tree_room:
  assumes "apart_paths (fls @ [(p, f)])"
  shows "input_tree fls (split slash p) = None"
    and "on_way [] (butlast (split slash p)) q \<Longrightarrow> input_tree fls q = None \<or> input_tree fls q = Some Folder"
proof -
  have new: "p \<notin> fst ` set fls" and np: "\<And>q. q \<in> fst ` set fls \<Longrightarrow> \<not> strict_prefix (split slash q) (split slash p)
      \<and> \<not> strict_prefix (split slash p) (split slash q)"
    using assms by (auto simp: apart_paths_def)
  then have "input_files fls (split slash p) = None" by (auto simp: input_files_None split_inject)
  with np show "input_tree fls (split slash p) = None" by (auto simp: input_tree_def)
  assume "on_way [] (butlast (split slash p)) q"
  then have "strict_prefix q (split slash p)" by (simp add: on_way_prefix)
  with np have "input_files fls q = None" by (auto simp: input_files_None)
  then show "input_tree fls q = None \<or> input_tree fls q = Some Folder" by (simp add: input_tree_def)
qed

lemma input_tree_snoc:
  assumes "apart_paths (fls @ [(p, f)])"
  shows "input_tree (fls @ [(p, f)]) = place (split slash p) (file_data f) (disk_mode f) (input_tree fls)"
proof
  fix ns
  note room = input_tree_room [OF assms]
  show "input_tree (fls @ [(p, f)]) ns = place (split slash p) (file_data f) (disk_mode f) (input_tree fls) ns"
  proof (cases "ns = split slash p")
    case True
    have "input_files fls ns = None" using room(1) True by (auto simp: input_tree_def split: option.splits)
    with True show ?thesis by (simp add: input_tree_def input_files_snoc place_def)
  next
    case False
    then have same: "input_files (fls @ [(p, f)]) ns = input_files fls ns"
      by (simp add: input_files_snoc split: option.split)
    show ?thesis
    proof (cases "on_way [] (butlast (split slash p)) ns")
      case True
      with room(2) [OF True] False show ?thesis
        by (auto simp: input_tree_def same place_def on_way_prefix split: option.splits)
    next
      case on: False
      then have "\<not> strict_prefix ns (split slash p) \<or> ns = []" by (auto simp: on_way_prefix)
      with on False show ?thesis by (auto simp: input_tree_def same place_def split: option.split)
    qed
  qed
qed

lemma write_inputs_quiet:
  "script w = [] \<Longrightarrow> shape (fs w) rd (input_tree done) \<Longrightarrow> apart_paths (done @ todo) \<Longrightarrow>
     (\<forall>(p, f) \<in> set todo. (\<exists>parts. path_parts (PStr p) = Inr parts) \<and> (\<exists>data. file_bytes f = Inr data)) \<Longrightarrow>
     \<exists>w'. efor (write_input rd) todo () w = (Inr (), w') \<and> builds w w' \<and> shape (fs w') rd (input_tree (done @ todo))"
proof (induction todo arbitrary: "done" w)
  case Nil
  then show ?case by (simp add: builds_def)
next
  case (Cons x todo)
  obtain p f where x: "x = (p, f)" by (cases x)
  with Cons.prems(4) obtain parts data where p: "path_parts (PStr p) = Inr parts" and f: "file_bytes f = Inr data" by auto
  then have parts: "parts = split slash p" by (auto simp: path_parts_Inr_iff)
  have ap: "apart_paths (done @ [(p, f)])" using Cons.prems(3) by (auto simp: apart_paths_def x)
  note room = input_tree_room [OF ap]
  obtain w1 where 1: "write_input rd (p, f) () w = (Inr (), w1)" "builds w w1"
    "shape (fs w1) rd (place parts data (disk_mode f) (input_tree done))"
    using write_input_quiet [OF Cons.prems(1,2) p f] room unfolding parts by blast
  have "place parts data (disk_mode f) (input_tree done) = input_tree (done @ [x])"
    using input_tree_snoc [OF ap] f by (simp add: x parts file_data_def)
  with 1(3) have "shape (fs w1) rd (input_tree (done @ [x]))" by simp
  moreover have "script w1 = []" using 1(2) by (simp add: builds_def)
  ultimately obtain w2 where 2: "efor (write_input rd) todo () w1 = (Inr (), w2)" "builds w1 w2"
    "shape (fs w2) rd (input_tree ((done @ [x]) @ todo))"
    using Cons.IH [of w1 "done @ [x]"] Cons.prems(3,4) by auto
  with 1(1,2) show ?case by (auto simp: x ebind_def intro: builds_trans)
qed

section \<open>The whole workspace\<close>

lemma shape_new_directory:
  assumes "fs_ok f" and "has_inode f d" and "entries x = []" and "kind x = Dir"
  shows "shape (with_entry d n x f) (length (inodes f)) (input_tree [])"
proof -
  let ?f = "with_entry d n x f" and ?i = "length (inodes f)"
  note e = with_entry_simps [OF assms(2,3), where n = n]
  have "lookup f ?i m = None" "d \<noteq> ?i" for m using assms(2) by (auto simp: has_inode_def lookup_def)
  then have "lookup ?f ?i m = None" for m by (simp add: e(1))
  then have w: "walk ?f ?i ns = Inr j \<Longrightarrow> ns = []" for ns j
    by (cases ns) (simp_all add: find_entry_def)
  have "node ?f ?i ns = None" if "ns \<noteq> []" for ns
  proof (cases ns rule: rev_cases)
    case (snoc ks k)
    with \<open>\<And>m. lookup ?f ?i m = None\<close> w show ?thesis by (cases "walk ?f ?i ks") fastforce+
  qed (use that in simp)
  then have nd: "node ?f ?i ns = (if ns = [] then Some ?i else None)" for ns by simp
  have "view ?f ?i = input_tree []"
    by (rule ext) (simp add: view_def nd e(4) assms(4) input_tree_def input_files_def)
  moreover have "fs_ok ?f" using assms(1) by (auto simp: fs_ok_def e(1,2))
  ultimately show ?thesis by (auto simp: shape_def nd e(2,4) assms(4))
qed

text \<open>The new directory \<open>name\<close> with the inode \<open>rd\<close> holds the tree \<open>T\<close>, and nothing lost its name.\<close>

definition new_tree :: "'a posix_scheme \<Rightarrow> nat \<Rightarrow> pystr \<Rightarrow> 'a posix_scheme \<Rightarrow> nat \<Rightarrow> tree \<Rightarrow> bool" where
  "new_tree w parent name w' rd T \<longleftrightarrow>
     lookup (fs w) parent name = None \<and> lookup (fs w') parent name = Some rd \<and> shape (fs w') rd T \<and> builds w w'"

lemma mkdtemp_quiet:
  assumes "fs_ok f" "has_inode f d" "kind (inode f d) = Dir"
  shows "script w = [] \<Longrightarrow> fs w = f \<Longrightarrow> \<exists>r w'. mkdtemp_tries k d pre w = (r, w') \<and>
    (r = Inl FileExistsError \<or> (\<exists>name rd. r = Inr name \<and> new_tree w d name w' rd (input_tree [])))"
proof (induction k arbitrary: w)
  case (Suc k)
  obtain b where draw: "draw 8 w = (Inr b, w\<lparr>drawn := drawn w + 8\<rparr>)" by (simp add: draw_def)
  let ?w = "w\<lparr>drawn := drawn w + 8\<rparr>" and ?n = "pre @ map tmp_char b"
  let ?x = "new_inode Dir (uid w) (masked 448 (umask w)) (pid w)"
  let ?f = "with_entry d ?n ?x f"
  have again: "new_tree ?w d name w' rd T = new_tree w d name w' rd T" for name w' rd T
    by (simp add: new_tree_def builds_def)
  have mk: "sys_mkdir d ?n 448 ?w =
      (if lookup f d ?n \<noteq> None then (Inl FileExistsError, ?w) else (Inr (), ?w\<lparr>fs := ?f\<rparr>))"
    using assms(2,3) Suc.prems by (simp add: sys_mkdir_def syscall_quiet make_with_entry)
  show ?case
  proof (cases "lookup f d ?n")
    case (Some i)
    with mk draw have "mkdtemp_tries (Suc k) d pre w = mkdtemp_tries k d pre ?w"
      by (simp add: ebind_def try_except_def Let_def)
    with Suc.IH [of ?w] Suc.prems again show ?thesis by simp
  next
    case None
    have x: "entries ?x = []" "kind ?x = Dir" by (simp_all add: new_inode_def)
    note e = with_entry_simps [OF assms(2) x(1), where n = ?n]
    from None mk draw have "mkdtemp_tries (Suc k) d pre w = (Inr ?n, ?w\<lparr>fs := ?f\<rparr>)"
      by (simp add: ebind_def try_except_def Let_def)
    moreover have "new_tree w d ?n (?w\<lparr>fs := ?f\<rparr>) (length (inodes f)) (input_tree [])"
      using shape_new_directory [OF assms(1,2) x] None Suc.prems by (auto simp: new_tree_def builds_def e(1))
    ultimately show ?thesis by blast
  qed
qed simp

lemma materialize_quiet:
  assumes "script w = []" "fs_ok (fs w)" "has_inode (fs w) parent" "kind (inode (fs w) parent) = Dir"
    and "frozen_spec frozen config" and "distinct (map fst (items (field frozen ''files'')))"
  shows "\<exists>r w'. materialize frozen config parent w = (r, w') \<and>
    (r = Inl FileExistsError \<or>
     (\<exists>name rd. r = Inr name \<and> new_tree w parent name w' rd (input_tree (items (field frozen ''files'')))))"
proof -
  let ?inputs = "items (field frozen ''files'')"
  have v: "validate frozen config = Inr frozen" using assms(5) by (simp add: validate_Inr_iff)
  have spec: "files_spec ?inputs" using assms(5) by (simp add: frozen_spec_def)
  obtain r w1 where 1: "mkdtemp_tries TMP_MAX parent tree_prefix w = (r, w1)"
    "r = Inl FileExistsError \<or> (\<exists>name rd. r = Inr name \<and> new_tree w parent name w1 rd (input_tree []))"
    using mkdtemp_quiet [OF assms(2-4,1), of TMP_MAX tree_prefix] by blast
  from 1(2) show ?thesis
  proof
    assume "r = Inl FileExistsError"
    with v 1(1) show ?thesis by (simp add: materialize_def mkdtemp_def ebind_def)
  next
    assume "\<exists>name rd. r = Inr name \<and> new_tree w parent name w1 rd (input_tree [])"
    then obtain name rd where r: "r = Inr name" and t: "new_tree w parent name w1 rd (input_tree [])" by blast
    have s1: "script w1 = []" "lookup (fs w1) parent name = Some rd" "shape (fs w1) rd (input_tree [])"
      using t by (auto simp: new_tree_def builds_def)
    then have rd: "kind (inode (fs w1) rd) = Dir" by (simp add: shape_def)
    have "apart_paths ([] @ ?inputs)" using spec assms(6) by (auto simp: apart_paths_def files_spec_def)
    moreover have "\<forall>(p, f) \<in> set ?inputs. (\<exists>parts. path_parts (PStr p) = Inr parts) \<and> (\<exists>data. file_bytes f = Inr data)"
      using spec by (simp add: files_spec_def)
    ultimately obtain w2 where 2: "efor (write_input rd) ?inputs () w1 = (Inr (), w2)" "builds w1 w2"
      "shape (fs w2) rd (input_tree ([] @ ?inputs))"
      using write_inputs_quiet [OF s1(1,3)] by blast
    have "materialize frozen config parent w = (Inr name, w2)"
      using 1(1) 2(1) r rd s1(1,2)
      by (simp add: materialize_def v mkdtemp_def ebind_def on_error_def try_except_def calls_rest open_directory_def)
    moreover have "new_tree w parent name w2 rd (input_tree ?inputs)"
      using t 2(2,3) by (auto simp: new_tree_def builds_def)
    ultimately show ?thesis by blast
  qed
qed

section \<open>From the tree to the report\<close>






section \<open>A small workspace is made and collected\<close>

definition tidy_input :: pyval where
  "tidy_input =
     PDict [(lit ''input-id'', PStr sample_uuid), (lit ''task'', PStr (lit ''t'')),
            (lit ''config'', sample_config), (lit ''files'', PDict [(small_name, file_value [65] 33188)]),
            (lit ''limits'', PDict [(lit ''timeout-ms'', PInt 60000), (lit ''settlement'', PStr (lit ''review''))]),
            (lit ''policy'', PDict (map (\<lambda>(k, v). (lit k, PInt v)) POLICY))]"

definition tidy_name :: pystr where "tidy_name = tree_prefix @ replicate 8 97"

definition tidy_workspace :: fs where
  "tidy_workspace =
     \<lparr>inodes = [\<lparr>kind = Dir, owner = 1000, mode = 448, content = [], durable = None, entries = [(tidy_name, 1)],
                 stable = [], links = 1, changed = 0, creator = 0\<rparr>,
                \<lparr>kind = Dir, owner = 1000, mode = 448, content = [], durable = None, entries = [(small_name, 2)],
                 stable = [], links = 1, changed = 0, creator = 7\<rparr>,
                \<lparr>kind = Reg, owner = 1000, mode = 384, content = [65], durable = Some [65], entries = [],
                 stable = [], links = 1, changed = 1, creator = 7\<rparr>], locks = []\<rparr>"

definition tidy_world :: posix where
  "tidy_world = (host tidy_workspace 7)\<lparr>drawn := 8\<rparr>"

lemma tidy_file: "file_bytes (file_value [65] 33188) = Inr [65]"
  by (rule file_bytes_value) (simp_all add: max_file_bytes_def MODES_def)

lemma tidy_items: "items (field tidy_input ''files'') = [(small_name, file_value [65] 33188)]"
  by (simp add: tidy_input_def)

lemma tidy_frozen: "frozen_spec tidy_input sample_config"
proof -
  have "py_eq sample_config sample_config" by (rule py_eq_refl) (simp add: sample_config_def)
  moreover have "field tidy_input ''config'' = sample_config" by (simp add: tidy_input_def)
  ultimately have "header_spec tidy_input sample_config"
    using sample_uuid_ok
    by (simp add: header_spec_def sample_config_fields text_within_def)
      (simp add: tidy_input_def key_set_is_iff POLICY_def)
  moreover have "is_dict tidy_input" "is_dict (field tidy_input ''files'')" by (simp_all add: tidy_input_def)
  moreover have "file_size (file_value [65] 33188) = 1" by (simp add: file_size_def tidy_file)
  ultimately show ?thesis
    by (simp add: frozen_spec_def files_spec_def policy_defs small_name_parts tidy_file small_name_split tidy_items)
qed

lemma tidy_materialized: "materialize tidy_input sample_config 0 (host empty_root 7) = (Inr tidy_name, tidy_world)"
proof -
  have v: "validate tidy_input sample_config = Inr tidy_input" using tidy_frozen by (simp add: validate_Inr_iff)
  have m: "disk_mode (file_value [65] 33188) = 384" by (simp add: disk_mode_def file_value_def MODES_def)
  let ?w = "(host \<lparr>inodes = [(inode empty_root 0)\<lparr>entries := [(tidy_name, 1)]\<rparr>,
       \<lparr>kind = Dir, owner = 1000, mode = 448, content = [], durable = None, entries = [], stable = [], links = 1,
        changed = 0, creator = 7\<rparr>], locks = []\<rparr> 7)\<lparr>drawn := 8\<rparr>"
  have c: "map tmp_char (map (\<lambda>_. 0) [0..<8]) = replicate 8 97" by (simp add: tmp_char_def map_replicate_const)
  have "mkdtemp_tries (Suc k) 0 tree_prefix (host empty_root 7) = (Inr tidy_name, ?w)" for k
    using c by (simp add: draw_def quiet_calls host_def empty_root_def Let_def tidy_name_def)
  from this [of 9999] have dir: "mkdtemp 0 tree_prefix (host empty_root 7) = (Inr tidy_name, ?w)"
    by (simp add: mkdtemp_def TMP_MAX_def)
  have "efor (write_input 1) [(small_name, file_value [65] 33188)] () ?w = (Inr (), tidy_world)"
    by (simp add: write_input_def small_name_parts tidy_file m quiet_calls host_def empty_root_def Let_def
        tidy_world_def tidy_workspace_def)
  moreover have "sys_opendir 0 tidy_name ?w = (Inr 1, ?w)"
    by (simp add: quiet_calls host_def empty_root_def)
  ultimately show ?thesis
    by (simp add: materialize_def v dir tidy_items ebind_def on_error_def try_except_def)
qed






section \<open>Properties\<close>

text \<open>
  C38. The workspace is the input.  On a machine at rest, for every valid frozen input whose file names
  are distinct, \<open>materialize\<close> makes a directory under a new name, or finds all its random names taken.
  The tree below that directory is exactly the tree of the input: at every path of a file a file
  with the decoded bytes and the private mode, a folder at every beginning of such a path, and nothing
  else.  Nothing that had a name loses it.
\<close>

theorem materialize_makes_input_tree:
  assumes "script w = []" "fs_ok (fs w)" "has_inode (fs w) parent" "kind (inode (fs w) parent) = Dir"
    and "frozen_spec frozen config" and "distinct (map fst (items (field frozen ''files'')))"
  shows "\<exists>r w'. materialize frozen config parent w = (r, w') \<and>
    (r = Inl FileExistsError \<or>
     (\<exists>name rd. r = Inr name
        \<and> lookup (fs w) parent name = None \<and> lookup (fs w') parent name = Some rd
        \<and> view (fs w') rd = input_tree (items (field frozen ''files''))
        \<and> (\<forall>d n i. lookup (fs w) d n = Some i \<longrightarrow> lookup (fs w') d n = Some i)))"
proof -
  obtain r w' where m: "materialize frozen config parent w = (r, w')"
    "r = Inl FileExistsError \<or> (\<exists>name rd. r = Inr name \<and> new_tree w parent name w' rd (input_tree (items (field frozen ''files''))))"
    using materialize_quiet [OF assms] by blast
  then show ?thesis unfolding new_tree_def shape_def builds_def by blast
qed

theorem materialize_makes_input_tree_witness:
  "\<exists>rd. lookup (fs tidy_world) 0 tidy_name = Some rd \<and> view (fs tidy_world) rd [small_name] = Some (File [65] 384)
     \<and> view (fs tidy_world) rd [out_name] = None"
proof -
  have d: "kind (inode (fs (host empty_root 7)) 0) = Dir" "has_inode (fs (host empty_root 7)) 0"
    by (simp_all add: empty_root_def inode_def has_inode_def)
  have k: "distinct (map fst (items (field tidy_input ''files'')))" by (simp add: tidy_items)
  have "disk_mode (file_value [65] 33188) = 384" by (simp add: disk_mode_def file_value_def MODES_def)
  then have "input_tree [(small_name, file_value [65] 33188)] [small_name] = Some (File [65] 384)"
    by (simp add: input_tree_def input_files_def small_name_split file_data_def tidy_file)
  moreover have "input_tree [(small_name, file_value [65] 33188)] [out_name] = None"
    by (simp add: input_tree_def input_files_def small_name_split small_name_def out_name_def lit_simps strict_prefix_def)
  ultimately show ?thesis
    using materialize_makes_input_tree [OF _ _ d(2,1) tidy_frozen k] tidy_materialized
    by (auto simp: tidy_items empty_root_ok)
qed



end
