(* ===== verification/Runtime_Properties.thy ===== *)
theory Runtime_Properties
  imports Worker_Runtime Output_Properties
begin

text \<open>
  The pinned runtime: on a machine at rest \<open>verify\<close> accepts exactly the archives that the declarative
  \<open>runtime_spec\<close> describes.
\<close>

section \<open>The specification\<close>

text \<open>The file that an absolute path leads to, through directories only.\<close>

definition file_at :: "fs \<Rightarrow> pystr \<Rightarrow> nat option" where
  "file_at f p =
     (let names = path_names p in
      if \<not> has_inode f 0 then None
      else if names = [] then Some 0
      else (case walk f 0 (butlast names) of
              Inl e \<Rightarrow> None
            | Inr d \<Rightarrow>
                (case lookup f d (last names) of
                   None \<Rightarrow> None
                 | Some i \<Rightarrow> if kind (inode f i) = Lnk then None else Some i)))"

text \<open>Only root and this user can have written it.\<close>

definition trusted_file :: "nat \<Rightarrow> inode \<Rightarrow> bool" where
  "trusted_file u x \<longleftrightarrow>
     kind x = Reg \<and> owner x \<in> {0, u} \<and> mode x div 2 mod 2 = 0 \<and> mode x div 16 mod 2 = 0
     \<and> 0 < length (content x) \<and> int (length (content x)) \<le> max_jar_bytes"

text \<open>The members: everything the bootstrap needs, nothing that starts by itself, no class path.\<close>

definition manifest_text :: "member \<Rightarrow> pystr \<Rightarrow> bool" where
  "manifest_text m text \<longleftrightarrow> (\<exists>b. member_data m = Inr b \<and> utf8_decode b = Some text)"

definition inventory_spec :: "member list \<Rightarrow> bool" where
  "inventory_spec jar \<longleftrightarrow>
     distinct (map member_name jar)
     \<and> (\<forall>r \<in> set REQUIRED. \<exists>m \<in> set jar. member_name m = lit r)
     \<and> (\<forall>m \<in> set jar. member_name m \<notin> lit ` set ambient_startup)
     \<and> (\<forall>m \<in> set jar. member_name m = manifest_name \<longrightarrow>
          file_size m \<le> manifest_limit \<and>
          (\<exists>text. manifest_text m text \<and> (\<forall>l \<in> set (splitlines text). \<not> starts_with (lit ''class-path:'') (lower l))))"

definition runtime_spec ::
  "(pystr \<Rightarrow> exn + pystr) \<Rightarrow> (bytes \<Rightarrow> exn + member list) \<Rightarrow> fs \<Rightarrow> nat \<Rightarrow> pyval \<Rightarrow> bool" where
  "runtime_spec resolve unzip f u descriptor \<longleftrightarrow>
     descriptor_ok descriptor
     \<and> (let jar = str_of (field descriptor ''jar'') in
        is_absolute jar \<and> resolve jar = Inr jar
        \<and> (\<exists>i members. file_at f jar = Some i \<and> has_inode f i \<and> trusted_file u (inode f i)
             \<and> sha256_hex (content (inode f i)) = str_of (field descriptor ''sha256'')
             \<and> unzip (content (inode f i)) = Inr members \<and> inventory_spec members))"

section \<open>Each check\<close>

lemma find_member:
  "distinct (map g xs) \<Longrightarrow> find (\<lambda>x. g x = k) xs = Some m \<longleftrightarrow> m \<in> set xs \<and> g m = k"
  by (induction xs) (auto simp: image_iff)

lemma check_manifest_iff:
  "check_manifest m = Inr () \<longleftrightarrow>
     file_size m \<le> manifest_limit \<and>
     (\<exists>text. manifest_text m text \<and> (\<forall>l \<in> set (splitlines text). \<not> starts_with (lit ''class-path:'') (lower l)))"
  by (auto simp: check_manifest_def manifest_text_def rbind_def list_ex_iff split: sum.split option.split)

lemma check_inventory_iff: "check_inventory jar = Inr () \<longleftrightarrow> inventory_spec jar"
proof (cases "distinct (map member_name jar)")
  case True
  have "(case find (\<lambda>m. member_name m = manifest_name) jar of None \<Rightarrow> Inr () | Some m \<Rightarrow> check_manifest m) = Inr ()
      \<longleftrightarrow> (\<forall>m \<in> set jar. member_name m = manifest_name \<longrightarrow> check_manifest m = Inr ())"
  proof (cases "find (\<lambda>m. member_name m = manifest_name) jar")
    case None
    then have "\<forall>m \<in> set jar. member_name m \<noteq> manifest_name" by (auto simp: find_None_iff)
    with None show ?thesis by simp
  next
    case (Some a)
    then have "\<forall>m. m \<in> set jar \<and> member_name m = manifest_name \<longleftrightarrow> m = a"
      using find_member [OF True, of manifest_name] Some by (metis option.inject)
    then show ?thesis by (auto simp: Some)
  qed
  moreover have "lit r \<in> set (map member_name jar) \<longleftrightarrow> (\<exists>m \<in> set jar. member_name m = lit r)" for r
    by (auto simp: image_iff eq_commute)
  ultimately show ?thesis
    using True unfolding check_inventory_def inventory_spec_def check_manifest_iff Let_def list_all_iff list_ex_iff
    by auto
qed (simp add: check_inventory_def inventory_spec_def)

lemma trusted_info_file: "trusted_info u (info_of f i) \<longleftrightarrow> trusted_file u (inode f i)"
  by (simp add: trusted_info_def trusted_file_def info_of_def Let_def)

lemma sys_open_file_rest:
  assumes "script w = []"
  shows "\<exists>e. sys_open_file p w = (case file_at (fs w) p of None \<Rightarrow> Inl e | Some i \<Rightarrow> Inr i, w)"
proof -
  have path: "sys_open_path ns w = (if has_inode (fs w) 0 then walk (fs w) 0 ns else Inl FileNotFoundError, w)" for ns
    unfolding sys_open_path_def
    by (subst syscall_rest [OF assms]) (auto simp: rbind_def split: sum.splits if_splits)
  show ?thesis
    by (auto simp: sys_open_file_def file_at_def Let_def path ebind_def calls_rest [OF assms] open_entry_def
        split: sum.split option.split)
qed

lemma read_all_rest:
  "script w = [] \<Longrightarrow> sys_read_all i w = (if has_inode (fs w) i \<and> kind (inode (fs w) i) = Reg
     then Inr (content (inode (fs w) i)) else Inl (OSError ''EISDIR''), w)"
  unfolding sys_read_all_def by (subst syscall_rest) auto

text \<open>What is checked once the file is open\<close>

definition verify_open :: "(bytes \<Rightarrow> exn + member list) \<Rightarrow> pyval \<Rightarrow> nat \<Rightarrow> ('a posix_scheme, pyval) prog" where
  "verify_open unzip descriptor fd =
     ebind (sys_fstat fd) (\<lambda>info.
     ebind (gets uid) (\<lambda>u.
     if \<not> trusted_info u info
     then raise (ValueError ''Runtime is not a bounded trusted local regular file'')
     else
     ebind (sys_read_all fd) (\<lambda>bytes.
     if sha256_hex bytes \<noteq> str_of (field descriptor ''sha256'')
     then raise (ValueError ''Local SCI runtime digest differs'')
     else
     ebind (lift (rbind (unzip bytes) check_inventory)) (\<lambda>_.
     ebind (sys_fstat fd) (\<lambda>after.
     if (st_size info, st_time info) \<noteq> (st_size after, st_time after)
     then raise (ValueError ''Runtime changed during verification'')
     else ret descriptor)))))"

definition open_spec :: "(bytes \<Rightarrow> exn + member list) \<Rightarrow> fs \<Rightarrow> nat \<Rightarrow> pyval \<Rightarrow> nat \<Rightarrow> bool" where
  "open_spec unzip f u descriptor i \<longleftrightarrow>
     has_inode f i \<and> trusted_file u (inode f i)
     \<and> sha256_hex (content (inode f i)) = str_of (field descriptor ''sha256'')
     \<and> (\<exists>members. unzip (content (inode f i)) = Inr members \<and> inventory_spec members)"

lemma verify_open_rest:
  assumes "script w = []"
  shows "\<exists>e. verify_open unzip d i w = (if open_spec unzip (fs w) (uid w) d i then Inr d else Inl e, w)"
proof (cases "has_inode (fs w) i \<and> trusted_file (uid w) (inode (fs w) i)
    \<and> sha256_hex (content (inode (fs w) i)) = str_of (field d ''sha256'')")
  case True
  then have k: "kind (inode (fs w) i) = Reg" by (simp add: trusted_file_def)
  have inv: "rbind (unzip b) check_inventory = Inr () \<longleftrightarrow> (\<exists>members. unzip b = Inr members \<and> inventory_spec members)" for b
    by (auto simp: rbind_def check_inventory_iff split: sum.split)
  show ?thesis
  proof (cases "rbind (unzip (content (inode (fs w) i))) check_inventory")
    case (Inl e)
    with inv [of "content (inode (fs w) i)"] have "\<not> open_spec unzip (fs w) (uid w) d i" by (simp add: open_spec_def)
    with True k Inl show ?thesis
      by (simp add: verify_open_def ebind_def calls_rest [OF assms] read_all_rest [OF assms] trusted_info_file)
  next
    case (Inr u)
    with inv [of "content (inode (fs w) i)"] True have "open_spec unzip (fs w) (uid w) d i" by (simp add: open_spec_def)
    moreover from Inr obtain members where "unzip (content (inode (fs w) i)) = Inr members" "check_inventory members = Inr ()"
      by auto
    ultimately show ?thesis using True k
      by (simp add: verify_open_def ebind_def calls_rest [OF assms] read_all_rest [OF assms] trusted_info_file)
  qed
next
  case False
  then have "\<not> open_spec unzip (fs w) (uid w) d i" by (auto simp: open_spec_def)
  with False show ?thesis
    by (auto simp: verify_open_def ebind_def calls_rest [OF assms] read_all_rest [OF assms] trusted_info_file)
qed

lemma runtime_spec_open:
  "runtime_spec resolve unzip f u d \<longleftrightarrow>
     descriptor_ok d \<and> is_absolute (str_of (field d ''jar'')) \<and> resolve (str_of (field d ''jar'')) = Inr (str_of (field d ''jar''))
     \<and> (\<exists>i. file_at f (str_of (field d ''jar'')) = Some i \<and> open_spec unzip f u d i)"
  by (auto simp: runtime_spec_def open_spec_def Let_def)

lemma verify_rest:
  assumes "script w = []"
  shows "\<exists>e. verify resolve unzip d w = (if runtime_spec resolve unzip (fs w) (uid w) d then Inr d else Inl e, w)"
proof -
  let ?jar = "str_of (field d ''jar'')"
  have v: "verify resolve unzip d =
     (if \<not> descriptor_ok d then raise (ValueError ''Expected a pinned local SCI runtime descriptor'')
      else ebind (lift (if is_absolute ?jar then rbind (resolve ?jar) (\<lambda>p. Inr (p = ?jar)) else Inr False)) (\<lambda>same.
      if \<not> same then raise (ValueError ''Runtime must be an absolute canonical local file'')
      else ebind (sys_open_file ?jar) (verify_open unzip d)))"
    unfolding verify_def verify_open_def Let_def by simp
  show ?thesis
  proof (cases "descriptor_ok d \<and> is_absolute ?jar \<and> resolve ?jar = Inr ?jar")
    case False
    then have "\<not> runtime_spec resolve unzip (fs w) (uid w) d" by (auto simp: runtime_spec_open)
    moreover from False have "\<exists>e. verify resolve unzip d w = (Inl e, w)"
      by (cases "resolve ?jar") (auto simp: v ebind_def)
    ultimately show ?thesis by auto
  next
    case True
    then have eq: "verify resolve unzip d w = ebind (sys_open_file ?jar) (verify_open unzip d) w" by (simp add: v ebind_def)
    obtain e where o: "sys_open_file ?jar w = (case file_at (fs w) ?jar of None \<Rightarrow> Inl e | Some i \<Rightarrow> Inr i, w)"
      using sys_open_file_rest [OF assms] by blast
    show ?thesis
    proof (cases "file_at (fs w) ?jar")
      case None
      with o True show ?thesis by (auto simp: eq ebind_def runtime_spec_open)
    next
      case (Some i)
      obtain e where "verify_open unzip d i w = (if open_spec unzip (fs w) (uid w) d i then Inr d else Inl e, w)"
        using verify_open_rest [OF assms] by blast
      with o Some True show ?thesis by (auto simp: eq ebind_def runtime_spec_open)
    qed
  qed
qed

section \<open>Property\<close>

text \<open>
  C19. \<open>verify\<close> accepts exactly the pinned archive.  On a machine at rest it returns a descriptor if and
  only if it is one, its path is its own resolution and leads through directories to a bounded regular file
  that belongs to root or this user and that nobody else can write, the digest of the file is the pinned one,
  and its members are distinct, contain every part of the bootstrap, no Clojure code that would start by
  itself, and no manifest with a class path; otherwise it fails.  It never changes anything.
\<close>

theorem verify_iff_runtime_spec:
  assumes "script w = []"
  shows "snd (verify resolve unzip d w) = w
    \<and> (fst (verify resolve unzip d w) = Inr v \<longleftrightarrow> v = d \<and> runtime_spec resolve unzip (fs w) (uid w) d)"
  using verify_rest [OF assms, of resolve unzip d] by auto

text \<open>An archive with the members of the bootstrap\<close>

definition sample_members :: "member list" where
  "sample_members = map (\<lambda>r. \<lparr>member_name = lit r, file_size = 0, member_data = Inr []\<rparr>) REQUIRED"

definition sample_jar :: inode where
  "sample_jar = (new_inode Reg 0 420 0)\<lparr>content := [65]\<rparr>"

definition sample_jar_fs :: fs where
  "sample_jar_fs = \<lparr>inodes = [(new_inode Dir 0 493 0)\<lparr>entries := [(lit ''j'', 1)]\<rparr>, sample_jar], locks = []\<rparr>"

definition sample_runtime :: pyval where
  "sample_runtime = PDict [(lit ''jar'', PStr (lit ''/j'')), (lit ''sha256'', PStr (sha256_hex [65]))]"

lemma sample_inventory: "inventory_spec sample_members"
  by (auto simp: inventory_spec_def sample_members_def REQUIRED_def ambient_startup_def manifest_name_def lit_simps)

lemma sample_runtime_ok:
  assumes "lookup f 0 (lit ''j'') = Some i" "has_inode f i" "inode f i = sample_jar"
  shows "runtime_spec Inr (\<lambda>_. Inr sample_members) f u sample_runtime"
proof -
  have "has_inode f 0" using assms(1) by (auto simp: lookup_def split: if_splits)
  moreover have p: "path_names (lit ''/j'') = [lit ''j'']" "is_absolute (lit ''/j'')"
    by (simp_all add: path_names_def is_absolute_def path_root_def lit_simps split_def)
  ultimately have "file_at f (lit ''/j'') = Some i"
    using assms(1,3) by (simp add: file_at_def Let_def sample_jar_def new_inode_def)
  moreover have "trusted_file u sample_jar"
    by (simp add: trusted_file_def sample_jar_def new_inode_def max_jar_bytes_def)
  moreover have "descriptor_ok sample_runtime"
    by (simp add: descriptor_ok_def sample_runtime_def key_set_is_iff full_hex_sha256)
  ultimately show ?thesis
    using assms(2,3) p(2) sample_inventory
    by (auto simp: runtime_spec_open open_spec_def sample_runtime_def sample_jar_def new_inode_def)
qed

theorem verify_iff_runtime_spec_witness:
  "verify Inr (\<lambda>_. Inr sample_members) sample_runtime (host sample_jar_fs 7) = (Inr sample_runtime, host sample_jar_fs 7)"
proof -
  have "runtime_spec Inr (\<lambda>_. Inr sample_members) sample_jar_fs (uid (host sample_jar_fs 7)) sample_runtime"
    by (rule sample_runtime_ok [of _ 1]) (simp_all add: lookup_def has_inode_def inode_def sample_jar_fs_def)
  with verify_iff_runtime_spec [of "host sample_jar_fs 7" Inr "\<lambda>_. Inr sample_members" sample_runtime sample_runtime]
  show ?thesis by (intro prod_eqI) (simp_all add: host_def)
qed

end
