(* ===== verification/Endpoint_Properties.thy ===== *)
theory Endpoint_Properties
  imports Worker_Sci Frame_Properties
begin

text \<open>
  The processes a program starts: the ledger of those that may still run, read off the calls that were
  made, and that neither the supervisor of the two endpoints nor a transport whose request failed leaves
  one behind.
\<close>

section \<open>The ledger\<close>

text \<open>
  A start with its answer adds a process; a kill, a poll that answered a status and a wait that
  returned take it away.
\<close>

fun ended_process :: "made_call \<Rightarrow> nat option" where
  "ended_process made =
     (case (asked made, answered made) of
        (ProcessKill p, Inr v) \<Rightarrow> Some p
      | (ProcessPoll p, Inr v) \<Rightarrow> if v = PNone then None else Some p
      | (ProcessWait p t, Inr v) \<Rightarrow> Some p
      | _ \<Rightarrow> None)"

fun started_process :: "made_call \<Rightarrow> nat option" where
  "started_process made =
     (case (asked made, answered made) of
        (Spawn line, Inr v) \<Rightarrow> (case as_nat v of Inl e \<Rightarrow> None | Inr p \<Rightarrow> Some p)
      | (SpawnPiped line home env, Inr v) \<Rightarrow> (case as_child v of Inl e \<Rightarrow> None | Inr (p, _, _) \<Rightarrow> Some p)
      | _ \<Rightarrow> None)"

definition tally :: "nat list \<Rightarrow> made_call \<Rightarrow> nat list" where
  "tally ps made =
     (case started_process made of
        Some p \<Rightarrow> p # ps
      | None \<Rightarrow> (case ended_process made of Some p \<Rightarrow> removeAll p ps | None \<Rightarrow> ps))"

definition running_after :: "nat list \<Rightarrow> made_call list \<Rightarrow> nat list" where
  "running_after ps made_calls = foldl tally ps made_calls"

definition running :: "made_call list \<Rightarrow> nat list" where
  "running made_calls = running_after [] made_calls"

lemma running_after_simps [simp]:
  "running_after ps [] = ps" "running_after ps (a @ b) = running_after (running_after ps a) b"
  by (simp_all add: running_after_def)

text \<open>The kernel carries out a poll, a kill and a close of what the program owns.\<close>

definition docile :: "made_call \<Rightarrow> bool" where
  "docile made \<longleftrightarrow>
     (case asked made of
        ProcessPoll p \<Rightarrow> \<exists>v. answered made = Inr v
      | ProcessKill p \<Rightarrow> \<exists>v. answered made = Inr v
      | PipeClose n \<Rightarrow> \<exists>v. answered made = Inr v
      | _ \<Rightarrow> True)"

fun is_spawn :: "outside_call \<Rightarrow> bool" where
  "is_spawn (Spawn line) = True"
| "is_spawn (SpawnPiped line home env) = True"
| "is_spawn c = False"

lemma tally_shrinks: "\<not> is_spawn (asked made) \<Longrightarrow> set (tally ps made) \<subseteq> set ps"
  by (cases "asked made") (auto simp: tally_def split: sum.splits option.splits)

lemma tally_mono: "set ps \<subseteq> set qs \<Longrightarrow> set (tally ps made) \<subseteq> set (tally qs made)"
  by (auto simp: tally_def split: option.splits)

lemma running_after_shrinks:
  "(\<And>made. made \<in> set cs \<Longrightarrow> \<not> is_spawn (asked made)) \<Longrightarrow> set (running_after ps cs) \<subseteq> set ps"
proof (induction cs arbitrary: ps)
  case (Cons c cs)
  then have "set (running_after (tally ps c) cs) \<subseteq> set (tally ps c)" by simp
  also have "\<dots> \<subseteq> set ps" using Cons.prems by (intro tally_shrinks) simp
  finally show ?case by (simp add: running_after_def)
qed simp

text \<open>Programs that start nothing\<close>

definition startless :: "outside_call \<Rightarrow> bool" where
  "startless c \<longleftrightarrow> \<not> is_spawn c"

lemma startless_running: "only startless w w' \<Longrightarrow> set (running_after ps (news w w')) \<subseteq> set ps"
  by (rule running_after_shrinks) (auto simp: startless_def dest: only_news)

section \<open>Programs that keep the crew\<close>

definition roster :: "'a supervisor_scheme \<Rightarrow> nat list" where
  "roster w = map (\<lambda>(e, p, fr). p) (ends w)"

definition crew_same :: "'a supervisor_scheme \<Rightarrow> 'a supervisor_scheme \<Rightarrow> bool" where
  "crew_same w w' \<longleftrightarrow> only startless w w' \<and> roster w' = roster w"

interpretation crew: effect_relation crew_same
  by unfold_locales (auto simp: crew_same_def intro: traced.R_refl traced.R_trans)

lemma more_ends: "outside.more w' = outside.more w \<Longrightarrow> ends w' = ends w"
  by (cases w; cases w') simp

lemma more_files_ends: "posix.more w' = posix.more w \<Longrightarrow> ends w' = ends w \<and> calls w' = calls w"
  by (cases w; cases w') simp

named_theorems crewed \<open>programs that keep the crew\<close>

lemma crew_files: "files.keeps m \<Longrightarrow> crew.keeps m"
proof (rule crew.keepsI)
  fix w :: "'a supervisor_scheme" and r w' assume "files.keeps m" "m w = (r, w')"
  then have "posix.more w' = posix.more w" by (auto simp: files_only_def dest: files.keepsD)
  from more_files_ends [OF this] show "crew_same w w'" by (simp add: crew_same_def roster_def only_same)
qed

lemma crew_consult: "\<not> is_spawn c \<Longrightarrow> crew.keeps (consult c)"
proof (rule crew.keepsI)
  fix w :: "'a supervisor_scheme" and r w' assume c: "\<not> is_spawn c" "consult c w = (r, w')"
  have "only startless w w'" using consult_simps(1) [OF c(2)] c(1) by (auto simp: only_def startless_def)
  with more_ends [OF consult_simps(10) [OF c(2)]] show "crew_same w w'" by (simp add: crew_same_def roster_def)
qed

lemmas [crewed] =
  crew.keeps_pure crew.keeps_ebind crew.keeps_try_except crew.keeps_try_finally
  crew.keeps_on_error crew.keeps_if crew.keeps_case_option crew.keeps_case_prod crew.keeps_efor
  crew.keeps_case_sum crew.keeps_case_list crew.keeps_let

lemma crew_asks:
  assumes "\<not> is_spawn c"
  shows "crew.keeps (ask_str c)" "crew.keeps (ask_int c)" "crew.keeps (ask_nat c)" "crew.keeps (ask_bool c)"
    "crew.keeps (ask_bytes c)"
  using assms unfolding ask_str_def ask_int_def ask_nat_def ask_bool_def ask_bytes_def
  by (intro crewed crew_consult; assumption)+

lemma crew_pipe_calls [crewed]:
  "crew.keeps (ask_int Monotonic)" "crew.keeps (ask_bool (PipeReady n))" "crew.keeps (ask_nat (PipeWrite n b))"
  "crew.keeps (ask_bytes (PipeRead n k))" "crew.keeps (consult (PipeClose n))" "crew.keeps (consult (ProcessPoll p))"
  "crew.keeps (consult (ProcessKill p))" "crew.keeps (consult (ProcessWait p t))" "crew.keeps (ask_int (ProcessWait p t))"
  "crew.keeps (ask_nat (DupFd n))"
  by (simp_all add: crew_asks crew_consult)

lemma crew_frame_ready [crewed]: "crew.keeps (frame_ready (ret ()) fd deadline)"
  unfolding frame_ready_def by (intro crewed)

lemma crew_frame_write [crewed]: "crew.keeps (frame_write fuel (ret ()) fr b deadline)"
proof -
  have "crew.keeps (write_loop n (ret ()) fd b k deadline)" for n fd k
  proof (induction n arbitrary: k)
    case 0
    show ?case unfolding write_loop.simps by (intro crewed)
  next
    case (Suc n)
    show ?case unfolding write_loop.simps write_slice_def by (intro crewed Suc)
  qed
  then show ?thesis unfolding frame_write_def by (intro crewed)
qed

lemma crew_frame_read [crewed]: "crew.keeps (frame_read fuel (ret ()) fr deadline)"
  unfolding frame_read_def
proof (induction fuel arbitrary: fr)
  case 0
  show ?case unfolding read_loop.simps by (intro crewed)
next
  case (Suc n)
  show ?case unfolding read_loop.simps read_chunk_def by (intro crewed Suc)
qed

lemma roster_set_end: "map (\<lambda>(e, p, fr). p) (set_end e f xs) = map (\<lambda>(e, p, fr). p) xs"
  by (induction xs) (auto simp: set_end_def)

lemma crew_set_end [crewed]: "crew.keeps (modify (ends_update (set_end e fr)))"
  by (rule crew.keeps_modify) (simp add: crew_same_def roster_def roster_set_end only_same)

lemma crew_ends [crewed]:
  "crew.keeps (the_end e)" "crew.keeps (close_end fd)" "crew.keeps (frames_close fr)"
  unfolding the_end_def close_end_def frames_close_def by (intro crewed)+

lemma crew_messages [crewed]:
  "crew.keeps (read_end fuel e deadline)" "crew.keeps (write_end fuel e v deadline)" "crew.keeps (close_writer e)"
  "crew.keeps (finish e deadline)"
  unfolding read_end_def write_end_def finish_def close_writer_def by (intro crewed)+

lemma crew_rounds [crewed]:
  "crew.keeps (handshake fuel prof frozen deadline)" "crew.keeps (finish_both fuel frozen frame deadline)"
  "crew.keeps (forward fuel frame deadline)"
  unfolding handshake_def finish_both_def forward_def by (intro crewed)+

lemma crew_serve_guest [crewed]: "crew.keeps (serve_guest fuel frozen deadline n)"
proof (induction n)
  case 0
  show ?case unfolding serve_guest.simps by (intro crewed)
next
  case (Suc n)
  show ?case unfolding serve_guest.simps by (intro crewed Suc)
qed

lemma crew_join [crewed]: "crew.keeps (efor join_end xs ())"
  unfolding join_end_def by (intro crewed)

section \<open>Starts and kills\<close>

lemma crewD:
  assumes "crew.keeps m" "m w = (r, w')"
  shows "did w w'" "roster w' = roster w" "set (running_after ps (news w w')) \<subseteq> set ps"
  using crew.keepsD [OF assms] by (auto simp: crew_same_def only_did dest: startless_running)

lemma consult_running:
  assumes "consult c w = (a, w')"
  shows "did w w'" "running_after ps (news w w') = tally ps \<lparr>asked = c, answered = a, files_then = fs w\<rparr>"
    "list_all docile (news w w') \<longleftrightarrow> docile \<lparr>asked = c, answered = a, files_then = fs w\<rparr>"
  using consult_simps(1) [OF assms] news_consult [OF assms] by (auto simp: did_def running_after_def)

lemma crew_kill_child [crewed]: "crew.keeps (kill_child p)"
  unfolding kill_child_def by (intro crewed)

lemma crew_wait [crewed]: "crew.keeps (ebind (consult (ProcessWait p t)) (\<lambda>_. ret ()))"
  by (intro crewed)

lemma kill_tally:
  assumes "consult (ProcessKill p) w = (a, w')" and "list_all docile (news w w')"
  shows "set (running_after ps (news w w')) = set ps - {p}" "\<exists>v. a = Inr v"
  using assms(2) by (auto simp: consult_running(2,3) [OF assms(1)] docile_def tally_def)

lemma kill_child_running:
  fixes w :: "'a supervisor_scheme"
  assumes "kill_child p w = (r, w')" and "list_all docile (news w w')"
  shows "set (running_after ps (news w w')) \<subseteq> set ps - {p}"
proof -
  let ?wait = "ebind (consult (ProcessWait p (Some (5 * second_ns)))) (\<lambda>_. ret ())"
  obtain a w1 where 1: "consult (ProcessKill p) w = (a, w1)" by (cases "consult (ProcessKill p) w")
  note d1 = consult_running(1) [OF 1]
  show ?thesis
  proof (cases a)
    case (Inl e)
    with assms(1) 1 have "w' = w1" by (simp add: kill_child_def ebind_def)
    with assms(2) kill_tally [OF 1] show ?thesis by auto
  next
    case (Inr v)
    with assms(1) 1 have 2: "?wait w1 = (r, w')" by (simp add: kill_child_def ebind_def [of "consult (ProcessKill p)"])
    note w = crewD [OF crew_wait 2]
    have n: "news w w' = news w w1 @ news w1 w'" using d1 w(1) by (rule news_trans)
    with assms(2) have "list_all docile (news w w1)" by simp
    from kill_tally(1) [OF 1 this] w(3) show ?thesis unfolding n running_after_simps by blast
  qed
qed

lemma close_end_docile:
  assumes "close_end fd w = (r, w')" "list_all docile (news w w')"
  shows "r = Inr ()"
proof (cases fd)
  case (Some n)
  obtain a w1 where 1: "consult (PipeClose n) w = (a, w1)" by (cases "consult (PipeClose n) w")
  with assms(1) Some have "w' = w1" "r = (case a of Inl e \<Rightarrow> Inl e | Inr v \<Rightarrow> Inr ())"
    by (auto simp: close_end_def ebind_def split: sum.splits)
  with assms(2) consult_running(3) [OF 1] show ?thesis by (auto simp: docile_def)
qed (use assms in \<open>simp add: close_end_def\<close>)

lemma closes_docile:
  fixes w :: "'a supervisor_scheme"
  assumes "ebind (close_end a) (\<lambda>_. close_end b) w = (r, w')" "list_all docile (news w w')"
  shows "r = Inr ()"
proof -
  have c: "crew.keeps (close_end b)" by (intro crewed)
  obtain r1 w1 where 1: "close_end a w = (r1, w1)" by (cases "close_end a w")
  have d: "did w w1" using crewD(1) [OF crew_ends(2) 1] .
  show ?thesis
  proof (cases r1)
    case (Inl e)
    with assms(1) 1 have "w' = w1" by (simp add: ebind_def)
    with close_end_docile [OF 1] assms(2) Inl show ?thesis by simp
  next
    case (Inr u)
    with assms(1) 1 have 2: "close_end b w1 = (r, w')" by (simp add: ebind_def)
    with news_trans [OF d crewD(1) [OF c 2]] assms(2) close_end_docile [OF 2] show ?thesis by simp
  qed
qed

text \<open>The end of \<open>start\<close>, once the child runs\<close>

definition attach :: "nat \<Rightarrow> nat \<Rightarrow> nat \<Rightarrow> ('a outside_scheme, nat \<times> frames) prog" where
  "attach child stdin stdout =
     try_finally
       (on_error
          (ebind (ask_nat (DupFd stdin)) (\<lambda>w. ebind (ask_nat (DupFd stdout)) (\<lambda>r. ret (child, new_frames w r))))
          (kill_child child))
       (ebind (close_end (Some stdin)) (\<lambda>_. close_end (Some stdout)))"

lemma crew_attach [crewed]: "crew.keeps (attach p i q)"
  unfolding attach_def by (intro crewed)

lemma attach_running:
  fixes w :: "'a supervisor_scheme"
  assumes "attach p i q w = (r, w')" and "list_all docile (news w w')"
  shows "(\<exists>fr. r = Inr (p, fr)) \<or> (\<exists>e. r = Inl e) \<and> set (running_after ps (news w w')) \<subseteq> set ps - {p}"
proof -
  let ?dups = "ebind (ask_nat (DupFd i)) (\<lambda>w. ebind (ask_nat (DupFd q)) (\<lambda>r. ret (p, new_frames w r)))"
  let ?closes = "ebind (close_end (Some i)) (\<lambda>_. close_end (Some q))"
  have k: "crew.keeps ?dups" "crew.keeps ?closes" by (intro crewed)+
  obtain r1 w1 where 1: "?dups w = (r1, w1)" by (cases "?dups w")
  note d1 = crewD [OF k(1) 1]
  show ?thesis
  proof (cases r1)
    case (Inr v)
    then have v: "\<exists>fr. v = (p, fr)" using 1 by (auto simp: ebind_def split: prod.splits sum.splits)
    obtain r2 w2 where 2: "?closes w1 = (r2, w2)" by (cases "?closes w1")
    have eq: "attach p i q w = (case r2 of Inl e \<Rightarrow> Inl e | Inr _ \<Rightarrow> Inr v, w2)"
      unfolding attach_def on_error_def try_finally_def try_except_def 1 Inr by (simp only: prod.case sum.case 2) (simp split: sum.split)
    have n: "news w w2 = news w w1 @ news w1 w2" using d1(1) crewD(1) [OF k(2) 2] by (rule news_trans)
    from eq assms have "list_all docile (news w1 w2)" by (simp add: n)
    with closes_docile [OF 2] eq assms(1) v show ?thesis by auto
  next
    case (Inl e)
    obtain r2 w2 where 2: "kill_child p w1 = (r2, w2)" by (cases "kill_child p w1")
    obtain r3 w3 where 3: "?closes w2 = (r3, w3)" by (cases "?closes w2")
    have eq: "attach p i q w = (case r3 of Inl e \<Rightarrow> Inl e | Inr _ \<Rightarrow> (case r2 of Inl e' \<Rightarrow> Inl e' | Inr _ \<Rightarrow> Inl e), w3)"
      unfolding attach_def on_error_def try_finally_def try_except_def 1 Inl ebind_def [of "kill_child p"]
      by (simp only: prod.case sum.case 2 prog_simps) (cases r2; cases r3; simp only: prod.case sum.case 3 prog_simps)
    note d2 = crewD [OF crew_kill_child 2] and d3 = crewD [OF k(2) 3]
    have n: "news w w3 = news w w1 @ news w1 w2 @ news w2 w3"
      using news_trans [OF d1(1) did_trans [OF d2(1) d3(1)]] news_trans [OF d2(1) d3(1)] by simp
    from eq assms have "list_all docile (news w1 w2)" by (simp add: n)
    from kill_child_running [OF 2 this] d1(3) [of ps] d3(3)
    have "set (running_after ps (news w w3)) \<subseteq> set ps - {p}" unfolding n running_after_simps by blast
    with eq assms(1) show ?thesis by (cases r2; cases r3) auto
  qed
qed

lemma start_running:
  fixes w :: "'a supervisor_scheme"
  assumes "start plat prof m home codex w = (r, w')"
  shows "did w w'" "roster w' = roster w"
    "list_all docile (news w w') \<Longrightarrow> set (running_after ps (news w w')) \<subseteq> set ps \<union> (case r of Inl _ \<Rightarrow> {} | Inr (p, _) \<Rightarrow> {p})"
proof -
  let ?argv = "argv (resolve_path plat) (open_zip plat) (field prof ''runtime'') (lit m) (PStr home)"
  have k: "crew.keeps ?argv" by (intro crew_files kept)
  obtain r1 w1 where 1: "?argv w = (r1, w1)" by (cases "?argv w")
  note d1 = crewD [OF k 1]
  have "did w w' \<and> roster w' = roster w
      \<and> (list_all docile (news w w') \<longrightarrow>
           set (running_after ps (news w w')) \<subseteq> set ps \<union> (case r of Inl _ \<Rightarrow> {} | Inr (p, _) \<Rightarrow> {p}))"
  proof (cases "\<exists>line env. r1 = Inr line \<and> environment (resolve_path plat) (PStr home) codex = Inr env")
    case False
    then have "w' = w1 \<and> (\<exists>e. r = Inl e)"
      using assms 1 by (cases r1; cases "environment (resolve_path plat) (PStr home) codex") (auto simp: start_def ebind_def)
    with d1 show ?thesis by auto
  next
    case True
    then obtain line env where t: "r1 = Inr line" "environment (resolve_path plat) (PStr home) codex = Inr env" by blast
    let ?spawn = "SpawnPiped line home env"
    obtain a w2 where 2: "consult ?spawn w1 = (a, w2)" by (cases "consult ?spawn w1")
    note d2 = consult_running [OF 2]
    have ro: "roster w2 = roster w1" using more_ends [OF consult_simps(10) [OF 2]] by (simp add: roster_def)
    have n2: "did w w2" "news w w2 = news w w1 @ news w1 w2"
      using d1(1) d2(1) by (auto intro: did_trans news_trans)
    consider (bad) e where "r = Inl e" "w' = w2" "\<forall>p i q v. a = Inr v \<longrightarrow> as_child v \<noteq> Inr (p, i, q)"
      | (up) p i q v where "a = Inr v" "as_child v = Inr (p, i, q)" "attach p i q w2 = (r, w')"
      using assms 1 t 2
      by (cases a; cases "as_child (projr a)") (auto simp: start_def ebind_def attach_def)
    then show ?thesis
    proof cases
      case bad
      then have "running_after qs (news w1 w2) = qs" for qs
        unfolding d2(2) by (auto simp: tally_def split: sum.splits)
      with bad d1 ro n2 show ?thesis by simp
    next
      case up
      then have spawned: "running_after qs (news w1 w2) = p # qs" for qs
        unfolding d2(2) by (simp add: tally_def)
      note d3 = crewD [OF crew_attach up(3)]
      have n: "did w w'" "news w w' = news w w1 @ news w1 w2 @ news w2 w'"
        using did_trans [OF n2(1) d3(1)] news_trans [OF n2(1) d3(1)] n2(2) by simp_all
      note at = attach_running [OF up(3), of "p # running_after ps (news w w1)"]
      have "set (running_after (p # running_after ps (news w w1)) (news w2 w')) \<subseteq> insert p (set ps)"
        using d3(3) [of "p # running_after ps (news w w1)"] d1(3) [of ps] by auto
      moreover have "set (running_after (p # running_after ps (news w w1)) (news w2 w')) \<subseteq> set ps"
        if "r = Inl e" "list_all docile (news w2 w')" for e
        using at that d1(3) [of ps] by auto
      moreover have "\<exists>fr. r = Inr (p, fr)" if "\<nexists>e. r = Inl e" "list_all docile (news w2 w')"
        using at that by auto
      ultimately show ?thesis
        using d1(2) d3(2) ro n by (cases r) (auto simp: spawned)
    qed
  qed
  then show "did w w'" "roster w' = roster w"
    "list_all docile (news w w') \<Longrightarrow> set (running_after ps (news w w')) \<subseteq> set ps \<union> (case r of Inl _ \<Rightarrow> {} | Inr (p, _) \<Rightarrow> {p})"
    by blast+
qed

section \<open>The run of the endpoints\<close>

text \<open>Since \<open>w0\<close>, whatever runs is on the roster.\<close>

definition manned :: "'a supervisor_scheme \<Rightarrow> 'a supervisor_scheme \<Rightarrow> bool" where
  "manned w0 w \<longleftrightarrow>
     did w0 w \<and> (list_all docile (news w0 w) \<longrightarrow> set (running (news w0 w)) \<subseteq> set (roster w))"

lemma manned_step:
  assumes "manned w0 w" "did w w'" "set (roster w) \<subseteq> set (roster w')"
    and "\<And>ps. list_all docile (news w w') \<Longrightarrow> set ps \<subseteq> set (roster w) \<Longrightarrow> set (running_after ps (news w w')) \<subseteq> set (roster w')"
  shows "manned w0 w'"
proof -
  have d0: "did w0 w" using assms(1) by (simp add: manned_def)
  note n = news_trans [OF d0 assms(2)]
  have d: "did w0 w'" using d0 assms(2) by (rule did_trans)
  have "set (running (news w0 w')) \<subseteq> set (roster w')" if "list_all docile (news w0 w')"
  proof -
    from that have "list_all docile (news w0 w)" "list_all docile (news w w')" by (simp_all add: n)
    with assms(1) have "set (running (news w0 w)) \<subseteq> set (roster w)" by (simp add: manned_def)
    from assms(4) [OF \<open>list_all docile (news w w')\<close> this] show ?thesis by (simp add: n running_def)
  qed
  with d show ?thesis by (simp add: manned_def)
qed

definition stays_manned :: "('a supervisor_scheme, 'b) prog \<Rightarrow> bool" where
  "stays_manned m \<longleftrightarrow> (\<forall>w0 w. manned w0 w \<longrightarrow> manned w0 (snd (m w)))"

lemma stays_crew: "crew.keeps m \<Longrightarrow> stays_manned m"
  unfolding stays_manned_def
proof (intro allI impI)
  fix w0 w :: "'a supervisor_scheme" assume k: "crew.keeps m" "manned w0 w"
  obtain r w' where run: "m w = (r, w')" by (cases "m w")
  note d = crewD [OF k(1) run]
  show "manned w0 (snd (m w))"
    unfolding run snd_conv by (rule manned_step [OF k(2) d(1)]) (use d in auto)
qed

lemma stays_ebind:
  assumes "stays_manned m" "\<And>x. stays_manned (f x)"
  shows "stays_manned (ebind m f)"
  unfolding stays_manned_def
proof (intro allI impI)
  fix w0 w :: "'a supervisor_scheme" assume w: "manned w0 w"
  obtain r w1 where 1: "m w = (r, w1)" by (cases "m w")
  with assms(1) w have "manned w0 w1" unfolding stays_manned_def by (metis snd_conv)
  with assms(2) 1 show "manned w0 (snd (ebind m f w))" by (cases r) (auto simp: ebind_def stays_manned_def)
qed

lemma stays_start_end: "stays_manned (start_end plat prof e m home codex)"
  unfolding stays_manned_def
proof (intro allI impI)
  fix w0 w :: "'a supervisor_scheme" assume w: "manned w0 w"
  obtain r w1 where 1: "start plat prof m home codex w = (r, w1)" by (cases "start plat prof m home codex w")
  note st = start_running [OF 1]
  show "manned w0 (snd (start_end plat prof e m home codex w))"
  proof (cases r)
    case (Inl x)
    with 1 have eq: "snd (start_end plat prof e m home codex w) = w1" by (simp add: start_end_def ebind_def)
    show ?thesis unfolding eq by (rule manned_step [OF w st(1)]) (use st(2,3) Inl in auto)
  next
    case (Inr x)
    obtain p fr where x: "x = (p, fr)" by (cases x)
    let ?w = "ends_update (\<lambda>xs. xs @ [(e, p, fr)]) w1"
    have eq: "snd (start_end plat prof e m home codex w) = ?w" using 1 Inr x by (simp add: start_end_def ebind_def)
    have d: "did w ?w" "news w ?w = news w w1" using st(1) by (simp_all add: did_def news_def)
    have ro: "set (roster ?w) = insert p (set (roster w))" using st(2) by (auto simp: roster_def)
    show ?thesis unfolding eq
      by (rule manned_step [OF w d(1)]) (use st(3) d(2) ro Inr x in auto)
  qed
qed

lemma stays_run_endpoints: "stays_manned (run_endpoints fuel plat prof frozen codex root deadline)"
  unfolding run_endpoints_def Let_def
  by (intro stays_ebind stays_start_end stays_crew crewed crew_files [OF files_calls(4)] crew_files [OF files_world_calls(2)])

section \<open>The end of the children\<close>

lemma kill_one:
  fixes w :: "'a supervisor_scheme"
  assumes "Worker_Sci.kill_running x u w = (r, w')" and "list_all docile (news w w')"
  shows "r = Inr () \<and> set (running_after ps (news w w')) \<subseteq> set ps - {fst (snd x)}"
proof -
  obtain e p fr where x: "x = (e, p, fr)" by (cases x)
  obtain a w1 where 1: "consult (ProcessPoll p) w = (a, w1)" by (cases "consult (ProcessPoll p) w")
  note d1 = consult_running [OF 1]
  obtain b w2 where 2: "consult (ProcessKill p) w1 = (b, w2)" by (cases "consult (ProcessKill p) w1")
  note d2 = consult_running [OF 2]
  consider (err) x where "a = Inl x" "w' = w1" | (dead) v where "a = Inr v" "v \<noteq> PNone" "r = Inr ()" "w' = w1"
    | (kill) "a = Inr PNone" "r = (case b of Inl e \<Rightarrow> Inl e | Inr _ \<Rightarrow> Inr ())" "w' = w2"
    using assms(1) 1 2 x by (cases a; cases b) (auto simp: Worker_Sci.kill_running_def ebind_def split: if_splits)
  then show ?thesis
  proof cases
    case err
    with assms(2) d1(3) show ?thesis by (simp add: docile_def)
  next
    case dead
    then have "running_after ps (news w w1) = removeAll p ps" unfolding d1(2) by (simp add: tally_def)
    with dead x show ?thesis by simp
  next
    case kill
    have n: "news w w' = news w w1 @ news w1 w2" unfolding kill(3) using d1(1) d2(1) by (rule news_trans)
    with assms(2) have "list_all docile (news w1 w2)" by simp
    note k = kill_tally [OF 2 this]
    have "running_after ps (news w w1) = ps" unfolding d1(2) kill(1) by (simp add: tally_def)
    then have "set (running_after ps (news w w')) = set ps - {p}" unfolding n running_after_simps by (simp only: k(1))
    moreover from k(2) kill(2) have "r = Inr ()" by auto
    ultimately show ?thesis by (simp add: x)
  qed
qed

lemma crew_kill_one [crewed]: "crew.keeps (Worker_Sci.kill_running x u)"
  unfolding Worker_Sci.kill_running_def by (intro crewed)

lemma kill_all:
  fixes w :: "'a supervisor_scheme"
  shows "efor Worker_Sci.kill_running xs () w = (r, w') \<Longrightarrow> list_all docile (news w w') \<Longrightarrow>
     r = Inr () \<and> set (running_after ps (news w w')) \<subseteq> set ps - (fst \<circ> snd) ` set xs"
proof (induction xs arbitrary: w ps)
  case (Cons x xs)
  obtain r1 w1 where 1: "Worker_Sci.kill_running x () w = (r1, w1)" by (cases "Worker_Sci.kill_running x () w")
  note d1 = crewD(1) [OF crew_kill_one 1]
  have k: "crew.keeps (efor Worker_Sci.kill_running xs ())" by (intro crewed)
  show ?case
  proof (cases r1)
    case (Inl e)
    with Cons.prems(1) 1 have "w' = w1" by (simp add: ebind_def)
    with kill_one [OF 1] Cons.prems(2) Inl show ?thesis by simp
  next
    case (Inr v)
    with Cons.prems(1) 1 have 2: "efor Worker_Sci.kill_running xs () w1 = (r, w')" by (simp add: ebind_def)
    have n: "news w w' = news w w1 @ news w1 w'" using d1 crewD(1) [OF k 2] by (rule news_trans)
    with Cons.prems(2) have dc: "list_all docile (news w w1)" "list_all docile (news w1 w')" by simp_all
    from kill_one [OF 1 dc(1), of ps] Cons.IH [OF 2 dc(2), of "running_after ps (news w w1)"]
    show ?thesis unfolding n running_after_simps by auto
  qed
qed simp

lemma end_children_empties:
  fixes w0 :: "'a supervisor_scheme"
  assumes "manned w0 w" and "end_children w = (r, w')"
  shows "did w0 w'" "list_all docile (news w0 w') \<Longrightarrow> running (news w0 w') = []"
proof -
  have k: "crew.keeps (efor Worker_Sci.kill_running xs ())" "crew.keeps (efor join_end xs ())" for xs
    by (intro crewed)+
  obtain r1 w1 where 1: "efor Worker_Sci.kill_running (ends w) () w = (r1, w1)"
    by (cases "efor Worker_Sci.kill_running (ends w) () w")
  obtain r2 w2 where 2: "efor join_end (ends w1) () w1 = (r2, w2)" by (cases "efor join_end (ends w1) () w1")
  note d0 = assms(1) [unfolded manned_def, THEN conjunct1] and d1 = crewD [OF k(1) 1] and d2 = crewD [OF k(2) 2]
  have eq: "w' = (case r1 of Inl e \<Rightarrow> w1 | Inr _ \<Rightarrow> w2)"
    using assms(2) 1 2 by (auto simp: end_children_def ebind_def split: sum.splits)
  have n1: "did w0 w1" "news w0 w1 = news w0 w @ news w w1" using d0 d1(1) by (auto intro: did_trans news_trans)
  have n2: "did w0 w2" "news w0 w2 = news w0 w @ news w w1 @ news w1 w2"
    using did_trans [OF n1(1) d2(1)] news_trans [OF n1(1) d2(1)] n1(2) by simp_all
  show "did w0 w'" using n1 n2 eq by (cases r1) simp_all
  assume dc: "list_all docile (news w0 w')"
  then have dc1: "list_all docile (news w0 w)" "list_all docile (news w w1)" using n1 n2 eq by (cases r1; simp)+
  from kill_all [OF 1 dc1(2)] have r1: "r1 = Inr ()"
    and all: "set (running_after (running (news w0 w)) (news w w1)) \<subseteq> set (running (news w0 w)) - (fst \<circ> snd) ` set (ends w)"
    by blast+
  have "(fst \<circ> snd) ` set (ends w) = set (roster w)" by (force simp: roster_def)
  with all assms(1) dc1 have "set (running_after (running (news w0 w)) (news w w1)) \<subseteq> {}"
    unfolding manned_def by blast
  then have "running_after (running (news w0 w)) (news w w1) = []" by simp
  with d2(3) [of "[]"] show "running (news w0 w') = []" using eq r1 n2 by (simp add: running_def)
qed

section \<open>The supervisor\<close>

text \<open>A poll, a kill or a close that failed.\<close>

definition refused_call :: "made_call \<Rightarrow> bool" where
  "refused_call made \<longleftrightarrow>
     (case asked made of
        ProcessPoll p \<Rightarrow> \<exists>e. answered made = Inl e
      | ProcessKill p \<Rightarrow> \<exists>e. answered made = Inl e
      | PipeClose n \<Rightarrow> \<exists>e. answered made = Inl e
      | _ \<Rightarrow> False)"

lemma refused_docile: "refused_call made \<longleftrightarrow> \<not> docile made"
proof -
  have "(\<exists>e. a = Inl e) \<longleftrightarrow> \<not> (\<exists>v. a = Inr v)" for a :: "exn + pyval" by (cases a) auto
  then show ?thesis by (simp add: refused_call_def docile_def split: outside_call.split)
qed

lemma crew_none_running:
  assumes "crew.keeps m" "m w = (r, w')"
  shows "running (news w w') = []"
  using crewD(3) [OF assms, of "[]"] by (simp add: running_def)

lemma sci_execute_running:
  fixes w :: "'a supervisor_scheme"
  assumes "sci_execute fuel plat prof frozen codex w = (r, w')" and "list_all docile (news w w')"
  shows "running (news w w') = []"
proof -
  have k: "crew.keeps (ask_int Monotonic)" "crew.keeps (mkdtemp (scratch v) sci_prefix)" for v :: "'a supervisor_scheme"
    by (intro crewed crew_files kept)+
  obtain r1 w1 where 1: "ask_int Monotonic w = (r1, w1)" by (cases "ask_int Monotonic w")
  show ?thesis
  proof (cases r1)
    case (Inl e)
    with assms(1) 1 have "w' = w1" by (simp add: sci_execute_def ebind_def)
    with crew_none_running [OF k(1) 1] show ?thesis by simp
  next
    case (Inr now)
    let ?deadline = "now + int_of (field (field frozen ''limits'') ''timeout-ms'') * 1000000"
    let ?w2 = "ends_update (\<lambda>_. []) w1"
    have "did w ?w2" "news w ?w2 = news w w1" using crewD(1) [OF k(1) 1] by (simp_all add: did_def news_def)
    with crew_none_running [OF k(1) 1] have m2: "manned w ?w2" by (simp add: manned_def)
    obtain r3 w3 where 3: "mkdtemp (scratch ?w2) sci_prefix ?w2 = (r3, w3)" by (cases "mkdtemp (scratch ?w2) sci_prefix ?w2")
    have m3: "manned w w3" using stays_crew [OF k(2)] m2 3 unfolding stays_manned_def by (metis snd_conv)
    show ?thesis
    proof (cases r3)
      case (Inl e)
      with assms(1) 1 3 Inr have "w' = w3" by (simp add: sci_execute_def ebind_def Let_def)
      moreover have "roster w3 = []" using crewD(2) [OF k(2) 3] by (simp add: roster_def)
      ultimately show ?thesis using m3 assms(2) by (simp add: manned_def)
    next
      case (Inr root)
      let ?run = "run_endpoints fuel plat prof frozen codex root ?deadline"
      obtain r4 w4 where 4: "?run w3 = (r4, w4)" by (cases "?run w3")
      have m4: "manned w w4" using stays_run_endpoints m3 4 unfolding stays_manned_def by (metis snd_conv)
      obtain r5 w5 where 5: "end_children w4 = (r5, w5)" by (cases "end_children w4")
      note e5 = end_children_empties [OF m4 5]
      obtain r6 w6 where 6: "sys_rmtree (scratch ?w2) root w5 = (r6, w6)" by (cases "sys_rmtree (scratch ?w2) root w5")
      have "crew.keeps (sys_rmtree (scratch ?w2) root)" by (intro crew_files kept)
      note d6 = crewD [OF this 6]
      have "w' = w6"
        using assms(1) 1 3 4 5 6 Inr \<open>r1 = Inr now\<close>
        by (auto simp: sci_execute_def ebind_def Let_def try_finally_def split: sum.splits)
      with e5 d6(1,3) assms(2) show ?thesis
        using d6(3) [of "[]"] by (simp add: news_trans [OF e5(1) d6(1)] running_def)
    qed
  qed
qed

text \<open>
  C20. The supervisor leaves no child behind.  On every way out of a run of the two endpoints (a result,
  a broken pipe, a policy that differs, a deadline, an exhausted turn bound, a failing start of the second
  child), every process it started has been killed, seen dead by a poll or waited for afterwards, unless the
  kernel refused to poll, to kill or to close something: the ledger of started processes is empty at the end.
\<close>

theorem sci_leaves_no_child:
  "running (news w (snd (sci_execute fuel plat prof frozen codex_home w))) = []
     \<or> list_ex refused_call (news w (snd (sci_execute fuel plat prof frozen codex_home w)))"
proof -
  obtain r w' where run: "sci_execute fuel plat prof frozen codex_home w = (r, w')"
    by (cases "sci_execute fuel plat prof frozen codex_home w")
  from sci_execute_running [OF run] show ?thesis
    by (auto simp: run list_ex_iff list_all_iff refused_docile)
qed

section \<open>The transport\<close>















end
