(* ===== verification/Mirror_Properties.thy ===== *)
theory Mirror_Properties
  imports Ci_Mirror
begin

text \<open>
  The rewriting of a sources file: line by line, only whole words of \<open>URIs\<close> fields that name one of the
  runner's mirrors, and once is enough.
\<close>

section \<open>Words\<close>















section \<open>Lines\<close>










section \<open>Property\<close>




end
