(* ===== verification/Transcribe_Properties.thy ===== *)
theory Transcribe_Properties
  imports Transcribe
begin

text \<open>The exit status of the transcription, in terms of what was said.\<close>

definition audible :: "pystr \<Rightarrow> bool" where
  "audible s \<longleftrightarrow> list_ex (\<lambda>c. \<not> is_space c) s"

lemma dropWhile_audible: "dropWhile is_space s = [] \<longleftrightarrow> \<not> audible s" "audible (dropWhile is_space s) \<longleftrightarrow> audible s"
  by (induction s) (auto simp: audible_def)

lemma audible_rev [simp]: "audible (rev s) \<longleftrightarrow> audible s"
  by (simp add: audible_def list_ex_iff)

lemma strip_text_empty: "strip_text s = [] \<longleftrightarrow> \<not> audible s" "audible (strip_text s) \<longleftrightarrow> audible s"
  by (simp_all add: strip_text_def dropWhile_audible del: dropWhile_eq_Nil_conv)

lemma audible_join: "audible (join 32 ws) \<longleftrightarrow> list_ex audible ws"
  by (induction "32 :: nat" ws rule: join.induct) (auto simp: audible_def is_space_def)

lemma strip_ends:
  assumes "strip_text s \<noteq> []"
  shows "\<not> is_space (hd (strip_text s))" "\<not> is_space (last (strip_text s))"
proof -
  let ?t = "dropWhile is_space s"
  have t: "strip_text s = rev (dropWhile is_space (rev ?t))" by (simp add: strip_text_def)
  have ne: "?t \<noteq> []" using assms unfolding t by (metis dropWhile.simps(1) rev.simps(1))
  then have h: "\<not> is_space (hd ?t)" by (rule hd_dropWhile)
  from assms show "\<not> is_space (last (strip_text s))"
    using hd_dropWhile [of is_space "rev ?t"] by (simp add: t last_rev)
  have "hd (rev (dropWhile is_space (rev ?t))) = hd ?t"
  proof -
    have "?t = rev (dropWhile is_space (rev ?t)) @ rev (takeWhile is_space (rev ?t))"
      by (metis rev_append rev_rev_ident takeWhile_dropWhile_id)
    with assms show ?thesis unfolding t by (metis hd_append2)
  qed
  with h show "\<not> is_space (hd (strip_text s))" by (simp add: t)
qed

text \<open>
  The exit status tells whether something was said.  With too few arguments nothing is printed and the
  status is 2; otherwise it is 0 exactly if some segment that is likely speech has more than white space,
  and then the printed text begins and ends with something else than white space; a text that is printed
  with the status 1 is empty.
\<close>

lemma transcribe_status:
  "transcribe_main transcribed args =
     (if length args < 2 then (None, 2)
      else
      let segments = transcribed (args ! 1) (if 2 < length args then args ! 2 else lit ''base'');
          said = list_ex (\<lambda>s. no_speech_prob s < no_speech_limit \<and> audible (segment_text s)) segments
      in (Some (spoken_text segments), if said then 0 else 1))
    \<and> (list_ex (\<lambda>s. no_speech_prob s < no_speech_limit \<and> audible (segment_text s)) segs \<longleftrightarrow> spoken_text segs \<noteq> [])
    \<and> (spoken_text segs = [] \<or> \<not> is_space (hd (spoken_text segs)) \<and> \<not> is_space (last (spoken_text segs)))"
proof -
  have said: "list_ex (\<lambda>s. no_speech_prob s < no_speech_limit \<and> audible (segment_text s)) xs \<longleftrightarrow> spoken_text xs \<noteq> []" for xs
    by (auto simp: spoken_text_def strip_text_empty audible_join list_ex_iff)
  moreover have "spoken_text xs = [] \<or> \<not> is_space (hd (spoken_text xs)) \<and> \<not> is_space (last (spoken_text xs))" for xs
    using strip_ends unfolding spoken_text_def by blast
  ultimately show ?thesis by (auto simp: transcribe_main_def Let_def)
qed

end
