(* ===== verification/Session_Properties.thy ===== *)
theory Session_Properties
  imports Mcp_Client Py_Rely
begin

text \<open>
  The private session file: \<open>save\<close> replaces it as a whole, whichever of its calls fails and whatever a
  failing call leaves behind.
\<close>

section \<open>Calls that may fail\<close>

text \<open>No other process touches the files, but any call may fail with or without its effect.\<close>

definition calm :: "'a posix_scheme \<Rightarrow> bool" where
  "calm w \<longleftrightarrow> list_all (\<lambda>(g, out). g = id) (script w)"

definition same_user :: "'a posix_scheme \<Rightarrow> 'a posix_scheme \<Rightarrow> bool" where
  "same_user w w' \<longleftrightarrow> calm w' \<and> uid w' = uid w \<and> umask w' = umask w"

lemma calm_partial:
  assumes "calm w" "syscall_partial g p w = (r, w')"
  shows "same_user w w'"
    "case g (fs w) of Inl e \<Rightarrow> r = Inl e \<and> fs w' = fs w
       | Inr (x, s) \<Rightarrow> r = Inr x \<and> fs w' = s \<or> r = Inl io_error \<and> (\<exists>k. fs w' = p k (fs w))"
proof -
  obtain out w1 where 1: "next_step w = (out, w1)" by (cases "next_step w")
  have w1: "fs w1 = fs w" "calm w1" "uid w1 = uid w" "umask w1 = umask w"
    using assms(1) 1 by (auto simp: next_step_def calm_def split: list.splits)
  then show "same_user w w'"
    "case g (fs w) of Inl e \<Rightarrow> r = Inl e \<and> fs w' = fs w
       | Inr (x, s) \<Rightarrow> r = Inr x \<and> fs w' = s \<or> r = Inl io_error \<and> (\<exists>k. fs w' = p k (fs w))"
    using assms(2) 1
    by (auto simp: syscall_partial_def same_user_def calm_def split: sum.splits prod.splits outcome.splits)
qed

lemma calm_syscall:
  assumes "calm w" "syscall g w = (r, w')"
  shows "same_user w w'"
    "case g (fs w) of Inl e \<Rightarrow> r = Inl e \<and> fs w' = fs w
       | Inr (x, s) \<Rightarrow> r = Inr x \<and> fs w' = s \<or> r = Inl io_error \<and> (fs w' = fs w \<or> fs w' = s)"
  using calm_partial [OF assms [unfolded syscall_def]] by (auto split: sum.splits if_splits)

lemma same_user_trans: "same_user u v \<Longrightarrow> same_user v w \<Longrightarrow> same_user u w"
  by (simp add: same_user_def)

lemma same_user_calm: "same_user w w' \<Longrightarrow> calm w'"
  by (simp add: same_user_def)

section \<open>The old and the new file\<close>

text \<open>The name leads to the file it led to, which has its content.\<close>

definition untouched :: "fs \<Rightarrow> nat \<Rightarrow> pystr \<Rightarrow> fs \<Rightarrow> bool" where
  "untouched f0 d n f \<longleftrightarrow>
     lookup f d n = lookup f0 d n \<and> length (inodes f0) \<le> length (inodes f)
     \<and> (\<forall>i. lookup f0 d n = Some i \<longrightarrow> content (inode f i) = content (inode f0 i) \<and> durable (inode f i) = durable (inode f0 i))"

text \<open>A new regular file of this user with the mode of a private file.\<close>

definition own_file :: "fs \<Rightarrow> nat \<Rightarrow> nat \<Rightarrow> fs \<Rightarrow> nat \<Rightarrow> bool" where
  "own_file f0 u m f i \<longleftrightarrow>
     has_inode f i \<and> \<not> has_inode f0 i \<and> kind (inode f i) = Reg \<and> owner (inode f i) = u \<and> mode (inode f i) = m"

text \<open>The staging name leads to such a file.\<close>

definition in_stage :: "fs \<Rightarrow> nat \<Rightarrow> pystr \<Rightarrow> nat \<Rightarrow> nat \<Rightarrow> fs \<Rightarrow> pystr \<Rightarrow> nat \<Rightarrow> bool" where
  "in_stage f0 d n u m f name i \<longleftrightarrow>
     untouched f0 d n f \<and> name \<noteq> n \<and> has_inode f0 d \<and> lookup f d name = Some i \<and> own_file f0 u m f i"

definition sealed :: "bytes \<Rightarrow> fs \<Rightarrow> nat \<Rightarrow> bool" where
  "sealed b f i \<longleftrightarrow> content (inode f i) = b \<and> durable (inode f i) = Some b"

text \<open>The name leads to a new file with these bytes, synced.\<close>

definition replaced :: "fs \<Rightarrow> nat \<Rightarrow> pystr \<Rightarrow> nat \<Rightarrow> nat \<Rightarrow> bytes \<Rightarrow> fs \<Rightarrow> bool" where
  "replaced f0 d n u m b f \<longleftrightarrow> (\<exists>i. lookup f d n = Some i \<and> own_file f0 u m f i \<and> sealed b f i)"

lemma in_stage_set:
  assumes "fs_ok f0" "in_stage f0 d n u m f name i" "kind x = Reg" "owner x = u" "mode x = m"
  shows "in_stage f0 d n u m (set_inode i x f) name i"
proof -
  have i: "has_inode f i" "i \<noteq> d" using assms(2) by (auto simp: in_stage_def own_file_def)
  have "lookup f0 d n \<noteq> Some i" using assms(1,2) by (auto simp: in_stage_def own_file_def dest: fs_okD)
  with i assms(2-5) show ?thesis
    by (auto simp: in_stage_def untouched_def own_file_def lookup_set_inode)
qed

lemma in_stage_make:
  assumes "fs_ok f0" "untouched f0 d n f" "has_inode f0 d" "name \<noteq> n" "Py_Posix.make Reg u p m d name f = Inr (i, f')"
  shows "in_stage f0 d n u m f' name i"
proof -
  let ?x = "new_inode Reg u m p"
  have d: "has_inode f d" and i: "i = length (inodes f)" and f': "f' = add_entry d name i (add_inode ?x f)"
    using assms(5) by (auto simp: Py_Posix.make_def Let_def split: if_splits)
  have le: "length (inodes f0) \<le> length (inodes f)" using assms(2) by (simp add: untouched_def)
  then have old: "j \<noteq> length (inodes f) \<and> has_inode f j" if "has_inode f0 j" for j using that by (auto simp: has_inode_def)
  have e: "entries ?x = []" by (simp add: new_inode_def)
  have look: "lookup f' d k = (if k = name then Some i else lookup f d k)" for k
    using d by (simp add: f' lookup_add_entry lookup_add_inode [OF e])
  have ino: "inode f' i = ?x" using d by (auto simp: f' i inode_add_entry has_inode_def)
  have "content (inode f' j) = content (inode f j) \<and> durable (inode f' j) = durable (inode f j)" if "has_inode f0 j" for j
    using old [OF that] d by (simp add: f' inode_add_entry)
  moreover have len: "length (inodes f') = Suc (length (inodes f))" by (simp add: f' add_entry_def)
  ultimately have "untouched f0 d n f'"
    using assms(2,4) look le len fs_okD [OF assms(1), of d n] by (simp add: untouched_def)
  moreover have "own_file f0 u m f' i"
    using ino old i by (auto simp: own_file_def new_inode_def f')
  ultimately show ?thesis using assms(3,4) look by (simp add: in_stage_def)
qed

lemma unlink_stage:
  assumes "fs_ok f0" "in_stage f0 d n u m f name i"
  shows "untouched f0 d n (remove_entry d name (set_inode i ((inode f i)\<lparr>links := k\<rparr>) f))"
proof -
  let ?f = "set_inode i ((inode f i)\<lparr>links := k\<rparr>) f"
  have s: "in_stage f0 d n u m ?f name i"
    using assms by (intro in_stage_set) (auto simp: in_stage_def own_file_def)
  then have d: "has_inode ?f d" by (auto simp: in_stage_def dest: lookup_has_inode)
  from s d show ?thesis
    by (auto simp: in_stage_def untouched_def lookup_remove_entry) (auto simp: remove_entry_def)
qed

lemma rename_stage:
  assumes "fs_ok f0" "in_stage f0 d n u m f name i" "sealed b f i"
  shows "replaced f0 d n u m b (rename_entry d name n i f)" "lookup (rename_entry d name n i f) d name = None"
proof -
  have i: "has_inode f i" "i \<noteq> d" "lookup f0 d n \<noteq> Some i" "has_inode f d" "name \<noteq> n" "lookup f d n = lookup f0 d n"
    using assms(1,2) by (auto simp: in_stage_def own_file_def untouched_def dest: fs_okD lookup_has_inode)
  define f1 where "f1 = (case lookup f d n of None \<Rightarrow> f
      | Some j \<Rightarrow> remove_entry d n (set_inode j ((inode f j)\<lparr>links := links (inode f j) - 1\<rparr>) f))"
  have old: "has_inode f j" if "lookup f d n = Some j" for j
    using that assms(1,2) i(6) by (auto simp: in_stage_def untouched_def has_inode_def dest!: fs_okD)
  have f1: "has_inode f1 d" "has_inode f1 i" "inode f1 i = inode f i"
    using i old by (auto simp: f1_def remove_entry_def split: option.split)
  then have f2: "has_inode (remove_entry d name f1) d" "inode (remove_entry d name f1) i = inode f i"
    "has_inode (remove_entry d name f1) i"
    using i by (simp_all add: remove_entry_def)
  have eq: "rename_entry d name n i f = add_entry d n i (remove_entry d name f1)"
    by (simp add: rename_entry_def f1_def)
  show "replaced f0 d n u m b (rename_entry d name n i f)"
    using assms(2,3) f2 i by (auto simp: eq replaced_def lookup_add_entry inode_add_entry own_file_def sealed_def in_stage_def)
  show "lookup (rename_entry d name n i f) d name = None"
    using f1 f2 i(5) by (simp add: eq lookup_add_entry lookup_remove_entry)
qed

section \<open>The calls of \<open>save\<close>\<close>

lemma draw_calm: "draw k w = (r, w') \<Longrightarrow> calm w \<Longrightarrow> same_user w w' \<and> fs w' = fs w \<and> (\<exists>b. r = Inr b)"
  by (auto simp: draw_def same_user_def calm_def)

lemma make_content: "Py_Posix.make Reg u p m d name f = Inr (i, f') \<Longrightarrow> content (inode f' i) = []"
  by (auto simp: Py_Posix.make_def Let_def inode_add_entry new_inode_def has_inode_def split: if_splits)

lemma create_calm:
  assumes "calm w" "fs_ok f0" "untouched f0 d n (fs w)" "has_inode f0 d" "name \<noteq> n"
    and "sys_create d name 384 w = (r, w')"
  shows "same_user w w'" "untouched f0 d n (fs w')"
    "r = Inr i \<Longrightarrow> in_stage f0 d n (uid w) (masked 384 (umask w)) (fs w') name i \<and> content (inode (fs w') i) = []"
proof -
  let ?g = "Py_Posix.make Reg (uid w) (pid w) (masked 384 (umask w)) d name"
  note c = calm_syscall [OF assms(1) assms(6) [unfolded sys_create_def]]
  show "same_user w w'" by (rule c(1))
  have "untouched f0 d n (fs w') \<and> (r = Inr i \<longrightarrow>
      in_stage f0 d n (uid w) (masked 384 (umask w)) (fs w') name i \<and> content (inode (fs w') i) = [])"
  proof (cases "?g (fs w)")
    case (Inl e)
    with c(2) assms(3) show ?thesis by simp
  next
    case (Inr p)
    obtain j f' where p: "p = (j, f')" by (cases p)
    with Inr have m: "?g (fs w) = Inr (j, f')" by simp
    from in_stage_make [OF assms(2-5) m] make_content [OF m] c(2) assms(3) show ?thesis
      by (auto simp: m in_stage_def)
  qed
  then show "untouched f0 d n (fs w')"
    "r = Inr i \<Longrightarrow> in_stage f0 d n (uid w) (masked 384 (umask w)) (fs w') name i \<and> content (inode (fs w') i) = []"
    by simp_all
qed

lemma mkstemp_calm:
  assumes "fs_ok f0" "has_inode f0 d" "\<not> starts_with p n"
  shows "mkstemp_tries k d p w = (r, w') \<Longrightarrow> calm w \<Longrightarrow> untouched f0 d n (fs w) \<Longrightarrow>
     same_user w w' \<and> untouched f0 d n (fs w')
     \<and> (\<forall>i name. r = Inr (i, name) \<longrightarrow>
          in_stage f0 d n (uid w) (masked 384 (umask w)) (fs w') name i \<and> content (inode (fs w') i) = [])"
proof (induction k arbitrary: w)
  case 0
  then show ?case by (auto simp: same_user_def)
next
  case (Suc k)
  obtain b w1 where 1: "draw 8 w = (Inr b, w1)" by (simp add: draw_def)
  note d = draw_calm [OF 1 Suc.prems(2)]
  let ?name = "p @ map tmp_char b"
  obtain r2 w2 where 2: "sys_create d ?name 384 w1 = (r2, w2)" by (cases "sys_create d ?name 384 w1")
  have "?name \<noteq> n" using assms(3) by (auto simp: starts_with_iff)
  from create_calm [OF same_user_calm [OF d [THEN conjunct1]] assms(1) _ assms(2) this 2] d Suc.prems(3)
  have c: "same_user w1 w2" "untouched f0 d n (fs w2)"
    "\<And>i. r2 = Inr i \<Longrightarrow> in_stage f0 d n (uid w) (masked 384 (umask w)) (fs w2) ?name i \<and> content (inode (fs w2) i) = []"
    by (simp_all add: same_user_def)
  have w2: "same_user w w2" using d c(1) same_user_trans by blast
  show ?case
  proof (cases "r2 = Inl FileExistsError")
    case True
    with Suc.prems(1) 1 2 have "mkstemp_tries k d p w2 = (r, w')"
      by (simp add: ebind_def try_except_def Let_def)
    from Suc.IH [OF this same_user_calm [OF w2] c(2)] w2 show ?thesis by (auto simp: same_user_def)
  next
    case False
    with Suc.prems(1) 1 2 have "w' = w2" "\<forall>i name. r = Inr (i, name) \<longrightarrow> r2 = Inr i \<and> name = ?name"
      by (auto simp: ebind_def try_except_def Let_def split: sum.splits)
    with w2 c(2,3) show ?thesis by blast
  qed
qed

lemma write_calm:
  assumes "calm w" "fs_ok f0" "in_stage f0 d n u m (fs w) name i" "sys_write i b w = (r, w')"
  shows "same_user w w'" "in_stage f0 d n u m (fs w') name i"
    "r = Inr () \<Longrightarrow> content (inode (fs w') i) = content (inode (fs w) i) @ b"
proof -
  note c = calm_partial [OF assms(1) assms(4) [unfolded sys_write_def]]
  have i: "has_inode (fs w) i" "kind (inode (fs w) i) = Reg \<and> owner (inode (fs w) i) = u \<and> mode (inode (fs w) i) = m"
    using assms(3) by (simp_all add: in_stage_def own_file_def)
  have put: "in_stage f0 d n u m (put i x (fs w)) name i" for x
    unfolding put_def using i(2) by (intro in_stage_set [OF assms(2,3)]) simp_all
  show "same_user w w'" by (rule c(1))
  show "in_stage f0 d n u m (fs w') name i" using c(2) i(1) put assms(3) by auto
  show "content (inode (fs w') i) = content (inode (fs w) i) @ b" if "r = Inr ()"
    using c(2) i(1) that by (auto simp: put_def)
qed

lemma fsync_calm:
  assumes "calm w" "fs_ok f0" "in_stage f0 d n u m (fs w) name i" "sys_fsync i w = (r, w')"
  shows "same_user w w'" "in_stage f0 d n u m (fs w') name i" "r = Inr () \<Longrightarrow> sealed (content (inode (fs w) i)) (fs w') i"
proof -
  note c = calm_syscall [OF assms(1) assms(4) [unfolded sys_fsync_def]]
  have i: "has_inode (fs w) i" "kind (inode (fs w) i) = Reg \<and> owner (inode (fs w) i) = u \<and> mode (inode (fs w) i) = m"
    using assms(3) by (simp_all add: in_stage_def own_file_def)
  have "in_stage f0 d n u m (sync i (fs w)) name i"
    unfolding sync_def using i(2) by (intro in_stage_set [OF assms(2,3)]) simp_all
  with c i assms(3) show "same_user w w'" "in_stage f0 d n u m (fs w') name i"
    "r = Inr () \<Longrightarrow> sealed (content (inode (fs w) i)) (fs w') i"
    by (auto simp: sealed_def sync_def)
qed

text \<open>The file is either still in the stage or in its place.\<close>

lemma replace_calm:
  assumes "calm w" "fs_ok f0" "in_stage f0 d n u m (fs w) name i" "sealed b (fs w) i" "sys_replace d name n w = (r, w')"
  shows "same_user w w'"
    "in_stage f0 d n u m (fs w') name i \<and> r \<noteq> Inr () \<or> replaced f0 d n u m b (fs w') \<and> lookup (fs w') d name = None"
proof -
  note c = calm_syscall [OF assms(1) assms(5) [unfolded sys_replace_def]]
  show "same_user w w'" by (rule c(1))
  have name: "lookup (fs w) d name = Some i" using assms(3) by (simp add: in_stage_def)
  have j: "j \<noteq> i" if "lookup (fs w) d n = Some j" for j
    using that assms(3) fs_okD [OF assms(2), of d n j] by (auto simp: in_stage_def untouched_def own_file_def)
  note finished = rename_stage [OF assms(2-4)]
  show "in_stage f0 d n u m (fs w') name i \<and> r \<noteq> Inr () \<or> replaced f0 d n u m b (fs w') \<and> lookup (fs w') d name = None"
    using c(2) name j finished assms(3)
    by (auto simp: find_entry_def split: option.splits if_splits)
qed

text \<open>From the staging file to the end of the replacement\<close>

lemma save_body_calm:
  assumes "calm w1" "fs_ok f0" "in_stage f0 d n u m (fs w1) name i" "content (inode (fs w1) i) = []"
    and run: "ebind (sys_write i b) (\<lambda>_. ebind (sys_fsync i) (\<lambda>_. sys_replace d name n)) w1 = (r2, w2)"
  shows "calm w2 \<and> (in_stage f0 d n u m (fs w2) name i \<and> r2 \<noteq> Inr ()
      \<or> replaced f0 d n u m b (fs w2) \<and> lookup (fs w2) d name = None)"
proof -
  obtain a v where a: "sys_write i b w1 = (a, v)" by (cases "sys_write i b w1")
  note wr = write_calm [OF assms(1-3) a]
  obtain c v' where c: "sys_fsync i v = (c, v')" by (cases "sys_fsync i v")
  note sy = fsync_calm [OF same_user_calm [OF wr(1)] assms(2) wr(2) c]
  consider (early) "w2 = v \<or> w2 = v'" "r2 \<noteq> Inr ()" | (late) "a = Inr ()" "c = Inr ()" "sys_replace d name n v' = (r2, w2)"
    using run a c by (cases a; cases c) (auto simp: ebind_def)
  then show ?thesis
  proof cases
    case early
    with wr(1,2) sy(1,2) show ?thesis by (auto simp: same_user_def)
  next
    case late
    with sy(3) wr(3) assms(4) have "sealed b (fs v') i" by simp
    from replace_calm [OF same_user_calm [OF sy(1)] assms(2) sy(2) this late(3)] same_user_calm show ?thesis by blast
  qed
qed

text \<open>The cleanup removes the staging name, when it is there.\<close>

lemma cleanup_calm:
  assumes "calm w" "fs_ok f0"
    and "ebind (sys_exists d name) (\<lambda>there. if there then sys_unlink d name else ret ()) w = (r, w')"
  shows "in_stage f0 d n u m (fs w) name i \<Longrightarrow> untouched f0 d n (fs w')"
    "lookup (fs w) d name = None \<Longrightarrow> fs w' = fs w"
proof -
  obtain r1 w1 where 1: "sys_exists d name w = (r1, w1)" by (cases "sys_exists d name w")
  note c = calm_syscall [OF assms(1) 1 [unfolded sys_exists_def]]
  have w1: "fs w1 = fs w" "r1 = Inr (lookup (fs w) d name \<noteq> None) \<or> r1 = Inl io_error" using c(2) by auto
  show "fs w' = fs w" if "lookup (fs w) d name = None"
    using assms(3) 1 w1 that by (auto simp: ebind_def)
  show "untouched f0 d n (fs w')" if s: "in_stage f0 d n u m (fs w) name i"
  proof (cases "r1 = Inl io_error")
    case True
    with assms(3) 1 w1(1) s show ?thesis by (simp add: ebind_def in_stage_def)
  next
    case False
    have name: "lookup (fs w1) d name = Some i" using s w1(1) by (simp add: in_stage_def)
    with False w1 assms(3) 1 have "sys_unlink d name w1 = (r, w')" by (auto simp: ebind_def)
    note u = calm_syscall [OF same_user_calm [OF c(1)] this [unfolded sys_unlink_def]]
    from unlink_stage [OF assms(2) s] u(2) name w1(1) s show ?thesis by (auto simp: find_entry_def in_stage_def)
  qed
qed

section \<open>Property\<close>

text \<open>
  C22. Saving a session is all or nothing.  With any of its calls failing, with or without the effect of
  the call, and a failing write leaving any beginning, \<open>save\<close> leaves under the session's name either the file
  that was there with its content or a new private regular file of this user that holds the whole session and
  is synced; and when it returns it is the new one.  Other processes are kept out by the lock.
\<close>

theorem session_save_all_or_nothing:
  assumes "calm w" and "fs_ok (fs w)" and "has_inode (fs w) d" and "\<not> starts_with session_staging n"
    and "save d n session w = (r, w')"
  shows "(untouched (fs w) d n (fs w') \<and> r \<noteq> Inr ())
    \<or> replaced (fs w) d n (uid w) (masked 384 (umask w)) (dumps_bytes fmt_default session) (fs w')"
proof -
  let ?f0 = "fs w" let ?b = "dumps_bytes fmt_default session" let ?m = "masked 384 (umask w)"
  obtain r1 w1 where 1: "mkstemp d session_staging w = (r1, w1)" by (cases "mkstemp d session_staging w")
  have start: "untouched ?f0 d n ?f0" by (simp add: untouched_def)
  note s1 = mkstemp_calm [OF assms(2-4) 1 [unfolded mkstemp_def] assms(1) start]
  show ?thesis
  proof (cases r1)
    case (Inl e)
    with assms(5) 1 s1 show ?thesis by (auto simp: save_def ebind_def)
  next
    case (Inr p)
    obtain i name where p: "p = (i, name)" by (cases p)
    let ?body = "ebind (sys_write i ?b) (\<lambda>_. ebind (sys_fsync i) (\<lambda>_. sys_replace d name n))"
    let ?clean = "ebind (sys_exists d name) (\<lambda>there. if there then sys_unlink d name else ret ())"
    have c1: "calm w1" and st: "in_stage ?f0 d n (uid w) ?m (fs w1) name i" "content (inode (fs w1) i) = []"
      using s1 Inr p by (auto simp: same_user_def)
    obtain r2 w2 where 2: "?body w1 = (r2, w2)" by (cases "?body w1")
    note body = save_body_calm [OF c1 assms(2) st 2]
    obtain r3 w3 where 3: "?clean w2 = (r3, w3)" by (cases "?clean w2")
    note cl = cleanup_calm [OF body [THEN conjunct1] assms(2) 3]
    have "w' = w3" "r = (case r3 of Inl e \<Rightarrow> Inl e | Inr _ \<Rightarrow> r2)"
      using assms(5) 1 2 3 Inr p by (auto simp: save_def ebind_def try_finally_def split: sum.splits)
    with body cl show ?thesis by (cases r3) auto
  qed
qed

theorem session_save_all_or_nothing_witness:
  "\<exists>w'. save 0 (lit ''session'') (PDict []) (host empty_root 7) = (Inr (), w')
     \<and> replaced empty_root 0 (lit ''session'') 1000 384 (dumps_bytes fmt_default (PDict [])) (fs w')"
proof -
  let ?w = "host empty_root 7"
  have n: "\<not> starts_with session_staging (lit ''session'')"
    by (simp add: starts_with_def session_staging_def lit_simps)
  then have d: "lit ''session'' \<noteq> session_staging @ h" "session_staging @ h \<noteq> lit ''session''" for h
    by (metis starts_with_iff)+
  obtain w' where s: "save 0 (lit ''session'') (PDict []) ?w = (Inr (), w')"
    using d
    by (simp add: save_def mkstemp_def TMP_MAX_def draw_def quiet_calls host_def empty_root_def Let_def
        mkstemp_tries.simps numeral_eq_Suc sys_replace_def rename_entry_def sys_exists_def)
  have "calm ?w" "fs_ok (fs ?w)" "has_inode (fs ?w) 0"
    by (simp_all add: calm_def empty_root_ok) (simp add: empty_root_def has_inode_def)
  from session_save_all_or_nothing [OF this n s] s show ?thesis by (simp add: host_def masked_def)
qed

end
