(* ===== verification/Spec2Isabelle.thy ===== *)
theory Spec2Isabelle
  imports Worker_Driver Browser_Guard Ci_Mirror Transcribe Journal_Properties Worker_Release Observer_Properties
    Guard_Properties Trust_Properties Frame_Properties Download_Properties Output_Properties Workspace_Properties
    Runtime_Properties Endpoint_Properties Mirror_Properties Transcribe_Properties Session_Properties
begin

text \<open>
  Verification of the worker scripts, \<^verbatim>\<open>scripts/*.py\<close>.  This theory holds the description; the model and
  the theorems are in the theories it imports.

  \<^bold>\<open>The program.\<close>  A person lets one Linux machine work for a Simmis server.  \<^verbatim>\<open>mcp_client.py\<close> logs in and keeps
  a private session; \<^verbatim>\<open>worker_driver.py\<close> uses it to enroll the machine and to submit work, and runs one
  queued Run.  A run is led by \<^verbatim>\<open>worker_controller.py\<close>: under the worker's lock it makes or adopts the claim
  ticket (\<^verbatim>\<open>worker_claim.py\<close>), claims the Run through a helper process that does the HTTP
  (\<^verbatim>\<open>worker_transport.py\<close> with \<^verbatim>\<open>mcp_workspace.py\<close>), fetches the frozen input (\<^verbatim>\<open>worker_inputs.py\<close>), records the
  launch in the Run's journal (\<^verbatim>\<open>worker_journal.py\<close>), starts one retained systemd unit and captures its identity
  (\<^verbatim>\<open>worker_unit.py\<close>), records the admission, and only then writes \<open>GO\<close> into the pipe (\<^verbatim>\<open>worker_io.py\<close>).  In the
  unit runs either the guard of a task namespace (\<^verbatim>\<open>worker_namespace.py\<close>, whose result \<^verbatim>\<open>worker_outputs.py\<close>
  collects) or the supervisor of two interpreter endpoints (\<^verbatim>\<open>worker_sci.py\<close> with \<^verbatim>\<open>worker_runtime.py\<close>).
  Afterwards the controller has the unit stopped, seals the observation in the journal, sends the result or the
  stop to the server, and seals the receipt; after a crash, \<open>reconcile\<close> does what is left of that without ever
  executing.  Three scripts stand alone: \<^verbatim>\<open>browser_guard.py\<close>, \<^verbatim>\<open>ci_ubuntu_mirror.py\<close>, \<^verbatim>\<open>transcribe.py\<close>.

  \<^bold>\<open>Python and its world\<close> (theories \<^verbatim>\<open>Py_*\<close>).
  \<^item> \<open>Py_Prelude\<close>: JSON values of unknown type \<open>pyval\<close>, exceptions \<open>exn\<close>, results \<open>exn + 'a\<close> with \<open>rbind\<close> and
    \<open>for_each\<close>, Python equality \<open>py_eq\<close>.  A string is the list of its code points, \<open>bytes\<close> a list of
    8-bit words.  An f-string or a message is a constant of the exception it is in.
  \<^item> \<open>Py_Prog\<close>: programs \<open>'w \<Rightarrow> (exn + 'a) \<times> 'w\<close> with \<open>ebind\<close>, \<open>try_except\<close>, \<open>try_finally\<close>, \<open>on_error\<close>, \<open>efor\<close>; weakest
    preconditions \<open>wp\<close>; and the locale \<open>effect_relation\<close>, the contract of a relation that every step keeps,
    which is interpreted for each frame used below (\<open>shared\<close>, \<open>files\<close>, \<open>traced\<close>, \<open>talking\<close>, \<open>steady\<close>, \<open>named\<close>,
    \<open>moving\<close>, \<open>releasing\<close>, \<open>idling\<close>, \<open>piped\<close>, \<open>crew\<close>).  \<open>Worker_Loops\<close> extends it to the observer's event loop.
  \<^item> \<open>Py_Text\<close>, \<open>Py_Url\<close>, \<open>Py_Base64\<close>, \<open>Py_Json\<close>, \<open>Py_Sha256\<close>, \<open>Py_Web\<close>: the parts of the standard library that the
    scripts use, as executable definitions, with the round trips of UTF-8, base64, JSON and integer texts.
    \<open>parse_value\<close> has as fuel twice the length of the text, and the round trips prove it enough for what is rendered.
  \<^item> \<open>Py_Posix\<close>, \<open>Py_Files\<close>: inodes, descriptor-relative calls, \<open>fsync\<close> with what a crash keeps, locks, random names.
    Between any two calls the \<open>script\<close> of the world lets other processes act and may let a call fail with
    or without its effect.  \<open>Py_Rely\<close>: the rules other processes keep (\<open>acts\<close>: a published name keeps its file
    and content, unpublished names of this process are its own), and that every call of the model keeps them.
  \<^item> \<open>Py_Outside\<close>, \<open>Py_Trace\<close>: what is not files (D-Bus, \<open>/proc\<close>, pipes, child processes, clocks).  Every such call is
    recorded with its answer, which is taken from an arbitrary list of replies, so a theorem is about all
    answers, and \<open>news w w'\<close> is what a program did.
  \<^item> \<open>Py_Chunks\<close>: the locales \<open>chunk_transfer\<close> and \<open>honest_transfer\<close>, the contract of a download by chunks and of
    a server that answers truly, interpreted on the loop of \<open>fetch\<close>.

  \<^bold>\<open>The components\<close>, one theory for each script of the same name: \<open>Worker_Inputs\<close> and \<open>Worker_Materialize\<close>
  (\<^verbatim>\<open>worker_inputs.py\<close>), \<open>Worker_Claim\<close>, \<open>Mcp_Client\<close>, \<open>Mcp_Workspace\<close>, \<open>Worker_Outputs\<close>, \<open>Worker_Runtime\<close>,
  \<open>Worker_Namespace\<close>, \<open>Worker_Io\<close>, \<open>Worker_Unit\<close>, \<open>Worker_Journal\<close>, \<open>Worker_Transport\<close>, \<open>Worker_Sci\<close>,
  \<open>Worker_Controller\<close>, \<open>Worker_Driver\<close>, \<open>Browser_Guard\<close>, \<open>Ci_Mirror\<close>, \<open>Transcribe\<close>.  A definition has the name of
  the function it translates where Isabelle allows it.  The fields of an object that its methods change
  are a record that extends the world (\<open>unit_bus\<close>, \<open>controller\<close>, \<open>supervisor\<close>, \<open>guard\<close>, \<open>workspace\<close>), or are passed and
  returned (\<open>mcp\<close>, \<open>helper_link\<close>, \<open>frames\<close>); what never changes (\<open>platform\<close>, \<open>installation\<close>, \<open>workstation\<close>) is
  an argument.  A callback is a program that is an argument.

  \<^bold>\<open>What is proved\<close>, by theory.
  \<^item> \<open>Worker_Inputs\<close>: accepted paths never leave the directory; \<open>validate\<close> accepts exactly \<open>frozen_spec\<close>; whatever a
    server sends, \<open>fetch\<close> returns only what was announced, and from an honest server it returns exactly that.
  \<^item> \<open>Worker_Claim\<close>: racing processes agree on one ticket, which survives crashes; the lock excludes.
  \<^item> \<open>Worker_Durable\<close>, \<open>Journal_Properties\<close>: records are read back, a published phase is permanent and the
    same for everyone, chains are linked by digests and stay accepted when they are advanced.
  \<^item> \<open>Worker_Effects\<close>, \<open>Worker_Release\<close>: which effects the components have; in a whole run every \<open>GO\<close> is
    written while the admission of the captured unit is on disk; \<open>reconcile\<close> neither starts nor releases a task.
  \<^item> \<open>Observer_Properties\<close>: the sets of names of \<open>UnitBus\<close>, what a lost reply of \<open>launch\<close> forbids for ever, what
    \<open>capture\<close> has checked, and that the observer refines an abstract state machine of each unit name.
  \<^item> \<open>Guard_Properties\<close>: nothing runs before \<open>GO\<close>; whatever the task does, nothing is left when the guard or
    the browser supervisor reports; their reaping loops end.
  \<^item> \<open>Frame_Properties\<close>: a written frame is sent exactly, a frame is read as it was written, a peer cannot make the
    reader hold more than \<open>MAX_FRAME_BYTES\<close>.
  \<^item> \<open>Download_Properties\<close>: a saved snapshot is the verified one and replaces nothing.
  \<^item> \<open>Trust_Properties\<close>: no program depends on what an untrusted host answers, so none is asked.
  \<^item> \<open>Session_Properties\<close>: the session file is replaced as a whole or not at all.
  \<^item> \<open>Output_Properties\<close>, \<open>Workspace_Properties\<close>: \<open>validate_output\<close> accepts exactly \<open>output_spec\<close>; a collected completion is
    valid and bounded whatever happens in the workspace, and on one at rest it is exactly what changed;
    \<open>materialize\<close> refines the abstract tree of the input; making and collecting an untouched workspace reports nothing.
    One theorem here shows a divergence from the documentation: a selected file that was frozen with a
    base64 text that is not canonical is reported although nothing changed it.
  \<^item> \<open>Runtime_Properties\<close>: \<open>verify\<close> accepts exactly \<open>runtime_spec\<close> on a machine at rest.
  \<^item> \<open>Endpoint_Properties\<close>: the supervisor of the endpoints leaves no child, a failed transport no helper.
  \<^item> \<open>Mirror_Properties\<close>, \<open>Transcribe_Properties\<close>: what the two small scripts do to their input.
  \<open>Worker_Samples\<close> has the concrete Run, unit and records on which the theorems with hypotheses are applied.

  \<^bold>\<open>Bounds and fuel.\<close>  Loops that wait for others (frames, the observer's waiting, the lease) take a bound on
  their turns as an argument, \<open>fuel\<close> or \<open>turns\<close>; when it is used up they end with the exception \<open>out_of_fuel\<close>, which
  stands for a run that is still waiting, and the safety theorems hold for every bound.  The
  traversal of \<open>collect\<close> has \<open>Suc MAX_ENTRIES\<close> and never uses it up (\<open>collect_never_out_of_fuel\<close>); \<open>mkstemp\<close> and
  \<open>mkdtemp\<close> try \<open>TMP_MAX\<close> times, as the library does.  All other loops are structural or have a measure.

  \<^bold>\<open>Not modelled.\<close>
  \<^item> The argument parser, \<open>expanduser\<close>, the creation of the session file's parent, texts on the terminal, the
    final \<open>sys.exit\<close> messages: a command is a value with its arguments read.
  \<^item> That a descriptor is closed, except where it releases a lock or a pipe; inode numbers are not used again;
    a symbolic link inside a path is an error; a directory is scanned at one moment; \<open>rmtree\<close> is one call.
  \<^item> A path is the inode of its directory and a name, or the list of its names.  \<open>Path.resolve\<close> and \<open>zipfile\<close> are
    arguments of the definitions that use them, as is the speech model, and the results of \<open>prctl\<close> and of the
    person's answers; the HTTP transport is an arbitrary program.
  \<^item> A float literal keeps its text (no script computes with one but as a comparison with zero); limits of
    recursion and of the digits of an integer; times are whole nanoseconds or milliseconds.
  \<^item> Of asynchronous signals only what the scripts make of them: a request to stop is an input of the steps
    that poll for it, D-Bus signals and timers are dispatched while the event loop runs.
  \<^item> The rest of the repository: the other languages, tests, and scripts that only start other programs.
\<close>

end
